(* ===== verification/Prelude.thy ===== *)
theory Prelude
  imports Main "HOL-Library.Word" "HOL-Library.Char_ord" "HOL-Library.List_Lexorder"
    "HOL-Library.Sublist"
begin

text \<open>
  Shared ground of the development: the result type of fallible Rust code and its combinators, the
  errors, the collections of rules the component proofs run on, the ordered association list that
  stands for \<open>BTreeMap\<close>, and generic lemmas.
\<close>

section \<open>Rule collections\<close>

named_theorems result_simps \<open>when a fallible computation returns \<open>Ok\<close>\<close>
named_theorems io_rules \<open>Hoare rules for the combinators of the IO monad\<close>

section \<open>Errors and results\<close>

text \<open>
  The operating-system error numbers the program tells apart. \<open>NotFound\<close> and \<open>PermissionDenied\<close>
  of \<open>std::io::ErrorKind\<close> are \<open>ENOENT\<close> and \<open>EACCES\<close>.
\<close>

datatype errno = ENOENT | EACCES | EEXIST | ENOTDIR | ESRCH | ENOSYS | EINTR | EIO | ENXIO | EXDEV
  | EINVAL | ENOTTY | EOPNOTSUPP | ELOOP | ECHILD | ETIMEDOUT | ECONNREFUSED | EUNEXPECTEDEOF
  | EOTHER nat

text \<open>
  An \<open>anyhow::Error\<close>: an operating-system error, the message of a \<open>bail!\<close>/\<open>ensure!\<close> (its constant
  words), an error carrying the report of a second one that happened while cleaning up after it, a
  panic, or \<open>Hangs\<close>: a loop has used up the turns the model gives it and does not return. Plain \<open>.context(..)\<close> calls only prefix the printed text and are left out.
\<close>

datatype err = Io errno | Bail string | AlsoFailed err err | Panic string | Hangs

type_synonym 'a result = "err + 'a"

abbreviation Ok :: "'a \<Rightarrow> 'a result" where
  "Ok x \<equiv> Inr x"

abbreviation bail :: "string \<Rightarrow> 'a result" where
  "bail m \<equiv> Inl (Bail m)"

text \<open>The \<open>?\<close> operator.\<close>

definition rbind :: "'a result \<Rightarrow> ('a \<Rightarrow> 'b result) \<Rightarrow> 'b result" where
  "rbind r k = (case r of Inl e \<Rightarrow> Inl e | Inr x \<Rightarrow> k x)"

text \<open>\<open>ensure!(b, m)\<close> followed by the rest of the function.\<close>

definition ensure :: "bool \<Rightarrow> string \<Rightarrow> 'a result \<Rightarrow> 'a result" where
  "ensure b m k = (if b then k else bail m)"

text \<open>\<open>Option::context(m)\<close> followed by \<open>?\<close>.\<close>

definition some_or :: "'a option \<Rightarrow> string \<Rightarrow> ('a \<Rightarrow> 'b result) \<Rightarrow> 'b result" where
  "some_or x m k = (case x of None \<Rightarrow> bail m | Some y \<Rightarrow> k y)"

definition is_ok :: "'a result \<Rightarrow> bool" where
  "is_ok r = (case r of Inl _ \<Rightarrow> False | Inr _ \<Rightarrow> True)"

text \<open>A \<open>for\<close> loop whose body may fail: the first error ends it.\<close>

fun for_each :: "'a list \<Rightarrow> ('a \<Rightarrow> unit result) \<Rightarrow> unit result" where
  "for_each [] f = Ok ()"
| "for_each (x # xs) f = rbind (f x) (\<lambda>_. for_each xs f)"

text \<open>\<open>collect::<Result<Vec<_>>>\<close>.\<close>

fun collect_results :: "'a result list \<Rightarrow> 'a list result" where
  "collect_results [] = Ok []"
| "collect_results (r # rs) = rbind r (\<lambda>x. rbind (collect_results rs) (\<lambda>xs. Ok (x # xs)))"

lemma ensure_cong [cong]:
  "b = b' \<Longrightarrow> (b' \<Longrightarrow> k = k') \<Longrightarrow> ensure b m k = ensure b' m k'"
  by (simp add: ensure_def)

lemma ensure_Inr [simp, result_simps]: "ensure b m k = Inr x \<longleftrightarrow> b \<and> k = Inr x"
  by (simp add: ensure_def)

lemma ensure_True [simp]: "ensure True m k = k" and ensure_False [simp]: "ensure False m k = bail m"
  by (simp_all add: ensure_def)

lemma rbind_Inr [simp]: "rbind (Inr x) k = k x" and rbind_Inl [simp]: "rbind (Inl e) k = Inl e"
  by (simp_all add: rbind_def)

lemma rbind_Ok_right [simp]: "rbind r Inr = r"
  by (cases r) simp_all

lemma rbind_eq_Inr [simp, result_simps]: "rbind r k = Inr y \<longleftrightarrow> (\<exists>x. r = Inr x \<and> k x = Inr y)"
  by (cases r) auto

lemma some_or_simps [simp]: "some_or None m k = bail m" "some_or (Some x) m k = k x"
  by (simp_all add: some_or_def)

lemma some_or_eq_Inr [simp, result_simps]:
  "some_or x m k = Inr y \<longleftrightarrow> (\<exists>z. x = Some z \<and> k z = Inr y)"
  by (cases x) auto

lemma is_ok_simps [simp]: "is_ok (Inr x)" "\<not> is_ok (Inl e)"
  by (simp_all add: is_ok_def)

lemma is_ok_iff: "is_ok r \<longleftrightarrow> (\<exists>x. r = Inr x)"
  by (cases r) auto

lemma is_ok_ensure [simp]: "is_ok (ensure b m k) \<longleftrightarrow> b \<and> is_ok k"
  by (simp add: ensure_def)

lemma is_ok_rbind [simp]: "is_ok (rbind r k) \<longleftrightarrow> (\<exists>x. r = Inr x \<and> is_ok (k x))"
  by (cases r) auto

lemma for_each_Inr [simp, result_simps]:
  "for_each xs f = Inr u \<longleftrightarrow> (\<forall>x \<in> set xs. f x = Inr ())"
  by (induction xs) auto

lemma collect_results_Inr:
  "collect_results rs = Inr xs \<longleftrightarrow> rs = map Inr xs"
  by (induction rs arbitrary: xs) (auto simp: Cons_eq_map_conv)

section \<open>Ordered maps\<close>

text \<open>\<open>BTreeMap\<close>: an association list with strictly increasing keys; iteration is in key order.\<close>

type_synonym ('k, 'v) btree_map = "('k \<times> 'v) list"

fun bt_insert :: "'k::linorder \<Rightarrow> 'v \<Rightarrow> ('k, 'v) btree_map \<Rightarrow> ('k, 'v) btree_map" where
  "bt_insert k v [] = [(k, v)]"
| "bt_insert k v ((a, b) # m) =
     (if k < a then (k, v) # (a, b) # m
      else if k = a then (k, v) # m
      else (a, b) # bt_insert k v m)"

fun bt_remove :: "'k \<Rightarrow> ('k, 'v) btree_map \<Rightarrow> ('k, 'v) btree_map" where
  "bt_remove k [] = []"
| "bt_remove k ((a, b) # m) = (if k = a then m else (a, b) # bt_remove k m)"

abbreviation bt_get :: "('k, 'v) btree_map \<Rightarrow> 'k \<Rightarrow> 'v option" where
  "bt_get m k \<equiv> map_of m k"

definition bt_keys :: "('k, 'v) btree_map \<Rightarrow> 'k list" where
  "bt_keys m = map fst m"

definition bt_values :: "('k, 'v) btree_map \<Rightarrow> 'v list" where
  "bt_values m = map snd m"

definition bt_wf :: "('k::linorder, 'v) btree_map \<Rightarrow> bool" where
  "bt_wf m = sorted_wrt (<) (map fst m)"

lemma bt_wf_Nil [simp]: "bt_wf []"
  by (simp add: bt_wf_def)

lemma bt_wf_Cons [simp]:
  "bt_wf ((a, b) # m) \<longleftrightarrow> (\<forall>k \<in> fst ` set m. a < k) \<and> bt_wf m"
  by (auto simp: bt_wf_def)

lemma bt_wf_distinct: "bt_wf m \<Longrightarrow> distinct (map fst m)"
  by (simp add: bt_wf_def strict_sorted_iff)

lemma bt_get_insert [simp]: "bt_get (bt_insert k v m) = (bt_get m)(k \<mapsto> v)"
  by (induction m) (auto simp: fun_eq_iff)

lemma dom_bt_get: "dom (bt_get m) = fst ` set m"
  by (rule dom_map_of_conv_image_fst)

lemma fst_bt_insert [simp]: "fst ` set (bt_insert k v m) = insert k (fst ` set m)"
  by (simp flip: dom_bt_get del: fun_upd_apply)

lemma set_bt_insert_subset: "set (bt_insert k v m) \<subseteq> insert (k, v) (set m)"
  by (induction m) (auto split: if_splits)

lemma bt_wf_insert [simp, intro]: "bt_wf m \<Longrightarrow> bt_wf (bt_insert k v m)"
proof (induction m)
  case Nil
  then show ?case by simp
next
  case (Cons p m)
  obtain a b where p: "p = (a, b)" by (cases p)
  show ?case
    using Cons by (cases "k < a"; cases "k = a") (auto simp: p intro: order.strict_trans)
qed

lemma set_bt_remove_subset: "set (bt_remove k m) \<subseteq> set m"
  by (induction m) (auto split: if_splits)

lemma bt_wf_remove [simp, intro]: "bt_wf m \<Longrightarrow> bt_wf (bt_remove k m)"
  using set_bt_remove_subset [of k] by (induction m) fastforce+

lemma bt_get_remove [simp]: "bt_wf m \<Longrightarrow> bt_get (bt_remove k m) = (bt_get m)(k := None)"
proof (induction m)
  case Nil
  then show ?case by simp
next
  case (Cons p m)
  obtain a b where p: "p = (a, b)" by (cases p)
  have "bt_get m a = None"
    using Cons.prems by (auto simp: p map_of_eq_None_iff)
  with Cons show ?case
    by (auto simp: p fun_eq_iff)
qed

lemma set_bt_insert_new: "bt_get m k = None \<Longrightarrow> set (bt_insert k v m) = insert (k, v) (set m)"
  by (induction m) (auto split: if_splits)

lemma distinct_bt_insert_new:
  "bt_get m k = None \<Longrightarrow> distinct (map g (bt_insert k v m)) \<longleftrightarrow> distinct (map g m) \<and> g (k, v) \<notin> g ` set m"
proof (induction m)
  case (Cons x m)
  obtain k' v' where x: "x = (k', v')" by (cases x)
  from Cons.prems x have "k \<noteq> k'" "bt_get m k = None" by (auto split: if_splits)
  with Cons.IH x show ?case by (auto simp: set_bt_insert_new)
qed simp

lemma distinct_bt_remove: "distinct (map g m) \<Longrightarrow> distinct (map g (bt_remove k m))"
proof (induction m)
  case (Cons x m)
  then show ?case using set_bt_remove_subset [of k m] by (cases x) (auto split: if_splits)
qed simp

lemma bt_get_in_set: "bt_get m k = Some v \<Longrightarrow> (k, v) \<in> set m"
  by (rule map_of_SomeD)

text \<open>Inserting a list of pairs in its order: for each key the last one wins.\<close>

definition bt_extend ::
    "('k::linorder, 'v) btree_map \<Rightarrow> ('k \<times> 'v) list \<Rightarrow> ('k, 'v) btree_map" where
  "bt_extend m kvs = foldl (\<lambda>m (k, v). bt_insert k v m) m kvs"

lemma bt_extend_simps [simp]:
  "bt_extend m [] = m" "bt_extend m ((k, v) # kvs) = bt_extend (bt_insert k v m) kvs"
  by (simp_all add: bt_extend_def)

lemma bt_get_extend: "bt_get (bt_extend m kvs) = bt_get m ++ map_of (rev kvs)"
  by (induction kvs arbitrary: m) (auto simp: map_add_def fun_eq_iff split: option.splits)

lemma bt_wf_extend: "bt_wf m \<Longrightarrow> bt_wf (bt_extend m kvs)"
  by (induction kvs arbitrary: m) auto

text \<open>Setting a key to an optional value: \<open>None\<close> removes it.\<close>

definition bt_set :: "'k::linorder \<Rightarrow> 'v option \<Rightarrow> ('k, 'v) btree_map \<Rightarrow> ('k, 'v) btree_map" where
  "bt_set k v m = (case v of Some x \<Rightarrow> bt_insert k x m | None \<Rightarrow> bt_remove k m)"

lemma bt_wf_set [simp]: "bt_wf m \<Longrightarrow> bt_wf (bt_set k v m)"
  by (simp add: bt_set_def split: option.split)

lemma bt_get_set [simp]: "bt_wf m \<Longrightarrow> bt_get (bt_set k v m) = (bt_get m)(k := v)"
  by (cases v) (simp_all add: bt_set_def fun_eq_iff)

lemma bt_ext:
  assumes "bt_wf m" and "bt_wf m'" and "bt_get m = bt_get m'"
  shows "m = m'"
proof -
  have s: "sorted (map fst m)" "distinct (map fst m)" "sorted (map fst m')" "distinct (map fst m')"
    using assms(1,2) by (simp_all add: bt_wf_def strict_sorted_iff)
  have "set m = set m'"
    using map_of_inject_set [OF s(2,4)] assms(3) by blast
  moreover from this have "inj_on fst (set m \<union> set m')"
    using s(2) by (simp add: distinct_map)
  ultimately show ?thesis
    using map_sorted_distinct_set_unique s by blast
qed

section \<open>Lists\<close>

lemma takeWhile_append_stop:
  "\<forall>x \<in> set xs. P x \<Longrightarrow> \<not> P y \<Longrightarrow> takeWhile P (xs @ y # ys) = xs"
  by (simp add: takeWhile_append)

lemma dropWhile_append_stop:
  "\<forall>x \<in> set xs. P x \<Longrightarrow> \<not> P y \<Longrightarrow> dropWhile P (xs @ y # ys) = y # ys"
  by (simp add: dropWhile_append)

lemma list_all_take: "list_all P xs \<Longrightarrow> list_all P (take n xs)"
  by (metis append_take_drop_id list_all_append)

section \<open>\<open>usize\<close> arithmetic\<close>

text \<open>\<open>checked_add\<close> and \<open>saturating_add\<close> of a 64-bit \<open>usize\<close>.\<close>

definition checked_add :: "nat \<Rightarrow> nat \<Rightarrow> nat option" where
  "checked_add a b = (if a + b < 2 ^ 64 then Some (a + b) else None)"

definition saturating_add :: "nat \<Rightarrow> nat \<Rightarrow> nat" where
  "saturating_add a b = min (a + b) (2 ^ 64 - 1)"

lemma checked_add_Some [simp]: "checked_add a b = Some c \<longleftrightarrow> c = a + b \<and> a + b < 2 ^ 64"
  by (auto simp: checked_add_def)

section \<open>Words\<close>

lemma unat_less_power: "unat (w :: 'a::len word) < 2 ^ LENGTH('a)"
  by (rule unsigned_less)

lemma unat_u16: "unat (w :: 16 word) < 65536"
  using unat_less_power [of w] by simp

lemma unat_u32: "unat (w :: 32 word) < 4294967296"
  using unat_less_power [of w] by simp

end
