(* ===== verification/RustText.thy ===== *)
theory RustText
  imports Prelude
begin

text \<open>
  Rust's \<open>str\<close>, \<open>String\<close> and byte slices as the code uses them. A string is the list of its UTF-8
  bytes, so \<open>length\<close> is \<open>str::len\<close> and byte-wise comparison is \<open>str\<close>'s order; the operations that
  look at characters decode the bytes first. Every function here is one of the standard library.
\<close>

section \<open>Bytes and ASCII classes\<close>

abbreviation byte :: "char \<Rightarrow> nat" where
  "byte c \<equiv> of_char c"

definition is_ascii_lowercase :: "char \<Rightarrow> bool" where
  "is_ascii_lowercase c = (97 \<le> byte c \<and> byte c \<le> 122)"

definition is_ascii_uppercase :: "char \<Rightarrow> bool" where
  "is_ascii_uppercase c = (65 \<le> byte c \<and> byte c \<le> 90)"

definition is_ascii_digit :: "char \<Rightarrow> bool" where
  "is_ascii_digit c = (48 \<le> byte c \<and> byte c \<le> 57)"

definition is_ascii_alphanumeric :: "char \<Rightarrow> bool" where
  "is_ascii_alphanumeric c = (is_ascii_lowercase c \<or> is_ascii_uppercase c \<or> is_ascii_digit c)"

definition is_ascii_hexdigit :: "char \<Rightarrow> bool" where
  "is_ascii_hexdigit c =
     (is_ascii_digit c \<or> (97 \<le> byte c \<and> byte c \<le> 102) \<or> (65 \<le> byte c \<and> byte c \<le> 70))"

definition is_ascii_whitespace :: "char \<Rightarrow> bool" where
  "is_ascii_whitespace c = (byte c \<in> {9, 10, 12, 13, 32})"

lemmas ascii_class_defs = is_ascii_lowercase_def is_ascii_uppercase_def is_ascii_digit_def
  is_ascii_alphanumeric_def is_ascii_hexdigit_def is_ascii_whitespace_def

section \<open>UTF-8\<close>

text \<open>The continuation bytes, and the decoder with the checks of \<open>std::str::from_utf8\<close>.\<close>

definition is_cont :: "nat \<Rightarrow> bool" where
  "is_cont b = (128 \<le> b \<and> b < 192)"

text \<open>
  The length of a sequence and the bounds of its second byte: no overlong form, no surrogate, nothing
  above \<open>U+10FFFF\<close>.
\<close>

definition utf8_width :: "nat \<Rightarrow> nat" where
  "utf8_width a =
     (if a < 128 then 1 else if 194 \<le> a \<and> a < 224 then 2
      else if 224 \<le> a \<and> a < 240 then 3 else if 240 \<le> a \<and> a < 245 then 4 else 0)"

definition utf8_second_ok :: "nat \<Rightarrow> nat \<Rightarrow> bool" where
  "utf8_second_ok a b =
     (if a = 224 then 160 \<le> b \<and> b < 192
      else if a = 237 then 128 \<le> b \<and> b < 160
      else if a = 240 then 144 \<le> b \<and> b < 192
      else if a = 244 then 128 \<le> b \<and> b < 144
      else is_cont b)"

definition utf8_step :: "nat list \<Rightarrow> (nat \<times> nat list) option" where
  "utf8_step bs =
     (case bs of [] \<Rightarrow> None
      | a # r \<Rightarrow>
        if utf8_width a = 1 then Some (a, r)
        else if utf8_width a = 2 then
          (case r of b # r' \<Rightarrow> if is_cont b then Some ((a - 192) * 64 + (b - 128), r') else None
           | _ \<Rightarrow> None)
        else if utf8_width a = 3 then
          (case r of b # c # r' \<Rightarrow>
             if utf8_second_ok a b \<and> is_cont c
             then Some ((a - 224) * 4096 + (b - 128) * 64 + (c - 128), r') else None
           | _ \<Rightarrow> None)
        else if utf8_width a = 4 then
          (case r of b # c # d # r' \<Rightarrow>
             if utf8_second_ok a b \<and> is_cont c \<and> is_cont d
             then Some ((a - 240) * 262144 + (b - 128) * 4096 + (c - 128) * 64 + (d - 128), r')
             else None
           | _ \<Rightarrow> None)
        else None)"

lemma utf8_step_shorter: "utf8_step bs = Some (c, r) \<Longrightarrow> length r < length bs"
  by (auto simp: utf8_step_def split: list.splits if_splits)

function utf8_decode :: "nat list \<Rightarrow> nat list option" where
  "utf8_decode bs =
     (if bs = [] then Some []
      else case utf8_step bs of None \<Rightarrow> None
           | Some (c, r) \<Rightarrow> map_option ((#) c) (utf8_decode r))"
  by pat_completeness auto
termination
  by (relation "measure length") (auto dest: utf8_step_shorter)

declare utf8_decode.simps [simp del]

definition from_utf8 :: "string \<Rightarrow> nat list option" where
  "from_utf8 s = utf8_decode (map byte s)"

text \<open>\<open>str::chars\<close>: a \<open>&str\<close> is valid UTF-8, so the second case does not arise for it.\<close>

definition str_chars :: "string \<Rightarrow> nat list" where
  "str_chars s = (case from_utf8 s of Some cs \<Rightarrow> cs | None \<Rightarrow> [])"

definition valid_utf8 :: "string \<Rightarrow> bool" where
  "valid_utf8 s = (from_utf8 s \<noteq> None)"

definition is_ascii :: "string \<Rightarrow> bool" where
  "is_ascii s = (\<forall>c \<in> set s. byte c < 128)"

lemma utf8_step_ascii: "a < 128 \<Longrightarrow> utf8_step (a # r) = Some (a, r)"
  by (simp add: utf8_step_def utf8_width_def)

lemma utf8_decode_ascii_Cons:
  "a < 128 \<Longrightarrow> utf8_decode (a # r) = map_option ((#) a) (utf8_decode r)"
  by (subst utf8_decode.simps) (simp add: utf8_step_ascii)

lemma utf8_decode_Nil [simp]: "utf8_decode [] = Some []"
  by (subst utf8_decode.simps) simp

lemma utf8_decode_ascii: "\<forall>b \<in> set bs. b < 128 \<Longrightarrow> utf8_decode bs = Some bs"
  by (induction bs) (simp_all add: utf8_decode_ascii_Cons)

lemma from_utf8_ascii: "is_ascii s \<Longrightarrow> from_utf8 s = Some (map byte s)"
  by (simp add: from_utf8_def is_ascii_def utf8_decode_ascii)

lemma str_chars_ascii: "is_ascii s \<Longrightarrow> str_chars s = map byte s"
  by (simp add: str_chars_def from_utf8_ascii)

lemma from_utf8_ascii_append:
  "is_ascii a \<Longrightarrow> from_utf8 (a @ s) = map_option ((@) (map byte a)) (from_utf8 s)"
  unfolding from_utf8_def is_ascii_def
  by (induction a; cases "utf8_decode (map byte s)") (simp_all add: utf8_decode_ascii_Cons)

lemma valid_utf8_ascii: "is_ascii s \<Longrightarrow> valid_utf8 s"
  by (simp add: valid_utf8_def from_utf8_ascii)

text \<open>An ASCII character of the string is a byte of it, and the other way round.\<close>

lemma utf8_second_ok_ge:
  "utf8_second_ok a b \<Longrightarrow> 128 \<le> b" "utf8_second_ok 224 b \<Longrightarrow> 160 \<le> b"
  "utf8_second_ok 240 b \<Longrightarrow> 144 \<le> b"
  by (auto simp: utf8_second_ok_def is_cont_def split: if_splits)

lemma utf8_width_bounds:
  "utf8_width a = Suc 0 \<longleftrightarrow> a < 128" "utf8_width a = 2 \<Longrightarrow> 194 \<le> a"
  "utf8_width a = 3 \<Longrightarrow> 224 \<le> a" "utf8_width a = 4 \<Longrightarrow> 240 \<le> a"
  by (auto simp: utf8_width_def split: if_splits)

text \<open>A step is over one ASCII byte, or over bytes and to a character that are not ASCII.\<close>

lemma utf8_step_cases:
  assumes "utf8_step bs = Some (c, r)"
  shows "(c < 128 \<and> bs = c # r) \<or> (128 \<le> c \<and> (\<exists>u. bs = u @ r \<and> (\<forall>x \<in> set u. 128 \<le> x)))"
proof -
  obtain a q where bs: "bs = a # q"
    using assms by (cases bs) (auto simp: utf8_step_def)
  consider "utf8_width a = 1" | "utf8_width a = 2" | "utf8_width a = 3" | "utf8_width a = 4"
    using assms by (fastforce simp: utf8_step_def bs)
  then show ?thesis
  proof cases
    case 1
    with assms show ?thesis by (auto simp: utf8_step_def bs utf8_width_bounds(1))
  next
    case 2
    with assms obtain b where b: "q = b # r" "is_cont b" "c = (a - 192) * 64 + (b - 128)"
      by (auto simp: utf8_step_def bs split: list.splits if_splits)
    moreover have "194 \<le> a" using 2 by (rule utf8_width_bounds)
    moreover from this have "128 \<le> (a - 192) * 64" by simp
    ultimately show ?thesis
      by (intro disjI2 conjI exI [of _ "[a, b]"]) (auto simp: bs is_cont_def)
  next
    case 3
    with assms obtain b d where b: "q = b # d # r" "utf8_second_ok a b" "is_cont d"
        "c = (a - 224) * 4096 + (b - 128) * 64 + (d - 128)"
      by (auto simp: utf8_step_def bs split: list.splits if_splits)
    have a: "224 \<le> a" using 3 by (rule utf8_width_bounds)
    have "2 \<le> (a - 224) * 64 + (b - 128)"
      using a b(2) utf8_second_ok_ge(2) [of b] by (cases "a = 224") auto
    then have "128 \<le> c" unfolding b(4) by linarith
    with a b utf8_second_ok_ge(1) [OF b(2)] show ?thesis
      by (intro disjI2 conjI exI [of _ "[a, b, d]"]) (auto simp: bs is_cont_def)
  next
    case 4
    with assms obtain b d e where b: "q = b # d # e # r" "utf8_second_ok a b" "is_cont d" "is_cont e"
        "c = (a - 240) * 262144 + (b - 128) * 4096 + (d - 128) * 64 + (e - 128)"
      by (auto simp: utf8_step_def bs split: list.splits if_splits)
    have a: "240 \<le> a" using 4 by (rule utf8_width_bounds)
    have "1 \<le> (a - 240) * 64 + (b - 128)"
      using a b(2) utf8_second_ok_ge(3) [of b] by (cases "a = 240") auto
    then have "128 \<le> c" unfolding b(5) by linarith
    with a b utf8_second_ok_ge(1) [OF b(2)] show ?thesis
      by (intro disjI2 conjI exI [of _ "[a, b, d, e]"]) (auto simp: bs is_cont_def)
  qed
qed

lemma utf8_step_ascii_mem:
  assumes "utf8_step bs = Some (c, r)" and "n < 128"
  shows "n \<in> set bs \<longleftrightarrow> n = c \<or> n \<in> set r"
  using utf8_step_cases [OF assms(1)] assms(2) by fastforce

lemma utf8_decode_ascii_mem:
  "utf8_decode bs = Some cs \<Longrightarrow> n < 128 \<Longrightarrow> n \<in> set cs \<longleftrightarrow> n \<in> set bs"
proof (induction bs arbitrary: cs rule: utf8_decode.induct)
  case (1 bs)
  show ?case
  proof (cases "bs = []")
    case True
    with "1.prems" show ?thesis by simp
  next
    case False
    with "1.prems"(1) obtain c r cs' where step: "utf8_step bs = Some (c, r)"
      and rest: "utf8_decode r = Some cs'" and cs: "cs = c # cs'"
      by (subst (asm) utf8_decode.simps) (auto split: option.splits)
    from "1.IH" [OF False step refl rest "1.prems"(2)] show ?thesis
      using utf8_step_ascii_mem [OF step "1.prems"(2)] by (auto simp: cs)
  qed
qed

text \<open>Unicode's \<open>White_Space\<close> property and the control characters (category \<open>Cc\<close>).\<close>

definition is_whitespace :: "nat \<Rightarrow> bool" where
  "is_whitespace c =
     ((9 \<le> c \<and> c \<le> 13) \<or> c = 32 \<or> c = 133 \<or> c = 160 \<or> c = 5760 \<or> (8192 \<le> c \<and> c \<le> 8202)
      \<or> c = 8232 \<or> c = 8233 \<or> c = 8239 \<or> c = 8287 \<or> c = 12288)"

definition is_control :: "nat \<Rightarrow> bool" where
  "is_control c = (c < 32 \<or> (127 \<le> c \<and> c < 160))"

lemma ascii_no_whitespace:
  assumes "is_ascii s" and "list_all (\<lambda>c. byte c > 32) s"
  shows "\<not> list_ex is_whitespace (str_chars s)"
  using assms by (auto simp: str_chars_ascii list_all_iff list_ex_iff is_whitespace_def is_ascii_def)

lemma ascii_no_control:
  assumes "is_ascii s" and "list_all (\<lambda>c. byte c \<ge> 32 \<and> byte c \<noteq> 127) s"
  shows "\<not> list_ex is_control (str_chars s)"
  using assms by (fastforce simp: str_chars_ascii list_all_iff list_ex_iff is_control_def is_ascii_def)

section \<open>Searching, splitting and trimming\<close>

abbreviation starts_with :: "string \<Rightarrow> string \<Rightarrow> bool" where
  "starts_with p s \<equiv> prefix p s"

definition ends_with :: "string \<Rightarrow> string \<Rightarrow> bool" where
  "ends_with p s = prefix (rev p) (rev s)"

definition strip_prefix :: "string \<Rightarrow> string \<Rightarrow> string option" where
  "strip_prefix p s = (if prefix p s then Some (drop (length p) s) else None)"

definition strip_suffix :: "string \<Rightarrow> string \<Rightarrow> string option" where
  "strip_suffix p s = (if ends_with p s then Some (take (length s - length p) s) else None)"

fun str_contains :: "string \<Rightarrow> string \<Rightarrow> bool" where
  "str_contains p [] = (p = [])"
| "str_contains p (c # s) = (prefix p (c # s) \<or> str_contains p s)"

text \<open>\<open>str::split\<close> on a set of ASCII characters: \<open>n\<close> separators give \<open>n + 1\<close> pieces.\<close>

fun split_on :: "(char \<Rightarrow> bool) \<Rightarrow> string \<Rightarrow> string list" where
  "split_on p [] = [[]]"
| "split_on p (c # s) =
     (if p c then [] # split_on p s
      else case split_on p s of [] \<Rightarrow> [[c]] | x # xs \<Rightarrow> (c # x) # xs)"

fun join_with :: "string \<Rightarrow> string list \<Rightarrow> string" where
  "join_with sep [] = []"
| "join_with sep [x] = x"
| "join_with sep (x # y # xs) = x @ sep @ join_with sep (y # xs)"

text \<open>\<open>str::split_once\<close> on a character and on a string.\<close>

fun split_once :: "char \<Rightarrow> string \<Rightarrow> (string \<times> string) option" where
  "split_once p [] = None"
| "split_once p (c # s) =
     (if c = p then Some ([], s) else map_option (\<lambda>(a, b). (c # a, b)) (split_once p s))"

fun split_once_str :: "string \<Rightarrow> string \<Rightarrow> (string \<times> string) option" where
  "split_once_str p [] = (if p = [] then Some ([], []) else None)"
| "split_once_str p (c # s) =
     (if prefix p (c # s) then Some ([], drop (length p) (c # s))
      else map_option (\<lambda>(a, b). (c # a, b)) (split_once_str p s))"

definition trim_end_matches :: "(char \<Rightarrow> bool) \<Rightarrow> string \<Rightarrow> string" where
  "trim_end_matches p s = rev (dropWhile p (rev s))"

text \<open>\<open>str::trim_end_matches\<close> on a string: the suffix is removed as often as it is there.\<close>

function trim_end_str :: "string \<Rightarrow> string \<Rightarrow> string" where
  "trim_end_str p s =
     (if p \<noteq> [] \<and> ends_with p s then trim_end_str p (take (length s - length p) s) else s)"
  by pat_completeness auto
termination
proof (relation "measure (\<lambda>(p, s). length s)")
  fix p s :: string
  assume a: "p \<noteq> [] \<and> ends_with p s"
  then have "length p \<le> length s"
    unfolding ends_with_def using prefix_length_le by fastforce
  with a show "((p, take (length s - length p) s), p, s) \<in> measure (\<lambda>(p, s). length s)"
    by (cases p) auto
qed simp

declare trim_end_str.simps [simp del]

text \<open>\<open>str::rsplit(..).next()\<close>: the last piece.\<close>

definition last_piece :: "(char \<Rightarrow> bool) \<Rightarrow> string \<Rightarrow> string" where
  "last_piece p s = last (split_on p s)"

text \<open>\<open>str::rfind\<close> of a character, as the pair of what precedes it and what follows it.\<close>

definition rsplit_at :: "char \<Rightarrow> string \<Rightarrow> (string \<times> string) option" where
  "rsplit_at p s = (if p \<in> set s
     then Some (rev (tl (dropWhile (\<lambda>c. c \<noteq> p) (rev s))), rev (takeWhile (\<lambda>c. c \<noteq> p) (rev s)))
     else None)"

text \<open>\<open>str::split_ascii_whitespace\<close>: the non-empty pieces.\<close>

definition split_ascii_whitespace :: "string \<Rightarrow> string list" where
  "split_ascii_whitespace s = filter (\<lambda>x. x \<noteq> []) (split_on is_ascii_whitespace s)"

text \<open>\<open>str::lines\<close>: a final newline ends the last line, one carriage return before it goes too.\<close>

definition strip_cr :: "string \<Rightarrow> string" where
  "strip_cr s = (if s \<noteq> [] \<and> last s = CHR 0x0D then butlast s else s)"

definition str_lines :: "string \<Rightarrow> string list" where
  "str_lines s =
     (let ps = split_on (\<lambda>c. c = CHR 0x0A) s
      in map strip_cr (butlast ps) @ (if last ps = [] then [] else [last ps]))"

section \<open>Character boundaries and characters\<close>

definition is_char_boundary :: "string \<Rightarrow> nat \<Rightarrow> bool" where
  "is_char_boundary s n =
     (n = 0 \<or> n = length s \<or> (n < length s \<and> \<not> is_cont (byte (s ! n))))"

text \<open>\<open>s.get(..n)\<close>.\<close>

definition str_get_to :: "nat \<Rightarrow> string \<Rightarrow> string option" where
  "str_get_to n s = (if n \<le> length s \<and> is_char_boundary s n then Some (take n s) else None)"

text \<open>The UTF-8 encoding of a character.\<close>

definition utf8_encode :: "nat \<Rightarrow> string" where
  "utf8_encode c = map char_of
     (if c < 128 then [c]
      else if c < 2048 then [192 + c div 64, 128 + c mod 64]
      else if c < 65536 then [224 + c div 4096, 128 + c div 64 mod 64, 128 + c mod 64]
      else [240 + c div 262144, 128 + c div 4096 mod 64, 128 + c div 64 mod 64, 128 + c mod 64])"

definition of_chars :: "nat list \<Rightarrow> string" where
  "of_chars cs = concat (map utf8_encode cs)"

text \<open>\<open>str::trim\<close>, \<open>str::trim_end\<close> and \<open>str::split_whitespace\<close>, on Unicode white space.\<close>

definition str_trim_end :: "string \<Rightarrow> string" where
  "str_trim_end s = of_chars (rev (dropWhile is_whitespace (rev (str_chars s))))"

definition str_trim :: "string \<Rightarrow> string" where
  "str_trim s =
     of_chars (rev (dropWhile is_whitespace (rev (dropWhile is_whitespace (str_chars s)))))"

fun split_chars :: "(nat \<Rightarrow> bool) \<Rightarrow> nat list \<Rightarrow> nat list list" where
  "split_chars p [] = [[]]"
| "split_chars p (c # s) =
     (if p c then [] # split_chars p s
      else case split_chars p s of [] \<Rightarrow> [[c]] | x # xs \<Rightarrow> (c # x) # xs)"

definition split_whitespace :: "string \<Rightarrow> string list" where
  "split_whitespace s =
     map of_chars (filter (\<lambda>x. x \<noteq> []) (split_chars is_whitespace (str_chars s)))"

section \<open>Numbers as text\<close>

definition digit_char :: "nat \<Rightarrow> char" where
  "digit_char d = char_of (if d < 10 then 48 + d else 87 + d)"

text \<open>\<open>format!("{n}")\<close>.\<close>

fun decimal :: "nat \<Rightarrow> string" where
  "decimal n = (if n < 10 then [digit_char n] else decimal (n div 10) @ [digit_char (n mod 10)])"

declare decimal.simps [simp del]

text \<open>\<open>format!("{b:02x}")\<close> of a byte.\<close>

definition hex2 :: "nat \<Rightarrow> string" where
  "hex2 b = [digit_char (b div 16), digit_char (b mod 16)]"

definition digit_val :: "nat \<Rightarrow> char \<Rightarrow> nat option" where
  "digit_val radix c =
     (let v = (if is_ascii_digit c then byte c - 48
               else if is_ascii_lowercase c then byte c - 87
               else if is_ascii_uppercase c then byte c - 55
               else radix)
      in if v < radix then Some v else None)"

fun digits_val :: "nat \<Rightarrow> nat \<Rightarrow> string \<Rightarrow> nat option" where
  "digits_val radix acc [] = Some acc"
| "digits_val radix acc (c # s) =
     (case digit_val radix c of None \<Rightarrow> None | Some d \<Rightarrow> digits_val radix (acc * radix + d) s)"

text \<open>
  \<open>from_str_radix\<close> of an unsigned type below \<open>bound\<close>, and \<open>str::parse\<close> which is its radix 10: one
  leading \<open>+\<close> is allowed, at least one digit is needed, overflow is an error.
\<close>

definition from_str_radix :: "nat \<Rightarrow> nat \<Rightarrow> string \<Rightarrow> nat option" where
  "from_str_radix bound radix s =
     (let ds = (case s of c # r \<Rightarrow> if c = CHR ''+'' then r else s | [] \<Rightarrow> s)
      in if ds = [] then None
         else case digits_val radix 0 ds of
                None \<Rightarrow> None
              | Some n \<Rightarrow> if n < bound then Some n else None)"

abbreviation parse_u64 :: "string \<Rightarrow> nat option" where
  "parse_u64 \<equiv> from_str_radix (2 ^ 64) 10"

text \<open>\<open>to_be_bytes\<close> and \<open>from_be_bytes\<close> of a \<open>k\<close>-byte integer.\<close>

fun be_bytes :: "nat \<Rightarrow> nat \<Rightarrow> string" where
  "be_bytes 0 n = []"
| "be_bytes (Suc k) n = be_bytes k (n div 256) @ [char_of (n mod 256)]"

definition be_value :: "string \<Rightarrow> nat" where
  "be_value s = foldl (\<lambda>a c. a * 256 + byte c) 0 s"

section \<open>Facts about splitting and trimming\<close>

lemma split_on_not_Nil [simp]: "split_on p s \<noteq> []"
  by (induction s) (auto split: list.splits)

lemma split_on_pieces: "x \<in> set (split_on p s) \<Longrightarrow> c \<in> set x \<Longrightarrow> \<not> p c"
proof (induction s arbitrary: x)
  case Nil
  then show ?case by simp
next
  case (Cons d s)
  show ?case
  proof (cases "p d")
    case True
    with Cons show ?thesis by auto
  next
    case False
    obtain y ys where ys: "split_on p s = y # ys"
      using split_on_not_Nil [of p s] by (cases "split_on p s") auto
    with Cons False show ?thesis by fastforce
  qed
qed

lemma split_on_subset: "x \<in> set (split_on p s) \<Longrightarrow> set x \<subseteq> set s"
proof (induction s arbitrary: x)
  case Nil
  then show ?case by simp
next
  case (Cons d s)
  obtain y ys where ys: "split_on p s = y # ys"
    using split_on_not_Nil [of p s] by (cases "split_on p s") auto
  with Cons show ?case by (fastforce split: if_splits)
qed

lemma split_on_none: "\<forall>c \<in> set s. \<not> p c \<Longrightarrow> split_on p s = [s]"
  by (induction s) auto

lemma split_on_append:
  "\<forall>c \<in> set a. \<not> p c \<Longrightarrow> p d \<Longrightarrow> split_on p (a @ d # s) = a # split_on p s"
  by (induction a) auto

lemma hd_split_on: "hd (split_on p s) = takeWhile (\<lambda>c. \<not> p c) s"
  by (induction s) (auto split: list.splits)

lemma hd_split_on_none: "p c \<Longrightarrow> c \<notin> set (hd (split_on p s))"
  by (auto simp: hd_split_on dest: set_takeWhileD)

lemma prefix_hd_split_on: "prefix (hd (split_on p s)) s"
  by (simp add: hd_split_on takeWhile_is_prefix)

lemma join_split_on: "join_with [d] (split_on (\<lambda>c. c = d) s) = s"
proof (induction s)
  case Nil
  then show ?case by simp
next
  case (Cons c s)
  obtain y ys where ys: "split_on (\<lambda>c. c = d) s = y # ys"
    using split_on_not_Nil [of "\<lambda>c. c = d" s] by (cases "split_on (\<lambda>c. c = d) s") auto
  with Cons show ?case
    by (cases ys) auto
qed

lemma split_on_join:
  assumes "xs \<noteq> []" and "\<forall>x \<in> set xs. d \<notin> set x"
  shows "split_on (\<lambda>c. c = d) (join_with [d] xs) = xs"
  using assms
proof (induction xs)
  case Nil
  then show ?case by simp
next
  case (Cons x xs)
  show ?case
  proof (cases xs)
    case Nil
    with Cons.prems have "\<forall>c \<in> set x. c \<noteq> d" by auto
    with Nil show ?thesis by (simp add: split_on_none)
  next
    case (Cons y ys)
    with Cons.prems Cons.IH show ?thesis
      using split_on_append [of x "\<lambda>c. c = d" d "join_with [d] xs"] by auto
  qed
qed

lemma split_once_Some:
  "split_once c s = Some (a, b) \<longleftrightarrow> s = a @ c # b \<and> c \<notin> set a"
proof (induction s arbitrary: a)
  case Nil
  then show ?case by simp
next
  case (Cons d s)
  show ?case
  proof (cases a)
    case Nil
    then show ?thesis by (auto split: prod.splits)
  next
    case (Cons x xs)
    with Cons.IH [of xs] show ?thesis by (cases "d = c") (auto split: prod.splits)
  qed
qed

lemma split_once_None: "split_once c s = None \<longleftrightarrow> c \<notin> set s"
  by (induction s) auto

lemma set_trim_end_matches: "set (trim_end_matches p s) \<subseteq> set s"
  unfolding trim_end_matches_def by (auto dest: set_dropWhileD)

lemma trim_end_matches_prefix: "prefix (trim_end_matches p s) s"
proof -
  have "suffix (dropWhile p (rev s)) (rev s)"
    by (rule suffix_dropWhile)
  then show ?thesis
    by (simp add: trim_end_matches_def suffix_to_prefix)
qed

lemma last_trim_end_matches:
  "trim_end_matches p s \<noteq> [] \<Longrightarrow> \<not> p (last (trim_end_matches p s))"
  by (simp add: trim_end_matches_def last_rev hd_dropWhile)

lemma trim_end_matches_id: "s = [] \<or> \<not> p (last s) \<Longrightarrow> trim_end_matches p s = s"
  by (cases s rule: rev_cases) (auto simp: trim_end_matches_def)

lemma trim_end_matches_snoc: "p c \<Longrightarrow> trim_end_matches p (s @ [c]) = trim_end_matches p s"
  by (simp add: trim_end_matches_def)

lemma rsplit_at_Some:
  assumes "rsplit_at c s = Some (a, b)"
  shows "s = a @ c # b \<and> c \<notin> set b"
proof -
  let ?r = "rev s"
  from assms have mem: "c \<in> set ?r"
    and a: "a = rev (tl (dropWhile (\<lambda>x. x \<noteq> c) ?r))" and b: "b = rev (takeWhile (\<lambda>x. x \<noteq> c) ?r)"
    by (auto simp: rsplit_at_def split: if_splits)
  then obtain u v where r: "?r = u @ c # v" and u: "c \<notin> set u"
    using split_list_first [OF mem] by auto
  have stop: "\<forall>x \<in> set u. x \<noteq> c" using u by auto
  have "a = rev v" and "b = rev u"
    using takeWhile_append_stop [OF stop, of c v] dropWhile_append_stop [OF stop, of c v] r a b
    by simp_all
  moreover have "s = rev v @ c # rev u"
    using r by (metis append.assoc append_Cons append_Nil rev.simps(2) rev_append rev_rev_ident)
  ultimately show ?thesis using u by simp
qed

lemma rsplit_at_append: "c \<notin> set b \<Longrightarrow> rsplit_at c (a @ c # b) = Some (a, b)"
  by (auto simp: rsplit_at_def takeWhile_append dropWhile_append)

lemma rsplit_at_None: "rsplit_at c s = None \<longleftrightarrow> c \<notin> set s"
  by (simp add: rsplit_at_def)

section \<open>Facts about numbers as text\<close>

lemma byte_digit_char:
  "d < 16 \<Longrightarrow> byte (digit_char d) = (if d < 10 then 48 + d else 87 + d)"
  by (simp add: digit_char_def)

lemma digit_char_digit [simp]: "d < 10 \<Longrightarrow> is_ascii_digit (digit_char d)"
  by (simp add: is_ascii_digit_def byte_digit_char)

lemma digit_val_digit_char [simp]: "d < r \<Longrightarrow> r \<le> 16 \<Longrightarrow> digit_val r (digit_char d) = Some d"
  by (auto simp: digit_val_def byte_digit_char ascii_class_defs)

lemma decimal_not_Nil [simp]: "decimal n \<noteq> []"
  by (subst decimal.simps) simp

lemma decimal_digits: "c \<in> set (decimal n) \<Longrightarrow> is_ascii_digit c"
proof (induction n rule: decimal.induct)
  case (1 n)
  then show ?case
    by (subst (asm) decimal.simps) (auto split: if_splits)
qed

lemma digits_val_append:
  "digits_val r acc (s @ t) =
     (case digits_val r acc s of None \<Rightarrow> None | Some v \<Rightarrow> digits_val r v t)"
  by (induction s arbitrary: acc) (auto split: option.splits)

lemma digits_val_decimal: "digits_val 10 0 (decimal n) = Some n"
proof (induction n rule: decimal.induct)
  case (1 n)
  then show ?case
    by (subst decimal.simps) (auto simp: digits_val_append)
qed

lemma decimal_inj: "decimal m = decimal n \<longleftrightarrow> m = n"
  by (metis digits_val_decimal option.inject)

lemma hd_decimal: "is_ascii_digit (hd (decimal n))"
  by (rule decimal_digits [of _ n]) simp

lemma parse_decimal: "n < bound \<Longrightarrow> from_str_radix bound 10 (decimal n) = Some n"
proof -
  assume n: "n < bound"
  obtain c r where cr: "decimal n = c # r"
    by (cases "decimal n") auto
  have "is_ascii_digit c"
    using hd_decimal [of n] by (simp add: cr)
  then have "c \<noteq> CHR ''+''"
    by (auto simp: is_ascii_digit_def)
  with n show ?thesis
    using digits_val_decimal [of n] by (simp add: from_str_radix_def cr)
qed

lemma length_decimal: "n < 10 ^ k \<Longrightarrow> 0 < k \<Longrightarrow> length (decimal n) \<le> k"
proof (induction k arbitrary: n)
  case 0
  then show ?case by simp
next
  case (Suc k)
  show ?case
  proof (cases "n < 10")
    case True
    then show ?thesis by (subst decimal.simps) simp
  next
    case False
    have "n div 10 < 10 ^ k"
      using Suc.prems(1) by (simp add: less_mult_imp_div_less mult.commute)
    moreover from this False have "0 < k" by (cases k) auto
    ultimately have "length (decimal (n div 10)) \<le> k" by (rule Suc.IH)
    with False show ?thesis by (subst decimal.simps) simp
  qed
qed

lemma length_be_bytes [simp]: "length (be_bytes k n) = k"
  by (induction k arbitrary: n) auto

lemma be_value_snoc: "be_value (s @ [c]) = be_value s * 256 + byte c"
  by (simp add: be_value_def)

lemma be_value_Nil [simp]: "be_value [] = 0"
  by (simp add: be_value_def)

lemma be_value_be_bytes: "n < 256 ^ k \<Longrightarrow> be_value (be_bytes k n) = n"
proof (induction k arbitrary: n)
  case 0
  then show ?case by simp
next
  case (Suc k)
  have "n div 256 < 256 ^ k"
    using Suc.prems by (simp add: less_mult_imp_div_less mult.commute)
  from Suc.IH [OF this] show ?case
    by (simp add: be_value_snoc)
qed

lemma be_value_bound: "be_value s < 256 ^ length s"
proof (induction s rule: rev_induct)
  case Nil
  then show ?case by simp
next
  case (snoc c s)
  define x where "x = byte c"
  define y where "y = (256 :: nat) ^ length s"
  have "x < 256" and "be_value s < y"
    using snoc by (simp_all add: x_def y_def)
  then have "be_value s * 256 + x < 256 * y" by linarith
  then show ?case by (simp add: be_value_snoc x_def y_def)
qed

lemma be_bytes_be_value: "be_bytes (length s) (be_value s) = s"
proof (induction s rule: rev_induct)
  case Nil
  then show ?case by simp
next
  case (snoc c s)
  have "byte c < 256" by simp
  with snoc show ?case
    by (simp add: be_value_snoc)
qed

subsection \<open>The length of a decoded and encoded text\<close>

lemma utf8_step_length:
  assumes "utf8_step bs = Some (c, r)"
  shows "length bs = length (utf8_encode c) + length r"
proof -
  obtain a x where bs: "bs = a # x" using assms by (cases bs) (auto simp: utf8_step_def)
  have c1: "utf8_width a = 1 \<Longrightarrow> a < 128" and c2: "utf8_width a = 2 \<Longrightarrow> 194 \<le> a \<and> a < 224"
    and c3: "utf8_width a = 3 \<Longrightarrow> 224 \<le> a \<and> a < 240" and c4: "utf8_width a = 4 \<Longrightarrow> 240 \<le> a \<and> a < 245"
    by (auto simp: utf8_width_def split: if_splits)
  have l2: "length (utf8_encode n) = 2" if "128 \<le> n" "n < 2048" for n
    using that by (simp add: utf8_encode_def)
  have l3: "length (utf8_encode n) = 3" if "2048 \<le> n" "n < 65536" for n
    using that by (simp add: utf8_encode_def)
  have l4: "length (utf8_encode n) = 4" if "65536 \<le> n" for n
    using that by (simp add: utf8_encode_def)
  consider "utf8_width a = 1" | "utf8_width a = 2" | "utf8_width a = 3" | "utf8_width a = 4"
    using assms by (auto simp: bs utf8_step_def split: if_splits)
  then show ?thesis
  proof cases
    case 1
    then show ?thesis using assms c1 by (auto simp: bs utf8_step_def utf8_encode_def)
  next
    case 2
    then obtain b where x: "x = b # r" "is_cont b" "c = (a - 192) * 64 + (b - 128)"
      using assms by (auto simp: bs utf8_step_def split: list.splits if_splits)
    have "128 \<le> c" "c < 2048" using c2 [OF 2] x(2,3) by (auto simp: is_cont_def)
    then show ?thesis using bs x(1) l2 by simp
  next
    case 3
    then obtain b d where x: "x = b # d # r" "utf8_second_ok a b" "is_cont d"
        "c = (a - 224) * 4096 + (b - 128) * 64 + (d - 128)"
      using assms by (auto simp: bs utf8_step_def split: list.splits if_splits)
    have "b < 192" "a = 224 \<Longrightarrow> 160 \<le> b"
      using x(2) by (auto simp: utf8_second_ok_def is_cont_def split: if_splits)
    moreover have "d < 192" using x(3) by (simp add: is_cont_def)
    ultimately have "2048 \<le> c" "c < 65536" using c3 [OF 3] x(4) by (cases "a = 224"; auto)+
    then show ?thesis using bs x(1) l3 by simp
  next
    case 4
    then obtain b d e where x: "x = b # d # e # r" "utf8_second_ok a b"
        "c = (a - 240) * 262144 + (b - 128) * 4096 + (d - 128) * 64 + (e - 128)"
      using assms by (auto simp: bs utf8_step_def split: list.splits if_splits)
    have "a = 240 \<Longrightarrow> 144 \<le> b"
      using x(2) by (auto simp: utf8_second_ok_def is_cont_def split: if_splits)
    then have "65536 \<le> c" using c4 [OF 4] x(3) by (cases "a = 240") auto
    then show ?thesis using bs x(1) l4 by simp
  qed
qed

lemma length_of_chars: "length (of_chars cs) = sum_list (map (length \<circ> utf8_encode) cs)"
  by (induction cs) (simp_all add: of_chars_def)

lemma utf8_decode_length: "utf8_decode bs = Some cs \<Longrightarrow> length bs = length (of_chars cs)"
proof (induction bs arbitrary: cs rule: utf8_decode.induct)
  case (1 bs)
  show ?case
  proof (cases "bs = []")
    case True
    with 1(2) show ?thesis by (simp add: of_chars_def)
  next
    case False
    with 1(2) obtain c r ds where s: "utf8_step bs = Some (c, r)" "utf8_decode r = Some ds" "cs = c # ds"
      by (subst (asm) utf8_decode.simps) (auto split: option.splits)
    from 1(1) [OF False s(1) refl s(2)] utf8_step_length [OF s(1)] s(3)
    show ?thesis by (simp add: length_of_chars)
  qed
qed

lemma length_of_chars_suffix: "suffix ds cs \<Longrightarrow> length (of_chars ds) \<le> length (of_chars cs)"
  by (auto simp: suffix_def length_of_chars)

lemma length_str_trim: "length (str_trim v) \<le> length v"
proof (cases "utf8_decode (map byte v)")
  case None
  then show ?thesis by (simp add: str_trim_def str_chars_def from_utf8_def of_chars_def)
next
  case (Some cs)
  let ?l = "dropWhile is_whitespace cs"
  have "length (of_chars (rev (dropWhile is_whitespace (rev ?l)))) \<le> length (of_chars ?l)"
  proof -
    have "rev ?l = takeWhile is_whitespace (rev ?l) @ dropWhile is_whitespace (rev ?l)" by simp
    then have "?l = rev (dropWhile is_whitespace (rev ?l)) @ rev (takeWhile is_whitespace (rev ?l))"
      by (metis rev_append rev_rev_ident)
    then have "of_chars ?l = of_chars (rev (dropWhile is_whitespace (rev ?l)))
        @ of_chars (rev (takeWhile is_whitespace (rev ?l)))"
      by (metis of_chars_def concat_append map_append)
    then show ?thesis by (metis length_append le_add1)
  qed
  also have "\<dots> \<le> length (of_chars cs)"
    by (rule length_of_chars_suffix) (simp add: suffix_dropWhile)
  also have "\<dots> = length v"
    using utf8_decode_length [OF Some] by simp
  finally show ?thesis using Some by (simp add: str_trim_def str_chars_def from_utf8_def)
qed

end
