(* ===== verification/Records.thy ===== *)
theory Records
  imports RustText
begin

text \<open>
  The persistent records of \<open>crates/spawnr/src/state.rs\<close>: what the host remembers of a machine, the
  whole state file, and the marker that ties a machine's directory to its record. A \<open>Uuid\<close> is its
  128 bits, an \<open>OffsetDateTime\<close> its nanoseconds since the epoch.
\<close>

type_synonym uuid = "128 word"
type_synonym timestamp = int

definition SCHEMA_VERSION :: nat where "SCHEMA_VERSION = 1"

record environment_record =
  e_reference :: string
  e_manifest_digest :: "string option"
  e_base_cache_key :: "string option"

record machine_record =
  m_id :: uuid
  m_name :: string
  m_environment :: environment_record
  m_repository :: "string option"
  m_repository_dir :: "string option"
  m_workspace_id :: uuid
  m_created_at :: timestamp
  m_vsock_cid :: "32 word"
  m_mac_address :: string

record app_state =
  schema_version :: nat
  machines :: "(string, machine_record) btree_map"

definition default_state :: app_state where
  "default_state = \<lparr>schema_version = SCHEMA_VERSION, machines = []\<rparr>"

record ownership_marker =
  marker_owner :: string
  marker_machine_id :: uuid
  marker_machine_name :: string

text \<open>\<open>Uuid::as_bytes\<close> (most significant first) and its hyphenated lower-case text.\<close>

definition uuid_bytes :: "uuid \<Rightarrow> nat list" where
  "uuid_bytes u = map (\<lambda>i. unat u div 256 ^ (15 - i) mod 256) [0..<16]"

definition uuid_text :: "uuid \<Rightarrow> string" where
  "uuid_text u =
     (let h = concat (map hex2 (uuid_bytes u))
      in take 8 h @ ''-'' @ take 4 (drop 8 h) @ ''-'' @ take 4 (drop 12 h) @ ''-''
         @ take 4 (drop 16 h) @ ''-'' @ drop 20 h)"

text \<open>The invariant of the map of machines: every record sits under its own name.\<close>

definition state_wf :: "app_state \<Rightarrow> bool" where
  "state_wf s = (bt_wf (machines s) \<and> (\<forall>(k, r) \<in> set (machines s). m_name r = k))"

lemma state_wf_default [simp]: "state_wf default_state"
  by (simp add: state_wf_def default_state_def)

lemma state_wf_insert:
  "state_wf s \<Longrightarrow> state_wf (s\<lparr>machines := bt_insert (m_name r) r (machines s)\<rparr>)"
  using set_bt_insert_subset [of "m_name r" r "machines s"] by (fastforce simp: state_wf_def)

lemma state_wf_remove: "state_wf s \<Longrightarrow> state_wf (s\<lparr>machines := bt_remove k (machines s)\<rparr>)"
  using set_bt_remove_subset [of k "machines s"] by (fastforce simp: state_wf_def)

lemma length_uuid_bytes [simp]: "length (uuid_bytes u) = 16"
  by (simp add: uuid_bytes_def)

lemma uuid_bytes_less: "b \<in> set (uuid_bytes u) \<Longrightarrow> b < 256"
  by (auto simp: uuid_bytes_def)

lemma set_hex2: "c \<in> set (hex2 b) \<Longrightarrow> b < 256 \<Longrightarrow> \<exists>d<16. c = digit_char d"
proof -
  assume "c \<in> set (hex2 b)" "b < 256"
  then have "b div 16 < 16" "b mod 16 < 16" "c = digit_char (b div 16) \<or> c = digit_char (b mod 16)"
    by (auto simp: hex2_def less_mult_imp_div_less)
  then show ?thesis by blast
qed

lemma digit_char_not: "d < 16 \<Longrightarrow> digit_char d \<noteq> CHR ''/'' \<and> digit_char d \<noteq> CHR ''.''"
  using byte_digit_char [of d] by (auto split: if_splits)

lemma uuid_text_chars: "c \<in> set (uuid_text u) \<Longrightarrow> c = CHR ''-'' \<or> (\<exists>d<16. c = digit_char d)"
proof -
  define h where "h = concat (map hex2 (uuid_bytes u))"
  assume "c \<in> set (uuid_text u)"
  then have "c = CHR ''-'' \<or> c \<in> set h"
    unfolding uuid_text_def h_def [symmetric] Let_def
    by (auto dest!: in_set_takeD in_set_dropD)
  moreover have "c \<in> set h \<Longrightarrow> \<exists>d<16. c = digit_char d"
    unfolding h_def using set_hex2 uuid_bytes_less by fastforce
  ultimately show ?thesis by blast
qed

lemma set_uuid_text: "c \<in> set (uuid_text u) \<Longrightarrow> c \<noteq> CHR ''/'' \<and> c \<noteq> CHR ''.''"
  using uuid_text_chars [of c u] digit_char_not by auto

lemma length_uuid_text: "length (uuid_text u) = 36"
proof -
  have "length (concat (map hex2 bs)) = 2 * length bs" for bs
    by (induction bs) (simp_all add: hex2_def)
  from this [of "uuid_bytes u"] show ?thesis by (simp add: uuid_text_def Let_def)
qed

end
