(* ===== verification/RustPath.thy ===== *)
theory RustPath
  imports RustText
begin

text \<open>
  \<open>std::path\<close>: the components of a textual path as \<open>Path::components\<close> gives them, and absolute
  paths of plain names as the list of those names. \<open>Path::join\<close> with a plain name is \<open>p @ [name]\<close>.
\<close>

datatype component = RootDir | CurDir | ParentDir | Normal string

type_synonym path = "string list"

definition to_component :: "string \<Rightarrow> component" where
  "to_component s = (if s = ''..'' then ParentDir else Normal s)"

text \<open>
  Repeated separators, a trailing separator and every \<open>.\<close> but a leading one of a relative path are
  dropped.
\<close>

definition components :: "string \<Rightarrow> component list" where
  "components s =
     (let ps = filter (\<lambda>x. x \<noteq> []) (split_on (\<lambda>c. c = CHR ''/'') s);
          body = map to_component (filter (\<lambda>x. x \<noteq> ''.'') ps)
      in if starts_with ''/'' s then RootDir # body
         else if ps \<noteq> [] \<and> hd ps = ''.'' then CurDir # body
         else body)"

definition is_absolute :: "string \<Rightarrow> bool" where
  "is_absolute s = starts_with ''/'' s"

text \<open>\<open>Path::display\<close> of an absolute path.\<close>

definition display :: "path \<Rightarrow> string" where
  "display p = (if p = [] then ''/'' else concat (map (\<lambda>c. CHR ''/'' # c) p))"

text \<open>\<open>Path::strip_prefix\<close> and \<open>Path::starts_with\<close>, on whole components.\<close>

definition path_strip_prefix :: "path \<Rightarrow> component list \<Rightarrow> component list option" where
  "path_strip_prefix p cs =
     (let pre = RootDir # map Normal p
      in if prefix pre cs then Some (drop (length pre) cs) else None)"

definition path_starts_with :: "path \<Rightarrow> path \<Rightarrow> bool" where
  "path_starts_with p q = prefix q p"

definition is_normal :: "component \<Rightarrow> bool" where
  "is_normal c = (case c of Normal _ \<Rightarrow> True | _ \<Rightarrow> False)"

fun component_name :: "component \<Rightarrow> string" where
  "component_name (Normal s) = s"
| "component_name _ = []"

text \<open>\<open>Path::parent\<close>, \<open>Path::file_name\<close> and \<open>Path::with_file_name\<close> of an absolute path.\<close>

definition parent :: "path \<Rightarrow> path option" where
  "parent p = (if p = [] then None else Some (butlast p))"

definition file_name :: "path \<Rightarrow> string" where
  "file_name p = (if p = [] then [] else last p)"

definition with_file_name :: "path \<Rightarrow> string \<Rightarrow> path" where
  "with_file_name p n = (if p = [] then [n] else butlast p @ [n])"

text \<open>A name that is one directory entry.\<close>

definition plain_name :: "string \<Rightarrow> bool" where
  "plain_name n = (n \<noteq> [] \<and> n \<noteq> ''.'' \<and> n \<noteq> ''..'' \<and> CHR ''/'' \<notin> set n)"

section \<open>Facts\<close>

lemma map_Normal_names:
  "\<forall>c \<in> set cs. is_normal c \<Longrightarrow> map Normal (map component_name cs) = cs"
  by (induction cs) (auto simp: is_normal_def split: component.splits)

lemma set_components:
  "Normal n \<in> set (components s) \<Longrightarrow> plain_name n"
  using split_on_pieces [of _ "\<lambda>c. c = CHR ''/''" s]
  by (fastforce simp: components_def Let_def to_component_def plain_name_def split: if_splits)

lemma parent_snoc [simp]: "parent (p @ [n]) = Some p"
  by (simp add: parent_def)

lemma with_file_name_snoc [simp]: "with_file_name (p @ [n]) m = p @ [m]"
  by (simp add: with_file_name_def)

lemma file_name_snoc [simp]: "file_name (p @ [n]) = n"
  by (simp add: file_name_def)

lemma split_on_display:
  assumes "\<forall>n \<in> set p. plain_name n" and "p \<noteq> []"
  shows "split_on (\<lambda>c. c = CHR ''/'') (display p) = [] # p"
  using assms
proof (induction p)
  case Nil
  then show ?case by simp
next
  case (Cons n p)
  have n: "\<forall>c \<in> set n. c \<noteq> CHR ''/''"
    using Cons.prems by (auto simp: plain_name_def)
  show ?case
  proof (cases p)
    case Nil
    with n show ?thesis by (simp add: display_def split_on_none)
  next
    case (Cons m q)
    then have "display (n # p) = CHR ''/'' # n @ display p" by (simp add: display_def)
    moreover have "split_on (\<lambda>c. c = CHR ''/'') (display p) = [] # p"
      using Cons Cons.prems Cons.IH by simp
    moreover obtain d where "display p = CHR ''/'' # d" using Cons by (simp add: display_def)
    ultimately show ?thesis
      using n split_on_append [of n "\<lambda>c. c = CHR ''/''" "CHR ''/''" d] by simp
  qed
qed

lemma components_display:
  assumes "\<forall>n \<in> set p. plain_name n"
  shows "components (display p) = RootDir # map Normal p"
proof (cases "p = []")
  case True
  then show ?thesis by (simp add: display_def components_def)
next
  case False
  have f: "filter (\<lambda>x. x \<noteq> []) p = p" "filter (\<lambda>x. x \<noteq> ''.'') p = p"
    using assms by (auto simp: plain_name_def filter_id_conv)
  have m: "map to_component p = map Normal p"
    using assms by (auto simp: to_component_def plain_name_def)
  have "starts_with ''/'' (display p)"
    using False by (cases p) (auto simp: display_def)
  then show ?thesis
    using split_on_display [OF assms False] f m by (simp add: components_def Let_def)
qed

end
