(* ===== verification/OsModel.thy ===== *)
theory OsModel
  imports Records RustPath
begin

text \<open>
  The operating system as the program sees it: a state with the file system, the process table, the
  clock and the logs of what the program did to the outside, and one function per system or standard
  library call the source makes. A computation is \<open>'a io\<close>: it takes the state and returns a result
  and the new state.

  Every call first takes a slot of the schedule: the events of the environment that happen before it
  (time passes, processes exit, become zombies or start, a server creates its socket) and possibly a
  fault that makes the call fail. A theorem that does not restrict the schedule holds for every
  interleaving with other processes and every failure; a schedule in which all calls from some point
  on fail has the effect of a crash there. Faults are input/output errors, denied permissions and
  other error numbers, never the ones that claim a file is absent or present.

  Bounds of this model: other programs do not change Spawnr's private files; a path given to a call
  that does not follow links is looked up as it is, and links in it are followed by the calls that
  resolve paths (\<open>canonicalize\<close>, \<open>metadata\<close>, \<open>exists\<close>, \<open>set_permissions\<close>); a file is its path,
  the program never writes to a file through a second hard link.
\<close>

section \<open>State\<close>

datatype node = Dir | File string | Link string | Sock | Special

record entry =
  e_node :: node
  e_mode :: nat
  e_uid :: nat
  e_gid :: nat
  e_dev :: nat
  e_ino :: nat
  e_nlink :: nat

type_synonym files = "path \<Rightarrow> entry option"

text \<open>
  A process. \<open>p_stamp\<close> tells it from every other process ever started, also from one that had its
  number before: it is not visible to the program.
\<close>

datatype proc_state = PRunning | PSleeping | PDiskSleep | PStopped | PTraced | PIdle | PZombie | PDead

text \<open>The letter \<open>/proc\<close> shows for a state.\<close>

fun state_letter :: "proc_state \<Rightarrow> char" where
  "state_letter PRunning = CHR ''R''"
| "state_letter PSleeping = CHR ''S''"
| "state_letter PDiskSleep = CHR ''D''"
| "state_letter PStopped = CHR ''T''"
| "state_letter PTraced = CHR ''t''"
| "state_letter PIdle = CHR ''I''"
| "state_letter PZombie = CHR ''Z''"
| "state_letter PDead = CHR ''X''"

record process =
  p_stamp :: nat
  p_start :: nat
  p_comm :: string
  p_state :: proc_state
  p_exe :: path
  p_exe_dev :: nat
  p_exe_ino :: nat
  p_dumpable :: bool

datatype event =
    Tick nat
  | Exits nat
  | Zombie nat
  | Spawns nat process
  | Undumpable nat
  | Appears path entry

datatype fault = FaultIo | FaultAccess | FaultOther nat

fun fault_errno :: "fault \<Rightarrow> errno" where
  "fault_errno FaultIo = EIO"
| "fault_errno FaultAccess = EACCES"
| "fault_errno (FaultOther n) = EOTHER n"

text \<open>
  A slot: the events before the call, the fault if it fails, how far a failing call got (the number of
  bytes a write stored, the paths a recursive removal left behind), and the number the kernel gives to
  a process the call starts.
\<close>

record slot =
  sl_events :: "event list"
  sl_fault :: "fault option"
  sl_written :: nat
  sl_spared :: "path \<Rightarrow> bool"
  sl_pid :: "nat \<Rightarrow> nat"

definition idle_slot :: slot where
  "idle_slot = \<lparr>sl_events = [], sl_fault = None, sl_written = 0, sl_spared = (\<lambda>_. False),
     sl_pid = (\<lambda>n. n + 100)\<rparr>"

record os =
  files :: files
  procs :: "nat \<Rightarrow> process option"
  next_stamp :: nat
  clock :: nat
  boot_id :: string
  has_pidfd :: bool
  env_vars :: "string \<Rightarrow> string option"
  euid :: nat
  self_pid :: nat
  uuid_src :: "nat \<Rightarrow> uuid"
  uuid_next :: nat
  signals :: "(nat \<times> nat) list"
  spawned :: "(nat \<times> path \<times> string list \<times> files) list"
  listening :: "path set"
  agent_proxy :: "(path \<times> bool) option"
  arg_max :: int
  sched :: "slot list"

type_synonym 'a io = "os \<Rightarrow> 'a result \<times> os"

section \<open>Combinators\<close>

definition ret :: "'a \<Rightarrow> 'a io" where
  "ret x s = (Ok x, s)"

definition fail :: "err \<Rightarrow> 'a io" where
  "fail e s = (Inl e, s)"

definition lift_r :: "'a result \<Rightarrow> 'a io" where
  "lift_r r s = (r, s)"

definition bnd :: "'a io \<Rightarrow> ('a \<Rightarrow> 'b io) \<Rightarrow> 'b io" where
  "bnd m f s = (case m s of (Inl e, s') \<Rightarrow> (Inl e, s') | (Inr x, s') \<Rightarrow> f x s')"

definition thn :: "'a io \<Rightarrow> 'b io \<Rightarrow> 'b io" where
  "thn m k = bnd m (\<lambda>_. k)"

text \<open>\<open>match m { Ok(..) .., Err(..) .. }\<close>: the result as a value.\<close>

definition attempt :: "'a io \<Rightarrow> 'a result io" where
  "attempt m s = (let (r, s') = m s in (Ok r, s'))"

definition io_ensure :: "bool \<Rightarrow> string \<Rightarrow> 'a io \<Rightarrow> 'a io" where
  "io_ensure b m k = (if b then k else fail (Bail m))"

text \<open>\<open>if result.is_err() { let _ = cleanup; } result\<close>.\<close>

definition on_error :: "'a io \<Rightarrow> 'b io \<Rightarrow> 'a io" where
  "on_error m cleanup s =
     (case m s of (Inl e, s') \<Rightarrow> (Inl e, snd (cleanup s')) | (Inr x, s') \<Rightarrow> (Inr x, s'))"

definition get_os :: "(os \<Rightarrow> 'a) \<Rightarrow> 'a io" where
  "get_os f s = (Ok (f s), s)"

fun io_each :: "'a list \<Rightarrow> ('a \<Rightarrow> unit io) \<Rightarrow> unit io" where
  "io_each [] f = ret ()"
| "io_each (x # xs) f = thn (f x) (io_each xs f)"

section \<open>The environment\<close>

text \<open>
  A process starts now, under a number that is free, as a process never seen before. A socket appears
  only where a server the program started was told to listen.
\<close>

fun apply_event :: "event \<Rightarrow> os \<Rightarrow> os" where
  "apply_event (Tick n) s = s\<lparr>clock := clock s + n\<rparr>"
| "apply_event (Exits pid) s = s\<lparr>procs := (procs s)(pid := None)\<rparr>"
| "apply_event (Zombie pid) s =
     (case procs s pid of None \<Rightarrow> s
      | Some p \<Rightarrow> s\<lparr>procs := (procs s)(pid \<mapsto> p\<lparr>p_state := PZombie\<rparr>)\<rparr>)"
| "apply_event (Undumpable pid) s =
     (case procs s pid of None \<Rightarrow> s
      | Some p \<Rightarrow> s\<lparr>procs := (procs s)(pid \<mapsto> p\<lparr>p_dumpable := False\<rparr>)\<rparr>)"
| "apply_event (Spawns pid p) s =
     (if procs s pid = None \<and> pid > 0
      then s\<lparr>procs := (procs s)(pid \<mapsto> p\<lparr>p_stamp := next_stamp s, p_start := clock s div 10\<rparr>),
             next_stamp := Suc (next_stamp s)\<rparr>
      else s)"
| "apply_event (Appears p e) s =
     (if files s p = None \<and> e_node e = Sock \<and> p \<in> listening s then s\<lparr>files := (files s)(p \<mapsto> e)\<rparr> else s)"

definition next_slot :: "os \<Rightarrow> slot" where
  "next_slot s = (case sched s of [] \<Rightarrow> idle_slot | sl # _ \<Rightarrow> sl)"

definition before_call :: "os \<Rightarrow> os" where
  "before_call s = fold apply_event (sl_events (next_slot s)) (s\<lparr>sched := tl (sched s)\<rparr>)"

definition syscall :: "'a io \<Rightarrow> 'a io" where
  "syscall act s =
     (case sl_fault (next_slot s) of
        Some f \<Rightarrow> (Inl (Io (fault_errno f)), before_call s)
      | None \<Rightarrow> act (before_call s))"

definition errno_fail :: "errno \<Rightarrow> 'a io" where
  "errno_fail e = fail (Io e)"

section \<open>Path resolution\<close>

text \<open>
  \<open>canonicalize\<close>: the components still to walk from a directory already resolved, with the number of
  symbolic links that may still be followed (Linux follows 40).
\<close>

definition fs_get :: "files \<Rightarrow> path \<Rightarrow> node option" where
  "fs_get fs p = (if p = [] then Some Dir else map_option e_node (fs p))"

function walk :: "files \<Rightarrow> nat \<Rightarrow> path \<Rightarrow> component list \<Rightarrow> errno + path" where
  "walk fs b d [] = Inr d"
| "walk fs b d (RootDir # r) = walk fs b [] r"
| "walk fs b d (CurDir # r) = walk fs b d r"
| "walk fs b d (ParentDir # r) = walk fs b (butlast d) r"
| "walk fs b d (Normal n # r) =
     (case fs_get fs (d @ [n]) of
        None \<Rightarrow> Inl ENOENT
      | Some Dir \<Rightarrow> walk fs b (d @ [n]) r
      | Some (Link t) \<Rightarrow>
          (case b of 0 \<Rightarrow> Inl ELOOP | Suc b' \<Rightarrow> walk fs b' d (components t @ r))
      | _ \<Rightarrow> if r = [] then Inr (d @ [n]) else Inl ENOTDIR)"
  by pat_completeness auto
termination
  by (relation "measures [\<lambda>(_, b, _, _). b, \<lambda>(_, _, _, r). length r]") auto

definition resolve :: "files \<Rightarrow> path \<Rightarrow> errno + path" where
  "resolve fs p = walk fs 40 [] (map Normal p)"

section \<open>Calls on files\<close>

text \<open>Permission bits: 493 is \<open>0o755\<close>, 448 \<open>0o700\<close>, 384 \<open>0o600\<close>, 63 \<open>0o077\<close> and 73 \<open>0o111\<close>.\<close>

text \<open>The entry of the root directory, which no call removes.\<close>

definition root_entry :: entry where
  "root_entry = \<lparr>e_node = Dir, e_mode = 493, e_uid = 0, e_gid = 0, e_dev = 0, e_ino = 2,
     e_nlink = 1\<rparr>"

definition entry_at :: "os \<Rightarrow> path \<Rightarrow> entry option" where
  "entry_at s p = (if p = [] then Some root_entry else files s p)"

definition is_dir_at :: "os \<Rightarrow> path \<Rightarrow> bool" where
  "is_dir_at s p = (case entry_at s p of Some e \<Rightarrow> e_node e = Dir | None \<Rightarrow> False)"

definition put_entry :: "path \<Rightarrow> entry \<Rightarrow> os \<Rightarrow> os" where
  "put_entry p e s = s\<lparr>files := (files s)(p \<mapsto> e)\<rparr>"

definition del_entry :: "path \<Rightarrow> os \<Rightarrow> os" where
  "del_entry p s = s\<lparr>files := (files s)(p := None)\<rparr>"

definition new_entry :: "os \<Rightarrow> node \<Rightarrow> nat \<Rightarrow> entry" where
  "new_entry s n m =
     \<lparr>e_node = n, e_mode = m, e_uid = euid s, e_gid = 0, e_dev = 1, e_ino = 0, e_nlink = 1\<rparr>"

text \<open>\<open>fs::symlink_metadata\<close>.\<close>

definition sys_lstat :: "path \<Rightarrow> entry io" where
  "sys_lstat p = syscall (\<lambda>s.
     case entry_at s p of Some e \<Rightarrow> (Ok e, s) | None \<Rightarrow> (Inl (Io ENOENT), s))"

text \<open>\<open>fs::canonicalize\<close>, \<open>fs::metadata\<close>, \<open>Path::exists\<close>, \<open>is_file\<close> and \<open>is_dir\<close> follow links.\<close>

definition sys_canonicalize :: "path \<Rightarrow> path io" where
  "sys_canonicalize p = syscall (\<lambda>s.
     case resolve (files s) p of Inr q \<Rightarrow> (Ok q, s) | Inl e \<Rightarrow> (Inl (Io e), s))"

definition sys_metadata :: "path \<Rightarrow> entry io" where
  "sys_metadata p = syscall (\<lambda>s.
     case resolve (files s) p of
       Inl e \<Rightarrow> (Inl (Io e), s)
     | Inr q \<Rightarrow> (case entry_at s q of Some e \<Rightarrow> (Ok e, s) | None \<Rightarrow> (Inl (Io ENOENT), s)))"

definition sys_exists :: "path \<Rightarrow> bool io" where
  "sys_exists p = bnd (attempt (sys_metadata p)) (\<lambda>r. ret (is_ok r))"

definition is_regular :: "entry \<Rightarrow> bool" where
  "is_regular e = (case e_node e of File _ \<Rightarrow> True | _ \<Rightarrow> False)"

definition node_len :: "entry \<Rightarrow> nat" where
  "node_len e = (case e_node e of File c \<Rightarrow> length c | _ \<Rightarrow> 0)"

definition sys_is_file :: "path \<Rightarrow> bool io" where
  "sys_is_file p = bnd (attempt (sys_metadata p)) (\<lambda>r.
     ret (case r of Inr e \<Rightarrow> is_regular e | Inl _ \<Rightarrow> False))"

definition sys_is_dir :: "path \<Rightarrow> bool io" where
  "sys_is_dir p = bnd (attempt (sys_metadata p)) (\<lambda>r.
     ret (case r of Inr e \<Rightarrow> e_node e = Dir | Inl _ \<Rightarrow> False))"

text \<open>
  Opening an existing file to read, with and without \<open>O_NOFOLLOW\<close>: the metadata of the open file and
  the path it is at. Reading it to the end gives its content.
\<close>

definition sys_open_nofollow :: "path \<Rightarrow> entry io" where
  "sys_open_nofollow p = syscall (\<lambda>s.
     case entry_at s p of
       None \<Rightarrow> (Inl (Io ENOENT), s)
     | Some e \<Rightarrow> (case e_node e of Link _ \<Rightarrow> (Inl (Io ELOOP), s) | _ \<Rightarrow> (Ok e, s)))"

definition sys_open :: "path \<Rightarrow> path io" where
  "sys_open p = syscall (\<lambda>s.
     case resolve (files s) p of
       Inl e \<Rightarrow> (Inl (Io e), s)
     | Inr q \<Rightarrow> (case entry_at s q of Some e \<Rightarrow> (Ok q, s) | None \<Rightarrow> (Inl (Io ENOENT), s)))"

definition sys_read :: "path \<Rightarrow> string io" where
  "sys_read p = syscall (\<lambda>s.
     case entry_at s p of
       Some e \<Rightarrow> (case e_node e of File c \<Rightarrow> (Ok c, s) | Dir \<Rightarrow> (Inl (Io (EOTHER 21)), s)
         | _ \<Rightarrow> (Inl (Io EIO), s))
     | None \<Rightarrow> (Inl (Io ENOENT), s))"

definition sys_fstat :: "path \<Rightarrow> entry io" where
  "sys_fstat p = sys_lstat p"

text \<open>\<open>fs::read_to_string\<close> of a file opened by path.\<close>

definition sys_read_to_string :: "path \<Rightarrow> string io" where
  "sys_read_to_string p = bnd (sys_open p) (\<lambda>q. bnd (sys_read q) (\<lambda>c.
     if valid_utf8 c then ret c else fail (Io EINVAL)))"

text \<open>\<open>create_new(true)\<close>: the file must not exist, and its directory must.\<close>

definition sys_create_new :: "path \<Rightarrow> nat \<Rightarrow> unit io" where
  "sys_create_new p m = syscall (\<lambda>s.
     if p = [] \<or> files s p \<noteq> None then (Inl (Io EEXIST), s)
     else if \<not> is_dir_at s (butlast p) then (Inl (Io ENOENT), s)
     else (Ok (), put_entry p (new_entry s (File []) m) s))"

text \<open>\<open>create(true)\<close> without truncation, and (with \<open>nofollow\<close>) \<open>O_NOFOLLOW\<close>.\<close>

definition sys_open_create :: "path \<Rightarrow> nat \<Rightarrow> bool \<Rightarrow> unit io" where
  "sys_open_create p m nofollow = syscall (\<lambda>s.
     case entry_at s p of
       Some e \<Rightarrow> (case e_node e of Dir \<Rightarrow> (Inl (Io (EOTHER 21)), s)
         | Link _ \<Rightarrow> if nofollow then (Inl (Io ELOOP), s)
             else (case resolve (files s) p of Inr q \<Rightarrow> (Ok (), s) | Inl e \<Rightarrow> (Inl (Io e), s))
         | _ \<Rightarrow> (Ok (), s))
     | None \<Rightarrow> if is_dir_at s (butlast p)
         then (Ok (), put_entry p (new_entry s (File []) m) s) else (Inl (Io ENOENT), s))"

definition append_file :: "path \<Rightarrow> string \<Rightarrow> os \<Rightarrow> os" where
  "append_file p d s =
     (case files s p of
        Some e \<Rightarrow> (case e_node e of File c \<Rightarrow> put_entry p (e\<lparr>e_node := File (c @ d)\<rparr>) s | _ \<Rightarrow> s)
      | None \<Rightarrow> s)"

text \<open>\<open>write_all\<close> at the end of the file; a failing write may have stored a part of the data.\<close>

definition sys_write :: "path \<Rightarrow> string \<Rightarrow> unit io" where
  "sys_write p d s =
     (let s' = before_call s
      in case sl_fault (next_slot s) of
           Some f \<Rightarrow> (Inl (Io (fault_errno f)), append_file p (take (sl_written (next_slot s)) d) s')
         | None \<Rightarrow> (Ok (), append_file p d s'))"

text \<open>\<open>sync_all\<close>, \<open>flock\<close> and similar calls that change nothing the model keeps.\<close>

definition sys_nop :: "unit io" where
  "sys_nop = syscall (ret ())"

text \<open>\<open>File::open(directory).and_then(|d| d.sync_all())\<close>.\<close>

definition sync_directory :: "path \<Rightarrow> unit io" where
  "sync_directory p = thn (sys_open p) sys_nop"

definition sys_rename :: "path \<Rightarrow> path \<Rightarrow> unit io" where
  "sys_rename a b = syscall (\<lambda>s.
     case files s a of
       None \<Rightarrow> (Inl (Io ENOENT), s)
     | Some e \<Rightarrow>
         if \<not> is_dir_at s (butlast b) then (Inl (Io ENOENT), s)
         else if is_dir_at s b \<or> e_node e = Dir then (Inl (Io EEXIST), s)
         else (Ok (), put_entry b e (del_entry a s)))"

text \<open>\<open>fs::hard_link\<close> never replaces.\<close>

definition sys_link :: "path \<Rightarrow> path \<Rightarrow> unit io" where
  "sys_link a b = syscall (\<lambda>s.
     case files s a of
       None \<Rightarrow> (Inl (Io ENOENT), s)
     | Some e \<Rightarrow>
         if files s b \<noteq> None \<or> b = [] then (Inl (Io EEXIST), s)
         else if \<not> is_dir_at s (butlast b) then (Inl (Io ENOENT), s)
         else (Ok (), put_entry b e s))"

definition sys_unlink :: "path \<Rightarrow> unit io" where
  "sys_unlink p = syscall (\<lambda>s.
     case entry_at s p of
       None \<Rightarrow> (Inl (Io ENOENT), s)
     | Some e \<Rightarrow> if e_node e = Dir then (Inl (Io (EOTHER 21)), s) else (Ok (), del_entry p s))"

definition sys_mkdir :: "path \<Rightarrow> unit io" where
  "sys_mkdir p = syscall (\<lambda>s.
     if p = [] \<or> files s p \<noteq> None then (Inl (Io EEXIST), s)
     else if \<not> is_dir_at s (butlast p) then (Inl (Io ENOENT), s)
     else (Ok (), put_entry p (new_entry s Dir 493) s))"

definition sys_symlink :: "string \<Rightarrow> path \<Rightarrow> unit io" where
  "sys_symlink target p = syscall (\<lambda>s.
     if p = [] \<or> files s p \<noteq> None then (Inl (Io EEXIST), s)
     else if \<not> is_dir_at s (butlast p) then (Inl (Io ENOENT), s)
     else (Ok (), put_entry p (new_entry s (Link target) 511) s))"

text \<open>\<open>fs::create_dir_all\<close>, as the standard library does it, on the path read from its end.\<close>

definition mkdir_or_dir :: "path \<Rightarrow> unit io" where
  "mkdir_or_dir p = bnd (attempt (sys_mkdir p)) (\<lambda>r.
     case r of Inr _ \<Rightarrow> ret ()
     | Inl e \<Rightarrow> bnd (sys_is_dir p) (\<lambda>d. if d then ret () else fail e))"

fun create_dir_all_rev :: "path \<Rightarrow> unit io" where
  "create_dir_all_rev [] = ret ()"
| "create_dir_all_rev (n # r) =
     bnd (attempt (sys_mkdir (rev (n # r)))) (\<lambda>res.
       case res of
         Inr _ \<Rightarrow> ret ()
       | Inl e \<Rightarrow>
           if e = Io ENOENT then thn (create_dir_all_rev r) (mkdir_or_dir (rev (n # r)))
           else bnd (sys_is_dir (rev (n # r))) (\<lambda>d. if d then ret () else fail e))"

definition sys_create_dir_all :: "path \<Rightarrow> unit io" where
  "sys_create_dir_all p = create_dir_all_rev (rev p)"

text \<open>\<open>fs::set_permissions\<close> and \<open>chown\<close> follow links.\<close>

definition sys_chmod :: "path \<Rightarrow> nat \<Rightarrow> unit io" where
  "sys_chmod p m = syscall (\<lambda>s.
     case resolve (files s) p of
       Inl e \<Rightarrow> (Inl (Io e), s)
     | Inr q \<Rightarrow> (case files s q of Some e \<Rightarrow> (Ok (), put_entry q (e\<lparr>e_mode := m\<rparr>) s)
         | None \<Rightarrow> (Ok (), s)))"

definition sys_chown :: "path \<Rightarrow> nat \<Rightarrow> nat \<Rightarrow> unit io" where
  "sys_chown p u g = syscall (\<lambda>s.
     case resolve (files s) p of
       Inl e \<Rightarrow> (Inl (Io e), s)
     | Inr q \<Rightarrow> (case files s q of Some e \<Rightarrow> (Ok (), put_entry q (e\<lparr>e_uid := u, e_gid := g\<rparr>) s)
         | None \<Rightarrow> (Ok (), s)))"

text \<open>
  \<open>fs::remove_dir_all\<close>: a symbolic link is removed itself, never followed. A failing removal has
  removed some of what is below the directory.
\<close>

definition remove_tree :: "path \<Rightarrow> (path \<Rightarrow> bool) \<Rightarrow> os \<Rightarrow> os" where
  "remove_tree p spared s =
     s\<lparr>files := (\<lambda>q. if prefix p q \<and> \<not> spared q then None else files s q)\<rparr>"

definition sys_remove_dir_all :: "path \<Rightarrow> unit io" where
  "sys_remove_dir_all p s =
     (let s' = before_call s
      in case files s' p of
           None \<Rightarrow> (Inl (Io ENOENT), s')
         | Some e \<Rightarrow>
             (case sl_fault (next_slot s) of
                Some f \<Rightarrow> (Inl (Io (fault_errno f)),
                  if e_node e = Dir then remove_tree p (sl_spared (next_slot s)) s' else s')
              | None \<Rightarrow>
                  (case e_node e of
                     Dir \<Rightarrow> (Ok (), remove_tree p (\<lambda>_. False) s')
                   | Link _ \<Rightarrow> (Ok (), del_entry p s')
                   | _ \<Rightarrow> (Inl (Io ENOTDIR), s'))))"

section \<open>Other calls\<close>

definition new_uuid :: "uuid io" where
  "new_uuid s = (Ok (uuid_src s (uuid_next s)), s\<lparr>uuid_next := Suc (uuid_next s)\<rparr>)"

text \<open>\<open>Instant::now\<close> in milliseconds, and \<open>thread::sleep\<close>.\<close>

definition sys_now :: "nat io" where
  "sys_now s = (let s' = before_call s in (Ok (clock s'), s'))"

definition sys_sleep :: "nat \<Rightarrow> unit io" where
  "sys_sleep n s = (let s' = before_call s in (Ok (), s'\<lparr>clock := clock s' + n\<rparr>))"

text \<open>
  A polling loop: \<open>step\<close> is tried until it gives something or the deadline has passed, with \<open>w\<close> ms of
  sleep between. \<open>n\<close> bounds the number of turns; \<open>poll_every\<close> gives one for every \<open>w\<close> ms of the timeout
  and two more, and \<open>poll_every_returns\<close> shows that these are enough: \<open>Ok None\<close>, out of turns, never
  happens.
\<close>

fun poll :: "nat \<Rightarrow> nat \<Rightarrow> 'a option io \<Rightarrow> nat \<Rightarrow> 'a option option io" where
  "poll w 0 step deadline = ret None"
| "poll w (Suc n) step deadline =
     bnd step (\<lambda>r. case r of
       Some x \<Rightarrow> ret (Some (Some x))
     | None \<Rightarrow> bnd sys_now (\<lambda>now.
         if now \<ge> deadline then ret (Some None) else thn (sys_sleep w) (poll w n step deadline)))"

definition poll_every :: "nat \<Rightarrow> 'a option io \<Rightarrow> nat \<Rightarrow> 'a option option io" where
  "poll_every w step timeout =
     bnd sys_now (\<lambda>now. poll w (timeout div w + 2) step (now + timeout))"

definition poll_until :: "'a option io \<Rightarrow> nat \<Rightarrow> 'a option option io" where
  "poll_until step timeout = poll_every 50 step timeout"

definition env_var :: "string \<Rightarrow> string option io" where
  "env_var n = get_os (\<lambda>s. env_vars s n)"

section \<open>Rules: running a computation\<close>

lemma bnd_Ok: "bnd m f s = (Inr y, t) \<longleftrightarrow> (\<exists>x s'. m s = (Inr x, s') \<and> f x s' = (Inr y, t))"
  by (auto simp: bnd_def split: prod.splits sum.splits)

lemma thn_Ok: "thn m k s = (Inr y, t) \<longleftrightarrow> (\<exists>x s'. m s = (Inr x, s') \<and> k s' = (Inr y, t))"
  by (simp add: thn_def bnd_Ok)

lemma io_ensure_Ok: "io_ensure b m k s = (Inr y, t) \<longleftrightarrow> b \<and> k s = (Inr y, t)"
  by (simp add: io_ensure_def fail_def)

lemma ret_Ok: "ret x s = (Inr y, t) \<longleftrightarrow> y = x \<and> t = s"
  by (auto simp: ret_def)

lemma lift_r_Ok: "lift_r r s = (Inr y, t) \<longleftrightarrow> r = Inr y \<and> t = s"
  by (auto simp: lift_r_def)

lemma fail_Ok: "fail e s = (Inr y, t) \<longleftrightarrow> False"
  by (simp add: fail_def)

lemma attempt_Ok: "attempt m s = (Inr r, t) \<longleftrightarrow> m s = (r, t)"
  by (auto simp: attempt_def split: prod.splits)

lemma on_error_Ok: "on_error m c s = (Inr y, t) \<longleftrightarrow> m s = (Inr y, t)"
  by (auto simp: on_error_def split: prod.splits sum.splits)

lemma syscall_Ok:
  "syscall act s = (Inr y, t) \<longleftrightarrow> sl_fault (next_slot s) = None \<and> act (before_call s) = (Inr y, t)"
  by (auto simp: syscall_def split: option.splits)

lemma get_os_Ok: "get_os f s = (Inr y, t) \<longleftrightarrow> y = f s \<and> t = s"
  by (auto simp: get_os_def)

lemma case_sum_Ok: "case_sum f g r s = (Inr y, t) \<longleftrightarrow>
    (\<exists>e. r = Inl e \<and> f e s = (Inr y, t)) \<or> (\<exists>x. r = Inr x \<and> g x s = (Inr y, t))"
  by (cases r) simp_all

lemma case_option_Ok: "case_option f g r s = (Inr y, t) \<longleftrightarrow>
    (r = None \<and> f s = (Inr y, t)) \<or> (\<exists>x. r = Some x \<and> g x s = (Inr y, t))"
  by (cases r) simp_all

lemma if_Ok: "(if b then m else k) s = (Inr y, t) \<longleftrightarrow>
    (b \<and> m s = (Inr y, t)) \<or> (\<not> b \<and> k s = (Inr y, t))"
  by simp

lemmas io_Ok = case_sum_Ok case_option_Ok if_Ok get_os_Ok bnd_Ok thn_Ok io_ensure_Ok ret_Ok lift_r_Ok fail_Ok attempt_Ok on_error_Ok

text \<open>Running a computation, step by step, where the outcome of each is known.\<close>

lemma bnd_run: "m s = (Inr x, s') \<Longrightarrow> bnd m f s = f x s'" and
  bnd_fail: "m s = (Inl e, s') \<Longrightarrow> bnd m f s = (Inl e, s')" and
  thn_run: "m s = (Inr x, s') \<Longrightarrow> thn m k s = k s'" and
  thn_fail: "m s = (Inl e, s') \<Longrightarrow> thn m k s = (Inl e, s')"
  by (simp_all add: bnd_def thn_def)

section \<open>Rules: partial correctness\<close>

text \<open>
  From a state of \<open>P\<close>, an \<open>Ok\<close> ends in \<open>Q\<close> and an error in \<open>E\<close>, whatever the schedule.
\<close>

definition triple :: "(os \<Rightarrow> bool) \<Rightarrow> 'a io \<Rightarrow> ('a \<Rightarrow> os \<Rightarrow> bool) \<Rightarrow> (err \<Rightarrow> os \<Rightarrow> bool) \<Rightarrow> bool" where
  "triple P m Q E =
     (\<forall>s. P s \<longrightarrow> (case m s of (Inr x, t) \<Rightarrow> Q x t | (Inl e, t) \<Rightarrow> E e t))"

lemma triple_bnd:
  "triple P m Q E \<Longrightarrow> (\<And>x. triple (Q x) (f x) R E) \<Longrightarrow> triple P (bnd m f) R E"
  by (fastforce simp: triple_def bnd_def split: prod.splits sum.splits)

lemma triple_thn: "triple P m Q E \<Longrightarrow> (\<And>x. triple (Q x) k R E) \<Longrightarrow> triple P (thn m k) R E"
  unfolding thn_def by (rule triple_bnd)

lemma triple_ret: "(\<And>s. P s \<Longrightarrow> Q x s) \<Longrightarrow> triple P (ret x) Q E"
  by (simp add: triple_def ret_def)

lemma triple_fail: "(\<And>s. P s \<Longrightarrow> E e s) \<Longrightarrow> triple P (fail e) Q E"
  by (simp add: triple_def fail_def)

lemma triple_ensure:
  "(b \<Longrightarrow> triple P k Q E) \<Longrightarrow> (\<And>s. \<not> b \<Longrightarrow> P s \<Longrightarrow> E (Bail m) s) \<Longrightarrow> triple P (io_ensure b m k) Q E"
  by (simp add: io_ensure_def triple_fail)

lemma triple_attempt:
  "triple P m (\<lambda>x. Q (Inr x)) (\<lambda>e. Q (Inl e)) \<Longrightarrow> triple P (attempt m) Q E"
  unfolding triple_def attempt_def Let_def
  by (auto split: prod.splits sum.splits) (metis old.sum.exhaust)

lemma triple_on_error:
  assumes "triple P m Q F" and "\<And>e. triple (F e) c (\<lambda>_. E e) (\<lambda>_. E e)"
  shows "triple P (on_error m c) Q E"
  unfolding triple_def on_error_def
proof (intro allI impI)
  fix s assume "P s"
  with assms(1) have m: "case m s of (Inr x, t) \<Rightarrow> Q x t | (Inl e, t) \<Rightarrow> F e t"
    by (simp add: triple_def)
  show "case case m s of (Inl e, s') \<Rightarrow> (Inl e, snd (c s')) | (Inr x, s') \<Rightarrow> (Inr x, s') of
    (Inl e, t) \<Rightarrow> E e t | (Inr x, t) \<Rightarrow> Q x t"
  proof (cases "m s")
    case (Pair r t)
    show ?thesis
    proof (cases r)
      case (Inl e)
      with m Pair have "F e t" by simp
      with assms(2) [of e] have "E e (snd (c t))"
        by (cases "c t"; cases "fst (c t)") (auto simp: triple_def)
      with Inl Pair show ?thesis by simp
    next
      case (Inr x)
      with m Pair show ?thesis by simp
    qed
  qed
qed

lemma triple_conseq:
  "triple P' m Q' E' \<Longrightarrow> (\<And>s. P s \<Longrightarrow> P' s) \<Longrightarrow> (\<And>x s. Q' x s \<Longrightarrow> Q x s)
     \<Longrightarrow> (\<And>e s. E' e s \<Longrightarrow> E e s) \<Longrightarrow> triple P m Q E"
  by (fastforce simp: triple_def split: prod.splits sum.splits)

lemma triple_syscall:
  assumes "\<And>s. P s \<Longrightarrow> P (before_call s)" and "\<And>f s. P s \<Longrightarrow> E (Io (fault_errno f)) s"
    and "triple P act Q E"
  shows "triple P (syscall act) Q E"
  using assms by (auto simp: triple_def syscall_def split: option.splits)

section \<open>Interfaces: what no computation of a kind does\<close>

text \<open>\<open>m\<close> only makes transitions of the relation \<open>R\<close>, however it ends.\<close>

definition preserves :: "(os \<Rightarrow> os \<Rightarrow> bool) \<Rightarrow> 'a io \<Rightarrow> bool" where
  "preserves R m = (\<forall>s. R s (snd (m s)))"

lemma preservesD: "preserves R m \<Longrightarrow> m s = (r, t) \<Longrightarrow> R s t"
  by (metis preserves_def snd_conv)

text \<open>
  A preorder on states the environment's own steps belong to: every computation built from calls
  that preserve it preserves it.
\<close>

locale frame =
  fixes R :: "os \<Rightarrow> os \<Rightarrow> bool"
  assumes refl: "R s s"
    and trans: "R s t \<Longrightarrow> R t u \<Longrightarrow> R s u"
    and before: "R s (before_call s)"
begin

lemma ret: "preserves R (ret x)" and fail: "preserves R (fail e)"
  and lift_r: "preserves R (lift_r r)" and get_os: "preserves R (get_os f)"
  by (simp_all add: preserves_def ret_def fail_def lift_r_def get_os_def refl)

lemma bnd: "preserves R m \<Longrightarrow> (\<And>x. preserves R (f x)) \<Longrightarrow> preserves R (bnd m f)"
  unfolding preserves_def bnd_def
  by (auto split: prod.splits sum.splits) (metis snd_conv trans)+

lemma thn: "preserves R m \<Longrightarrow> preserves R k \<Longrightarrow> preserves R (thn m k)"
  unfolding thn_def by (rule bnd)

lemma attempt: "preserves R m \<Longrightarrow> preserves R (attempt m)"
  by (auto simp: preserves_def attempt_def split: prod.splits) (metis snd_conv)

lemma io_ensure: "preserves R k \<Longrightarrow> preserves R (io_ensure b m k)"
  by (simp add: io_ensure_def fail)

lemma on_error: "preserves R m \<Longrightarrow> preserves R c \<Longrightarrow> preserves R (on_error m c)"
  unfolding preserves_def on_error_def
  by (auto split: prod.splits sum.splits) (metis snd_conv trans)+

lemma io_each: "(\<And>x. x \<in> set xs \<Longrightarrow> preserves R (f x)) \<Longrightarrow> preserves R (io_each xs f)"
  by (induction xs) (auto intro: thn ret)

lemma if_split: "preserves R a \<Longrightarrow> preserves R b \<Longrightarrow> preserves R (if c then a else b)"
  by simp

lemma case_sum:
  "(\<And>x. preserves R (f x)) \<Longrightarrow> (\<And>x. preserves R (g x)) \<Longrightarrow> preserves R (case_sum f g r)"
  by (cases r) simp_all

lemma case_option:
  "preserves R a \<Longrightarrow> (\<And>x. preserves R (f x)) \<Longrightarrow> preserves R (case_option a f r)"
  by (cases r) simp_all

lemma syscall: "(\<And>s. R s (snd (act s))) \<Longrightarrow> preserves R (syscall act)"
  unfolding preserves_def syscall_def
  by (auto split: option.splits intro: before trans)

lemma poll:
  assumes "preserves R step" and "preserves R sys_now" and "\<And>n. preserves R (sys_sleep n)"
  shows "preserves R (poll w n step d)" and "preserves R (poll_every w step timeout)"
    and "preserves R (poll_until step timeout)"
proof -
  show "preserves R (poll w n step d)" for w n d
    by (induction n) (simp_all add: ret, intro bnd case_option ret if_split thn assms)
  then show every: "preserves R (poll_every w step timeout)" for w
    unfolding poll_every_def by (intro bnd assms)
  show "preserves R (poll_until step timeout)"
    unfolding poll_until_def by (rule every)
qed

text \<open>When polling gives something, its last turn gave it.\<close>

lemma poll_last:
  assumes "preserves R step" and "preserves R sys_now" and "\<And>n. preserves R (sys_sleep n)"
    and "poll w n step d s = (Ok (Some (Some x)), t)"
  shows "\<exists>u. R s u \<and> step u = (Ok (Some x), t)"
  using assms(4)
proof (induction n arbitrary: s)
  case 0
  then show ?case by (simp add: ret_def)
next
  case (Suc n)
  from Suc.prems obtain r u where step: "step s = (Ok r, u)"
    by (auto simp: bnd_def split: prod.splits sum.splits)
  show ?case
  proof (cases r)
    case (Some y)
    with Suc.prems step refl show ?thesis by (auto simp: bnd_def ret_def)
  next
    case None
    with Suc.prems step obtain now v z k where now: "sys_now u = (Ok now, v)"
      and sleep: "sys_sleep w v = (Ok k, z)" and rest: "poll w n step d z = (Ok (Some (Some x)), t)"
      by (auto simp: bnd_def thn_def ret_def split: prod.splits sum.splits if_splits)
    have "R s z"
      using preservesD [OF assms(1) step] preservesD [OF assms(2) now] preservesD [OF assms(3) sleep]
        trans by blast
    with Suc.IH [OF rest] trans show ?thesis by blast
  qed
qed

lemma poll_every_last:
  assumes "preserves R step" and "preserves R sys_now" and "\<And>n. preserves R (sys_sleep n)"
    and "poll_every w step timeout s = (Ok (Some (Some x)), t)"
  shows "\<exists>u. R s u \<and> step u = (Ok (Some x), t)"
proof -
  from assms(4) obtain now u where now: "sys_now s = (Ok now, u)"
    and rest: "poll w (timeout div w + 2) step (now + timeout) u = (Ok (Some (Some x)), t)"
    by (auto simp: poll_every_def bnd_def split: prod.splits sum.splits)
  from poll_last [OF assms(1-3) rest] preservesD [OF assms(2) now] trans show ?thesis by blast
qed

lemmas poll_until_last = poll_every_last [where w = 50, folded poll_until_def]

lemmas combinators = ret fail lift_r get_os bnd thn attempt io_ensure on_error io_each if_split
  case_sum case_option

end

subsection \<open>Writes stay inside a set of paths\<close>

text \<open>
  What is at every path outside \<open>S\<close> stays, but for sockets servers create where they listen; and
  servers come to listen inside \<open>S\<close> only.
\<close>

definition outside :: "path set \<Rightarrow> os \<Rightarrow> os \<Rightarrow> bool" where
  "outside S s t =
     (listening s \<subseteq> listening t \<and> listening t \<subseteq> listening s \<union> S
      \<and> (\<forall>p. p \<notin> S \<longrightarrow> p \<notin> listening s \<longrightarrow> fs_get (files t) p = fs_get (files s) p))"

lemma outside_refl: "outside S s s"
  by (simp add: outside_def)

lemma outside_trans:
  assumes "outside S s t" and "outside S t u"
  shows "outside S s u"
proof -
  have "p \<notin> listening t" if "p \<notin> S" "p \<notin> listening s" for p
    using assms(1) that by (auto simp: outside_def)
  with assms show ?thesis by (auto simp: outside_def)
qed

lemma outside_mono: "outside S s t \<Longrightarrow> S \<subseteq> T \<Longrightarrow> outside T s t"
  by (auto simp: outside_def)

lemma apply_event_listening [simp]: "listening (apply_event e s) = listening s"
  by (cases e) (auto split: option.splits)

lemma outside_apply_event: "outside S s (apply_event e s)"
  by (cases e) (auto simp: outside_def fs_get_def split: option.splits)

lemma outside_before: "outside S s (before_call s)"
proof -
  have "outside S s (fold apply_event es s)" for es s
    by (induction es arbitrary: s) (auto intro: outside_refl outside_trans outside_apply_event)
  moreover have "outside S s (s\<lparr>sched := x\<rparr>)" for x
    by (simp add: outside_def)
  ultimately show ?thesis
    unfolding before_call_def by (blast intro: outside_trans)
qed

interpretation outside: frame "outside S" for S
  by unfold_locales (auto intro: outside_refl outside_before elim: outside_trans)

lemma outside_put: "p \<in> S \<Longrightarrow> outside S s (put_entry p e s)"
  by (auto simp: outside_def put_entry_def fs_get_def)

lemma outside_del: "p \<in> S \<Longrightarrow> outside S s (del_entry p s)"
  by (auto simp: outside_def del_entry_def fs_get_def)

lemma outside_put_node:
  "files s p = Some e \<Longrightarrow> e_node e' = e_node e \<Longrightarrow> outside S s (put_entry p e' s)"
  by (auto simp: outside_def put_entry_def fs_get_def)

lemma outside_remove_tree:
  "(\<And>q. prefix p q \<Longrightarrow> q \<in> S) \<Longrightarrow> outside S s (remove_tree p k s)"
  by (auto simp: outside_def remove_tree_def fs_get_def)

lemma outside_append: "p \<in> S \<Longrightarrow> outside S s (append_file p d s)"
  by (auto simp: append_file_def outside_refl outside_put split: option.splits node.splits)

lemmas outside_step = outside_put outside_del outside_put_node outside_append outside_refl

lemma outside_reads:
  "preserves (outside S) (sys_lstat p)" "preserves (outside S) (sys_canonicalize p)"
  "preserves (outside S) (sys_metadata p)" "preserves (outside S) (sys_open p)"
  "preserves (outside S) (sys_open_nofollow p)" "preserves (outside S) (sys_read p)"
  "preserves (outside S) sys_nop" "preserves (outside S) new_uuid"
  "preserves (outside S) sys_now" "preserves (outside S) (sys_sleep n)"
proof -
  show "preserves (outside S) (sys_lstat p)" "preserves (outside S) (sys_canonicalize p)"
    "preserves (outside S) (sys_metadata p)" "preserves (outside S) (sys_open p)"
    "preserves (outside S) (sys_open_nofollow p)" "preserves (outside S) (sys_read p)"
    "preserves (outside S) sys_nop"
    unfolding sys_lstat_def sys_canonicalize_def sys_metadata_def sys_open_def
      sys_open_nofollow_def sys_read_def sys_nop_def
    by (rule outside.syscall; auto simp: ret_def outside_refl split: option.splits sum.splits node.splits)+
  show "preserves (outside S) new_uuid"
    by (simp add: preserves_def new_uuid_def outside_def)
  show "preserves (outside S) sys_now"
    by (simp add: preserves_def sys_now_def Let_def outside_before)
  show "preserves (outside S) (sys_sleep n)"
    using outside_before [of S] by (auto simp: preserves_def sys_sleep_def Let_def outside_def)
qed

lemma outside_derived_reads:
  "preserves (outside S) (sys_exists p)" "preserves (outside S) (sys_is_file p)"
  "preserves (outside S) (sys_is_dir p)" "preserves (outside S) (sys_fstat p)"
  "preserves (outside S) (sys_read_to_string p)" "preserves (outside S) (sync_directory p)"
  "preserves (outside S) (env_var n)"
  unfolding sys_exists_def sys_is_file_def sys_is_dir_def sys_fstat_def sys_read_to_string_def
    sync_directory_def env_var_def
  by (intro outside.combinators outside_reads)+

lemma outside_writes:
  assumes "p \<in> S"
  shows "preserves (outside S) (sys_create_new p m)" "preserves (outside S) (sys_open_create p m b)"
    "preserves (outside S) (sys_unlink p)" "preserves (outside S) (sys_mkdir p)"
    "preserves (outside S) (sys_write p d)" "preserves (outside S) (sys_link q p)"
    "q \<in> S \<Longrightarrow> preserves (outside S) (sys_rename q p)"
proof -
  show "preserves (outside S) (sys_create_new p m)" "preserves (outside S) (sys_open_create p m b)"
    "preserves (outside S) (sys_unlink p)" "preserves (outside S) (sys_mkdir p)"
    "preserves (outside S) (sys_link q p)"
    "q \<in> S \<Longrightarrow> preserves (outside S) (sys_rename q p)"
    unfolding sys_create_new_def sys_open_create_def sys_unlink_def sys_mkdir_def sys_link_def
      sys_rename_def
    by (rule outside.syscall; use assms in \<open>auto simp: outside_step
          intro: outside_trans [OF outside_del outside_put]
          split: option.splits sum.splits node.splits\<close>)+
  show "preserves (outside S) (sys_write p d)"
    using assms
    by (auto simp: preserves_def sys_write_def Let_def split: option.splits
        intro: outside_trans outside_before outside_append)
qed

lemma outside_symlink: "p \<in> S \<Longrightarrow> preserves (outside S) (sys_symlink x p)"
  unfolding sys_symlink_def by (rule outside.syscall; simp add: outside_step)

lemma outside_meta:
  "preserves (outside S) (sys_chmod p m)" "preserves (outside S) (sys_chown p u g)"
  unfolding sys_chmod_def sys_chown_def
  by (rule outside.syscall; auto simp: outside_refl outside_put_node split: option.splits sum.splits)+

lemma outside_remove_dir_all:
  assumes "\<And>q. prefix p q \<Longrightarrow> q \<in> S"
  shows "preserves (outside S) (sys_remove_dir_all p)"
proof -
  have "p \<in> S" using assms by simp
  with assms show ?thesis
    by (auto simp: preserves_def sys_remove_dir_all_def Let_def split: option.splits node.splits
        intro: outside_before outside_trans [OF outside_before outside_remove_tree]
          outside_trans [OF outside_before outside_del])
qed

lemma outside_create_dir_all:
  assumes "\<And>q. prefix q p \<Longrightarrow> q \<in> S"
  shows "preserves (outside S) (sys_create_dir_all p)"
proof -
  have "(\<And>q. prefix q (rev r) \<Longrightarrow> q \<in> S) \<Longrightarrow> preserves (outside S) (create_dir_all_rev r)" for r
  proof (induction r)
    case Nil
    then show ?case by (simp add: outside.ret)
  next
    case (Cons n r)
    have "prefix q (rev r) \<Longrightarrow> q \<in> S" for q
      using Cons.prems [of q] by simp
    note IH = Cons.IH [OF this]
    show ?case
      using Cons.prems [of "rev (n # r)"]
      unfolding create_dir_all_rev.simps mkdir_or_dir_def
      by (intro outside.combinators IH outside_writes outside_derived_reads) simp_all
  qed
  from this [of "rev p"] assms show ?thesis by (simp add: sys_create_dir_all_def)
qed

subsection \<open>Before a call\<close>

lemma before_listening [simp]: "listening (before_call s) = listening s"
proof -
  have "listening (fold apply_event es s) = listening s" for es s
    by (induction es arbitrary: s) auto
  then show ?thesis by (simp add: before_call_def)
qed

lemma before_fs_get [simp]:
  "p \<notin> listening s \<Longrightarrow> fs_get (files (before_call s)) p = fs_get (files s) p"
  using outside_before [of "{}" s] by (simp add: outside_def)

text \<open>Without a schedule nothing happens between the calls and none fails.\<close>

lemma quiet_before [simp]: "sched s = [] \<Longrightarrow> before_call s = s"
  by (simp add: before_call_def next_slot_def idle_slot_def)

lemma quiet_fault [simp]: "sched s = [] \<Longrightarrow> sl_fault (next_slot s) = None"
  by (simp add: next_slot_def idle_slot_def)

lemma quiet_syscall [simp]: "sched s = [] \<Longrightarrow> syscall act s = act s"
  by (simp add: syscall_def)

subsection \<open>Paths without links\<close>

text \<open>Every directory on the way to \<open>p\<close>, and \<open>p\<close> itself, is a directory and not a link to one.\<close>

definition real_dir :: "files \<Rightarrow> path \<Rightarrow> bool" where
  "real_dir fs p = (\<forall>q. prefix q p \<longrightarrow> fs_get fs q = Some Dir)"

lemma walk_append_real:
  "\<forall>q. prefix q ns \<longrightarrow> fs_get fs (d @ q) = Some Dir \<Longrightarrow>
     walk fs b d (map Normal ns @ r) = walk fs b (d @ ns) r"
proof (induction ns arbitrary: d)
  case Nil
  then show ?case by simp
next
  case (Cons n ns)
  from Cons.prems have n: "fs_get fs (d @ [n]) = Some Dir"
    by (metis append_Cons append_Nil prefix_def)
  have "\<forall>q. prefix q ns \<longrightarrow> fs_get fs ((d @ [n]) @ q) = Some Dir"
    using Cons.prems by (auto dest: spec [where x = "n # q" for q])
  from Cons.IH [OF this] n show ?case by simp
qed

lemma resolve_real:
  assumes "real_dir fs p" and "fs_get fs (p @ [n]) = Some k" and "\<forall>t. k \<noteq> Link t"
  shows "resolve fs (p @ [n]) = Inr (p @ [n])"
proof -
  have "walk fs 40 [] (map Normal p @ [Normal n]) = walk fs 40 p [Normal n]"
    using walk_append_real [of p fs "[]" 40 "[Normal n]"] assms(1) by (simp add: real_dir_def)
  with assms(2,3) show ?thesis
    by (cases k) (simp_all add: resolve_def)
qed

lemma resolve_real_dir: "real_dir fs p \<Longrightarrow> resolve fs p = Inr p"
  using walk_append_real [of p fs "[]" 40 "[]"] by (simp add: real_dir_def resolve_def)

lemma real_dir_outside:
  assumes "outside S s t" and "real_dir (files s) p"
    and "\<forall>q. prefix q p \<longrightarrow> q \<notin> S \<and> q \<notin> listening s"
  shows "real_dir (files t) p"
  using assms by (simp add: real_dir_def outside_def)

text \<open>What a path resolves to depends on what is at each path only.\<close>

lemma walk_cong: "(\<And>p. fs_get f p = fs_get g p) \<Longrightarrow> walk f b d r = walk g b d r"
  by (induction f b d r rule: walk.induct) (simp_all split: option.splits node.splits nat.splits)

lemma resolve_unchanged:
  assumes "outside {} s t" and "listening s = {}"
  shows "resolve (files t) p = resolve (files s) p"
  using assms walk_cong [of "files t" "files s"] by (simp add: resolve_def outside_def)

lemma outside_empty_listening: "outside {} s t \<Longrightarrow> listening t = listening s"
  by (auto simp: outside_def)

text \<open>What a successful read has seen.\<close>

lemma sys_canonicalize_Ok:
  "sys_canonicalize p s = (Inr q, t) \<longleftrightarrow> sl_fault (next_slot s) = None
     \<and> resolve (files (before_call s)) p = Inr q \<and> t = before_call s"
  by (auto simp: sys_canonicalize_def syscall_Ok split: sum.splits)

lemma sys_read_Ok:
  assumes "sys_read p s = (Ok v, t)" and "listening s = {}"
  shows "fs_get (files s) p = Some (File v)"
proof -
  have "fs_get (files (before_call s)) p = Some (File v)"
    using assms(1)
    by (auto simp: sys_read_def syscall_Ok entry_at_def fs_get_def root_entry_def
        split: option.splits node.splits if_splits)
  with assms(2) show ?thesis by simp
qed

lemma sys_open_Ok:
  assumes "sys_open p s = (Ok q, t)" and "listening s = {}"
  shows "resolve (files s) p = Inr q \<and> t = before_call s"
proof -
  have "resolve (files (before_call s)) p = Inr q" "t = before_call s"
    using assms(1) by (auto simp: sys_open_def syscall_Ok split: sum.splits option.splits)
  with resolve_unchanged [OF outside_before assms(2)] show ?thesis by simp
qed

lemma read_to_string_Ok:
  assumes "sys_read_to_string p s = (Ok v, t)" and "listening s = {}"
  shows "\<exists>q. resolve (files s) p = Inr q \<and> fs_get (files s) q = Some (File v)"
proof -
  from assms(1) obtain q s' where open_q: "sys_open p s = (Ok q, s')" and read: "sys_read q s' = (Ok v, t)"
    by (auto simp: sys_read_to_string_def io_Ok split: if_splits)
  have "resolve (files s) p = Inr q" and s': "s' = before_call s"
    using sys_open_Ok [OF open_q assms(2)] by simp_all
  moreover have "fs_get (files s) q = Some (File v)"
    using sys_read_Ok [OF read] assms(2) by (simp add: s')
  ultimately show ?thesis by blast
qed

text \<open>Where a resolved path leads: every directory on the way is a real one.\<close>

lemma fs_get_Nil [simp]: "fs_get fs [] = Some Dir"
  by (simp add: fs_get_def)

lemma real_dir_butlast: "real_dir fs p \<Longrightarrow> real_dir fs (butlast p)"
  by (auto simp: real_dir_def intro: prefix_order.trans prefixeq_butlast)

lemma real_dir_snoc: "real_dir fs p \<Longrightarrow> fs_get fs (p @ [n]) = Some Dir \<Longrightarrow> real_dir fs (p @ [n])"
  by (auto simp: real_dir_def)

lemma walk_real:
  assumes "walk fs b d r = Inr q" and "real_dir fs d"
  shows "real_dir fs q
    \<or> (\<exists>e n. q = e @ [n] \<and> real_dir fs e \<and> (\<exists>k. fs_get fs q = Some k \<and> (\<forall>t. k \<noteq> Link t)))"
  using assms
  by (induction fs b d r rule: walk.induct)
    (auto intro: real_dir_butlast real_dir_snoc simp: real_dir_def [of _ "[]"]
      split: option.splits node.splits nat.splits if_splits)

lemma resolve_real_place:
  "resolve fs p = Inr q \<Longrightarrow> real_dir fs (butlast q) \<and> (\<exists>k. fs_get fs q = Some k \<and> (\<forall>t. k \<noteq> Link t))"
  using walk_real [of fs 40 "[]" "map Normal p" q] real_dir_butlast [of fs q]
  by (auto simp: resolve_def real_dir_def [of _ "[]"]) (auto simp: real_dir_def)

subsection \<open>A concrete system\<close>

text \<open>A quiet system with the given files, for concrete runs.\<close>

definition demo_os :: "files \<Rightarrow> os" where
  "demo_os fs =
     \<lparr>files = fs, procs = (\<lambda>_. None), next_stamp = 0, clock = 0,
      boot_id = ''b'' @ [CHR 0x0A], has_pidfd = True, env_vars = (\<lambda>_. None), euid = 1000,
      self_pid = 1, uuid_src = of_nat, uuid_next = 0, signals = [], spawned = [], listening = {},
      agent_proxy = None, arg_max = 2097152, sched = []\<rparr>"

definition private_dir :: entry where
  "private_dir = \<lparr>e_node = Dir, e_mode = 448, e_uid = 1000, e_gid = 1000, e_dev = 1, e_ino = 1,
     e_nlink = 1\<rparr>"

text \<open>Unfolding a computation call by call.\<close>

lemmas io_run = bnd_def thn_def ret_def fail_def lift_r_def attempt_def io_ensure_def on_error_def
  get_os_def new_uuid_def sys_lstat_def sys_canonicalize_def sys_metadata_def sys_exists_def
  sys_is_file_def sys_is_dir_def sys_open_nofollow_def sys_open_def sys_read_def sys_fstat_def
  sys_read_to_string_def sys_create_new_def sys_open_create_def sys_write_def sys_nop_def
  sync_directory_def sys_rename_def sys_link_def sys_unlink_def sys_mkdir_def mkdir_or_dir_def
  sys_create_dir_all_def sys_chmod_def sys_chown_def sys_remove_dir_all_def sys_now_def sys_sleep_def
  put_entry_def del_entry_def append_file_def is_dir_at_def entry_at_def new_entry_def
  resolve_def fs_get_def is_regular_def env_var_def remove_tree_def

end
