(* ===== verification/Protocol.thy ===== *)
theory Protocol
  imports RustText
begin

text \<open>
  \<open>crates/spawnr-protocol/src/lib.rs\<close>: the messages host and guest exchange and the two framings of
  the byte stream between them. The JSON text of a message is \<open>serde_json\<close>'s, a parameter
  \<open>to_vec\<close>/\<open>from_slice\<close> of the functions that frame it. A reader is the bytes still to come, a writer
  the bytes it is given.
\<close>

section \<open>Messages\<close>

definition CONTROL_PORT :: nat where "CONTROL_PORT = 19870"
definition SSH_AGENT_PORT :: nat where "SSH_AGENT_PORT = 19871"
definition MAX_CONTROL_FRAME :: nat where "MAX_CONTROL_FRAME = 8 * 1024 * 1024"
definition PROTOCOL_VERSION :: nat where "PROTOCOL_VERSION = 1"

record session_config =
  git_user_name :: "string option"
  git_user_email :: "string option"
  git_signing_key :: "string option"
  gh_token :: "string option"
  ssh_known_hosts :: "string option"
  ssh_agent :: bool
  image_env :: "string list"

text \<open>
  The fields, in the order of the source: \<open>CloneRepository\<close> repository and destination; \<open>Exec\<close> argv,
  working directory, environment, terminal flag, rows and columns; \<open>WorkspaceStatus\<close> the path;
  \<open>HealthReply\<close> protocol, machine name, workspace mounted; \<open>CommandResult\<close> exit code, standard output
  and error; \<open>WorkspaceStatusReply\<close> clean and the porcelain text. \<open>OkReply\<close>, \<open>HealthReply\<close>,
  \<open>WorkspaceStatusReply\<close> and \<open>ErrorReply\<close> are \<open>Response::Ok\<close>, \<open>Health\<close>, \<open>WorkspaceStatus\<close> and \<open>Error\<close>.
\<close>

datatype request =
    Health
  | ConfigureSession session_config
  | CloneRepository string string
  | Exec "string list" "string option" "(string, string) btree_map" bool "16 word" "16 word"
  | WorkspaceStatus string
  | Shutdown

datatype response =
    HealthReply nat string bool
  | OkReply string
  | CommandResult int string string
  | WorkspaceStatusReply bool string
  | ExecReady
  | ErrorReply string

datatype stream_kind = Stdin | Stdout | Stderr | Resize | Signal | Exit

fun kind_byte :: "stream_kind \<Rightarrow> nat" where
  "kind_byte Stdin = 0"
| "kind_byte Stdout = 1"
| "kind_byte Stderr = 2"
| "kind_byte Resize = 3"
| "kind_byte Signal = 4"
| "kind_byte Exit = 5"

definition kind_try_from :: "nat \<Rightarrow> stream_kind result" where
  "kind_try_from v =
     (if v = 0 then Ok Stdin else if v = 1 then Ok Stdout else if v = 2 then Ok Stderr
      else if v = 3 then Ok Resize else if v = 4 then Ok Signal else if v = 5 then Ok Exit
      else bail ''unknown stream frame kind'')"

section \<open>Framing\<close>

text \<open>\<open>Read::read_exact\<close>: the next \<open>n\<close> bytes and what is left.\<close>

definition read_exact :: "nat \<Rightarrow> string \<Rightarrow> (string \<times> string) result" where
  "read_exact n inp =
     (if n \<le> length inp then Ok (take n inp, drop n inp) else Inl (Io EUNEXPECTEDEOF))"

definition write_json :: "('a \<Rightarrow> string) \<Rightarrow> 'a \<Rightarrow> string result" where
  "write_json to_vec v =
     (let data = to_vec v
      in if length data > MAX_CONTROL_FRAME then bail ''control message is too large''
         else Ok (be_bytes 4 (length data) @ data))"

definition read_json :: "(string \<Rightarrow> 'a option) \<Rightarrow> string \<Rightarrow> ('a \<times> string) result" where
  "read_json from_slice inp =
     rbind (read_exact 4 inp) (\<lambda>(hdr, rest).
       let n = be_value hdr
       in if n > MAX_CONTROL_FRAME then bail ''peer sent an oversized control frame''
          else rbind (read_exact n rest) (\<lambda>(data, rest').
            some_or (from_slice data) ''decode control message'' (\<lambda>v. Ok (v, rest'))))"

definition write_stream_frame :: "stream_kind \<Rightarrow> string \<Rightarrow> string result" where
  "write_stream_frame k payload =
     (if length payload > MAX_CONTROL_FRAME then bail ''stream frame is too large''
      else Ok (char_of (kind_byte k) # be_bytes 4 (length payload) @ payload))"

definition read_stream_frame :: "string \<Rightarrow> ((stream_kind \<times> string) \<times> string) result" where
  "read_stream_frame inp =
     rbind (read_exact 5 inp) (\<lambda>(hdr, rest).
       rbind (kind_try_from (byte (hdr ! 0))) (\<lambda>k.
         let n = be_value (drop 1 hdr)
         in if n > MAX_CONTROL_FRAME then bail ''peer sent an oversized stream frame''
            else rbind (read_exact n rest) (\<lambda>(payload, rest'). Ok ((k, payload), rest'))))"

text \<open>
  What a peer that sends several frames puts on the wire, and the loop of a receiver that reads
  frames until the stream ends (\<open>relay_pty\<close> and \<open>interactive_exec\<close> read one frame per turn).
\<close>

fun send_frames :: "(stream_kind \<times> string) list \<Rightarrow> string result" where
  "send_frames [] = Ok []"
| "send_frames ((k, p) # fs) =
     rbind (write_stream_frame k p) (\<lambda>a. rbind (send_frames fs) (\<lambda>b. Ok (a @ b)))"

fun receive_frames :: "nat \<Rightarrow> string \<Rightarrow> (stream_kind \<times> string) list result" where
  "receive_frames 0 inp = Ok []"
| "receive_frames (Suc n) inp =
     (if inp = [] then Ok []
      else rbind (read_stream_frame inp) (\<lambda>(f, rest).
        rbind (receive_frames n rest) (\<lambda>fs. Ok (f # fs))))"

section \<open>Facts\<close>

lemma read_exact_append: "read_exact (length a) (a @ b) = Ok (a, b)"
  by (simp add: read_exact_def)

lemma read_exact_Ok: "read_exact n inp = Ok (a, b) \<longleftrightarrow> inp = a @ b \<and> length a = n"
  by (auto simp: read_exact_def)

lemma kind_roundtrip [simp]: "kind_try_from (kind_byte k) = Ok k"
  by (cases k) (simp_all add: kind_try_from_def)

lemma kind_byte_less: "kind_byte k < 6"
  by (cases k) simp_all

lemma kind_try_from_Ok: "kind_try_from v = Ok k \<longleftrightarrow> v = kind_byte k"
  by (cases k) (auto simp: kind_try_from_def)

lemma max_frame_fits: "n \<le> MAX_CONTROL_FRAME \<Longrightarrow> n < 256 ^ 4"
  by (simp add: MAX_CONTROL_FRAME_def)

lemma write_stream_frame_Ok:
  "write_stream_frame k p = Ok w \<longleftrightarrow>
     length p \<le> MAX_CONTROL_FRAME \<and> w = char_of (kind_byte k) # be_bytes 4 (length p) @ p"
  by (auto simp: write_stream_frame_def)

lemma read_stream_frame_append:
  assumes "length p \<le> MAX_CONTROL_FRAME"
  shows "read_stream_frame (char_of (kind_byte k) # be_bytes 4 (length p) @ p @ rest)
    = Ok ((k, p), rest)"
proof -
  let ?hdr = "char_of (kind_byte k) # be_bytes 4 (length p)"
  have "read_exact 5 (?hdr @ p @ rest) = Ok (?hdr, p @ rest)"
    by (simp add: read_exact_Ok)
  moreover have "kind_byte k mod 256 = kind_byte k"
    using kind_byte_less [of k] by simp
  ultimately show ?thesis
    using assms be_value_be_bytes [OF max_frame_fits [OF assms]]
    by (simp add: read_stream_frame_def read_exact_append)
qed

lemma read_stream_frame_shorter:
  "read_stream_frame inp = Ok (f, rest) \<Longrightarrow> length rest < length inp"
  by (auto simp: read_stream_frame_def read_exact_Ok Let_def split: if_splits)

lemma send_frames_Ok:
  "send_frames fs = Ok w \<Longrightarrow> receive_frames (Suc (length fs)) w = Ok fs"
proof (induction fs arbitrary: w)
  case Nil
  then show ?case by simp
next
  case (Cons f fs)
  obtain k p where f: "f = (k, p)" by fastforce
  from Cons.prems f obtain b where len: "length p \<le> MAX_CONTROL_FRAME" and b: "send_frames fs = Ok b"
    and w: "w = char_of (kind_byte k) # be_bytes 4 (length p) @ p @ b"
    by (auto simp: write_stream_frame_Ok)
  have "receive_frames (Suc (Suc (length fs))) w = rbind (read_stream_frame w) (\<lambda>(f, rest).
      rbind (receive_frames (Suc (length fs)) rest) (\<lambda>fs. Ok (f # fs)))"
    using w by simp
  also have "\<dots> = Ok ((k, p) # fs)"
    using read_stream_frame_append [OF len, of k b] Cons.IH [OF b] w by simp
  finally show ?case using f by simp
qed

lemma send_frames_defined: "(\<exists>w. send_frames fs = Ok w) \<longleftrightarrow> (\<forall>f \<in> set fs. length (snd f) \<le> MAX_CONTROL_FRAME)"
  by (induction fs rule: send_frames.induct) (auto simp: write_stream_frame_Ok)



text \<open>C39: Control messages survive the wire and oversized ones never pass: what \<open>write_json\<close> accepts is at
  most 8 MiB and \<open>read_json\<close> gives the same message back, leaving the bytes that follow; a header that
  announces more than 8 MiB is refused before a byte of the body is read.\<close>

theorem control_frame_roundtrip:
  assumes "\<forall>x. from_slice (to_vec x) = Some x"
  shows "(\<forall>w. write_json to_vec v = Ok w \<longrightarrow>
        length w \<le> MAX_CONTROL_FRAME + 4 \<and> read_json from_slice (w @ rest) = Ok (v, rest))
    \<and> (\<forall>n. MAX_CONTROL_FRAME < n \<and> n < 2 ^ 32 \<longrightarrow>
        read_json from_slice (be_bytes 4 n @ rest) = bail ''peer sent an oversized control frame'')"
proof (intro conjI allI impI)
  fix w assume "write_json to_vec v = Ok w"
  then have w: "w = be_bytes 4 (length (to_vec v)) @ to_vec v" "length (to_vec v) \<le> MAX_CONTROL_FRAME"
    by (auto simp: write_json_def Let_def split: if_splits)
  then show "length w \<le> MAX_CONTROL_FRAME + 4" by simp
  have "read_exact 4 (w @ rest) = Ok (be_bytes 4 (length (to_vec v)), to_vec v @ rest)"
    by (simp add: w(1) read_exact_Ok)
  then show "read_json from_slice (w @ rest) = Ok (v, rest)"
    using w(2) assms be_value_be_bytes [OF max_frame_fits [OF w(2)]]
    by (simp add: read_json_def read_exact_append)
next
  fix n assume n: "MAX_CONTROL_FRAME < n \<and> n < 2 ^ 32"
  then have "be_value (be_bytes 4 n) = n" by (intro be_value_be_bytes) simp
  moreover have "read_exact 4 (be_bytes 4 n @ rest) = Ok (be_bytes 4 n, rest)"
    by (simp add: read_exact_Ok)
  ultimately show "read_json from_slice (be_bytes 4 n @ rest) = bail ''peer sent an oversized control frame''"
    using n by (simp add: read_json_def)
qed

theorem control_frame_roundtrip_witness:
  "read_json Some (be_bytes 4 2 @ ''{}'' @ ''x'') = Ok (''{}'', ''x'')"
proof -
  have "write_json (\<lambda>x. x) ''{}'' = Ok (be_bytes 4 2 @ ''{}'')"
    by (simp add: write_json_def MAX_CONTROL_FRAME_def numeral_2_eq_2)
  with control_frame_roundtrip [of Some "\<lambda>x. x" "''{}''" "''x''"] show ?thesis by simp
qed

end
