(* ===== verification/GuestSession.thy ===== *)
theory GuestSession
  imports OsModel Protocol
begin

text \<open>
  \<open>crates/spawnr-agent/src/session.rs\<close>, with the helpers of \<open>lib.rs\<close>, \<open>account.rs\<close> and
  \<open>agent_proxy.rs\<close> it calls: what the guest agent stores of a session (the Git configuration, the
  GitHub token, the known hosts and the image's environment, all in a directory on tmpfs) and the
  environment a guest command is given from it.
\<close>

section \<open>Constants and helpers\<close>

definition GIT_CONFIG_FILE :: string where "GIT_CONFIG_FILE = ''gitconfig''"
definition GH_TOKEN_FILE :: string where "GH_TOKEN_FILE = ''gh-token''"
definition IMAGE_ENV_FILE :: string where "IMAGE_ENV_FILE = ''image-env0''"
definition SSH_AGENT_SOCKET :: string where "SSH_AGENT_SOCKET = ''ssh-agent.sock''"
definition SSH_KNOWN_HOSTS_FILE :: string where "SSH_KNOWN_HOSTS_FILE = ''ssh-known-hosts''"
definition MAX_ENVIRONMENT_ITEMS :: nat where "MAX_ENVIRONMENT_ITEMS = 512"
definition MAX_ENVIRONMENT_BYTES :: nat where "MAX_ENVIRONMENT_BYTES = 1024 * 1024"
definition MAX_IMAGE_ENV_FILE_BYTES :: nat where
  "MAX_IMAGE_ENV_FILE_BYTES = MAX_ENVIRONMENT_BYTES + MAX_ENVIRONMENT_ITEMS"

abbreviation NUL :: char where "NUL \<equiv> CHR 0x00"

record user =
  u_name :: string
  u_uid :: nat
  u_gid :: nat
  u_home :: string
  u_shell :: string

text \<open>\<open>write_private\<close> of \<open>lib.rs\<close>: through a temporary file beside the destination.\<close>

definition write_private :: "path \<Rightarrow> string \<Rightarrow> nat \<Rightarrow> unit io" where
  "write_private p contents m =
     (case parent p of
        None \<Rightarrow> fail (Bail ''session file has no parent'')
      | Some d \<Rightarrow>
          (let temporary = d @ [''.'' @ file_name p @ ''.tmp'']
           in thn (attempt (sys_unlink temporary))
              (thn (sys_create_new temporary m)
              (thn (sys_write temporary contents)
              (thn sys_nop
              (sys_rename temporary p))))))"

definition chown_user :: "path \<Rightarrow> user \<Rightarrow> unit io" where
  "chown_user p u = sys_chown p (u_uid u) (u_gid u)"

section \<open>Validation\<close>

definition valid_image_environment_name :: "string \<Rightarrow> bool" where
  "valid_image_environment_name nm = (nm \<noteq> [] \<and> CHR ''='' \<notin> set nm \<and> NUL \<notin> set nm)"

definition valid_environment_name :: "string \<Rightarrow> bool" where
  "valid_environment_name nm =
     (nm \<noteq> [] \<and> \<not> is_ascii_digit (nm ! 0)
      \<and> list_all (\<lambda>b. b = CHR ''_'' \<or> is_ascii_alphanumeric b) nm)"

definition validate_known_hosts :: "string option \<Rightarrow> unit result" where
  "validate_known_hosts value =
     (case value of None \<Rightarrow> Ok ()
      | Some v \<Rightarrow>
          ensure (v \<noteq> []) ''SSH known-hosts must not be empty''
          (ensure (length v \<le> 1024 * 1024) ''SSH known-hosts exceeds 1 MiB''
          (ensure (NUL \<notin> set v \<and> CHR 0x0D \<notin> set v
              \<and> list_all (\<lambda>l. length l \<le> 64 * 1024) (str_lines v))
            ''SSH known-hosts contains an invalid record'' (Ok ()))))"

definition validate_optional :: "string option \<Rightarrow> nat \<Rightarrow> unit result" where
  "validate_optional value maximum =
     (case value of None \<Rightarrow> Ok ()
      | Some v \<Rightarrow>
          ensure (v \<noteq> []) ''must not be empty''
          (ensure (length v \<le> maximum) ''exceeds its limit''
          (ensure (\<not> list_ex (\<lambda>c. c = 0 \<or> is_control c) (str_chars v))
            ''contains a control character'' (Ok ()))))"

text \<open>\<open>quote_git_config\<close>: the two special characters are ASCII, so the text is rewritten bytewise.\<close>

definition quote_char :: "char \<Rightarrow> string" where
  "quote_char c =
     (if c = CHR 0x5C then [CHR 0x5C, CHR 0x5C] else if c = CHR 0x22 then [CHR 0x5C, CHR 0x22]
      else [c])"

definition quote_git_config :: "string \<Rightarrow> string" where
  "quote_git_config v = [CHR 0x22] @ concat (map quote_char v) @ [CHR 0x22]"

section \<open>The image's environment\<close>

text \<open>The loop: the bytes so far, the map so far, the entries left.\<close>

fun parse_entries ::
    "nat \<Rightarrow> (string, string) btree_map \<Rightarrow> string list \<Rightarrow> (string, string) btree_map result" where
  "parse_entries used environment [] = Ok environment"
| "parse_entries used environment (entry # entries) =
     some_or (checked_add used (saturating_add (length entry) 1))
       ''OCI image environment size overflow'' (\<lambda>used'.
     ensure (used' \<le> MAX_ENVIRONMENT_BYTES) ''OCI image environment is too large''
     (case split_once CHR ''='' entry of
        None \<Rightarrow> bail ''OCI image environment entry has no =''
      | Some (nm, value) \<Rightarrow>
          ensure (valid_image_environment_name nm)
            ''OCI image environment entry has an invalid variable name''
          (ensure (NUL \<notin> set value) ''OCI image environment entry contains NUL''
          (parse_entries used' (bt_insert nm value environment) entries))))"

definition parse_image_environment :: "string list \<Rightarrow> (string, string) btree_map result" where
  "parse_image_environment entries =
     ensure (length entries \<le> MAX_ENVIRONMENT_ITEMS)
       ''OCI image has too many environment variables'' (parse_entries 0 [] entries)"

definition encode_image_environment :: "string list \<Rightarrow> string result" where
  "encode_image_environment entries =
     rbind (parse_image_environment entries) (\<lambda>_. Ok (concat (map (\<lambda>e. e @ [NUL]) entries)))"

definition decode_image_environment :: "string \<Rightarrow> (string, string) btree_map result" where
  "decode_image_environment contents =
     (if contents = [] then Ok []
      else ensure (last contents = NUL) ''image environment is not NUL-terminated''
        (rbind (collect_results (map (\<lambda>e.
             if valid_utf8 e then Ok e else bail ''image environment entry is not UTF-8'')
           (split_on (\<lambda>c. c = NUL) (butlast contents))))
         parse_image_environment))"

section \<open>Configuring a session\<close>

definition git_config_text :: "session_config \<Rightarrow> string" where
  "git_config_text c =
     ''[user]'' @ [CHR 0x0A, CHR 0x09] @ ''useConfigOnly = true'' @ [CHR 0x0A]
     @ (case git_user_name c of None \<Rightarrow> []
        | Some n \<Rightarrow> [CHR 0x09] @ ''name = '' @ quote_git_config n @ [CHR 0x0A])
     @ (case git_user_email c of None \<Rightarrow> []
        | Some e \<Rightarrow> [CHR 0x09] @ ''email = '' @ quote_git_config e @ [CHR 0x0A])
     @ (case git_signing_key c of None \<Rightarrow> []
        | Some k \<Rightarrow> [CHR 0x09] @ ''signingKey = '' @ quote_git_config k @ [CHR 0x0A]
            @ ''[gpg]'' @ [CHR 0x0A, CHR 0x09] @ ''format = ssh'' @ [CHR 0x0A])"

definition write_git_config :: "path \<Rightarrow> user \<Rightarrow> session_config \<Rightarrow> unit io" where
  "write_git_config session_dir u c =
     (let p = session_dir @ [GIT_CONFIG_FILE]
      in thn (write_private p (git_config_text c) 384) (chown_user p u))"

definition replace_secret :: "path \<Rightarrow> user \<Rightarrow> string option \<Rightarrow> unit io" where
  "replace_secret p u value =
     (case value of
        Some v \<Rightarrow> thn (write_private p v 384) (chown_user p u)
      | None \<Rightarrow> bnd (attempt (sys_unlink p)) (\<lambda>r.
          case r of Inr _ \<Rightarrow> ret () | Inl e \<Rightarrow> if e = Io ENOENT then ret () else fail e))"

text \<open>
  \<open>agent_proxy::set_enabled\<close>: the proxy of the process is started once, on one socket; afterwards
  only its flag changes.
\<close>

definition sys_bind :: "path \<Rightarrow> unit io" where
  "sys_bind p = syscall (\<lambda>s.
     if p = [] \<or> files s p \<noteq> None then (Inl (Io EEXIST), s)
     else if \<not> is_dir_at s (butlast p) then (Inl (Io ENOENT), s)
     else (Ok (), put_entry p (new_entry s Sock 493) s))"

definition secure_socket_permissions :: "path \<Rightarrow> user \<Rightarrow> unit io" where
  "secure_socket_permissions p u = thn (sys_chmod p 384) (chown_user p u)"

definition proxy_start :: "path \<Rightarrow> user \<Rightarrow> unit io" where
  "proxy_start p u =
     bnd (attempt (sys_lstat p)) (\<lambda>r.
     thn (case r of
            Inr e \<Rightarrow> if e_node e = Sock then sys_unlink p
              else fail (Bail ''refusing to replace non-socket session path'')
          | Inl e \<Rightarrow> if e = Io ENOENT then ret () else fail e)
     (thn (sys_bind p)
     (thn (secure_socket_permissions p u)
     (\<lambda>s. (Ok (), s\<lparr>agent_proxy := Some (p, False)\<rparr>)))))"

definition set_enabled :: "path \<Rightarrow> user \<Rightarrow> bool \<Rightarrow> unit io" where
  "set_enabled p u enabled =
     bnd (get_os agent_proxy) (\<lambda>pr.
     thn (case pr of
            Some (q, _) \<Rightarrow> io_ensure (q = p)
              ''SSH-agent proxy was initialized at a different session path'' (ret ())
          | None \<Rightarrow> proxy_start p u)
     (\<lambda>s. (Ok (), s\<lparr>agent_proxy := Some (p, enabled)\<rparr>)))"

definition proxy_enabled :: "os \<Rightarrow> bool" where
  "proxy_enabled s = (case agent_proxy s of Some (_, b) \<Rightarrow> b | None \<Rightarrow> False)"

text \<open>
  \<open>configure\<close>; \<open>tmpfs_check\<close> is \<open>mount::assert_session_is_tmpfs\<close>, modelled in \<open>GuestMount\<close>.
\<close>

definition configure :: "(path \<Rightarrow> unit io) \<Rightarrow> path \<Rightarrow> user \<Rightarrow> session_config \<Rightarrow> string io" where
  "configure tmpfs_check session_dir u c =
     thn (tmpfs_check session_dir)
     (thn (lift_r (validate_optional (git_user_name c) 1024))
     (thn (lift_r (validate_optional (git_user_email c) 1024))
     (thn (lift_r (validate_optional (git_signing_key c) (16 * 1024)))
     (thn (lift_r (validate_optional (gh_token c) (64 * 1024)))
     (thn (lift_r (validate_known_hosts (ssh_known_hosts c)))
     (bnd (lift_r (encode_image_environment (image_env c))) (\<lambda>image_environment.
      thn (write_git_config session_dir u c)
      (thn (replace_secret (session_dir @ [GH_TOKEN_FILE]) u (gh_token c))
      (thn (replace_secret (session_dir @ [SSH_KNOWN_HOSTS_FILE]) u (ssh_known_hosts c))
      (thn (write_private (session_dir @ [IMAGE_ENV_FILE]) image_environment 384)
      (thn (chown_user (session_dir @ [IMAGE_ENV_FILE]) u)
      (thn (set_enabled (session_dir @ [SSH_AGENT_SOCKET]) u (ssh_agent c))
      (ret ''session capabilities configured in ephemeral tmpfs'')))))))))))))"

section \<open>The environment of a command\<close>

text \<open>The environment of a \<open>Command\<close> after \<open>env_clear\<close>: the variables set, by name.\<close>

type_synonym environment = "(string, string) btree_map"

definition git_ssh_command :: "path \<Rightarrow> string" where
  "git_ssh_command known_hosts =
     ''ssh -o BatchMode=yes -o StrictHostKeyChecking=yes -o GlobalKnownHostsFile=/dev/null -o UserKnownHostsFile=''
     @ display known_hosts"

text \<open>The token file's content; only its absence is no token.\<close>

definition read_token :: "path \<Rightarrow> string option io" where
  "read_token token =
     bnd (attempt (sys_read_to_string token)) (\<lambda>r.
       case r of
         Inr value \<Rightarrow> ret (Some value)
       | Inl e \<Rightarrow> if e = Io ENOENT then ret None else fail e)"

text \<open>
  \<open>apply_environment\<close>: \<open>command.env\<close> and \<open>command.env_remove\<close> set a variable to a value and to
  nothing.
\<close>

definition apply_environment :: "environment \<Rightarrow> path \<Rightarrow> environment io" where
  "apply_environment env0 session_dir =
     (let env1 = bt_insert ''GIT_CONFIG_GLOBAL'' (display (session_dir @ [GIT_CONFIG_FILE])) env0;
          agent = session_dir @ [SSH_AGENT_SOCKET];
          known_hosts = session_dir @ [SSH_KNOWN_HOSTS_FILE];
          token = session_dir @ [GH_TOKEN_FILE]
      in bnd (sys_exists agent) (\<lambda>there.
         bnd (get_os proxy_enabled) (\<lambda>enabled.
          let env2 = bt_set ''SSH_AUTH_SOCK''
                (if there \<and> enabled then Some (display agent) else None) env1
          in bnd (sys_is_file known_hosts) (\<lambda>have_hosts.
             let env3 = bt_set ''GIT_SSH_COMMAND''
                   (if have_hosts then Some (git_ssh_command known_hosts) else None) env2;
                 env4 = bt_remove ''GITHUB_TOKEN'' env3
             in bnd (read_token token) (\<lambda>gh. ret (bt_set ''GH_TOKEN'' gh env4))))))"

definition image_environment :: "path \<Rightarrow> environment io" where
  "image_environment session_dir =
     (let p = session_dir @ [IMAGE_ENV_FILE]
      in bnd (attempt (sys_open_nofollow p)) (\<lambda>r.
         case r of
           Inl e \<Rightarrow> if e = Io ENOENT then ret [] else fail e
         | Inr _ \<Rightarrow>
             bnd (sys_fstat p) (\<lambda>md.
             io_ensure (case e_node md of File c \<Rightarrow> length c \<le> MAX_IMAGE_ENV_FILE_BYTES | _ \<Rightarrow> False)
               ''invalid image environment file''
             (io_ensure (and (e_mode md) 63 = 0)
               ''image environment file is accessible by another account''
             (bnd (sys_read p) (\<lambda>data.
               let contents = take (MAX_IMAGE_ENV_FILE_BYTES + 1) data
               in io_ensure (length contents \<le> MAX_IMAGE_ENV_FILE_BYTES)
                    ''image environment file grew beyond its size limit''
                    (lift_r (decode_image_environment contents))))))))"

section \<open>Facts: the image's environment\<close>

definition entry_pair :: "string \<Rightarrow> string \<times> string" where
  "entry_pair e = the (split_once CHR ''='' e)"

text \<open>An entry \<open>name=value\<close> without NUL bytes whose name is not empty.\<close>

definition entry_ok :: "string \<Rightarrow> bool" where
  "entry_ok e =
     (\<exists>n v. split_once CHR ''='' e = Some (n, v) \<and> n \<noteq> [] \<and> NUL \<notin> set e)"

definition entries_size :: "string list \<Rightarrow> nat" where
  "entries_size es = sum_list (map (\<lambda>e. length e + 1) es)"

lemma entries_size_simps [simp]:
  "entries_size [] = 0" "entries_size (e # es) = length e + 1 + entries_size es"
  by (simp_all add: entries_size_def)

lemma entry_ok_iff:
  "entry_ok e \<longleftrightarrow> (\<exists>n v. split_once CHR ''='' e = Some (n, v)
     \<and> valid_image_environment_name n \<and> NUL \<notin> set v)"
proof (cases "split_once CHR ''='' e")
  case None
  then show ?thesis by (simp add: entry_ok_def)
next
  case (Some p)
  obtain n v where p: "p = (n, v)" by (cases p)
  with Some have "CHR ''='' \<notin> set n" "NUL \<in> set e \<longleftrightarrow> NUL \<in> set n \<or> NUL \<in> set v"
    by (auto simp: split_once_Some)
  then show ?thesis by (auto simp: entry_ok_def Some p valid_image_environment_name_def)
qed

lemma parse_entries_Ok:
  assumes "t \<le> MAX_ENVIRONMENT_BYTES"
  shows "parse_entries t env es = Ok r \<longleftrightarrow>
     (\<forall>e \<in> set es. entry_ok e) \<and> t + entries_size es \<le> MAX_ENVIRONMENT_BYTES
     \<and> r = bt_extend env (map entry_pair es)"
  using assms
proof (induction es arbitrary: t env)
  case Nil
  then show ?case by auto
next
  case (Cons e es)
  have max: "MAX_ENVIRONMENT_BYTES < 18446744073709551615" by (simp add: MAX_ENVIRONMENT_BYTES_def)
  show ?case
  proof (cases "t + length e + 1 \<le> MAX_ENVIRONMENT_BYTES")
    case True
    then have add: "saturating_add (length e) (Suc 0) = Suc (length e)"
        "t + length e < 18446744073709551615"
      using max by (simp_all add: saturating_add_def)
    show ?thesis
      using Cons.IH [of "t + length e + 1"] True
      by (auto simp: add entry_ok_iff entry_pair_def split: option.splits)
  next
    case False
    then have "MAX_ENVIRONMENT_BYTES < t + saturating_add (length e) (Suc 0)"
      using max by (simp add: saturating_add_def)
    with False show ?thesis by auto
  qed
qed

lemma parse_image_environment_Ok:
  "parse_image_environment es = Ok env \<longleftrightarrow>
     length es \<le> MAX_ENVIRONMENT_ITEMS \<and> (\<forall>e \<in> set es. entry_ok e)
     \<and> entries_size es \<le> MAX_ENVIRONMENT_BYTES \<and> env = bt_extend [] (map entry_pair es)"
  by (simp add: parse_image_environment_def parse_entries_Ok)

text \<open>The guest accepts an image's environment exactly when it has at most 512 entries of together at
  most a mebibyte (counting a terminator each), each a non-empty name, an equals sign and a value
  without NUL; the variables it gives are an ordered map in which the last entry of a name wins.\<close>

theorem image_environment_last_wins:
  "parse_image_environment es = Ok env \<longleftrightarrow>
     length es \<le> MAX_ENVIRONMENT_ITEMS \<and> (\<forall>e \<in> set es. entry_ok e)
     \<and> entries_size es \<le> MAX_ENVIRONMENT_BYTES
     \<and> bt_wf env \<and> bt_get env = map_of (rev (map entry_pair es))"
proof -
  show ?thesis
    unfolding parse_image_environment_Ok
    using bt_ext [of env "bt_extend [] (map entry_pair es)"] bt_wf_extend [of "[]" "map entry_pair es"]
    by (auto simp: bt_get_extend)
qed

text \<open>C27: What the host's session configuration stores is what the guest reads back: encoding the
  entries and decoding the bytes gives the map the entries stand for.\<close>

theorem image_environment_roundtrip:
  assumes "encode_image_environment es = Ok bytes" and "\<forall>e \<in> set es. valid_utf8 e"
  shows "decode_image_environment bytes = parse_image_environment es"
proof (cases "es = []")
  case True
  with assms show ?thesis
    by (simp add: encode_image_environment_def decode_image_environment_def parse_image_environment_def)
next
  case False
  have bytes: "bytes = concat (map (\<lambda>e. e @ [NUL]) es)"
    using assms(1) by (auto simp: encode_image_environment_def)
  have "join_with [NUL] es @ [NUL] = concat (map (\<lambda>e. e @ [NUL]) es)"
    using False by (induction es rule: induct_list012) auto
  then have join: "bytes = join_with [NUL] es @ [NUL]" by (simp add: bytes)
  have nul: "\<forall>e \<in> set es. NUL \<notin> set e"
    using assms(1) by (auto simp: encode_image_environment_def parse_image_environment_Ok entry_ok_def)
  have "split_on (\<lambda>c. c = NUL) (butlast bytes) = es"
    using split_on_join [OF False nul] by (simp add: join)
  moreover have "map (\<lambda>e. if valid_utf8 e then Ok e
      else bail ''image environment entry is not UTF-8'') es = map Inr es"
    using assms(2) by simp
  moreover from this have "collect_results (map (\<lambda>e. if valid_utf8 e then Ok e
      else bail ''image environment entry is not UTF-8'') es) = Ok es"
    by (simp only: collect_results_Inr)
  ultimately show ?thesis
    by (simp add: decode_image_environment_def join)
qed

definition demo_entries :: "string list" where
  "demo_entries = [''PATH=/bin'', ''A=1'', ''A=x=y'']"

theorem image_environment_roundtrip_witness:
  "\<exists>bytes env. encode_image_environment demo_entries = Ok bytes
     \<and> decode_image_environment bytes = Ok env \<and> bt_get env ''A'' = Some ''x=y''"
proof -
  have parse: "parse_image_environment demo_entries
      = Ok [(''A'', ''x=y''), (''PATH'', ''/bin'')]"
    by (simp add: parse_image_environment_Ok demo_entries_def entry_ok_def entry_pair_def
        MAX_ENVIRONMENT_ITEMS_def MAX_ENVIRONMENT_BYTES_def)
  then have enc: "encode_image_environment demo_entries
      = Ok (concat (map (\<lambda>e. e @ [NUL]) demo_entries))"
    by (simp add: encode_image_environment_def)
  have "\<forall>e \<in> set demo_entries. valid_utf8 e"
    by (simp add: demo_entries_def) (intro conjI valid_utf8_ascii; code_simp)
  from image_environment_roundtrip [OF enc this] parse enc show ?thesis by simp
qed

theorem image_environment_last_wins_witness:
  "bt_get [(''A'', ''x=y''), (''PATH'', ''/bin'')] = map_of (rev (map entry_pair demo_entries))"
proof -
  have "parse_image_environment demo_entries = Ok [(''A'', ''x=y''), (''PATH'', ''/bin'')]"
    by (simp add: parse_image_environment_Ok demo_entries_def entry_ok_def entry_pair_def
        MAX_ENVIRONMENT_ITEMS_def MAX_ENVIRONMENT_BYTES_def)
  then show ?thesis
    unfolding image_environment_last_wins [of demo_entries] by blast
qed

section \<open>Facts: the Git configuration\<close>

text \<open>What a reader of the file takes a quoted value for.\<close>

fun unquote :: "string \<Rightarrow> string option" where
  "unquote [] = None"
| "unquote (c # s) =
     (if c = CHR 0x22 then (if s = [] then Some [] else None)
      else if c = CHR 0x5C then
        (case s of d # s' \<Rightarrow> if d = CHR 0x5C \<or> d = CHR 0x22 then map_option ((#) d) (unquote s')
           else None
         | [] \<Rightarrow> None)
      else map_option ((#) c) (unquote s))"

definition git_unquote :: "string \<Rightarrow> string option" where
  "git_unquote s = (case s of c # r \<Rightarrow> if c = CHR 0x22 then unquote r else None | [] \<Rightarrow> None)"

lemma git_unquote_quote: "git_unquote (quote_git_config v) = Some v"
proof -
  have "unquote (concat (map quote_char v) @ [CHR 0x22]) = Some v" for v
    by (induction v) (auto simp: quote_char_def)
  then show ?thesis by (simp add: git_unquote_def quote_git_config_def)
qed

text \<open>The lines of the file, and a line that nothing but its newline ends.\<close>

definition git_config_lines :: "session_config \<Rightarrow> string list" where
  "git_config_lines c =
     [''[user]'', [CHR 0x09] @ ''useConfigOnly = true'']
     @ (case git_user_name c of None \<Rightarrow> []
        | Some n \<Rightarrow> [[CHR 0x09] @ ''name = '' @ quote_git_config n])
     @ (case git_user_email c of None \<Rightarrow> []
        | Some e \<Rightarrow> [[CHR 0x09] @ ''email = '' @ quote_git_config e])
     @ (case git_signing_key c of None \<Rightarrow> []
        | Some k \<Rightarrow> [[CHR 0x09] @ ''signingKey = '' @ quote_git_config k, ''[gpg]'',
            [CHR 0x09] @ ''format = ssh''])"

definition one_line :: "string \<Rightarrow> bool" where
  "one_line l = (CHR 0x0A \<notin> set l \<and> CHR 0x0D \<notin> set l)"

lemma strip_cr_one_line: "one_line l \<Longrightarrow> strip_cr l = l"
  by (metis last_in_set one_line_def strip_cr_def)

lemma str_lines_concat:
  assumes "\<forall>l \<in> set ls. one_line l"
  shows "str_lines (concat (map (\<lambda>l. l @ [CHR 0x0A]) ls)) = ls"
proof -
  have "split_on (\<lambda>c. c = CHR 0x0A) (concat (map (\<lambda>l. l @ [CHR 0x0A]) ls)) = ls @ [[]]"
    using assms
  proof (induction ls)
    case Nil
    then show ?case by simp
  next
    case (Cons l ls)
    then show ?case
      using split_on_append [of l "\<lambda>c. c = CHR 0x0A" "CHR 0x0A"
          "concat (map (\<lambda>l. l @ [CHR 0x0A]) ls)"]
      by (auto simp: one_line_def)
  qed
  then show ?thesis
    using assms by (auto simp: str_lines_def strip_cr_one_line intro: map_idI)
qed

lemma git_config_text_lines:
  "git_config_text c = concat (map (\<lambda>l. l @ [CHR 0x0A]) (git_config_lines c))"
  by (simp add: git_config_text_def git_config_lines_def split: option.splits)

lemma validate_optional_one_line:
  assumes "validate_optional (Some v) m = Ok ()" and "valid_utf8 v"
  shows "one_line (quote_git_config v)"
proof -
  have "\<not> list_ex is_control (str_chars v)"
    using assms(1) by (auto simp: validate_optional_def list_ex_iff)
  moreover obtain cs where "utf8_decode (map byte v) = Some cs" "str_chars v = cs"
    using assms(2) by (auto simp: valid_utf8_def str_chars_def from_utf8_def)
  ultimately have "n \<in> set (map byte v) \<Longrightarrow> \<not> n < 32" for n
    using utf8_decode_ascii_mem [of "map byte v" cs n] by (auto simp: list_ex_iff is_control_def)
  then have "CHR 0x0A \<notin> set v" "CHR 0x0D \<notin> set v" by force+
  then show ?thesis
    by (auto simp: one_line_def quote_git_config_def quote_char_def split: if_splits)
qed

text \<open>C28: A session whose values pass the guest's checks cannot inject a Git setting: the lines of the
  written configuration are exactly the intended ones, and each quoted value reads back as itself.\<close>

theorem git_config_no_injection:
  assumes "validate_optional (git_user_name c) 1024 = Ok ()"
    and "validate_optional (git_user_email c) 1024 = Ok ()"
    and "validate_optional (git_signing_key c) (16 * 1024) = Ok ()"
    and "\<forall>v \<in> set_option (git_user_name c) \<union> set_option (git_user_email c)
           \<union> set_option (git_signing_key c). valid_utf8 v"
  shows "str_lines (git_config_text c) = git_config_lines c
    \<and> (\<forall>v. git_unquote (quote_git_config v) = Some v)"
proof -
  have fixed: "one_line ''[user]''" "one_line ''[gpg]''"
      "one_line ([CHR 0x09] @ ''useConfigOnly = true'')" "one_line ([CHR 0x09] @ ''format = ssh'')"
      "one_line (CHR 0x09 # ''name = '')" "one_line (CHR 0x09 # ''email = '')"
      "one_line (CHR 0x09 # ''signingKey = '')"
    by (simp_all add: one_line_def)
  have app: "one_line (a @ b) \<longleftrightarrow> one_line a \<and> one_line b" for a b
    by (auto simp: one_line_def)
  have n: "git_user_name c = Some v \<Longrightarrow> one_line (quote_git_config v)" for v
    using assms(1,4) validate_optional_one_line [of v 1024] by simp
  have e: "git_user_email c = Some v \<Longrightarrow> one_line (quote_git_config v)" for v
    using assms(2,4) validate_optional_one_line [of v 1024] by simp
  have k: "git_signing_key c = Some v \<Longrightarrow> one_line (quote_git_config v)" for v
    using assms(3,4) validate_optional_one_line [of v "16 * 1024"] by simp
  have "\<forall>l \<in> set (git_config_lines c). one_line l"
    using fixed n e k app [of "CHR 0x09 # ''name = ''"] app [of "CHR 0x09 # ''email = ''"]
      app [of "CHR 0x09 # ''signingKey = ''"]
    by (auto simp: git_config_lines_def split: option.splits)
  then show ?thesis
    using str_lines_concat git_unquote_quote by (simp add: git_config_text_lines)
qed

definition demo_session :: session_config where
  "demo_session =
     \<lparr>git_user_name = Some (''A '' @ [CHR 0x5C]), git_user_email = Some ''a@b'', git_signing_key = None,
      gh_token = None, ssh_known_hosts = None, ssh_agent = False, image_env = demo_entries\<rparr>"

theorem git_config_no_injection_witness:
  "str_lines (git_config_text demo_session) = git_config_lines demo_session"
proof -
  have utf: "valid_utf8 (''A '' @ [CHR 0x5C])" "valid_utf8 ''a@b''"
    by (rule valid_utf8_ascii, code_simp)+
  moreover have "\<not> list_ex (\<lambda>c. c = 0 \<or> is_control c) (str_chars (''A '' @ [CHR 0x5C]))"
    "\<not> list_ex (\<lambda>c. c = 0 \<or> is_control c) (str_chars ''a@b'')"
    by code_simp+
  ultimately show ?thesis
    using git_config_no_injection [of demo_session]
    by (simp add: demo_session_def validate_optional_def)
qed

end
