(* ===== verification/GuestMount.thy ===== *)
theory GuestMount
  imports GuestSession
begin

text \<open>
  \<open>crates/spawnr-agent/src/mount.rs\<close> and \<open>account.rs\<close>: the checks that the workspace is a mount of its
  own and the session directory a tmpfs, the parser of \<open>/proc/self/mountinfo\<close> they rest on, the search
  for the workspace's block device, and the development account. What other programs (\<open>blkid\<close>,
  \<open>useradd\<close>) and the system's \<open>mount\<close> and \<open>getpwnam\<close> do is a parameter.
\<close>

section \<open>Reading \<open>mountinfo\<close>\<close>

record mount_entry =
  me_source :: string
  me_fs_type :: string
  me_options :: string

definition is_octal :: "char \<Rightarrow> bool" where
  "is_octal b = (48 \<le> byte b \<and> byte b \<le> 55)"

text \<open>
  The loop of \<open>unescape_mountinfo\<close> over the bytes still to read. Cutting the three digits out of the
  text panics when the cut is inside a character.
\<close>

fun unescape_bytes :: "string \<Rightarrow> string result" where
  "unescape_bytes [] = Ok []"
| "unescape_bytes (c # r) =
     (if c = CHR 0x5C then
        (case r of
           x # y # z # rest \<Rightarrow>
             if rest \<noteq> [] \<and> is_cont (byte (hd rest)) then Inl (Panic ''not a char boundary'')
             else ensure (is_octal x \<and> is_octal y \<and> is_octal z) ''invalid mountinfo escape''
               (some_or (from_str_radix 256 8 [x, y, z]) ''number too large'' (\<lambda>n.
                 rbind (unescape_bytes rest) (\<lambda>t. Ok (char_of n # t))))
         | _ \<Rightarrow> bail ''truncated mountinfo escape'')
      else rbind (unescape_bytes r) (\<lambda>t. Ok (c # t)))"

definition unescape_mountinfo :: "string \<Rightarrow> string result" where
  "unescape_mountinfo inp =
     rbind (unescape_bytes inp) (\<lambda>out. ensure (valid_utf8 out) ''mount point is not UTF-8'' (Ok out))"

text \<open>\<open>nth(n)\<close> of an iterator.\<close>

definition nth_opt :: "'a list \<Rightarrow> nat \<Rightarrow> 'a option" where
  "nth_opt xs n = (if n < length xs then Some (xs ! n) else None)"

text \<open>The loop of \<open>mount_entry\<close> over the lines; a mount point is compared as a path.\<close>

fun find_mount :: "component list \<Rightarrow> string list \<Rightarrow> mount_entry option result" where
  "find_mount canonical [] = Ok None"
| "find_mount canonical (line # lines) =
     some_or (split_once_str '' - '' line) ''malformed /proc/self/mountinfo line'' (\<lambda>(left, right).
       (let lf = split_ascii_whitespace left; rf = split_ascii_whitespace right
        in some_or (nth_opt lf 4) ''mountinfo has no target'' (\<lambda>target.
           some_or (nth_opt lf 5) ''mountinfo has no options'' (\<lambda>options.
           some_or (nth_opt rf 0) ''mountinfo has no filesystem type'' (\<lambda>fs_type.
           some_or (nth_opt rf 1) ''mountinfo has no mount source'' (\<lambda>source.
           rbind (unescape_mountinfo target) (\<lambda>t.
             if components t = canonical
             then rbind (unescape_mountinfo source) (\<lambda>src.
               Ok (Some \<lparr>me_source = src, me_fs_type = fs_type, me_options = options\<rparr>))
             else find_mount canonical lines)))))))"

definition mountinfo_path :: path where
  "mountinfo_path = [''proc'', ''self'', ''mountinfo'']"

definition find_mount_entry :: "path \<Rightarrow> mount_entry option io" where
  "find_mount_entry p =
     bnd (sys_canonicalize p) (\<lambda>canonical.
     bnd (sys_read_to_string mountinfo_path) (\<lambda>contents.
       lift_r (find_mount (RootDir # map Normal canonical) (str_lines contents))))"

definition exact_mount :: "path \<Rightarrow> bool io" where
  "exact_mount p = bnd (find_mount_entry p) (\<lambda>m. ret (m \<noteq> None))"

section \<open>Checks\<close>

definition assert_workspace_is_separate :: "path \<Rightarrow> unit io" where
  "assert_workspace_is_separate workspace =
     bnd (sys_metadata workspace) (\<lambda>md.
     io_ensure (e_node md = Dir) ''workspace is not a directory''
     (bnd (exact_mount workspace) (\<lambda>exact.
      io_ensure exact ''workspace is not an exact mount point''
      (bnd (sys_metadata []) (\<lambda>root_md.
       io_ensure (e_dev md \<noteq> e_dev root_md)
         ''workspace shares the root filesystem device'' (ret ()))))))"

definition workspace_is_separate :: "path \<Rightarrow> bool io" where
  "workspace_is_separate workspace =
     bnd (attempt (assert_workspace_is_separate workspace)) (\<lambda>r. ret (is_ok r))"

definition assert_session_is_tmpfs :: "path \<Rightarrow> unit io" where
  "assert_session_is_tmpfs session =
     bnd (exact_mount session) (\<lambda>exact.
     io_ensure exact ''session is not an exact mount point''
     (bnd (find_mount_entry session) (\<lambda>m.
      case m of
        None \<Rightarrow> fail (Bail ''session mount disappeared'')
      | Some e \<Rightarrow>
          io_ensure (me_fs_type e = ''tmpfs'') ''session is not tmpfs''
          (let options = '','' @ me_options e @ '',''
           in io_ensure (str_contains '',rw,'' options) ''session tmpfs is not writable''
              (io_ensure (str_contains '',nosuid,'' options) ''session tmpfs lacks nosuid''
              (io_ensure (str_contains '',nodev,'' options) ''session tmpfs lacks nodev''
                (ret ())))))))"

section \<open>The workspace's block device\<close>

definition WORKSPACE_LABEL :: string where "WORKSPACE_LABEL = ''SPAWNR_WORKSPACE''"

definition safe_block_device :: "string \<Rightarrow> bool" where
  "safe_block_device p =
     (starts_with ''/dev/'' p \<and> length p \<le> 64
      \<and> CHR 0x0A \<notin> set p \<and> CHR 0x0D \<notin> set p \<and> NUL \<notin> set p
      \<and> list_all (\<lambda>b. is_ascii_alphanumeric b \<or> b \<in> {CHR ''/'', CHR ''-'', CHR ''_'', CHR ''.''}) p)"

text \<open>The loop over BusyBox's listing.\<close>

fun find_label :: "string \<Rightarrow> string list \<Rightarrow> string option" where
  "find_label expected [] = None"
| "find_label expected (line # lines) =
     (case split_once CHR '':'' line of
        None \<Rightarrow> find_label expected lines
      | Some (device, attributes) \<Rightarrow>
          if safe_block_device device \<and> expected \<in> set (split_ascii_whitespace attributes)
          then Some device else find_label expected lines)"

text \<open>A program run to its end: whether it succeeded and its standard output.\<close>

type_synonym run_tool = "string \<Rightarrow> string list \<Rightarrow> (bool \<times> string) io"

fun try_blkid :: "run_tool \<Rightarrow> string \<Rightarrow> path list \<Rightarrow> string option io" where
  "try_blkid run label [] = ret None"
| "try_blkid run label (blkid # rest) =
     bnd (sys_is_file blkid) (\<lambda>there.
       if \<not> there then try_blkid run label rest
       else bnd (run (display blkid) [''-L'', label]) (\<lambda>(success, out).
         if \<not> success then try_blkid run label rest
         else if \<not> valid_utf8 out then fail (Bail ''invalid utf-8 sequence'')
         else (let p = str_trim out
               in if safe_block_device p then ret (Some p) else try_blkid run label rest)))"

definition busybox :: path where "busybox = [''usr'', ''libexec'', ''spawnr-busybox'']"

definition resolve_label :: "run_tool \<Rightarrow> string \<Rightarrow> string io" where
  "resolve_label run label =
     (let by_label = [''dev'', ''disk'', ''by-label'', label]
      in bnd (sys_exists by_label) (\<lambda>there.
         if there then bnd (sys_canonicalize by_label) (\<lambda>p. ret (display p))
         else bnd (try_blkid run label [[''usr'', ''sbin'', ''blkid''], [''sbin'', ''blkid'']]) (\<lambda>found.
           case found of
             Some p \<Rightarrow> ret p
           | None \<Rightarrow>
               bnd (sys_is_file busybox) (\<lambda>have_busybox.
               io_ensure have_busybox ''util-linux blkid and Spawnr BusyBox are unavailable''
               (bnd (run (display busybox) [''blkid'', ''/dev/vda'', ''/dev/vdb'']) (\<lambda>(success, out).
                io_ensure success ''static BusyBox blkid failed''
                (if \<not> valid_utf8 out then fail (Bail ''invalid utf-8 sequence'')
                 else (case find_label (''LABEL='' @ [CHR 0x22] @ label @ [CHR 0x22]) (str_lines out) of
                    Some device \<Rightarrow> ret device
                  | None \<Rightarrow> fail (Bail ''no block filesystem bears the label'')))))))))"

text \<open>\<open>do_mount source target kind flags data\<close> is the system call.\<close>

type_synonym do_mount = "string option \<Rightarrow> path \<Rightarrow> string \<Rightarrow> string list \<Rightarrow> string \<Rightarrow> unit io"

definition mount_ext4 :: "do_mount \<Rightarrow> string \<Rightarrow> path \<Rightarrow> unit io" where
  "mount_ext4 do_mount device target =
     do_mount (Some device) target ''ext4'' [''nodev'', ''nosuid'', ''noatime''] ''rw''"

definition mount_tmpfs :: "do_mount \<Rightarrow> path \<Rightarrow> unit io" where
  "mount_tmpfs do_mount target =
     do_mount None target ''tmpfs'' [''nodev'', ''nosuid''] ''mode=0755,size=16m''"

text \<open>A device given as text is a path of plain names (\<open>safe_block_device\<close>, or canonical).\<close>

definition path_of :: "string \<Rightarrow> path" where
  "path_of s = map component_name (filter is_normal (components s))"

definition ensure_workspace_mounted :: "run_tool \<Rightarrow> do_mount \<Rightarrow> path \<Rightarrow> unit io" where
  "ensure_workspace_mounted run do_mount workspace =
     thn (sys_create_dir_all workspace)
     (bnd (exact_mount workspace) (\<lambda>exact.
      thn (if \<not> exact
           then bnd (resolve_label run WORKSPACE_LABEL) (\<lambda>device. mount_ext4 do_mount device workspace)
           else ret ())
      (thn (assert_workspace_is_separate workspace)
      (bnd (resolve_label run WORKSPACE_LABEL) (\<lambda>label_device.
       bnd (sys_canonicalize (path_of label_device)) (\<lambda>expected_device.
       bnd (find_mount_entry workspace) (\<lambda>m.
         case m of
           None \<Rightarrow> fail (Bail ''workspace mount disappeared'')
         | Some e \<Rightarrow>
             io_ensure (me_fs_type e = ''ext4'') ''workspace filesystem is not ext4''
             (bnd (sys_canonicalize (path_of (me_source e))) (\<lambda>mounted_device.
              io_ensure (mounted_device = expected_device)
                ''workspace is not mounted from the labeled device'' (ret ()))))))))))"

definition ensure_session_tmpfs :: "do_mount \<Rightarrow> path \<Rightarrow> unit io" where
  "ensure_session_tmpfs do_mount session =
     thn (sys_create_dir_all session)
     (bnd (exact_mount session) (\<lambda>exact.
      thn (if \<not> exact then mount_tmpfs do_mount session else ret ())
          (assert_session_is_tmpfs session)))"

section \<open>The development account\<close>

definition ensure_safe_account_name :: "string \<Rightarrow> unit result" where
  "ensure_safe_account_name nm =
     ensure (nm \<noteq> [] \<and> length nm \<le> 32
         \<and> list_all (\<lambda>b. is_ascii_alphanumeric b \<or> b = CHR ''_'' \<or> b = CHR ''-'') nm)
       ''invalid development account name'' (Ok ())"

text \<open>\<open>getpwnam\<close>: identifiers, home and shell of an account, where set.\<close>

type_synonym passwd = "string \<Rightarrow> (nat \<times> nat \<times> string option \<times> string option) option io"

definition lookup_user :: "passwd \<Rightarrow> string \<Rightarrow> user io" where
  "lookup_user getpwnam nm =
     thn (lift_r (ensure_safe_account_name nm))
     (bnd (getpwnam nm) (\<lambda>e.
       case e of
         None \<Rightarrow> fail (Bail ''user does not exist'')
       | Some (uid, gid, home, shell) \<Rightarrow>
           (case (home, shell) of
              (Some h, Some sh) \<Rightarrow>
                ret \<lparr>u_name = nm, u_uid = uid, u_gid = gid, u_home = h, u_shell = sh\<rparr>
            | (None, _) \<Rightarrow> fail (Bail ''account has no home directory'')
            | _ \<Rightarrow> fail (Bail ''account has no login shell''))))"

definition install_sudo_shim :: "unit io" where
  "install_sudo_shim =
     (let p = [''usr'', ''local'', ''bin'', ''sudo'']
      in thn (sys_create_dir_all (butlast p))
         (bnd (attempt (sys_lstat p)) (\<lambda>r.
          thn (case r of
                 Inr e \<Rightarrow> (case e_node e of Link _ \<Rightarrow> sys_unlink p
                   | _ \<Rightarrow> fail (Bail ''refusing to replace existing sudo fallback''))
               | Inl e \<Rightarrow> if e = Io ENOENT then ret () else fail e)
              (sys_symlink ''/usr/libexec/spawnr-agent'' p))))"

definition sudo_policy :: "user \<Rightarrow> string" where
  "sudo_policy u = u_name u @ '' ALL=(ALL:ALL) NOPASSWD: ALL'' @ [CHR 0x0A]"

definition install_sudo_policy :: "user \<Rightarrow> unit io" where
  "install_sudo_policy u =
     (let sudoers = [''etc'', ''sudoers.d'']
      in bnd (sys_is_dir sudoers) (\<lambda>d.
         thn (if \<not> d then sys_create_dir_all sudoers else ret ())
         (thn (write_private (sudoers @ [''90-spawnr-dev'']) (sudo_policy u) 288)
         (bnd (sys_is_file [''usr'', ''bin'', ''sudo'']) (\<lambda>have_sudo.
           if have_sudo then ret () else install_sudo_shim)))))"

definition ensure_development_user :: "passwd \<Rightarrow> run_tool \<Rightarrow> string \<Rightarrow> user io" where
  "ensure_development_user getpwnam run nm =
     thn (lift_r (ensure_safe_account_name nm))
     (bnd (attempt (lookup_user getpwnam nm)) (\<lambda>found.
       case found of
         Inr u \<Rightarrow> thn (install_sudo_policy u) (ret u)
       | Inl _ \<Rightarrow>
           bnd (sys_is_file [''usr'', ''sbin'', ''useradd'']) (\<lambda>a.
           bnd (if a then ret True else sys_is_file [''sbin'', ''useradd'']) (\<lambda>b.
           io_ensure b ''useradd is required to create the development account''
           (bnd (run (if a then ''/usr/sbin/useradd'' else ''/sbin/useradd'')
                  [''--create-home'', ''--user-group'', ''--shell'', ''/bin/bash'', ''--'', nm])
             (\<lambda>(success, _).
              io_ensure success ''useradd failed''
              (bnd (lookup_user getpwnam nm) (\<lambda>u.
                thn (install_sudo_policy u) (ret u)))))))))"

section \<open>Facts\<close>

subsection \<open>Escapes\<close>

text \<open>The kernel's side: a blank, a tab, a newline or a backslash as three octal digits.\<close>

definition escape_char :: "char \<Rightarrow> string" where
  "escape_char c =
     (if byte c \<in> {9, 10, 32, 92}
      then [CHR 0x5C, digit_char (byte c div 64), digit_char (byte c div 8 mod 8),
            digit_char (byte c mod 8)]
      else [c])"

definition escape_mountinfo :: "string \<Rightarrow> string" where
  "escape_mountinfo s = concat (map escape_char s)"

text \<open>The text goes on at a character: not with a continuation byte after an ASCII one.\<close>

fun no_cont_after_ascii :: "string \<Rightarrow> bool" where
  "no_cont_after_ascii (a # b # r) =
     (\<not> (byte a < 128 \<and> is_cont (byte b)) \<and> no_cont_after_ascii (b # r))"
| "no_cont_after_ascii _ = True"

lemma utf8_head: "utf8_decode bs = Some cs \<Longrightarrow> bs \<noteq> [] \<Longrightarrow> \<not> is_cont (hd bs)"
  by (subst (asm) utf8_decode.simps)
    (auto simp: utf8_step_def utf8_width_def is_cont_def split: list.splits option.splits if_splits)

fun calm_bytes :: "nat list \<Rightarrow> bool" where
  "calm_bytes (a # b # r) = (\<not> (a < 128 \<and> is_cont b) \<and> calm_bytes (b # r))"
| "calm_bytes _ = True"

lemma calm_Cons: "calm_bytes (a # r) \<longleftrightarrow> (r \<noteq> [] \<longrightarrow> \<not> (a < 128 \<and> is_cont (hd r))) \<and> calm_bytes r"
  by (cases r) auto

lemma calm_append: "\<forall>x \<in> set u. 128 \<le> x \<Longrightarrow> calm_bytes r \<Longrightarrow> calm_bytes (u @ r)"
  by (induction u) (auto simp: calm_Cons)

lemma utf8_calm: "utf8_decode bs = Some cs \<Longrightarrow> calm_bytes bs"
proof (induction bs arbitrary: cs rule: utf8_decode.induct)
  case (1 bs)
  show ?case
  proof (cases "bs = []")
    case True
    then show ?thesis by simp
  next
    case False
    with "1.prems" obtain c r cs' where step: "utf8_step bs = Some (c, r)"
      and rest: "utf8_decode r = Some cs'"
      by (subst (asm) utf8_decode.simps) (auto split: option.splits)
    have "calm_bytes r" by (rule "1.IH" [OF False step refl rest])
    with utf8_step_cases [OF step] utf8_head [OF rest] show ?thesis
      by (auto simp: calm_Cons intro: calm_append)
  qed
qed

lemma escape_char_Cons: "\<exists>a r. escape_char c = a # r \<and> (a = c \<or> a = CHR 0x5C)"
  by (simp add: escape_char_def)

lemma hd_escape:
  "s \<noteq> [] \<Longrightarrow> \<not> is_cont (byte (hd s)) \<Longrightarrow> \<not> is_cont (byte (hd (escape_mountinfo s)))"
  using escape_char_Cons [of "hd s"]
  by (cases s) (auto simp: escape_mountinfo_def is_cont_def)

lemma escape_Nil_iff [simp]: "escape_mountinfo s = [] \<longleftrightarrow> s = []"
  by (cases s) (simp_all add: escape_mountinfo_def escape_char_def)

lemma unescape_escape_char:
  assumes "byte c < 128 \<longrightarrow> rest \<noteq> [] \<longrightarrow> \<not> is_cont (byte (hd rest))"
  shows "unescape_bytes (escape_char c @ rest) = rbind (unescape_bytes rest) (\<lambda>t. Ok (c # t))"
proof (cases "byte c \<in> {9, 10, 32, 92}")
  case True
  then have "byte c \<in> {byte CHR 0x09, byte CHR 0x0A, byte CHR 0x20, byte CHR 0x5C}" by simp
  then have "c \<in> {CHR 0x09, CHR 0x0A, CHR 0x20, CHR 0x5C}" by (simp only: of_char_eq_iff insert_iff empty_iff)
  moreover have "escape_char CHR 0x09 = CHR 0x5C # ''011''" "escape_char CHR 0x0A = CHR 0x5C # ''012''"
    "escape_char CHR 0x20 = CHR 0x5C # ''040''" "escape_char CHR 0x5C = CHR 0x5C # ''134''"
    by code_simp+
  moreover have "from_str_radix 256 8 ''011'' = Some 9" "from_str_radix 256 8 ''012'' = Some 10"
    "from_str_radix 256 8 ''040'' = Some 32" "from_str_radix 256 8 ''134'' = Some 92"
    by (simp_all add: from_str_radix_def digit_val_def ascii_class_defs)
  moreover have "(rest \<noteq> [] \<and> is_cont (byte (hd rest))) = False"
    using assms True by auto
  moreover have "char_of (9 :: nat) = CHR 0x09" "char_of (10 :: nat) = CHR 0x0A"
    "char_of (32 :: nat) = CHR 0x20" "char_of (92 :: nat) = CHR 0x5C"
    by code_simp+
  ultimately show ?thesis
    by (elim insertE emptyE) (simp_all add: is_octal_def, blast+)
next
  case False
  then have "c \<noteq> CHR 0x5C" by auto
  with False show ?thesis by (simp add: escape_char_def)
qed

lemma unescape_escape: "calm_bytes (map byte s) \<Longrightarrow> unescape_bytes (escape_mountinfo s) = Ok s"
proof (induction s)
  case Nil
  then show ?case by (simp add: escape_mountinfo_def)
next
  case (Cons c s)
  then have s: "calm_bytes (map byte s)" "s \<noteq> [] \<Longrightarrow> \<not> (byte c < 128 \<and> is_cont (byte (hd s)))"
    by (auto simp: calm_Cons hd_map)
  have "byte c < 128 \<longrightarrow> escape_mountinfo s \<noteq> [] \<longrightarrow> \<not> is_cont (byte (hd (escape_mountinfo s)))"
    using s(2) hd_escape [of s] by auto
  from unescape_escape_char [OF this] Cons.IH [OF s(1)] show ?case
    by (simp add: escape_mountinfo_def)
qed

text \<open>Whatever mount point the kernel lists in its escaped form, blanks, newlines and backslashes
  included, is read back exactly, without an error or a panic.\<close>

theorem mountinfo_roundtrip:
  assumes "valid_utf8 s"
  shows "unescape_mountinfo (escape_mountinfo s) = Ok s"
proof -
  obtain cs where "utf8_decode (map byte s) = Some cs"
    using assms by (auto simp: valid_utf8_def from_utf8_def)
  then show ?thesis
    using unescape_escape utf8_calm assms by (simp add: unescape_mountinfo_def)
qed

theorem mountinfo_roundtrip_witness:
  "unescape_mountinfo ''/a'' = Ok ''/a''
   \<and> unescape_mountinfo (escape_mountinfo ''/my disk'') = Ok ''/my disk''"
proof -
  have "valid_utf8 ''/my disk''" "valid_utf8 ''/a''" by (rule valid_utf8_ascii, code_simp)+
  moreover have "escape_mountinfo ''/a'' = ''/a''" by code_simp
  ultimately show ?thesis using mountinfo_roundtrip by metis
qed

subsection \<open>Mount options\<close>

lemma str_contains_iff: "str_contains p s \<longleftrightarrow> (\<exists>a b. s = a @ p @ b)"
proof (induction p s rule: str_contains.induct)
  case (1 p)
  then show ?case by auto
next
  case (2 p c s)
  have "(\<exists>a b. c # s = a @ p @ b) \<longleftrightarrow> prefix p (c # s) \<or> (\<exists>a b. s = a @ p @ b)"
    by (auto simp: prefix_def Cons_eq_append_conv)
  with 2 show ?case by simp
qed

lemma option_listed:
  assumes "CHR '','' \<notin> set x"
  shows "str_contains ('','' @ x @ '','') ('','' @ opts @ '','')
    \<longleftrightarrow> x \<in> set (split_on (\<lambda>c. c = CHR '','') opts)"
proof -
  let ?p = "\<lambda>c. c = CHR '',''"
  have nc: "\<forall>c \<in> set x. \<not> ?p c" using assms by auto
  have mid: "split_on ?p (a @ CHR '','' # r) = split_on ?p a @ split_on ?p r" for a r
  proof (induction a)
    case (Cons d a)
    obtain y ys where "split_on ?p a = y # ys"
      using split_on_not_Nil [of ?p a] by (cases "split_on ?p a") auto
    with Cons show ?case by auto
  qed simp
  have all: "split_on ?p ('','' @ opts @ '','') = [] # split_on ?p opts @ [[]]"
    using mid [of opts "[]"] by simp
  show ?thesis
  proof
    assume "str_contains ('','' @ x @ '','') ('','' @ opts @ '','')"
    then obtain a b where ab: "'','' @ opts @ '','' = a @ CHR '','' # x @ CHR '','' # b"
      by (auto simp: str_contains_iff)
    have "split_on ?p (a @ CHR '','' # x @ CHR '','' # b) = split_on ?p a @ x # split_on ?p b"
      using nc by (simp add: mid split_on_none)
    then have "[] # split_on ?p opts @ [[]] = split_on ?p a @ x # split_on ?p b"
      by (simp only: all [symmetric] ab)
    then have "split_on ?p opts = butlast (tl (split_on ?p a @ x # split_on ?p b))"
      by (metis butlast_snoc list.sel(3))
    moreover obtain y ys where "split_on ?p a = y # ys"
      using split_on_not_Nil [of ?p a] by (cases "split_on ?p a") auto
    ultimately show "x \<in> set (split_on ?p opts)"
      by (simp add: butlast_append)
  next
    assume "x \<in> set (split_on ?p opts)"
    then obtain us vs where "split_on ?p opts = us @ x # vs"
      by (auto simp: in_set_conv_decomp)
    then have "opts = join_with '','' (us @ x # vs)"
      by (metis join_split_on)
    moreover have "\<exists>a b. '','' @ join_with '','' (us @ x # vs) @ '','' = a @ ('','' @ x @ '','') @ b"
    proof (induction us)
      case Nil
      show ?case
        by (cases vs) (auto intro: exI [of _ "[]"])
    next
      case (Cons u us)
      then obtain a b where "'','' @ join_with '','' (us @ x # vs) @ '','' = a @ ('','' @ x @ '','') @ b"
        by blast
      then have "'','' @ join_with '','' ((u # us) @ x # vs) @ '',''
          = ('','' @ u @ a) @ ('','' @ x @ '','') @ b"
        by (cases us) simp_all
      then show ?case by blast
    qed
    ultimately show "str_contains ('','' @ x @ '','') ('','' @ opts @ '','')"
      by (simp add: str_contains_iff)
  qed
qed

subsection \<open>The session directory\<close>

lemma find_mount_entry_Ok:
  assumes "find_mount_entry p s = (Ok m, t)" and "listening s = {}"
  shows "outside {} s t \<and> (\<exists>canonical contents q. resolve (files s) p = Inr canonical
    \<and> resolve (files s) mountinfo_path = Inr q \<and> fs_get (files s) q = Some (File contents)
    \<and> find_mount (RootDir # map Normal canonical) (str_lines contents) = Ok m)"
proof -
  from assms(1) obtain canonical s1 contents where
    c: "sys_canonicalize p s = (Ok canonical, s1)" and
    r: "sys_read_to_string mountinfo_path s1 = (Ok contents, t)" and
    m: "find_mount (RootDir # map Normal canonical) (str_lines contents) = Ok m"
    by (auto simp: find_mount_entry_def io_Ok)
  have o1: "outside {} s s1" by (rule preservesD [OF outside_reads(2) c])
  have o2: "outside {} s1 t" by (rule preservesD [OF outside_derived_reads(5) r])
  have quiet: "listening s1 = {}" using outside_empty_listening [OF o1] assms(2) by simp
  have "resolve (files s) p = Inr canonical"
    using c resolve_unchanged [OF outside_before assms(2)] by (simp add: sys_canonicalize_Ok)
  moreover obtain q where "resolve (files s1) mountinfo_path = Inr q"
      "fs_get (files s1) q = Some (File contents)"
    using read_to_string_Ok [OF r quiet] by blast
  moreover have "resolve (files s1) x = resolve (files s) x" "fs_get (files s1) y = fs_get (files s) y"
    for x y
    using resolve_unchanged [OF o1 assms(2)] o1 assms(2) by (auto simp: outside_def)
  ultimately show ?thesis
    using m outside_trans [OF o1 o2] by auto
qed


definition demo_mountinfo :: string where
  "demo_mountinfo =
     ''22 1 0:20 / / rw - ext4 /dev/vda rw'' @ [CHR 0x0A]
     @ ''36 22 0:31 / /run rw,nosuid,nodev - tmpfs tmpfs rw'' @ [CHR 0x0A]"

definition demo_mounted :: os where
  "demo_mounted = demo_os (\<lambda>p.
     if p \<in> {[''run''], [''proc''], [''proc'', ''self'']} then Some private_dir
     else if p = mountinfo_path then Some (private_dir\<lparr>e_node := File demo_mountinfo\<rparr>) else None)"


end
