(* ===== verification/GuestCommand.thy ===== *)
theory GuestCommand
  imports GuestSession
begin

text \<open>
  \<open>crates/spawnr-agent/src/command.rs\<close>: the requests that run commands in the guest. The commands
  themselves (Git, a shell, whatever the user asks for) are not part of the sources: \<open>run_child\<close>, a
  parameter, is what the system does with a command, namely its exit status and what its two output
  pipes deliver.
\<close>

section \<open>Constants and data\<close>

definition MAX_CAPTURED_OUTPUT :: nat where "MAX_CAPTURED_OUTPUT = 8 * 1024 * 1024"
definition MAX_ARGV_ITEMS :: nat where "MAX_ARGV_ITEMS = 4096"
definition MAX_ARG_BYTES :: nat where "MAX_ARG_BYTES = 1024 * 1024"
definition DEFAULT_PATH :: string where
  "DEFAULT_PATH = ''/usr/local/sbin:/usr/local/bin:/usr/sbin:/usr/bin:/sbin:/bin''"
definition ARG_MAX_RESERVE :: nat where "ARG_MAX_RESERVE = 32 * 1024"

text \<open>A \<open>std::process::Command\<close> whose environment was cleared first.\<close>

record command =
  c_program :: string
  c_args :: "string list"
  c_cwd :: "path option"
  c_env :: environment
  c_uid :: nat
  c_gid :: nat

datatype exit_status = Exited int | Signaled int

definition exit_code :: "exit_status \<Rightarrow> int" where
  "exit_code st = (case st of Exited c \<Rightarrow> c | Signaled n \<Rightarrow> 128 + n)"

record captured =
  cap_exit_code :: int
  cap_stdout :: string
  cap_stderr :: string

definition into_response :: "captured \<Rightarrow> response" where
  "into_response c = CommandResult (cap_exit_code c) (cap_stdout c) (cap_stderr c)"

section \<open>Validation\<close>

definition validate_text :: "string \<Rightarrow> nat \<Rightarrow> unit result" where
  "validate_text v maximum =
     ensure (v \<noteq> []) ''must not be empty''
     (ensure (length v \<le> maximum) ''is too large''
     (ensure (NUL \<notin> set v) ''contains NUL'' (Ok ())))"

definition validate_argv :: "string list \<Rightarrow> unit result" where
  "validate_argv argv =
     ensure (argv \<noteq> []) ''argv must contain an executable''
     (ensure (length argv \<le> MAX_ARGV_ITEMS) ''argv has too many items''
     (ensure (sum_list (map length argv) \<le> MAX_ARG_BYTES) ''argv exceeds its limit''
     (for_each argv (\<lambda>v. validate_text v MAX_ARG_BYTES))))"

fun check_environment :: "nat \<Rightarrow> (string \<times> string) list \<Rightarrow> unit result" where
  "check_environment used [] = Ok ()"
| "check_environment used ((nm, value) # rest) =
     ensure (valid_environment_name nm) ''invalid environment variable name''
     (ensure (NUL \<notin> set value) ''environment value contains NUL''
     (some_or (checked_add used (saturating_add (saturating_add (length nm) (length value)) 2))
        ''environment size overflow'' (\<lambda>used'.
      ensure (used' \<le> MAX_ENVIRONMENT_BYTES) ''environment is too large''
      (check_environment used' rest))))"

definition validate_environment :: "environment \<Rightarrow> unit result" where
  "validate_environment env =
     ensure (length env \<le> MAX_ENVIRONMENT_ITEMS) ''too many environment variables''
       (check_environment 0 env)"

section \<open>Paths inside the workspace\<close>

definition ensure_contained_existing :: "path \<Rightarrow> path \<Rightarrow> unit io" where
  "ensure_contained_existing workspace p =
     bnd (sys_canonicalize workspace) (\<lambda>w.
     bnd (sys_canonicalize p) (\<lambda>q.
       io_ensure (path_starts_with q w) ''workspace path escapes through a symlink'' (ret ())))"

definition contained_path :: "path \<Rightarrow> string \<Rightarrow> bool \<Rightarrow> path io" where
  "contained_path workspace requested must_exist =
     io_ensure (is_absolute requested) ''workspace path must be absolute''
     (case path_strip_prefix workspace (components requested) of
        None \<Rightarrow> fail (Bail ''path is outside the workspace'')
      | Some relative \<Rightarrow>
          io_ensure (list_all is_normal relative) ''workspace path contains non-normal components''
          (let res = workspace @ map component_name relative;
               check = (if must_exist then res
                        else case parent res of Some d \<Rightarrow> d | None \<Rightarrow> workspace)
           in thn (ensure_contained_existing workspace check)
              (if must_exist
               then bnd (sys_exists res) (\<lambda>there.
                 io_ensure there ''workspace path does not exist'' (ret res))
               else ret res)))"

section \<open>The environment and size of a command\<close>

definition populate_variables :: "user \<Rightarrow> path \<Rightarrow> environment \<Rightarrow> environment io" where
  "populate_variables u session_dir env =
     bnd (image_environment session_dir) (\<lambda>image.
     bnd (apply_environment
           (bt_extend [(''PATH'', DEFAULT_PATH)]
             (image @ [(''HOME'', u_home u), (''USER'', u_name u), (''LOGNAME'', u_name u),
               (''SHELL'', u_shell u)])) session_dir) (\<lambda>merged.
       ret (bt_extend merged env)))"

definition environment_bytes :: "environment \<Rightarrow> nat" where
  "environment_bytes env = sum_list (map (\<lambda>(n, v). length n + length v + 2) env)"

definition argument_bytes :: "string \<Rightarrow> string list \<Rightarrow> nat" where
  "argument_bytes program args = length program + 1 + sum_list (map (\<lambda>a. length a + 1) args)"

text \<open>
  The sums are of lengths of data in memory, so they do not overflow a 64-bit \<open>usize\<close>; the errors for
  an overflow are left out.
\<close>

definition validate_effective_process_size :: "command \<Rightarrow> int \<Rightarrow> unit result" where
  "validate_effective_process_size c system_limit =
     (let environment_size = environment_bytes (c_env c);
          argument_size = argument_bytes (c_program c) (c_args c);
          pointer_bytes = (1 + length (c_args c) + length (c_env c) + 2) * 8;
          process_bytes = argument_size + environment_size + pointer_bytes;
          argument_limit = (if system_limit > 0 then nat system_limit else 2 * 1024 * 1024)
      in ensure (environment_size \<le> MAX_ENVIRONMENT_BYTES) ''effective environment is too large''
         (ensure (process_bytes \<le> argument_limit - ARG_MAX_RESERVE)
           ''arguments and environment exceed the guest execve limit'' (Ok ())))"

definition populate_environment :: "command \<Rightarrow> user \<Rightarrow> path \<Rightarrow> environment \<Rightarrow> command io" where
  "populate_environment c u session_dir env =
     bnd (populate_variables u session_dir env) (\<lambda>vars.
     bnd (get_os arg_max) (\<lambda>limit.
      (let c' = c\<lparr>c_env := vars\<rparr>
       in thn (lift_r (validate_effective_process_size c' limit)) (ret c'))))"

definition prepare :: "command \<Rightarrow> user \<Rightarrow> path \<Rightarrow> path option \<Rightarrow> environment \<Rightarrow> command io" where
  "prepare c u session_dir cwd env =
     populate_environment
       (c\<lparr>c_cwd := (case cwd of Some d \<Rightarrow> Some d | None \<Rightarrow> c_cwd c), c_uid := u_uid u, c_gid := u_gid u\<rparr>)
       u session_dir env"

definition new_command :: "string \<Rightarrow> string list \<Rightarrow> command" where
  "new_command program args =
     \<lparr>c_program = program, c_args = args, c_cwd = None, c_env = [], c_uid = 0, c_gid = 0\<rparr>"

section \<open>Captured output\<close>

text \<open>
  What a read of a child's pipe delivers, with whether the child's end has been announced (\<open>done\<close>)
  before it, and whether the 100 ms of grace after that have passed. \<open>ReadError\<close> is an error of the
  read or of the poll before it.
\<close>

datatype pipe_read =
    Chunk string bool bool
  | WouldBlock bool
  | EndOfFile
  | ReadError errno

text \<open>
  \<open>read_bounded\<close>: the bytes kept, whether more came, whether the grace period runs. When the reads of
  the list are used up the pipe is taken to be closed.
\<close>

fun read_bounded :: "string \<Rightarrow> bool \<Rightarrow> bool \<Rightarrow> pipe_read list \<Rightarrow> (string \<times> bool) result" where
  "read_bounded bytes exceeded finishing [] = Ok (bytes, exceeded)"
| "read_bounded bytes exceeded finishing (EndOfFile # rs) = Ok (bytes, exceeded)"
| "read_bounded bytes exceeded finishing (ReadError e # rs) = Inl (Io e)"
| "read_bounded bytes exceeded finishing (WouldBlock child_done # rs) =
     (if finishing \<or> child_done then Ok (bytes, exceeded)
      else read_bounded bytes exceeded False rs)"
| "read_bounded bytes exceeded finishing (Chunk d child_done late # rs) =
     (let finishing' = (finishing \<or> child_done);
          retained = min (length d) (MAX_CAPTURED_OUTPUT - length bytes);
          bytes' = (if length bytes < MAX_CAPTURED_OUTPUT then bytes @ take retained d else bytes);
          exceeded' = (if length bytes < MAX_CAPTURED_OUTPUT
                       then exceeded \<or> retained \<noteq> length d else True)
      in if finishing' \<and> late then Ok (bytes', exceeded')
         else read_bounded bytes' exceeded' finishing' rs)"

text \<open>\<open>String::from_utf8_lossy\<close>: every maximal ill-formed piece becomes \<open>U+FFFD\<close>.\<close>

definition bad_length :: "nat list \<Rightarrow> nat" where
  "bad_length bs =
     (case bs of
        a # b # c # _ \<Rightarrow>
          if utf8_width a \<ge> 3 \<and> utf8_second_ok a b
          then (if utf8_width a = 4 \<and> is_cont c then 3 else 2) else 1
      | [a, b] \<Rightarrow> if utf8_width a \<ge> 3 \<and> utf8_second_ok a b then 2 else 1
      | _ \<Rightarrow> 1)"

function lossy :: "nat list \<Rightarrow> nat list" where
  "lossy bs =
     (if bs = [] then []
      else case utf8_step bs of
        Some (c, r) \<Rightarrow> c # lossy r
      | None \<Rightarrow> 65533 # lossy (drop (bad_length bs) bs))"
  by pat_completeness auto
termination
  by (relation "measure length")
    (auto dest: utf8_step_shorter simp: bad_length_def split: list.splits)

declare lossy.simps [simp del]

definition from_utf8_lossy :: "string \<Rightarrow> string" where
  "from_utf8_lossy s = of_chars (lossy (map byte s))"

type_synonym run_child = "command \<Rightarrow> (exit_status \<times> pipe_read list \<times> pipe_read list) io"

definition run_captured :: "run_child \<Rightarrow> command \<Rightarrow> captured io" where
  "run_captured run c =
     bnd (run c) (\<lambda>(status, out_reads, err_reads).
     bnd (lift_r (read_bounded [] False False out_reads)) (\<lambda>(out_bytes, out_exceeded).
     bnd (lift_r (read_bounded [] False False err_reads)) (\<lambda>(err_bytes, err_exceeded).
       io_ensure (\<not> out_exceeded \<and> \<not> err_exceeded) ''command output exceeded its limit''
         (ret \<lparr>cap_exit_code = exit_code status, cap_stdout = from_utf8_lossy out_bytes,
               cap_stderr = from_utf8_lossy err_bytes\<rparr>))))"

section \<open>The requests\<close>

definition find_git :: "string io" where
  "find_git =
     bnd (sys_is_file [''usr'', ''bin'', ''git'']) (\<lambda>a.
       if a then ret ''/usr/bin/git''
       else bnd (sys_is_file [''usr'', ''local'', ''bin'', ''git'']) (\<lambda>b.
         if b then ret ''/usr/local/bin/git''
         else fail (Bail ''Git is not installed in this OCI environment'')))"

text \<open>\<open>separate\<close> is \<open>mount::assert_workspace_is_separate\<close>, modelled in \<open>GuestMount\<close>.\<close>

definition clone_repository ::
    "run_child \<Rightarrow> (path \<Rightarrow> unit io) \<Rightarrow> path \<Rightarrow> path \<Rightarrow> user \<Rightarrow> string \<Rightarrow> string \<Rightarrow> response io" where
  "clone_repository run separate workspace session_dir u repository destination =
     thn (separate workspace)
     (thn (lift_r (validate_text repository (64 * 1024)))
     (bnd (contained_path workspace destination False) (\<lambda>dest.
      bnd (sys_exists dest) (\<lambda>there.
      io_ensure (\<not> there) ''clone destination already exists''
      (case parent dest of
         None \<Rightarrow> fail (Bail ''clone destination has no parent'')
       | Some d \<Rightarrow>
           bnd (sys_exists d) (\<lambda>parent_there.
           io_ensure parent_there ''clone destination parent does not exist''
           (thn (ensure_contained_existing workspace d)
           (bnd find_git (\<lambda>git.
            bnd (prepare (new_command git [''clone'', ''--'', repository, display dest]) u session_dir
                  (Some workspace) []) (\<lambda>c.
            bnd (run_captured run c) (\<lambda>res.
              if cap_exit_code res \<noteq> 0 then fail (Bail ''git clone failed'')
              else ret (OkReply (''cloned repository into '' @ display dest)))))))))))))"

definition exec_captured ::
    "run_child \<Rightarrow> (path \<Rightarrow> unit io) \<Rightarrow> path \<Rightarrow> path \<Rightarrow> user \<Rightarrow> string list \<Rightarrow> string option
     \<Rightarrow> environment \<Rightarrow> response io" where
  "exec_captured run separate workspace session_dir u argv cwd env =
     thn (separate workspace)
     (thn (lift_r (validate_argv argv))
     (thn (lift_r (validate_environment env))
     (bnd (case cwd of None \<Rightarrow> ret workspace | Some p \<Rightarrow> contained_path workspace p True) (\<lambda>d.
      bnd (prepare (new_command (hd argv) (tl argv)) u session_dir (Some d) env) (\<lambda>c.
      bnd (run_captured run c) (\<lambda>res. ret (into_response res)))))))"

definition workspace_status ::
    "run_child \<Rightarrow> (path \<Rightarrow> unit io) \<Rightarrow> path \<Rightarrow> path \<Rightarrow> user \<Rightarrow> string \<Rightarrow> response io" where
  "workspace_status run separate workspace session_dir u repository_path =
     thn (separate workspace)
     (bnd (contained_path workspace repository_path True) (\<lambda>repository.
      bnd find_git (\<lambda>git.
      bnd (prepare (new_command git [''status'', ''--porcelain=v1'', ''--untracked-files=all''])
            u session_dir (Some repository) []) (\<lambda>c.
      bnd (run_captured run c) (\<lambda>res.
        if cap_exit_code res \<noteq> 0 then fail (Bail ''git status failed'')
        else ret (WorkspaceStatusReply (cap_stdout res = []) (cap_stdout res)))))))"

section \<open>Facts: paths inside the workspace\<close>

lemma contained_path_reads: "preserves (outside {}) (contained_path w r m)"
  unfolding contained_path_def ensure_contained_existing_def Let_def
  by (intro outside.combinators outside_reads outside_derived_reads)

lemma ensure_contained_existing_Ok:
  assumes "ensure_contained_existing w p s = (Ok u, t)" and "listening s = {}"
  shows "\<exists>rw rp. resolve (files s) w = Inr rw \<and> resolve (files s) p = Inr rp \<and> prefix rw rp"
proof -
  from assms(1) obtain rw rp where
    w: "resolve (files (before_call s)) w = Inr rw" and
    p: "resolve (files (before_call (before_call s))) p = Inr rp" and pre: "prefix rw rp"
    by (auto simp: ensure_contained_existing_def io_Ok sys_canonicalize_Ok path_starts_with_def)
  have b1: "outside {} s (before_call s)" by (rule outside_before)
  have "listening (before_call s) = {}" using assms(2) by simp
  then have b2: "outside {} s (before_call (before_call s))"
    by (intro outside_trans [OF b1 outside_before])
  show ?thesis
    using w p pre resolve_unchanged [OF b1 assms(2)] resolve_unchanged [OF b2 assms(2)] by auto
qed

text \<open>C6: A path the guest accepts is below the workspace as text, and what it (or, for a path that need
  not exist, its parent) resolves to, through whatever symbolic links, is at or below the place the
  workspace itself resolves to, with no link left on the way.\<close>

theorem contained_path_inside:
  assumes "contained_path workspace requested must_exist s = (Ok p, t)" and "listening s = {}"
  shows "\<exists>names rw rq.
      p = workspace @ names \<and> components requested = RootDir # map Normal p
    \<and> (\<forall>n \<in> set names. plain_name n)
    \<and> resolve (files s) workspace = Inr rw
    \<and> resolve (files s) (if must_exist then p else if p = [] then workspace else butlast p) = Inr rq
    \<and> prefix rw rq \<and> real_dir (files s) (butlast rq)
    \<and> (\<forall>target. fs_get (files s) rq \<noteq> Some (Link target))"
proof -
  from assms(1) obtain relative where
    rel: "path_strip_prefix workspace (components requested) = Some relative"
    and norm: "list_all is_normal relative" and p: "p = workspace @ map component_name relative"
    and check: "\<exists>u v. ensure_contained_existing workspace
      (if must_exist then p else case parent p of Some d \<Rightarrow> d | None \<Rightarrow> workspace) s = (Ok u, v)"
    by (auto simp: contained_path_def io_Ok Let_def split: option.splits if_splits)
  have names: "map Normal (map component_name relative) = relative"
    using norm by (intro map_Normal_names) (simp add: list_all_iff)
  have comps: "components requested = RootDir # map Normal p"
    using rel names by (auto simp: path_strip_prefix_def p prefix_def split: if_splits)
  then have "\<forall>n \<in> set (map component_name relative). plain_name n"
    using set_components [of _ requested] by (auto simp: p)
  moreover have eq: "(case parent p of Some d \<Rightarrow> d | None \<Rightarrow> workspace)
      = (if p = [] then workspace else butlast p)"
    by (simp add: parent_def)
  from check [unfolded eq] obtain u v where "ensure_contained_existing workspace
      (if must_exist then p else if p = [] then workspace else butlast p) s = (Ok u, v)"
    by blast
  from ensure_contained_existing_Ok [OF this assms(2)] obtain rw rq where
    rq: "resolve (files s) (if must_exist then p else if p = [] then workspace else butlast p)
      = Inr rq" and "resolve (files s) workspace = Inr rw" "prefix rw rq"
    by blast
  moreover from resolve_real_place [OF rq] have "real_dir (files s) (butlast rq)"
    "\<forall>target. fs_get (files s) rq \<noteq> Some (Link target)"
    by auto
  ultimately show ?thesis
    using p comps by blast
qed

section \<open>Facts: the environment of a command\<close>

lemma image_environment_reads: "preserves (outside {}) (image_environment d)"
  unfolding image_environment_def Let_def
  by (intro outside.combinators outside_reads outside_derived_reads)

lemma bt_wf_parse: "parse_image_environment es = Ok env \<Longrightarrow> bt_wf env"
  by (auto simp: parse_image_environment_Ok bt_wf_extend)

lemma bt_wf_decode: "decode_image_environment c = Ok env \<Longrightarrow> bt_wf env"
  by (auto simp: decode_image_environment_def bt_wf_parse split: if_splits)

lemma bt_wf_image_environment: "image_environment d s = (Ok env, t) \<Longrightarrow> bt_wf env"
  by (auto simp: image_environment_def io_Ok Let_def intro: bt_wf_decode)

text \<open>Where the token a command sees comes from: the file of the session and nothing else.\<close>

definition session_token :: "files \<Rightarrow> path \<Rightarrow> string option \<Rightarrow> bool" where
  "session_token fs session_dir token =
     (\<forall>v. token = Some v \<longrightarrow> (\<exists>q. resolve fs (session_dir @ [GH_TOKEN_FILE]) = Inr q
        \<and> fs_get fs q = Some (File v)))"

lemma read_token_Ok:
  assumes "read_token (d @ [GH_TOKEN_FILE]) s = (Ok gh, t)" and "listening s = {}"
  shows "session_token (files s) d gh"
proof (cases gh)
  case None
  then show ?thesis by (simp add: session_token_def)
next
  case (Some v)
  with assms(1) have "sys_read_to_string (d @ [GH_TOKEN_FILE]) s = (Ok v, t)"
    by (auto simp: read_token_def io_Ok)
  from read_to_string_Ok [OF this assms(2)] Some show ?thesis
    by (simp add: session_token_def)
qed

lemma session_token_unchanged:
  assumes "outside {} s t" and "listening s = {}"
  shows "session_token (files t) d gh \<longleftrightarrow> session_token (files s) d gh"
  using assms resolve_unchanged [OF assms] by (simp add: session_token_def outside_def)

lemma apply_environment_Ok:
  assumes "apply_environment env d s = (Ok env', t)" and "bt_wf env" and "listening s = {}"
  shows "bt_wf env' \<and> (\<exists>auth ssh gh.
    auth \<in> {None, Some (display (d @ [SSH_AGENT_SOCKET]))}
    \<and> ssh \<in> {None, Some (git_ssh_command (d @ [SSH_KNOWN_HOSTS_FILE]))}
    \<and> session_token (files s) d gh
    \<and> bt_get env' = (bt_get env)(''GIT_CONFIG_GLOBAL'' \<mapsto> display (d @ [GIT_CONFIG_FILE]),
        ''SSH_AUTH_SOCK'' := auth, ''GIT_SSH_COMMAND'' := ssh, ''GITHUB_TOKEN'' := None,
        ''GH_TOKEN'' := gh))"
proof -
  from assms(1) obtain b1 s1 b2 s2 gh where
    x1: "sys_exists (d @ [SSH_AGENT_SOCKET]) s = (Ok b1, s1)" and
    x2: "sys_is_file (d @ [SSH_KNOWN_HOSTS_FILE]) s1 = (Ok b2, s2)" and
    x3: "read_token (d @ [GH_TOKEN_FILE]) s2 = (Ok gh, t)" and
    env': "env' = bt_set ''GH_TOKEN'' gh (bt_remove ''GITHUB_TOKEN'' (bt_set ''GIT_SSH_COMMAND''
        (if b2 then Some (git_ssh_command (d @ [SSH_KNOWN_HOSTS_FILE])) else None)
        (bt_set ''SSH_AUTH_SOCK''
          (if b1 \<and> proxy_enabled s1 then Some (display (d @ [SSH_AGENT_SOCKET])) else None)
          (bt_insert ''GIT_CONFIG_GLOBAL'' (display (d @ [GIT_CONFIG_FILE])) env))))"
    unfolding apply_environment_def Let_def by (auto simp only: bnd_Ok ret_Ok get_os_Ok)
  have o: "outside {} s s2"
    using outside_trans [OF preservesD [OF outside_derived_reads(1) x1]
        preservesD [OF outside_derived_reads(2) x2]] .
  have "session_token (files s) d gh"
    using read_token_Ok [OF x3] outside_empty_listening [OF o] assms(3)
      session_token_unchanged [OF o assms(3)] by simp
  with assms(2) show ?thesis
    unfolding env'
    by (intro conjI exI [of _ "if b1 \<and> proxy_enabled s1 then Some (display (d @ [SSH_AGENT_SOCKET])) else None"]
        exI [of _ "if b2 then Some (git_ssh_command (d @ [SSH_KNOWN_HOSTS_FILE])) else None"]
        exI [of _ gh]) (simp_all del: fun_upd_apply)
qed

text \<open>
  The layers of a command's environment, the first that names a variable wins: the request, the
  capabilities of the session (which may take a variable away), the identity of the account, the
  image, the default search path.
\<close>

definition session_layer ::
    "path \<Rightarrow> string option \<Rightarrow> string option \<Rightarrow> string option \<Rightarrow> string \<Rightarrow> string option option" where
  "session_layer d auth ssh gh k =
     (if k = ''GH_TOKEN'' then Some gh
      else if k = ''GITHUB_TOKEN'' then Some None
      else if k = ''GIT_SSH_COMMAND'' then Some ssh
      else if k = ''SSH_AUTH_SOCK'' then Some auth
      else if k = ''GIT_CONFIG_GLOBAL'' then Some (Some (display (d @ [GIT_CONFIG_FILE])))
      else None)"

definition identity_layer :: "user \<Rightarrow> string \<Rightarrow> string option" where
  "identity_layer u =
     [''HOME'' \<mapsto> u_home u, ''USER'' \<mapsto> u_name u, ''LOGNAME'' \<mapsto> u_name u, ''SHELL'' \<mapsto> u_shell u]"

definition effective_variable ::
    "environment \<Rightarrow> (string \<Rightarrow> string option option) \<Rightarrow> user \<Rightarrow> environment \<Rightarrow> string
     \<Rightarrow> string option" where
  "effective_variable request session u img k =
     (case bt_get request k of Some v \<Rightarrow> Some v
      | None \<Rightarrow> (case session k of Some v \<Rightarrow> v
      | None \<Rightarrow> (case identity_layer u k of Some v \<Rightarrow> Some v
      | None \<Rightarrow> (case bt_get img k of Some v \<Rightarrow> Some v
      | None \<Rightarrow> if k = ''PATH'' then Some DEFAULT_PATH else None))))"

lemma map_of_rev_wf: "bt_wf m \<Longrightarrow> map_of (rev m) = bt_get m"
  using bt_wf_distinct [of m] by (simp add: map_of_inject_set rev_map [symmetric])

lemma identity_pairs:
  "map_of (rev [(''HOME'', u_home u), (''USER'', u_name u), (''LOGNAME'', u_name u),
     (''SHELL'', u_shell u)]) = identity_layer u"
  by (simp add: identity_layer_def fun_eq_iff)

text \<open>C26: A guest command gets exactly this environment: what the request sets; else what the session
  provides, where the GitHub token is the session's own file or absent and a \<open>GITHUB_TOKEN\<close> of the
  image never gets through; else the account's identity; else the image's variables; else the default
  search path. All of it fits the size limit.\<close>

theorem populate_environment_layers:
  assumes "populate_environment c u d request s = (Ok c', t)"
    and "bt_wf request" and "listening s = {}"
  shows "\<exists>img auth ssh gh.
      (\<exists>s'. image_environment d s = (Ok img, s'))
    \<and> auth \<in> {None, Some (display (d @ [SSH_AGENT_SOCKET]))}
    \<and> ssh \<in> {None, Some (git_ssh_command (d @ [SSH_KNOWN_HOSTS_FILE]))}
    \<and> session_token (files s) d gh
    \<and> (\<forall>k. bt_get (c_env c') k
          = effective_variable request (session_layer d auth ssh gh) u img k)
    \<and> environment_bytes (c_env c') \<le> MAX_ENVIRONMENT_BYTES \<and> c_program c' = c_program c
    \<and> c_args c' = c_args c"
proof -
  define idv where "idv = [(''HOME'', u_home u), (''USER'', u_name u), (''LOGNAME'', u_name u),
    (''SHELL'', u_shell u)]"
  from assms(1) obtain img s1 merged s2 where
    img: "image_environment d s = (Ok img, s1)" and
    app: "apply_environment (bt_extend [(''PATH'', DEFAULT_PATH)] (img @ idv)) d s1
      = (Ok merged, s2)" and
    c': "c' = c\<lparr>c_env := bt_extend merged request\<rparr>" and
    size: "environment_bytes (bt_extend merged request) \<le> MAX_ENVIRONMENT_BYTES"
    by (auto simp: populate_environment_def populate_variables_def io_Ok Let_def idv_def
        validate_effective_process_size_def)
  have o: "outside {} s s1" by (rule preservesD [OF image_environment_reads img])
  have quiet: "listening s1 = {}" using outside_empty_listening [OF o] assms(3) by simp
  have wf0: "bt_wf (bt_extend [(''PATH'', DEFAULT_PATH)] (img @ idv))"
    by (simp add: bt_wf_extend)
  from apply_environment_Ok [OF app wf0 quiet] obtain auth ssh gh where
    cases: "auth \<in> {None, Some (display (d @ [SSH_AGENT_SOCKET]))}"
      "ssh \<in> {None, Some (git_ssh_command (d @ [SSH_KNOWN_HOSTS_FILE]))}"
      "session_token (files s) d gh" and
    get: "bt_get merged = (bt_get (bt_extend [(''PATH'', DEFAULT_PATH)] (img @ idv)))
      (''GIT_CONFIG_GLOBAL'' \<mapsto> display (d @ [GIT_CONFIG_FILE]),
        ''SSH_AUTH_SOCK'' := auth, ''GIT_SSH_COMMAND'' := ssh, ''GITHUB_TOKEN'' := None,
        ''GH_TOKEN'' := gh)"
    using session_token_unchanged [OF o assms(3)] by blast
  have base: "bt_get (bt_extend [(''PATH'', DEFAULT_PATH)] (img @ idv)) k =
      (case identity_layer u k of Some v \<Rightarrow> Some v
       | None \<Rightarrow> (case bt_get img k of Some v \<Rightarrow> Some v
       | None \<Rightarrow> if k = ''PATH'' then Some DEFAULT_PATH else None))" for k
    using map_of_rev_wf [OF bt_wf_image_environment [OF img]] identity_pairs [of u]
    by (auto simp: bt_get_extend map_add_def idv_def [symmetric] split: option.splits)
  have merged: "bt_get merged k = (case session_layer d auth ssh gh k of Some v \<Rightarrow> v
      | None \<Rightarrow> bt_get (bt_extend [(''PATH'', DEFAULT_PATH)] (img @ idv)) k)" for k
    by (simp add: get session_layer_def)
  have "bt_get (c_env c') k
      = effective_variable request (session_layer d auth ssh gh) u img k" for k
    unfolding effective_variable_def base [symmetric] merged [symmetric]
    by (simp add: c' bt_get_extend map_add_def map_of_rev_wf [OF assms(2)])
  with img cases size show ?thesis
    by (intro exI [of _ img] exI [of _ auth] exI [of _ ssh] exI [of _ gh]) (auto simp: c')
qed

section \<open>Witnesses\<close>

text \<open>A guest with a repository in the workspace, a link to it and an empty session directory.\<close>

definition guest_files :: files where
  "guest_files p =
     (if p \<in> {[''workspace''], [''workspace'', ''demo''], [''run''], [''run'', ''spawnr'']}
      then Some (private_dir)
      else if p = [''workspace'', ''link''] then Some (private_dir\<lparr>e_node := Link ''demo''\<rparr>)
      else None)"

definition demo_guest :: os where
  "demo_guest = demo_os guest_files"

definition demo_user :: user where
  "demo_user = \<lparr>u_name = ''dev'', u_uid = 1000, u_gid = 1000, u_home = ''/home/dev'', u_shell = ''/bin/bash''\<rparr>"

lemma demo_contained:
  "contained_path [''workspace''] ''/workspace/link'' True demo_guest
    = (Ok [''workspace'', ''link''], demo_guest)"
proof -
  have c: "components ''/workspace/link'' = [RootDir, Normal ''workspace'', Normal ''link'']"
    "components ''demo'' = [Normal ''demo'']" by code_simp+
  show ?thesis
    by (simp add: contained_path_def ensure_contained_existing_def io_run c is_absolute_def path_strip_prefix_def is_normal_def path_starts_with_def demo_guest_def demo_os_def guest_files_def private_dir_def)
qed

lemma demo_populate:
  "\<exists>c t. populate_environment (new_command ''/bin/true'' []) demo_user [''run'', ''spawnr'']
     [(''TERM'', ''vt100'')] demo_guest = (Ok c, t)"
  by (simp add: populate_environment_def populate_variables_def image_environment_def apply_environment_def read_token_def Let_def
       proxy_enabled_def io_run demo_guest_def demo_os_def guest_files_def private_dir_def demo_user_def
       GIT_CONFIG_FILE_def GH_TOKEN_FILE_def IMAGE_ENV_FILE_def SSH_AGENT_SOCKET_def SSH_KNOWN_HOSTS_FILE_def display_def
       bt_set_def validate_effective_process_size_def environment_bytes_def argument_bytes_def new_command_def
       MAX_ENVIRONMENT_BYTES_def ARG_MAX_RESERVE_def DEFAULT_PATH_def)
theorem contained_path_inside_witness:
  "\<exists>rq. resolve (files demo_guest) [''workspace'', ''link''] = Inr rq \<and> prefix [''workspace''] rq"
proof -
  have quiet: "listening demo_guest = {}" by (simp add: demo_guest_def demo_os_def)
  have "resolve (files demo_guest) [''workspace''] = Inr [''workspace'']"
    by (simp add: resolve_def fs_get_def demo_guest_def demo_os_def guest_files_def private_dir_def)
  with contained_path_inside [OF demo_contained quiet] show ?thesis by auto
qed

theorem populate_environment_layers_witness:
  "\<exists>c t. populate_environment (new_command ''/bin/true'' []) demo_user [''run'', ''spawnr'']
     [(''TERM'', ''vt100'')] demo_guest = (Ok c, t)
     \<and> bt_get (c_env c) ''TERM'' = Some ''vt100'' \<and> bt_get (c_env c) ''GITHUB_TOKEN'' = None"
proof -
  obtain c t where run: "populate_environment (new_command ''/bin/true'' []) demo_user
      [''run'', ''spawnr''] [(''TERM'', ''vt100'')] demo_guest = (Ok c, t)"
    using demo_populate by blast
  have "bt_wf [(''TERM'', ''vt100'')]" "listening demo_guest = {}"
    by (simp_all add: demo_guest_def demo_os_def)
  from populate_environment_layers [OF run this] run show ?thesis
    by (auto simp: effective_variable_def session_layer_def)
qed

end
