(* ===== verification/TerminalStream.thy ===== *)
theory TerminalStream
  imports GuestCommand
begin

text \<open>
  An interactive session, both ends: \<open>exec_tty\<close>'s \<open>relay_pty\<close>, \<open>drain_pty\<close>, \<open>resize_pty\<close> and
  \<open>signal_child\<close> of \<open>crates/spawnr-agent/src/command.rs\<close> in the guest, and the receiving loop of
  \<open>interactive_exec\<close> with the frames of \<open>forward_terminal_signals\<close> of \<open>crates/spawnr/src/guest.rs\<close>
  on the host. What the kernel reports in one turn of a loop is a \<open>turn\<close>; the state is what the loop
  has sent, typed and signalled so far.
\<close>

section \<open>The guest's relay\<close>

datatype master_read = MData string | MEof | MEio | MFails errno

datatype host_side = HostQuiet | HostReadable | HostGone

text \<open>
  One turn: whether the child is found to have exited, an error of \<open>poll\<close>, what reading the terminal
  gives if it is ready, and the state of the connection.
\<close>

record turn =
  tn_exited :: "exit_status option"
  tn_poll_error :: "errno option"
  tn_master :: "master_read option"
  tn_host :: host_side

record relay =
  rl_input :: string
  rl_wire :: string
  rl_typed :: string
  rl_size :: "(nat \<times> nat) option"
  rl_signals :: "nat list"

definition SIGHUP :: nat where "SIGHUP = 1"
definition SIGINT :: nat where "SIGINT = 2"
definition SIGQUIT :: nat where "SIGQUIT = 3"
definition SIGTERM :: nat where "SIGTERM = 15"
definition SIGKILL :: nat where "SIGKILL = 9"
definition SIGWINCH :: nat where "SIGWINCH = 28"

text \<open>\<open>i32::to_be_bytes\<close> and \<open>i32::from_be_bytes\<close>.\<close>

definition i32_bytes :: "int \<Rightarrow> string" where
  "i32_bytes c = be_bytes 4 (nat (c mod 2 ^ 32))"

definition i32_value :: "string \<Rightarrow> int" where
  "i32_value s = (let v = int (be_value s) in if v < 2 ^ 31 then v else v - 2 ^ 32)"

definition send :: "stream_kind \<Rightarrow> string \<Rightarrow> relay \<Rightarrow> unit result \<times> relay" where
  "send k p rl =
     (case write_stream_frame k p of
        Inl e \<Rightarrow> (Inl e, rl)
      | Inr f \<Rightarrow> (Ok (), rl\<lparr>rl_wire := rl_wire rl @ f\<rparr>))"

text \<open>A signal to the child's own process group.\<close>

definition signal_group :: "nat \<Rightarrow> relay \<Rightarrow> relay" where
  "signal_group sig rl = rl\<lparr>rl_signals := rl_signals rl @ [sig]\<rparr>"

definition resize_pty :: "string \<Rightarrow> relay \<Rightarrow> unit result \<times> relay" where
  "resize_pty payload rl =
     (if length payload \<noteq> 4 then (bail ''resize payload must be four bytes'', rl)
      else (Ok (), rl\<lparr>rl_size := Some (max (be_value (take 2 payload)) 1,
                                        max (be_value (drop 2 payload)) 1)\<rparr>))"

definition signal_child :: "string \<Rightarrow> relay \<Rightarrow> unit result \<times> relay" where
  "signal_child payload rl =
     (if length payload \<noteq> 4 then (bail ''signal payload must be four bytes'', rl)
      else (let sig = be_value payload
            in if sig \<in> {SIGINT, SIGTERM, SIGHUP, SIGQUIT} then (Ok (), signal_group sig rl)
               else (bail ''signal is not allowed'', rl)))"

fun drain_pty :: "master_read list \<Rightarrow> relay \<Rightarrow> unit result \<times> relay" where
  "drain_pty [] rl = (Ok (), rl)"
| "drain_pty (MEof # rs) rl = (Ok (), rl)"
| "drain_pty (MEio # rs) rl = (Ok (), rl)"
| "drain_pty (MFails e # rs) rl = (Inl (Io e), rl)"
| "drain_pty (MData d # rs) rl =
     (case send Stdout d rl of (Inl e, rl') \<Rightarrow> (Inl e, rl') | (Inr _, rl') \<Rightarrow> drain_pty rs rl')"

definition relay_master :: "master_read option \<Rightarrow> relay \<Rightarrow> unit result \<times> relay" where
  "relay_master m rl =
     (case m of
        None \<Rightarrow> (Ok (), rl)
      | Some MEof \<Rightarrow> (Ok (), rl)
      | Some MEio \<Rightarrow> (Ok (), rl)
      | Some (MData d) \<Rightarrow> send Stdout d rl
      | Some (MFails e) \<Rightarrow> (Inl (Io e), rl))"

definition relay_host :: "host_side \<Rightarrow> relay \<Rightarrow> unit result \<times> relay" where
  "relay_host h rl =
     (case h of
        HostQuiet \<Rightarrow> (Ok (), rl)
      | HostGone \<Rightarrow> (bail ''interactive host connection closed'', signal_group SIGHUP rl)
      | HostReadable \<Rightarrow>
          (case read_stream_frame (rl_input rl) of
             Inl e \<Rightarrow> (Inl e, signal_group SIGHUP rl)
           | Inr ((k, payload), rest) \<Rightarrow>
               (let rl' = rl\<lparr>rl_input := rest\<rparr>
                in case k of
                     Stdin \<Rightarrow> (Ok (), rl'\<lparr>rl_typed := rl_typed rl' @ payload\<rparr>)
                   | Resize \<Rightarrow> resize_pty payload rl'
                   | Signal \<Rightarrow> signal_child payload rl'
                   | _ \<Rightarrow> (bail ''invalid guest-bound stream frame'', rl'))))"

text \<open>
  \<open>relay_pty\<close>; \<open>drained\<close> is what the terminal still holds when the child has exited. \<open>None\<close>: the turns
  are used up and the session is still running.
\<close>

fun relay_pty :: "turn list \<Rightarrow> master_read list \<Rightarrow> relay \<Rightarrow> unit result option \<times> relay" where
  "relay_pty [] drained rl = (None, rl)"
| "relay_pty (t # ts) drained rl =
     (case tn_exited t of
        Some status \<Rightarrow>
          (case drain_pty drained (signal_group SIGHUP rl) of
             (Inl e, rl') \<Rightarrow> (Some (Inl e), rl')
           | (Inr _, rl') \<Rightarrow> map_prod Some (\<lambda>r. r) (send Exit (i32_bytes (exit_code status)) rl'))
      | None \<Rightarrow>
          (case tn_poll_error t of
             Some e \<Rightarrow> if e = EINTR then relay_pty ts drained rl else (Some (Inl (Io e)), rl)
           | None \<Rightarrow>
               (case relay_master (tn_master t) rl of
                  (Inl e, rl') \<Rightarrow> (Some (Inl e), rl')
                | (Inr _, rl') \<Rightarrow>
                    (case relay_host (tn_host t) rl' of
                       (Inl e, rl'') \<Rightarrow> (Some (Inl e), rl'')
                     | (Inr _, rl'') \<Rightarrow> relay_pty ts drained rl''))))"

section \<open>The host's loop\<close>

text \<open>
  The loop of \<open>interactive_exec\<close> on the bytes the guest sends: the exit status, and what it wrote to
  standard output and standard error.
\<close>

function host_loop :: "string \<Rightarrow> string \<Rightarrow> string \<Rightarrow> int result \<times> string \<times> string" where
  "host_loop wire out err =
     (case read_stream_frame wire of
        Inl e \<Rightarrow> (Inl e, out, err)
      | Inr ((k, payload), rest) \<Rightarrow>
          (case k of
             Stdout \<Rightarrow> host_loop rest (out @ payload) err
           | Stderr \<Rightarrow> host_loop rest out (err @ payload)
           | Exit \<Rightarrow> (if length payload \<noteq> 4 then bail ''guest sent malformed exit status''
                     else Ok (i32_value payload), out, err)
           | _ \<Rightarrow> (bail ''guest sent invalid host-bound stream frame'', out, err)))"
  by pat_completeness auto
termination
  by (relation "measure (\<lambda>(w, _, _). length w)") (auto dest: read_stream_frame_shorter)

declare host_loop.simps [simp del]

text \<open>The frame a terminal signal of the host becomes; the size is the terminal's.\<close>

definition terminal_signal_frame :: "nat \<Rightarrow> 16 word \<Rightarrow> 16 word \<Rightarrow> stream_kind \<times> string" where
  "terminal_signal_frame sig rws cls =
     (if sig = SIGWINCH then (Resize, be_bytes 2 (unat rws) @ be_bytes 2 (unat cls))
      else (Signal, be_bytes 4 sig))"

definition TERMINAL_SIGNALS :: "nat list" where
  "TERMINAL_SIGNALS = [SIGINT, SIGTERM, SIGHUP, SIGWINCH]"

section \<open>Facts\<close>

lemma i32_value_bytes:
  assumes "- (2 ^ 31) \<le> c" and "c < 2 ^ 31"
  shows "i32_value (i32_bytes c) = c"
proof -
  have "be_value (i32_bytes c) = nat (c mod 2 ^ 32)"
    unfolding i32_bytes_def by (rule be_value_be_bytes) (simp add: nat_less_iff)
  moreover have "c mod 2 ^ 32 = (if 0 \<le> c then c else c + 2 ^ 32)"
    using assms mod_pos_pos_trivial [of "c + 2 ^ 32" "2 ^ 32"] by (auto simp: mod_pos_pos_trivial)
  ultimately show ?thesis
    using assms by (auto simp: i32_value_def Let_def)
qed

lemma length_i32_bytes [simp]: "length (i32_bytes c) = 4"
  by (simp add: i32_bytes_def)

text \<open>The bytes \<open>w\<close> carry \<open>data\<close> of standard output to the host.\<close>

definition carries :: "string \<Rightarrow> string \<Rightarrow> bool" where
  "carries w data =
     (\<forall>rest out err. host_loop (w @ rest) out err = host_loop rest (out @ data) err)"

lemma carries_Nil [simp]: "carries [] []"
  by (simp add: carries_def)

lemma host_loop_frame:
  assumes "write_stream_frame k p = Ok f"
  shows "host_loop (f @ rest) out err =
    (case k of
       Stdout \<Rightarrow> host_loop rest (out @ p) err
     | Stderr \<Rightarrow> host_loop rest out (err @ p)
     | Exit \<Rightarrow> (if length p \<noteq> 4 then bail ''guest sent malformed exit status''
               else Ok (i32_value p), out, err)
     | _ \<Rightarrow> (bail ''guest sent invalid host-bound stream frame'', out, err))"
proof -
  from assms have len: "length p \<le> MAX_CONTROL_FRAME"
    and f: "f = char_of (kind_byte k) # be_bytes 4 (length p) @ p"
    by (simp_all add: write_stream_frame_Ok)
  then show ?thesis
    using read_stream_frame_append [OF len, of k rest]
    by (subst host_loop.simps) simp
qed

lemma carries_send:
  assumes "send Stdout p rl = (Inr u, rl')" and "carries (rl_wire rl) data"
  shows "carries (rl_wire rl') (data @ p)"
  using assms host_loop_frame [of Stdout p]
  by (auto simp: send_def carries_def split: sum.splits)

lemma send_wire: "send k p rl = (Inr u, rl') \<longleftrightarrow>
    (\<exists>f. write_stream_frame k p = Ok f \<and> rl' = rl\<lparr>rl_wire := rl_wire rl @ f\<rparr>)"
  by (auto simp: send_def split: sum.splits)

text \<open>What a session reads of the terminal: in its turns up to the child's exit, and afterwards.\<close>

fun drained_data :: "master_read list \<Rightarrow> string" where
  "drained_data (MData d # rs) = d @ drained_data rs"
| "drained_data _ = []"

fun terminal_data :: "turn list \<Rightarrow> master_read list \<Rightarrow> string" where
  "terminal_data [] drained = []"
| "terminal_data (t # ts) drained =
     (if tn_exited t \<noteq> None then drained_data drained
      else if tn_poll_error t \<noteq> None then terminal_data ts drained
      else (case tn_master t of Some (MData d) \<Rightarrow> d | _ \<Rightarrow> []) @ terminal_data ts drained)"

lemma drain_pty_carries:
  "drain_pty rs rl = (Inr u, rl') \<Longrightarrow> carries (rl_wire rl) data
     \<Longrightarrow> carries (rl_wire rl') (data @ drained_data rs)"
proof (induction rs rl arbitrary: data rule: drain_pty.induct)
  case (5 d rs rl)
  then obtain rl1 where "send Stdout d rl = (Inr (), rl1)" "drain_pty rs rl1 = (Inr u, rl')"
    by (auto split: prod.splits sum.splits)
  with 5 carries_send [of d rl "()" rl1 data] show ?case by fastforce
qed auto

lemma relay_master_carries:
  "relay_master m rl = (Inr u, rl') \<Longrightarrow> carries (rl_wire rl) data
     \<Longrightarrow> carries (rl_wire rl') (data @ (case m of Some (MData d) \<Rightarrow> d | _ \<Rightarrow> []))"
  by (auto simp: relay_master_def split: option.splits master_read.splits intro: carries_send)

lemma relay_host_wire: "relay_host h rl = (r, rl') \<Longrightarrow> rl_wire rl' = rl_wire rl"
  by (auto simp: relay_host_def signal_group_def resize_pty_def signal_child_def Let_def
      split: host_side.splits sum.splits stream_kind.splits if_splits prod.splits)

lemma relay_pty_carries:
  assumes "relay_pty ts drained rl = (Some (Ok ()), rl')" and "carries (rl_wire rl) data"
  shows "\<exists>t status w f. t \<in> set ts \<and> tn_exited t = Some status
    \<and> rl_wire rl' = w @ f \<and> carries w (data @ terminal_data ts drained)
    \<and> write_stream_frame Exit (i32_bytes (exit_code status)) = Ok f"
  using assms
proof (induction ts drained rl arbitrary: data rule: relay_pty.induct)
  case (1 drained rl)
  then show ?case by simp
next
  case (2 t ts drained rl)
  show ?case
  proof (cases "tn_exited t")
    case (Some status)
    with 2 obtain rl1 where
      d: "drain_pty drained (signal_group SIGHUP rl) = (Inr (), rl1)" and
      s: "send Exit (i32_bytes (exit_code status)) rl1 = (Inr (), rl')"
      by (auto simp: map_prod_def split: prod.splits sum.splits)
    have "carries (rl_wire rl1) (data @ drained_data drained)"
      using drain_pty_carries [OF d, of data] 2 by (simp add: signal_group_def)
    with s Some show ?thesis by (fastforce simp: send_wire)
  next
    case None
    show ?thesis
    proof (cases "tn_poll_error t")
      case (Some e)
      with None 2 show ?thesis by (fastforce split: if_splits)
    next
      case poll: None
      with None 2 obtain rl1 rl2 where
        m: "relay_master (tn_master t) rl = (Inr (), rl1)" and
        h: "relay_host (tn_host t) rl1 = (Inr (), rl2)" and
        r: "relay_pty ts drained rl2 = (Some (Ok ()), rl')"
        by (auto split: prod.splits sum.splits)
      have "carries (rl_wire rl2) (data @ (case tn_master t of Some (MData d) \<Rightarrow> d | _ \<Rightarrow> []))"
        using relay_master_carries [OF m] relay_host_wire [OF h] 2 by simp
      from "2.IH"(1) [OF None poll m [symmetric] refl h [symmetric] refl r this]
      show ?thesis using None poll by fastforce
    qed
  qed
qed

text \<open>C15: End to end, an interactive session that ends in order gives the host exactly what the command
  wrote to its terminal, in order, and the command's own exit status; nothing lands on the host's
  standard error.\<close>

theorem interactive_session_faithful:
  assumes "relay_pty ts drained rl = (Some (Ok ()), rl')" and "rl_wire rl = []"
    and "\<forall>t \<in> set ts. \<forall>status. tn_exited t = Some status \<longrightarrow>
           - (2 ^ 31) \<le> exit_code status \<and> exit_code status < 2 ^ 31"
  shows "\<exists>t \<in> set ts. \<exists>status. tn_exited t = Some status
    \<and> host_loop (rl_wire rl') [] [] = (Ok (exit_code status), terminal_data ts drained, [])"
proof -
  have "carries (rl_wire rl) []" using assms(2) by simp
  from relay_pty_carries [OF assms(1) this] obtain t status w f where
    t: "t \<in> set ts" "tn_exited t = Some status" and w: "rl_wire rl' = w @ f"
    and data: "carries w (terminal_data ts drained)"
    and f: "write_stream_frame Exit (i32_bytes (exit_code status)) = Ok f"
    by auto
  have "host_loop (w @ f) [] [] = host_loop f (terminal_data ts drained) []"
    using data by (simp add: carries_def)
  also have "\<dots> = (Ok (exit_code status), terminal_data ts drained, [])"
    using host_loop_frame [OF f, of "[]" "terminal_data ts drained" "[]"] t assms(3)
    by (simp add: i32_value_bytes)
  finally show ?thesis using t w by auto
qed

definition demo_turns :: "turn list" where
  "demo_turns =
     [\<lparr>tn_exited = None, tn_poll_error = Some EINTR, tn_master = None, tn_host = HostQuiet\<rparr>,
      \<lparr>tn_exited = None, tn_poll_error = None, tn_master = Some (MData ''hi''),
        tn_host = HostReadable\<rparr>,
      \<lparr>tn_exited = Some (Exited 3), tn_poll_error = None, tn_master = None, tn_host = HostQuiet\<rparr>]"

definition demo_relay :: relay where
  "demo_relay = \<lparr>rl_input = char_of (0 :: nat) # be_bytes 4 2 @ ''ls'', rl_wire = [],
     rl_typed = [], rl_size = None, rl_signals = []\<rparr>"

theorem interactive_session_faithful_witness:
  "\<exists>rl'. relay_pty demo_turns [MData ''!'', MEof] demo_relay = (Some (Ok ()), rl')
     \<and> host_loop (rl_wire rl') [] [] = (Ok 3, ''hi!'', [])"
proof -
  have max: "(2 :: nat) \<le> MAX_CONTROL_FRAME" "4 \<le> MAX_CONTROL_FRAME" "Suc 0 \<le> MAX_CONTROL_FRAME"
    by (simp_all add: MAX_CONTROL_FRAME_def)
  have frame: "read_stream_frame (rl_input demo_relay) = Ok ((Stdin, ''ls''), [])"
    using read_stream_frame_append [of "''ls''" Stdin "[]"] max
    by (simp add: demo_relay_def numeral_2_eq_2)
  obtain rl' where run: "relay_pty demo_turns [MData ''!'', MEof] demo_relay = (Some (Ok ()), rl')"
    using frame max
    by (simp add: demo_turns_def relay_master_def relay_host_def send_def write_stream_frame_def
        signal_group_def demo_relay_def)
  have "rl_wire demo_relay = []" by (simp add: demo_relay_def)
  from interactive_session_faithful [OF run this] run show ?thesis
    by (auto simp: demo_turns_def exit_code_def)
qed

definition group_signals :: "nat set" where
  "group_signals = {SIGINT, SIGTERM, SIGHUP, SIGQUIT}"

lemma send_signals: "send k p rl = (r, rl') \<Longrightarrow> rl_signals rl' = rl_signals rl"
  by (auto simp: send_def split: sum.splits)

lemma drain_pty_signals: "drain_pty rs rl = (r, rl') \<Longrightarrow> rl_signals rl' = rl_signals rl"
  by (induction rs rl rule: drain_pty.induct) (auto split: prod.splits sum.splits dest: send_signals)

lemma relay_master_signals: "relay_master m rl = (r, rl') \<Longrightarrow> rl_signals rl' = rl_signals rl"
  by (auto simp: relay_master_def split: option.splits master_read.splits dest: send_signals)

lemma relay_host_signals:
  "relay_host h rl = (r, rl') \<Longrightarrow> set (rl_signals rl') \<subseteq> set (rl_signals rl) \<union> group_signals"
  by (auto simp: relay_host_def signal_group_def resize_pty_def signal_child_def Let_def
      group_signals_def
      split: host_side.splits sum.splits stream_kind.splits if_splits prod.splits)

text \<open>However a session ends, the guest signals only the process group of the session's own command,
  and only with the four signals it allows; a request for any other signal ends the session with an
  error and sends nothing.\<close>

theorem session_signals_own_group:
  "relay_pty ts drained rl = (r, rl')
     \<Longrightarrow> set (rl_signals rl') \<subseteq> set (rl_signals rl) \<union> group_signals"
proof (induction ts drained rl arbitrary: r rule: relay_pty.induct)
  case (1 drained rl)
  then show ?case by auto
next
  case (2 t ts drained rl)
  show ?case
  proof (cases "tn_exited t")
    case (Some status)
    obtain q rl1 where d: "drain_pty drained (signal_group SIGHUP rl) = (q, rl1)" by fastforce
    then have "rl_signals rl1 = rl_signals rl @ [SIGHUP]"
      using drain_pty_signals by (fastforce simp: signal_group_def)
    moreover have "rl_signals rl' = rl_signals rl1"
      using 2 Some d
      by (auto simp: map_prod_def split: sum.splits prod.splits dest: send_signals)
    ultimately show ?thesis by (auto simp: group_signals_def)
  next
    case None
    show ?thesis
    proof (cases "tn_poll_error t")
      case (Some e)
      with None 2 show ?thesis by (auto split: if_splits)
    next
      case poll: None
      obtain q1 rl1 where m: "relay_master (tn_master t) rl = (q1, rl1)" by fastforce
      obtain q2 rl2 where h: "relay_host (tn_host t) rl1 = (q2, rl2)" by fastforce
      note s = relay_master_signals [OF m] relay_host_signals [OF h]
      show ?thesis
      proof (cases "\<exists>a b. q1 = Inr a \<and> q2 = Inr b")
        case True
        then obtain a b where q: "q1 = Inr a" "q2 = Inr b" by blast
        with None poll m h "2.prems" have "relay_pty ts drained rl2 = (r, rl')" by simp
        from "2.IH"(1) [OF None poll m [symmetric] q(1) h [symmetric] q(2) this] s
        show ?thesis by auto
      next
        case False
        with None poll m h "2.prems" s show ?thesis by (auto split: sum.splits)
      qed
    qed
  qed
qed

theorem session_signals_own_group_witness:
  "\<exists>r rl'. relay_pty demo_turns [] demo_relay = (r, rl')
     \<and> set (rl_signals rl') \<subseteq> {1, 2, 3, 15}"
proof -
  obtain r rl' where "relay_pty demo_turns [] demo_relay = (r, rl')" by fastforce
  with session_signals_own_group [OF this] show ?thesis
    by (auto simp: demo_relay_def group_signals_def SIGHUP_def SIGINT_def SIGQUIT_def SIGTERM_def)
qed

end
