(* ===== verification/Codec.thy ===== *)
theory Codec
  imports Records
begin

text \<open>
  \<open>serde_json\<close>, which is not part of the sources, as a parameter: a \<open>codec\<close> is the pair of its encoder
  and decoder for one type, and \<open>codec_ok\<close> what the program relies on. The rest of the theory builds
  concrete codecs for the program's records, which show that the hypothesis can hold.
\<close>

record 'a codec =
  enc :: "'a \<Rightarrow> string"
  dec :: "string \<Rightarrow> 'a option"

definition newline :: string where "newline = [CHR 0x0A]"

text \<open>What is written is read back, also with white space (a newline) after it.\<close>

definition codec_ok :: "'a codec \<Rightarrow> bool" where
  "codec_ok c = (\<forall>x. dec c (enc c x) = Some x \<and> dec c (enc c x @ newline) = Some x)"

section \<open>Concrete codecs\<close>

text \<open>A self-delimiting codec: decoding an encoded value gives it back with whatever follows.\<close>

record 'a pcodec =
  penc :: "'a \<Rightarrow> string"
  pdec :: "string \<Rightarrow> ('a \<times> string) option"

definition pc_ok :: "'a pcodec \<Rightarrow> bool" where
  "pc_ok c = (\<forall>x r. pdec c (penc c x @ r) = Some (x, r))"

definition pc_nat :: "nat pcodec" where
  "pc_nat = \<lparr>penc = (\<lambda>n. decimal n @ '';''),
     pdec = (\<lambda>s. case split_once CHR '';'' s of None \<Rightarrow> None
       | Some (a, b) \<Rightarrow> map_option (\<lambda>n. (n, b)) (digits_val 10 0 a))\<rparr>"

definition pc_map :: "('a \<Rightarrow> 'b) \<Rightarrow> ('b \<Rightarrow> 'a) \<Rightarrow> 'a pcodec \<Rightarrow> 'b pcodec" where
  "pc_map f g c = \<lparr>penc = (\<lambda>x. penc c (g x)), pdec = (\<lambda>s. map_option (map_prod f (\<lambda>r. r)) (pdec c s))\<rparr>"

definition pc_pair :: "'a pcodec \<Rightarrow> 'b pcodec \<Rightarrow> ('a \<times> 'b) pcodec" where
  "pc_pair c d = \<lparr>penc = (\<lambda>(x, y). penc c x @ penc d y),
     pdec = (\<lambda>s. case pdec c s of None \<Rightarrow> None
       | Some (x, r) \<Rightarrow> map_option (\<lambda>(y, r'). ((x, y), r')) (pdec d r))\<rparr>"

fun pdec_list :: "'a pcodec \<Rightarrow> nat \<Rightarrow> string \<Rightarrow> ('a list \<times> string) option" where
  "pdec_list c 0 s = Some ([], s)"
| "pdec_list c (Suc n) s =
     (case pdec c s of None \<Rightarrow> None
      | Some (x, r) \<Rightarrow> map_option (\<lambda>(xs, r'). (x # xs, r')) (pdec_list c n r))"

definition pc_list :: "'a pcodec \<Rightarrow> 'a list pcodec" where
  "pc_list c = \<lparr>penc = (\<lambda>xs. penc pc_nat (length xs) @ concat (map (penc c) xs)),
     pdec = (\<lambda>s. case pdec pc_nat s of None \<Rightarrow> None | Some (n, r) \<Rightarrow> pdec_list c n r)\<rparr>"

definition pc_char :: "char pcodec" where
  "pc_char = \<lparr>penc = (\<lambda>c. [c]), pdec = (\<lambda>s. case s of [] \<Rightarrow> None | c # r \<Rightarrow> Some (c, r))\<rparr>"

definition pc_string :: "string pcodec" where "pc_string = pc_list pc_char"

definition pc_option :: "'a pcodec \<Rightarrow> 'a option pcodec" where
  "pc_option c =
     pc_map (\<lambda>xs. case xs of [] \<Rightarrow> None | x # _ \<Rightarrow> Some x)
       (\<lambda>x. case x of None \<Rightarrow> [] | Some y \<Rightarrow> [y]) (pc_list c)"

definition pc_word :: "'a::len word pcodec" where
  "pc_word = pc_map of_nat unat pc_nat"

definition pc_int :: "int pcodec" where
  "pc_int = pc_map (\<lambda>(a, b). int a - int b) (\<lambda>i. (nat i, nat (- i))) (pc_pair pc_nat pc_nat)"

definition pc_environment :: "environment_record pcodec" where
  "pc_environment =
     pc_map (\<lambda>(a, b, c). environment_record.make a b c)
       (\<lambda>e. (e_reference e, e_manifest_digest e, e_base_cache_key e))
       (pc_pair pc_string (pc_pair (pc_option pc_string) (pc_option pc_string)))"

definition pc_machine :: "machine_record pcodec" where
  "pc_machine =
     pc_map (\<lambda>((a, b, c, d), (e, f, g, h, i)). machine_record.make a b c d e f g h i)
       (\<lambda>r. ((m_id r, m_name r, m_environment r, m_repository r),
             (m_repository_dir r, m_workspace_id r, m_created_at r, m_vsock_cid r, m_mac_address r)))
       (pc_pair
         (pc_pair pc_word (pc_pair pc_string (pc_pair pc_environment (pc_option pc_string))))
         (pc_pair (pc_option pc_string) (pc_pair pc_word (pc_pair pc_int (pc_pair pc_word pc_string)))))"

definition pc_state :: "app_state pcodec" where
  "pc_state =
     pc_map (\<lambda>(a, b). app_state.make a b) (\<lambda>s. (schema_version s, machines s))
       (pc_pair pc_nat (pc_list (pc_pair pc_string pc_machine)))"

definition pc_owner :: "ownership_marker pcodec" where
  "pc_owner =
     pc_map (\<lambda>(a, b, c). ownership_marker.make a b c)
       (\<lambda>m. (marker_owner m, marker_machine_id m, marker_machine_name m))
       (pc_pair pc_string (pc_pair pc_word pc_string))"

text \<open>A \<open>codec\<close> allows nothing but white space after the value.\<close>

definition codec_of :: "'a pcodec \<Rightarrow> 'a codec" where
  "codec_of c = \<lparr>enc = penc c,
     dec = (\<lambda>s. case pdec c s of Some (x, r) \<Rightarrow> if r = [] \<or> r = newline then Some x else None
       | None \<Rightarrow> None)\<rparr>"

lemma codec_ok_of: "pc_ok c \<Longrightarrow> codec_ok (codec_of c)"
  by (auto simp: codec_ok_def codec_of_def pc_ok_def dest: spec [where x = "[]"] split: option.splits)
    (metis append.right_neutral option.distinct(1) option.inject prod.inject)+

lemma pc_ok_nat: "pc_ok pc_nat"
proof -
  have "split_once CHR '';'' (decimal n @ CHR '';'' # r) = Some (decimal n, r)" for n r
    using decimal_digits [of "CHR '';''" n] by (auto simp: split_once_Some is_ascii_digit_def)
  then show ?thesis by (simp add: pc_ok_def pc_nat_def digits_val_decimal)
qed

lemma pc_ok_map: "pc_ok c \<Longrightarrow> (\<And>x. f (g x) = x) \<Longrightarrow> pc_ok (pc_map f g c)"
  by (simp add: pc_ok_def pc_map_def)

lemma pc_ok_pair: "pc_ok c \<Longrightarrow> pc_ok d \<Longrightarrow> pc_ok (pc_pair c d)"
  by (simp add: pc_ok_def pc_pair_def)

lemma pc_ok_list: "pc_ok c \<Longrightarrow> pc_ok (pc_list c)"
proof -
  assume c: "pc_ok c"
  have "pdec_list c (length xs) (concat (map (penc c) xs) @ r) = Some (xs, r)" for xs r
    using c by (induction xs) (simp_all add: pc_ok_def)
  with pc_ok_nat show ?thesis by (simp add: pc_ok_def pc_list_def)
qed

lemma pc_ok_char: "pc_ok pc_char"
  by (simp add: pc_ok_def pc_char_def)

lemma pc_ok_string: "pc_ok pc_string"
  by (simp add: pc_string_def pc_ok_list pc_ok_char)

lemma pc_ok_option: "pc_ok c \<Longrightarrow> pc_ok (pc_option c)"
  by (auto simp: pc_option_def intro!: pc_ok_map pc_ok_list split: option.splits)

lemma pc_ok_word: "pc_ok pc_word"
  by (simp add: pc_word_def pc_ok_map pc_ok_nat)

lemma pc_ok_int: "pc_ok pc_int"
  by (auto simp: pc_int_def intro!: pc_ok_map pc_ok_pair pc_ok_nat)

lemmas pc_ok_rules = pc_ok_map pc_ok_pair pc_ok_list pc_ok_string pc_ok_option pc_ok_word pc_ok_int
  pc_ok_nat

lemma pc_ok_environment: "pc_ok pc_environment"
  unfolding pc_environment_def by (intro pc_ok_rules) (simp add: environment_record.make_def)

lemma pc_ok_machine: "pc_ok pc_machine"
  unfolding pc_machine_def
  by (intro pc_ok_rules pc_ok_environment) (simp add: machine_record.make_def)

lemma pc_ok_state: "pc_ok pc_state"
  unfolding pc_state_def
  by (intro pc_ok_rules pc_ok_machine) (simp add: app_state.make_def)

lemma pc_ok_owner: "pc_ok pc_owner"
  unfolding pc_owner_def by (intro pc_ok_rules) (simp add: ownership_marker.make_def)

end
