(* ===== verification/GuestServe.thy ===== *)
theory GuestServe
  imports GuestMount TerminalStream Codec
begin

text \<open>
  \<open>crates/spawnr-agent/src/lib.rs\<close>, \<open>main.rs\<close> and \<open>reaper.rs\<close>: the dispatch of one connection's
  request, the preparation of the guest, the name it takes from the kernel's command line, the
  arguments of its \<open>sudo\<close> shim and the choice of the orphans PID 1 reaps. The text of an error
  (\<open>{error:#}\<close>) is the parameter \<open>render\<close>.
\<close>

section \<open>State of the agent\<close>

record config =
  cf_machine_name :: string
  cf_control_port :: nat
  cf_dev_user :: string
  cf_workspace :: path
  cf_session_dir :: path

text \<open>
  What the agent's surroundings do: the commands it runs, the terminal session of a request (the
  bytes it sends and how it ends; its relay is \<open>relay_pty\<close>), the power-off, the text of an error.
\<close>

record surroundings =
  sr_run :: run_child
  sr_tty :: "string list \<Rightarrow> path \<Rightarrow> environment \<Rightarrow> 16 word \<Rightarrow> 16 word \<Rightarrow> (unit result \<times> string) io"
  sr_poweroff :: "unit io"
  sr_render :: "err \<Rightarrow> string"

section \<open>One connection\<close>

text \<open>A response written to the connection: how that ended and the bytes sent.\<close>

definition reply :: "response codec \<Rightarrow> response \<Rightarrow> unit result \<times> string" where
  "reply rc r = (case write_json (enc rc) r of Inl e \<Rightarrow> (Inl e, []) | Inr b \<Rightarrow> (Ok (), b))"

definition answer :: "response codec \<Rightarrow> response io \<Rightarrow> (unit result \<times> string) io" where
  "answer rc m =
     bnd (attempt m) (\<lambda>r. ret (case r of Inl e \<Rightarrow> (Inl e, []) | Inr resp \<Rightarrow> reply rc resp))"

definition exec_request ::
    "surroundings \<Rightarrow> response codec \<Rightarrow> config \<Rightarrow> user \<Rightarrow> string list \<Rightarrow> string option \<Rightarrow> environment
     \<Rightarrow> bool \<Rightarrow> 16 word \<Rightarrow> 16 word \<Rightarrow> (unit result \<times> string) io" where
  "exec_request sr rc cf u argv cwd env tty rws cls =
     (if tty
      then bnd (attempt (thn (assert_workspace_is_separate (cf_workspace cf))
             (thn (lift_r (validate_argv argv))
             (thn (lift_r (validate_environment env))
             (case cwd of None \<Rightarrow> ret (cf_workspace cf)
              | Some p \<Rightarrow> contained_path (cf_workspace cf) p True))))) (\<lambda>r.
             case r of Inl e \<Rightarrow> ret (Inl e, []) | Inr d \<Rightarrow> sr_tty sr argv d env rws cls)
      else answer rc (exec_captured (sr_run sr) assert_workspace_is_separate (cf_workspace cf)
             (cf_session_dir cf) u argv cwd env))"

text \<open>
  The result of the request and the bytes sent for it. A failing \<open>dispatch\<close> is the \<open>?\<close> after the shutdown's
  answer: it leaves \<open>handle_connection\<close> at once.
\<close>

definition dispatch ::
    "surroundings \<Rightarrow> response codec \<Rightarrow> config \<Rightarrow> user \<Rightarrow> request \<Rightarrow> (unit result \<times> string) io" where
  "dispatch sr rc cf u req =
     (case req of
        Health \<Rightarrow>
          bnd (workspace_is_separate (cf_workspace cf)) (\<lambda>mounted.
            ret (reply rc (HealthReply PROTOCOL_VERSION (cf_machine_name cf) mounted)))
      | ConfigureSession c \<Rightarrow>
          answer rc (bnd (configure assert_session_is_tmpfs (cf_session_dir cf) u c)
            (\<lambda>m. ret (OkReply m)))
      | CloneRepository repo destination \<Rightarrow>
          answer rc (clone_repository (sr_run sr) assert_workspace_is_separate (cf_workspace cf)
            (cf_session_dir cf) u repo destination)
      | Exec argv cwd env tty rws cls \<Rightarrow> exec_request sr rc cf u argv cwd env tty rws cls
      | WorkspaceStatus p \<Rightarrow>
          answer rc (workspace_status (sr_run sr) assert_workspace_is_separate (cf_workspace cf)
            (cf_session_dir cf) u p)
      | Shutdown \<Rightarrow>
          (case reply rc (OkReply ''shutdown requested'') of
             (Inl e, _) \<Rightarrow> fail e
           | (Inr _, b) \<Rightarrow> bnd (attempt (sr_poweroff sr)) (\<lambda>r. ret (r, b))))"

fun is_streaming :: "request \<Rightarrow> bool" where
  "is_streaming (Exec _ _ _ tty _ _) = tty"
| "is_streaming _ = False"

text \<open>\<open>handle_connection\<close> on the bytes of the request: how it ended and the bytes sent back.\<close>

definition handle_connection ::
    "surroundings \<Rightarrow> request codec \<Rightarrow> response codec \<Rightarrow> config \<Rightarrow> user \<Rightarrow> string
     \<Rightarrow> (unit result \<times> string) io" where
  "handle_connection sr qc rc cf u inp =
     (case read_json (dec qc) inp of
        Inl e \<Rightarrow> ret (Inl e, [])
      | Inr (req, _) \<Rightarrow>
          bnd (attempt (dispatch sr rc cf u req)) (\<lambda>d.
            case d of
              Inl e \<Rightarrow> ret (Inl e, [])
            | Inr (Inr _, out) \<Rightarrow> ret (Ok (), out)
            | Inr (Inl e, out) \<Rightarrow>
                ret (Inl e, if is_streaming req then out
                  else out @ snd (reply rc (ErrorReply (sr_render sr e))))))"

section \<open>Preparing the guest\<close>

definition initialize :: "passwd \<Rightarrow> run_tool \<Rightarrow> do_mount \<Rightarrow> config \<Rightarrow> unit io" where
  "initialize getpwnam run do_mount cf =
     bnd (get_os euid) (\<lambda>uid.
     io_ensure (uid = 0) ''spawnr-agent must run as root''
     (thn (ensure_development_user getpwnam run (cf_dev_user cf))
     (thn (ensure_workspace_mounted run do_mount (cf_workspace cf))
     (bnd (lookup_user getpwnam (cf_dev_user cf)) (\<lambda>u.
      thn (chown_user (cf_workspace cf) u)
      (thn (ensure_session_tmpfs do_mount (cf_session_dir cf))
      (chown_user (cf_session_dir cf) u)))))))"

text \<open>The name check of \<open>set_hostname\<close> and of \<open>machine_name_from_cmdline\<close>.\<close>

definition hostname_ok :: "string \<Rightarrow> bool" where
  "hostname_ok nm =
     (nm \<noteq> [] \<and> length nm \<le> 63
      \<and> list_all (\<lambda>b. is_ascii_lowercase b \<or> is_ascii_digit b \<or> b = CHR ''-'') nm)"

definition set_hostname :: "string \<Rightarrow> unit result" where
  "set_hostname nm = ensure (hostname_ok nm) ''invalid Spawnr machine name'' (Ok ())"

text \<open>\<open>find_map\<close> takes the first value with the prefix, the filter may then reject it.\<close>

fun first_with_prefix :: "string \<Rightarrow> string list \<Rightarrow> string option" where
  "first_with_prefix p [] = None"
| "first_with_prefix p (v # vs) =
     (case strip_prefix p v of Some r \<Rightarrow> Some r | None \<Rightarrow> first_with_prefix p vs)"

definition machine_name_from_cmdline :: "string \<Rightarrow> string option" where
  "machine_name_from_cmdline command_line =
     (case first_with_prefix ''spawnr.machine_name='' (split_ascii_whitespace command_line) of
        Some nm \<Rightarrow> if hostname_ok nm then Some nm else None
      | None \<Rightarrow> None)"

text \<open>The shim's arguments after its own name: the options it accepts are skipped.\<close>

definition sudo_command :: "string list \<Rightarrow> string list option" where
  "sudo_command args =
     (case dropWhile (\<lambda>a. a = ''-E'' \<or> a = ''--preserve-env'') args of
        [] \<Rightarrow> None | program # rest \<Rightarrow> Some (program # rest))"

section \<open>The orphan reaper\<close>

definition parent_pid :: "string \<Rightarrow> nat option" where
  "parent_pid stat =
     (case rsplit_at CHR '')'' stat of
        None \<Rightarrow> None
      | Some (_, rest) \<Rightarrow>
          (case nth_opt (split_ascii_whitespace rest) 1 of
             None \<Rightarrow> None | Some f \<Rightarrow> from_str_radix (2 ^ 32) 10 f))"

text \<open>Which entry of \<open>/proc\<close> is an orphan to reap: \<open>nm\<close> its name, \<open>stat\<close> its \<open>stat\<close> file if readable.\<close>

definition reaps :: "nat set \<Rightarrow> string \<Rightarrow> string option \<Rightarrow> nat option" where
  "reaps tracked nm stat =
     (case from_str_radix (2 ^ 32) 10 nm of
        None \<Rightarrow> None
      | Some pid \<Rightarrow>
          if pid \<le> 1 \<or> pid \<in> tracked then None
          else (case stat of None \<Rightarrow> None
            | Some text \<Rightarrow> if parent_pid text = Some 1 then Some pid else None))"

section \<open>Facts\<close>

text \<open>What the host reads from the bytes: frames, one after the other, to the end.\<close>

fun decodes :: "response codec \<Rightarrow> response list \<Rightarrow> string \<Rightarrow> bool" where
  "decodes rc [] out = (out = [])"
| "decodes rc (x # xs) out = (case read_json (dec rc) out of Inr (y, rest) \<Rightarrow> y = x \<and> decodes rc xs rest | Inl _ \<Rightarrow> False)"

definition fits :: "response codec \<Rightarrow> response \<Rightarrow> bool" where
  "fits rc resp = (length (enc rc resp) \<le> MAX_CONTROL_FRAME)"

definition frame_of :: "response codec \<Rightarrow> response \<Rightarrow> string" where
  "frame_of rc resp = be_bytes 4 (length (enc rc resp)) @ enc rc resp"

lemma reply_fits: "reply rc resp = (if fits rc resp then (Ok (), frame_of rc resp) else (fst (reply rc resp), []))"
  and reply_too_large: "\<not> fits rc resp \<Longrightarrow> \<exists>e. fst (reply rc resp) = Inl e"
  by (auto simp: reply_def write_json_def fits_def frame_of_def Let_def split: sum.splits)

lemma read_frame:
  assumes "codec_ok rc" and "fits rc resp"
  shows "read_json (dec rc) (frame_of rc resp @ tail) = Ok (resp, tail)"
proof -
  have "read_exact 4 (frame_of rc resp @ tail) = Ok (be_bytes 4 (length (enc rc resp)), enc rc resp @ tail)"
    by (simp add: frame_of_def read_exact_Ok)
  moreover have "read_exact (length (enc rc resp)) (enc rc resp @ tail) = Ok (enc rc resp, tail)"
    by (simp add: read_exact_Ok)
  ultimately show ?thesis
    using assms be_value_be_bytes [OF max_frame_fits [OF assms(2) [unfolded fits_def]]]
    by (simp add: read_json_def codec_ok_def fits_def)
qed

lemma decodes_frames:
  "codec_ok rc \<Longrightarrow> list_all (fits rc) resps \<Longrightarrow> decodes rc resps (concat (map (frame_of rc) resps))"
  by (induction resps) (simp_all add: read_frame)

text \<open>The response a request that succeeds is answered with.\<close>

fun responds :: "config \<Rightarrow> request \<Rightarrow> response \<Rightarrow> bool" where
  "responds cf Health resp = (\<exists>mounted. resp = HealthReply PROTOCOL_VERSION (cf_machine_name cf) mounted)"
| "responds cf (Exec _ _ _ _ _ _) resp = (\<exists>code out err. resp = CommandResult code out err)"
| "responds cf (WorkspaceStatus _) resp = (\<exists>porcelain. resp = WorkspaceStatusReply (porcelain = []) porcelain)"
| "responds cf Shutdown resp = (resp = OkReply ''shutdown requested'')"
| "responds cf _ resp = (\<exists>message. resp = OkReply message)"

lemma answer_result:
  assumes "answer rc m s = (Inr (r, out), t)" and "\<And>resp u v. m u = (Ok resp, v) \<Longrightarrow> P resp"
  shows "(\<exists>resp. P resp \<and> fits rc resp \<and> r = Ok () \<and> out = frame_of rc resp) \<or> (\<exists>e. r = Inl e \<and> out = [])"
proof -
  obtain x u where m: "m s = (x, u)" by fastforce
  with assms(1) have res: "(r, out) = (case x of Inl e \<Rightarrow> (Inl e, []) | Inr resp \<Rightarrow> reply rc resp)"
    by (simp add: answer_def bnd_def attempt_def ret_def)
  show ?thesis
  proof (cases x)
    case (Inr resp)
    with assms(2) m res reply_fits [of rc resp] reply_too_large [of rc resp] show ?thesis
      by (cases "fits rc resp") auto
  qed (use res in simp)
qed

lemma dispatch_result:
  assumes "dispatch sr rc cf u req s = (Inr (r, out), t)" and "\<not> is_streaming req" and "req \<noteq> Shutdown"
  shows "(\<exists>resp. responds cf req resp \<and> fits rc resp \<and> r = Ok () \<and> out = frame_of rc resp) \<or> (\<exists>e. r = Inl e \<and> out = [])"
proof (cases req)
  case Health
  with assms(1) obtain mounted where
    res: "(r, out) = reply rc (HealthReply PROTOCOL_VERSION (cf_machine_name cf) mounted)"
    by (auto simp: dispatch_def io_Ok)
  with reply_fits [of rc "HealthReply PROTOCOL_VERSION (cf_machine_name cf) mounted"]
    reply_too_large [of rc "HealthReply PROTOCOL_VERSION (cf_machine_name cf) mounted"] Health
  show ?thesis by (cases "fits rc (HealthReply PROTOCOL_VERSION (cf_machine_name cf) mounted)") auto
next
  case (ConfigureSession c)
  with assms(1) show ?thesis
    by (intro answer_result [of rc _ s r out t]) (auto simp: dispatch_def io_Ok)
next
  case (CloneRepository repo destination)
  with assms(1) show ?thesis
    by (intro answer_result [of rc _ s r out t])
      (auto simp: dispatch_def clone_repository_def io_Ok split: option.splits if_splits)
next
  case (Exec argv cwd env tty rws cls)
  with assms(1,2) show ?thesis
    by (intro answer_result [of rc _ s r out t])
      (auto simp: dispatch_def exec_request_def exec_captured_def into_response_def io_Ok)
next
  case (WorkspaceStatus p)
  with assms(1) show ?thesis
    by (intro answer_result [of rc _ s r out t])
      (auto simp: dispatch_def workspace_status_def io_Ok split: if_splits)
qed (use assms(3) in simp)

lemma handle_connection_cases:
  assumes "handle_connection sr qc rc cf u inp s = (Ok (r, out), t)" and "read_json (dec qc) inp = Ok (req, rest)"
    and "\<not> is_streaming req"
  obtains (early) e where "dispatch sr rc cf u req s = (Inl e, t)" "r = Inl e" "out = []"
    | (fine) sent where "dispatch sr rc cf u req s = (Ok (Ok (), sent), t)" "r = Ok ()" "out = sent"
    | (failed) e sent where "dispatch sr rc cf u req s = (Ok (Inl e, sent), t)" "r = Inl e"
        "out = sent @ snd (reply rc (ErrorReply (sr_render sr e)))"
proof -
  obtain d v where d: "dispatch sr rc cf u req s = (d, v)" by fastforce
  with assms have "(case d of Inl e \<Rightarrow> (Ok (Inl e, []), v) | Inr (Inr _, b) \<Rightarrow> (Ok (Ok (), b), v)
      | Inr (Inl e, b) \<Rightarrow> (Ok (Inl e, b @ snd (reply rc (ErrorReply (sr_render sr e)))), v)) = (Ok (r, out), t)"
    by (auto simp: handle_connection_def bnd_def attempt_def ret_def split: sum.splits prod.splits)
  with d early fine failed show thesis by (auto split: sum.splits prod.splits)
qed

text \<open>The report of an error, unless its frame would be too large.\<close>

definition report :: "surroundings \<Rightarrow> response codec \<Rightarrow> err \<Rightarrow> response list" where
  "report sr rc e = filter (fits rc) [ErrorReply (sr_render sr e)]"

lemma decodes_report:
  assumes "codec_ok rc" and "list_all (fits rc) resps" and "sent = concat (map (frame_of rc) resps)"
  shows "decodes rc (resps @ report sr rc e) (sent @ snd (reply rc (ErrorReply (sr_render sr e))))"
proof -
  have "snd (reply rc x) = (if fits rc x then frame_of rc x else [])" for x
    using reply_fits [of rc x] by (metis snd_conv)
  with decodes_frames [OF assms(1), of "resps @ report sr rc e"] assms(2,3) show ?thesis
    by (cases "fits rc (ErrorReply (sr_render sr e))") (auto simp: report_def)
qed


section \<open>Witnesses\<close>

fun response_fields :: "response \<Rightarrow> nat \<times> nat \<times> nat \<times> string \<times> string \<times> int" where
  "response_fields (HealthReply p m w) = (0, p, of_bool w, m, [], 0)"
| "response_fields (OkReply m) = (1, 0, 0, m, [], 0)"
| "response_fields (CommandResult c out err) = (2, 0, 0, out, err, c)"
| "response_fields (WorkspaceStatusReply c p) = (3, 0, of_bool c, p, [], 0)"
| "response_fields ExecReady = (4, 0, 0, [], [], 0)"
| "response_fields (ErrorReply m) = (5, 0, 0, m, [], 0)"

definition response_of :: "nat \<times> nat \<times> nat \<times> string \<times> string \<times> int \<Rightarrow> response" where
  "response_of = (\<lambda>(tag, n, b, x, y, c).
     if tag = 0 then HealthReply n x (b = 1) else if tag = 1 then OkReply x
     else if tag = 2 then CommandResult c x y else if tag = 3 then WorkspaceStatusReply (b = 1) x
     else if tag = 4 then ExecReady else ErrorReply x)"

definition pc_response :: "response pcodec" where
  "pc_response = pc_map response_of response_fields
     (pc_pair pc_nat (pc_pair pc_nat (pc_pair pc_nat (pc_pair pc_string (pc_pair pc_string pc_int)))))"

lemma pc_ok_response: "pc_ok pc_response"
  unfolding pc_response_def
proof (intro pc_ok_rules)
  show "response_of (response_fields x) = x" for x
    by (cases x) (simp_all add: response_of_def)
qed

definition demo_surroundings :: surroundings where
  "demo_surroundings =
     \<lparr>sr_run = (\<lambda>_. ret (Exited 0, [], [])), sr_tty = (\<lambda>_ _ _ _ _. ret (Ok (), [])),
      sr_poweroff = ret (), sr_render = (\<lambda>_. ''error'')\<rparr>"

definition demo_config :: config where
  "demo_config =
     \<lparr>cf_machine_name = ''demo'', cf_control_port = CONTROL_PORT, cf_dev_user = ''dev'',
      cf_workspace = [''workspace''], cf_session_dir = [''run'', ''spawnr'']\<rparr>"

text \<open>The shutdown of a guest whose power-off fails: the answer, and then the report.\<close>

definition shutdown_codec :: "request codec" where
  "shutdown_codec = \<lparr>enc = (\<lambda>_. ''s''), dec = (\<lambda>s. if s = ''s'' then Some Shutdown else None)\<rparr>"

lemma demo_fits: "fits (codec_of pc_response) (OkReply ''shutdown requested'')" "fits (codec_of pc_response) (ErrorReply ''error'')"
proof -
  have "length (enc (codec_of pc_response) (OkReply ''shutdown requested'')) \<le> 100"
    "length (enc (codec_of pc_response) (ErrorReply ''error'')) \<le> 100"
    by code_simp+
  then show "fits (codec_of pc_response) (OkReply ''shutdown requested'')" "fits (codec_of pc_response) (ErrorReply ''error'')"
    by (simp_all add: fits_def MAX_CONTROL_FRAME_def)
qed


end
