(* ===== verification/OsTree.thy ===== *)
theory OsTree
  imports OsModel
begin

text \<open>
  Calls on whole directories: listing one, moving a tree and exchanging two trees. The order in which
  the kernel lists a directory, and which names it lists, is a parameter \<open>ls\<close>; \<open>lists ls\<close> is what the
  program relies on: exactly the names of the entries, each once.
\<close>

type_synonym listing = "files \<Rightarrow> path \<Rightarrow> string list"

definition lists :: "listing \<Rightarrow> bool" where
  "lists ls = (\<forall>fs d. finite (dom fs) \<longrightarrow>
     distinct (ls fs d) \<and> set (ls fs d) = {n. fs (d @ [n]) \<noteq> None})"

text \<open>
  The kernel refuses paths of more than 4,096 bytes (\<open>ENAMETOOLONG\<close>, 36), so a walk of a tree never
  goes deeper than 2,048 levels: the turns the walks of the model get.
\<close>

definition MAX_DEPTH :: nat where "MAX_DEPTH = 2048"

definition too_long :: "'a io" where "too_long = fail (Io (EOTHER 36))"

definition sys_read_dir :: "listing \<Rightarrow> path \<Rightarrow> string list io" where
  "sys_read_dir ls p = syscall (\<lambda>s.
     case resolve (files s) p of
       Inl e \<Rightarrow> (Inl (Io e), s)
     | Inr q \<Rightarrow> if is_dir_at s q then (Ok (ls (files s) q), s) else (Inl (Io ENOTDIR), s))"

definition move_tree :: "path \<Rightarrow> path \<Rightarrow> os \<Rightarrow> os" where
  "move_tree a b s = s\<lparr>files := (\<lambda>q.
     if prefix b q then files s (a @ drop (length b) q)
     else if prefix a q then None else files s q)\<rparr>"

text \<open>\<open>rename(2)\<close> of a directory: only onto nothing or onto an empty directory, and not into itself.\<close>

definition sys_rename_dir :: "listing \<Rightarrow> path \<Rightarrow> path \<Rightarrow> unit io" where
  "sys_rename_dir ls a b = syscall (\<lambda>s.
     if a = [] \<or> b = [] \<or> \<not> is_dir_at s a then (Inl (Io ENOENT), s)
     else if prefix a b then (Inl (Io EINVAL), s)
     else if \<not> is_dir_at s (butlast b) then (Inl (Io ENOENT), s)
     else case files s b of
       None \<Rightarrow> (Ok (), move_tree a b s)
     | Some e \<Rightarrow>
         if e_node e \<noteq> Dir then (Inl (Io ENOTDIR), s)
         else if ls (files s) b \<noteq> [] then (Inl (Io (EOTHER 39)), s)
         else (Ok (), move_tree a b s))"

definition swap_trees :: "path \<Rightarrow> path \<Rightarrow> os \<Rightarrow> os" where
  "swap_trees a b s = s\<lparr>files := (\<lambda>q.
     if prefix a q then files s (b @ drop (length a) q)
     else if prefix b q then files s (a @ drop (length b) q) else files s q)\<rparr>"

text \<open>\<open>renameat2(RENAME_EXCHANGE)\<close>: both exist and neither is inside the other.\<close>

definition sys_exchange :: "path \<Rightarrow> path \<Rightarrow> unit io" where
  "sys_exchange a b = syscall (\<lambda>s.
     if files s a = None \<or> files s b = None then (Inl (Io ENOENT), s)
     else if prefix a b \<or> prefix b a then (Inl (Io EINVAL), s)
     else (Ok (), swap_trees a b s))"

text \<open>A loop that carries a value.\<close>

fun io_fold :: "('a \<Rightarrow> 'b \<Rightarrow> 'b io) \<Rightarrow> 'a list \<Rightarrow> 'b \<Rightarrow> 'b io" where
  "io_fold f [] acc = ret acc"
| "io_fold f (x # xs) acc = bnd (f x acc) (io_fold f xs)"

context frame
begin

lemma io_fold: "(\<And>x a. x \<in> set xs \<Longrightarrow> preserves R (f x a)) \<Longrightarrow> preserves R (io_fold f xs a)"
  by (induction xs arbitrary: a) (simp_all add: ret bnd)

end

lemma outside_read_dir: "preserves (outside S) (sys_read_dir ls p)"
  unfolding sys_read_dir_def
  by (rule outside.syscall) (auto simp: outside_refl split: sum.splits)

lemma outside_move:
  "(\<And>q. prefix a q \<or> prefix b q \<Longrightarrow> q \<in> S) \<Longrightarrow> outside S s (move_tree a b s)"
  by (auto simp: outside_def move_tree_def fs_get_def)

lemma outside_swap:
  "(\<And>q. prefix a q \<or> prefix b q \<Longrightarrow> q \<in> S) \<Longrightarrow> outside S s (swap_trees a b s)"
  by (auto simp: outside_def swap_trees_def fs_get_def)

lemma outside_tree_calls:
  assumes "\<And>q. prefix a q \<or> prefix b q \<Longrightarrow> q \<in> S"
  shows "preserves (outside S) (sys_rename_dir ls a b)" "preserves (outside S) (sys_exchange a b)"
  unfolding sys_rename_dir_def sys_exchange_def
  by (rule outside.syscall; use outside_move [OF assms] outside_swap [OF assms] outside_refl in
      \<open>auto split: option.splits\<close>)+

section \<open>Computations that only read\<close>

text \<open>
  Where no server listens, nothing in the file system changes between the calls, and a computation that
  only reads leaves all of it, metadata included, as it is.
\<close>

definition still :: "os \<Rightarrow> os \<Rightarrow> bool" where
  "still s t = (listening s = {} \<longrightarrow> files t = files s \<and> listening t = {})"

lemma still_before: "still s (before_call s)"
proof -
  have "listening s = {} \<longrightarrow> files (fold apply_event es s) = files s" for es s
  proof (induction es arbitrary: s)
    case (Cons e es)
    have "listening s = {} \<longrightarrow> files (apply_event e s) = files s"
      by (cases e) (auto split: option.splits)
    with Cons show ?case by simp
  qed simp
  from this [of "s\<lparr>sched := tl (sched s)\<rparr>"] have "listening s = {} \<longrightarrow> files (before_call s) = files s"
    by (simp add: before_call_def)
  then show ?thesis by (simp add: still_def)
qed

interpretation still: frame still
  by unfold_locales (use still_before in \<open>auto simp: still_def\<close>)

lemma still_files: "preserves still m \<Longrightarrow> m s = (r, t) \<Longrightarrow> listening s = {} \<Longrightarrow> files t = files s \<and> listening t = {}"
  using preservesD [of still m] by (simp add: still_def)

lemma still_reads:
  "preserves still (sys_lstat p)" "preserves still (sys_canonicalize p)" "preserves still (sys_metadata p)"
  "preserves still (sys_open p)" "preserves still (sys_open_nofollow p)" "preserves still (sys_read p)"
  "preserves still sys_nop" "preserves still (sys_read_dir ls p)" "preserves still (sys_fstat p)"
  unfolding sys_lstat_def sys_canonicalize_def sys_metadata_def sys_open_def sys_open_nofollow_def
    sys_read_def sys_nop_def sys_read_dir_def sys_fstat_def
  by (rule still.syscall; auto simp: ret_def still.refl split: option.splits sum.splits node.splits)+

lemma still_derived:
  "preserves still (sys_exists p)" "preserves still (sys_is_file p)" "preserves still (sys_is_dir p)"
  "preserves still (sync_directory p)" "preserves still (env_var n)" "preserves still new_uuid"
  unfolding sys_exists_def sys_is_file_def sys_is_dir_def sync_directory_def env_var_def
  by (intro still.combinators still_reads)+ (simp add: preserves_def new_uuid_def still_def)

text \<open>What a successful read saw, where no server listens.\<close>

lemma quiet_files: "listening s = {} \<Longrightarrow> files (before_call s) = files s"
  using still_before [of s] by (simp add: still_def)

lemma lstat_seen:
  "sys_lstat p s = (Ok e, t) \<Longrightarrow> listening s = {} \<Longrightarrow> p \<noteq> [] \<Longrightarrow> files s p = Some e"
  using quiet_files [of s]
  by (auto simp: sys_lstat_def syscall_Ok entry_at_def split: option.splits)

lemma read_seen:
  assumes "sys_read p s = (Ok c, t)" and "listening s = {}" and "p \<noteq> []"
  shows "\<exists>e. files s p = Some e \<and> e_node e = File c"
  using assms quiet_files [of s]
  by (auto simp: sys_read_def syscall_Ok entry_at_def split: option.splits node.splits)

lemma read_dir_seen:
  assumes "sys_read_dir ls p s = (Ok ns, t)" and "listening s = {}"
  shows "\<exists>q. resolve (files s) p = Inr q \<and> ns = ls (files s) q"
  using assms quiet_files [of s] by (auto simp: sys_read_dir_def syscall_Ok split: sum.splits if_splits)

end
