(* ===== verification/GuestInit.thy ===== *)
theory GuestInit
  imports GuestServe OsTree
begin

text \<open>
  The guest from its start to its connections (\<open>crates/spawnr-agent/src/lib.rs\<close>, \<open>main.rs\<close>, \<open>reaper.rs\<close>): the
  first mounts and the network of PID 1, the order of its start, the accept loop, the \<open>sudo\<close> shim, the
  power-off and the reaping of orphans. \<open>mount(2)\<close>, \<open>sethostname(2)\<close>, \<open>waitpid(2)\<close>, the listener and the programs that
  are run are parameters; of the connection threads there is one schedule, a connection after the other.
\<close>

section \<open>PID 1\<close>

definition require_root :: "unit io" where
  "require_root = bnd (get_os euid) (\<lambda>uid.
     io_ensure (uid = 0) ''spawnr-agent must run as root'' (ret ()))"

definition PSEUDO_MOUNTS :: "(string \<times> path \<times> string list \<times> string) list" where
  "PSEUDO_MOUNTS =
     [(''proc'', [''proc''], [''nosuid'', ''nodev'', ''noexec''], []),
      (''sysfs'', [''sys''], [''nosuid'', ''nodev'', ''noexec''], []),
      (''devtmpfs'', [''dev''], [''nosuid''], ''mode=0755''),
      (''tmpfs'', [''run''], [''nosuid'', ''nodev''], ''mode=0755,size=32m'')]"

text \<open>The fifth field of a line is compared as it stands, without undoing the kernel's escapes.\<close>

definition mounted_at :: "path \<Rightarrow> string \<Rightarrow> bool" where
  "mounted_at target line =
     (case nth_opt (split_ascii_whitespace line) 4 of
        None \<Rightarrow> False
      | Some p \<Rightarrow> components p = RootDir # map Normal target)"

definition is_mountpoint :: "path \<Rightarrow> bool io" where
  "is_mountpoint p =
     bnd (sys_canonicalize p) (\<lambda>target.
     bnd (attempt (sys_read_to_string mountinfo_path)) (\<lambda>r.
       ret (list_ex (mounted_at target) (str_lines (case r of Inr t \<Rightarrow> t | Inl _ \<Rightarrow> [])))))"

definition mount_unless :: "do_mount \<Rightarrow> string \<times> path \<times> string list \<times> string \<Rightarrow> unit io" where
  "mount_unless do_mount = (\<lambda>(kind, target, flags, data).
     thn (sys_create_dir_all target)
     (bnd (is_mountpoint target) (\<lambda>there.
       if there then ret () else do_mount (Some kind) target kind flags data)))"

definition redirect_standard_error_to_console :: "unit io" where
  "redirect_standard_error_to_console = thn (sys_open [''dev'', ''console'']) sys_nop"

definition initialize_pid_one :: "do_mount \<Rightarrow> unit io" where
  "initialize_pid_one do_mount =
     thn require_root
     (thn redirect_standard_error_to_console
     (thn (io_each PSEUDO_MOUNTS (mount_unless do_mount))
     (mount_unless do_mount
        (''devpts'', [''dev'', ''pts''], [''nosuid'', ''noexec''], ''mode=0620,ptmxmode=0666''))))"

definition busybox :: string where "busybox = ''/usr/libexec/spawnr-busybox''"

definition run_busybox :: "run_tool \<Rightarrow> string list \<Rightarrow> string \<Rightarrow> unit io" where
  "run_busybox run args m =
     bnd (run busybox args) (\<lambda>(ok, _). io_ensure ok m (ret ()))"

definition configure_network :: "run_tool \<Rightarrow> listing \<Rightarrow> unit io" where
  "configure_network run ls =
     bnd (sys_is_file [''usr'', ''libexec'', ''spawnr-busybox'']) (\<lambda>there.
     io_ensure there ''guest integration is incomplete''
     (thn (run_busybox run [''ip'', ''link'', ''set'', ''lo'', ''up''] ''failed to bring guest loopback up'')
     (bnd (sys_read_dir ls [''sys'', ''class'', ''net'']) (\<lambda>nms.
       case List.find (\<lambda>n. n \<noteq> ''lo'') nms of
         None \<Rightarrow> fail (Bail ''guest virtio network interface did not appear'')
       | Some iface \<Rightarrow>
           io_ensure (valid_utf8 iface) ''network interface is not UTF-8''
           (thn (run_busybox run [''ip'', ''link'', ''set'', iface, ''up''] ''failed to bring guest interface up'')
             (run_busybox run [''udhcpc'', ''-q'', ''-f'', ''-i'', iface, ''-s'', ''/usr/libexec/spawnr-udhcpc'']
               ''DHCP configuration failed''))))))"

definition configure_pid_one_network :: "run_tool \<Rightarrow> listing \<Rightarrow> unit io" where
  "configure_pid_one_network run ls = thn require_root (configure_network run ls)"

section \<open>The orphan reaper\<close>

text \<open>
  The set of the children that a command waits for itself is shared with the threads of the connections;
  \<open>guard_dropped\<close> is the end of a \<open>ChildGuard\<close>.
\<close>

definition spawn_tracked :: "nat io \<Rightarrow> nat set \<Rightarrow> (nat \<times> nat set) io" where
  "spawn_tracked spawn tracked = bnd spawn (\<lambda>pid. ret (pid, insert pid tracked))"

definition guard_dropped :: "nat \<Rightarrow> nat set \<Rightarrow> nat set" where
  "guard_dropped pid tracked = tracked - {pid}"

text \<open>The children that were waited for, in order; \<open>tracked\<close> may be another set at each entry.\<close>

fun reap_entries :: "(nat \<Rightarrow> unit io) \<Rightarrow> nat set list \<Rightarrow> string list \<Rightarrow> nat list \<Rightarrow> nat list io" where
  "reap_entries waitpid tracked [] reaped = ret reaped"
| "reap_entries waitpid [] (nm # nms) reaped = ret reaped"
| "reap_entries waitpid (tr # tracked) (nm # nms) reaped =
     (case from_str_radix (2 ^ 32) 10 nm of
        None \<Rightarrow> reap_entries waitpid tracked nms reaped
      | Some pid \<Rightarrow>
          if pid \<le> 1 \<or> pid \<in> tr then reap_entries waitpid tracked nms reaped
          else bnd (attempt (sys_read_to_string [''proc'', decimal pid, ''stat''])) (\<lambda>stat.
            case reaps tr nm (case stat of Inr t \<Rightarrow> Some t | Inl _ \<Rightarrow> None) of
              None \<Rightarrow> reap_entries waitpid tracked nms reaped
            | Some child \<Rightarrow>
                thn (thn (attempt (waitpid child)) (ret ()))
                  (reap_entries waitpid tracked nms (reaped @ [child]))))"

definition reap_adopted_children ::
    "(nat \<Rightarrow> unit io) \<Rightarrow> listing \<Rightarrow> (nat \<Rightarrow> nat set) \<Rightarrow> nat list io" where
  "reap_adopted_children waitpid ls tracked =
     bnd (attempt (sys_read_dir ls [''proc''])) (\<lambda>r.
       case r of
         Inl _ \<Rightarrow> ret []
       | Inr nms \<Rightarrow> reap_entries waitpid (map tracked [0..<length nms]) nms [])"

section \<open>Serving\<close>

definition prepare_service :: "passwd \<Rightarrow> (nat \<Rightarrow> unit io) \<Rightarrow> config \<Rightarrow> user io" where
  "prepare_service getpwnam listen cf =
     thn require_root
     (bnd (lookup_user getpwnam (cf_dev_user cf)) (\<lambda>u.
      thn (assert_workspace_is_separate (cf_workspace cf))
      (thn (assert_session_is_tmpfs (cf_session_dir cf))
      (thn (listen (cf_control_port cf))
      (ret u)))))"

text \<open>
  The accept loop on what it accepts: a connection's failure is its own, a failing \<open>accept\<close> ends the
  service. The answers are in the order of the connections.
\<close>

fun accept_each ::
    "surroundings \<Rightarrow> request codec \<Rightarrow> response codec \<Rightarrow> config \<Rightarrow> user \<Rightarrow> string result list \<Rightarrow> string list
     \<Rightarrow> (err option \<times> string list) io" where
  "accept_each sr qc rc cf u [] answers = ret (None, answers)"
| "accept_each sr qc rc cf u (Inl e # others) answers = ret (Some e, answers)"
| "accept_each sr qc rc cf u (Inr inp # others) answers =
     bnd (handle_connection sr qc rc cf u inp) (\<lambda>(_, out).
       accept_each sr qc rc cf u others (answers @ [out]))"

definition serve ::
    "surroundings \<Rightarrow> request codec \<Rightarrow> response codec \<Rightarrow> passwd \<Rightarrow> (nat \<Rightarrow> unit io) \<Rightarrow> config
     \<Rightarrow> string result list \<Rightarrow> (err option \<times> string list) io" where
  "serve sr qc rc getpwnam listen cf accepted =
     bnd (prepare_service getpwnam listen cf) (\<lambda>u. accept_each sr qc rc cf u accepted [])"

text \<open>\<open>request_shutdown\<close>: PID 1 powers off itself (\<open>reboot(2)\<close> returns only to fail), others ask an init system.\<close>

fun first_regular :: "string list \<Rightarrow> string option io" where
  "first_regular [] = ret None"
| "first_regular (p # ps) =
     bnd (sys_is_file (path_of p)) (\<lambda>there. if there then ret (Some p) else first_regular ps)"

definition request_shutdown :: "unit io \<Rightarrow> run_tool \<Rightarrow> nat \<Rightarrow> unit io" where
  "request_shutdown reboot run pid =
     (if pid = 1 then reboot
      else
        bnd (first_regular [''/usr/bin/systemctl'', ''/bin/systemctl'', ''/sbin/poweroff'']) (\<lambda>found.
          case found of
            None \<Rightarrow> fail (Bail ''systemctl/poweroff is unavailable'')
          | Some shutdown \<Rightarrow>
              bnd (run shutdown (if ends_with ''systemctl'' shutdown then [''--no-block'', ''poweroff''] else [])) (\<lambda>(ok, _).
                io_ensure ok ''poweroff request failed'' (ret ()))))"

text \<open>
  \<open>exec_tty\<close>: the terminal with the host's size (no dimension zero), the command in its environment, then
  the relay. \<open>pty_spawn\<close> starts a command on a terminal of a size: what the kernel and the host then do.
\<close>

type_synonym pty_spawn = "command \<Rightarrow> nat \<times> nat \<Rightarrow> (turn list \<times> master_read list \<times> string) io"

definition exec_tty ::
    "pty_spawn \<Rightarrow> response codec \<Rightarrow> path \<Rightarrow> user \<Rightarrow> string list \<Rightarrow> path \<Rightarrow> environment \<Rightarrow> 16 word \<Rightarrow> 16 word
     \<Rightarrow> (unit result \<times> string) io" where
  "exec_tty spawn rc session_dir u argv cwd env rws cls =
     (let window = (max (unat rws) 1, max (unat cls) 1)
      in bnd (attempt (thn sys_nop
            (bnd (prepare (new_command (hd argv) (tl argv)) u session_dir (Some cwd) env) (\<lambda>c. spawn c window)))) (\<lambda>r.
           case r of
             Inl e \<Rightarrow> ret (Inl e, [])
           | Inr (turns, drained, inp) \<Rightarrow>
               (case reply rc ExecReady of
                  (Inl e, ready) \<Rightarrow> ret (Inl e, ready)
                | (Inr _, ready) \<Rightarrow>
                    (case relay_pty turns drained
                         \<lparr>rl_input = inp, rl_wire = [], rl_typed = [], rl_size = Some window, rl_signals = []\<rparr> of
                       (None, rl) \<Rightarrow> fail Hangs
                     | (Some res, rl) \<Rightarrow> ret (res, ready @ rl_wire rl)))))"

section \<open>The program\<close>

record arguments =
  ar_machine_name :: string
  ar_initialize_workspace :: bool
  ar_port :: nat
  ar_user :: string
  ar_workspace :: path
  ar_session_dir :: path

definition guest_name :: "arguments \<Rightarrow> string io" where
  "guest_name ar =
     (if ar_machine_name ar = ''spawnr''
      then bnd (attempt (sys_read_to_string [''proc'', ''cmdline''])) (\<lambda>r.
        ret (case r of
               Inl _ \<Rightarrow> ''spawnr''
             | Inr t \<Rightarrow> (case machine_name_from_cmdline t of Some nm \<Rightarrow> nm | None \<Rightarrow> ''spawnr'')))
      else ret (ar_machine_name ar))"

definition config_of :: "arguments \<Rightarrow> string \<Rightarrow> config" where
  "config_of ar nm =
     \<lparr>cf_machine_name = nm, cf_control_port = ar_port ar, cf_dev_user = ar_user ar,
      cf_workspace = ar_workspace ar, cf_session_dir = ar_session_dir ar\<rparr>"

text \<open>Everything of \<open>run\<close> before the connections: the configuration the agent serves with.\<close>

definition agent_prepare ::
    "bool \<Rightarrow> do_mount \<Rightarrow> run_tool \<Rightarrow> listing \<Rightarrow> passwd \<Rightarrow> (string \<Rightarrow> unit io) \<Rightarrow> arguments \<Rightarrow> config io" where
  "agent_prepare pid_one do_mount run ls getpwnam sethostname ar =
     bnd (if pid_one
          then bnd (guest_name ar) (\<lambda>nm.
            thn (lift_r (set_hostname nm))
            (thn (sethostname nm)
            (thn (initialize_pid_one do_mount) (ret nm))))
          else ret (ar_machine_name ar)) (\<lambda>nm.
     let cf = config_of ar nm
     in thn (if pid_one \<or> ar_initialize_workspace ar then initialize getpwnam run do_mount cf else ret ())
        (thn (if pid_one then thn (configure_pid_one_network run ls) (thn require_root sys_nop) else ret ())
        (ret cf)))"

definition agent_run ::
    "bool \<Rightarrow> surroundings \<Rightarrow> request codec \<Rightarrow> response codec \<Rightarrow> do_mount \<Rightarrow> run_tool \<Rightarrow> listing \<Rightarrow> passwd
     \<Rightarrow> (string \<Rightarrow> unit io) \<Rightarrow> (nat \<Rightarrow> unit io) \<Rightarrow> arguments \<Rightarrow> string result list \<Rightarrow> (err option \<times> string list) io" where
  "agent_run pid_one sr qc rc do_mount run ls getpwnam sethostname listen ar accepted =
     bnd (agent_prepare pid_one do_mount run ls getpwnam sethostname ar) (\<lambda>cf.
       serve sr qc rc getpwnam listen cf accepted)"

text \<open>The \<open>sudo\<close> shim: its exit status, or the command it becomes (whose \<open>exec\<close> failing is status 126).\<close>

datatype sudo_outcome = Exits nat | Becomes "string list"

definition sudo_main :: "unit io \<Rightarrow> string list \<Rightarrow> sudo_outcome io" where
  "sudo_main reset args =
     bnd (get_os euid) (\<lambda>uid.
       if uid \<noteq> 0 then ret (Exits 1)
       else bnd (attempt reset) (\<lambda>r.
         ret (case r of
                Inl _ \<Rightarrow> Exits 1
              | Inr _ \<Rightarrow> (case sudo_command args of None \<Rightarrow> Exits 2 | Some c \<Rightarrow> Becomes c))))"

section \<open>Facts\<close>

lemma reaps_Some: "reaps tr nm stat = Some pid \<Longrightarrow> 1 < pid \<and> pid \<notin> tr"
  by (auto simp: reaps_def split: option.splits if_splits)

text \<open>A child that a command waits for keeps its status: the reaper takes none that is tracked then.\<close>

lemma reap_entries_untracked:
  assumes "reap_entries waitpid tracked nms reaped s = (Ok out, t)"
    and "\<forall>tr \<in> set tracked. kept \<subseteq> tr" and "set reaped \<inter> kept = {}"
  shows "set out \<inter> kept = {}"
  using assms
proof (induction waitpid tracked nms reaped arbitrary: s rule: reap_entries.induct)
  case (3 waitpid tr tracked nm nms reaped)
  show ?case
  proof (cases "from_str_radix (2 ^ 32) 10 nm")
    case None
    with "3.IH"(1) "3.prems" show ?thesis by simp
  next
    case (Some pid)
    show ?thesis
    proof (cases "pid \<le> 1 \<or> pid \<in> tr")
      case True
      with Some "3.IH"(2) "3.prems" show ?thesis by simp
    next
      case False
      with Some "3.prems"(1) obtain stat :: "string result" and s1 where run: "(case reaps tr nm (case stat of Inr t \<Rightarrow> Some t | Inl e \<Rightarrow> None) of
              None \<Rightarrow> reap_entries waitpid tracked nms reaped
            | Some child \<Rightarrow> thn (thn (attempt (waitpid child)) (ret ()))
                (reap_entries waitpid tracked nms (reaped @ [child]))) s1 = (Ok out, t)"
        by (auto simp: bnd_Ok)
      show ?thesis
      proof (cases "reaps tr nm (case stat of Inr t \<Rightarrow> Some t | Inl e \<Rightarrow> None)")
        case none: None
        with run "3.IH"(3) [OF Some False none] "3.prems" show ?thesis by simp
      next
        case child: (Some child)
        with reaps_Some [OF child] "3.prems" have "set (reaped @ [child]) \<inter> kept = {}" by auto
        with run child "3.IH"(4) [OF Some False child] "3.prems"(2) show ?thesis by (auto simp: thn_Ok)
      qed
    qed
  qed
qed (auto simp: ret_Ok)

lemma accept_each_answers:
  assumes "accept_each sr qc rc cf u accepted answers s = (Ok (None, out), t)"
  shows "length out = length answers + length accepted"
  using assms
proof (induction accepted arbitrary: answers s)
  case (Cons a accepted)
  then show ?case by (cases a) (fastforce simp: bnd_Ok ret_Ok split: prod.splits)+
qed (simp add: ret_Ok)

end
