(* ===== verification/StateStore.thy ===== *)
theory StateStore
  imports OsModel Codec
begin

text \<open>
  \<open>crates/spawnr/src/paths.rs\<close> and \<open>crates/spawnr/src/state.rs\<close>: the layout of the data directory and
  the state file, read and replaced under a lock. \<open>serde_json\<close> is a parameter, a \<open>codec\<close>
  of each type. The root of a \<open>Paths\<close> is an absolute path of plain names;
  \<open>discover\<close>, which finds it, works on the text.
\<close>

section \<open>Paths\<close>

text \<open>\<open>PathBuf::join\<close> on text.\<close>

definition join_text :: "string \<Rightarrow> string \<Rightarrow> string" where
  "join_text a b =
     (if starts_with ''/'' b \<or> a = [] then b
      else if ends_with ''/'' a then a @ b else a @ ''/'' @ b)"

definition discover :: "string option \<Rightarrow> string io" where
  "discover override_root =
     bnd (env_var ''SPAWNR_HOME'') (\<lambda>spawnr_home.
     bnd (env_var ''XDG_DATA_HOME'') (\<lambda>xdg.
     bnd (env_var ''HOME'') (\<lambda>home.
     bnd (case override_root of Some r \<Rightarrow> ret r
          | None \<Rightarrow> (case spawnr_home of Some r \<Rightarrow> ret r
          | None \<Rightarrow> (case xdg of Some r \<Rightarrow> ret (join_text r ''spawnr'')
          | None \<Rightarrow> (case home of Some h \<Rightarrow> ret (join_text h ''.local/share/spawnr'')
          | None \<Rightarrow> fail (Bail ''cannot locate a data directory'')))))
       (\<lambda>root. io_ensure (is_absolute root) ''Spawnr data directory must be absolute'' (ret root)))))"

definition state_file :: "path \<Rightarrow> path" where "state_file root = root @ [''state.json'']"
definition lock_file :: "path \<Rightarrow> path" where "lock_file root = root @ [''state.lock'']"
definition machines_dir :: "path \<Rightarrow> path" where "machines_dir root = root @ [''machines'']"
definition machine_dir :: "path \<Rightarrow> string \<Rightarrow> path" where "machine_dir root i = machines_dir root @ [i]"
definition images_dir :: "path \<Rightarrow> path" where "images_dir root = root @ [''images'']"
definition oci_dir :: "path \<Rightarrow> path" where "oci_dir root = root @ [''oci'']"
definition blobs_dir :: "path \<Rightarrow> path" where "blobs_dir root = root @ [''blobs'', ''sha256'']"
definition bin_dir :: "path \<Rightarrow> path" where "bin_dir root = root @ [''bin'']"
definition runtime_dir :: "path \<Rightarrow> path" where "runtime_dir root = root @ [''runtime'']"
definition runtime_version_dir :: "path \<Rightarrow> string \<Rightarrow> path" where
  "runtime_version_dir root v = runtime_dir root @ [v]"
definition runtime_active_file :: "path \<Rightarrow> path" where
  "runtime_active_file root = runtime_dir root @ [''active.json'']"
definition runtime_lock_file :: "path \<Rightarrow> path" where
  "runtime_lock_file root = runtime_dir root @ [''setup.lock'']"

definition create_private_dir :: "path \<Rightarrow> unit io" where
  "create_private_dir p = thn (sys_create_dir_all p) (sys_chmod p 448)"

definition ensure_layout :: "path \<Rightarrow> unit io" where
  "ensure_layout root =
     thn (create_private_dir root)
       (io_each [machines_dir root, images_dir root, oci_dir root, blobs_dir root, bin_dir root,
           runtime_dir root] create_private_dir)"

section \<open>The state file\<close>

definition temporary_state_name :: "nat \<Rightarrow> uuid \<Rightarrow> string" where
  "temporary_state_name pid u = ''.state.json.'' @ decimal pid @ ''.'' @ uuid_text u @ ''.tmp''"

definition store_open :: "path \<Rightarrow> unit io" where
  "store_open root = ensure_layout root"

definition store_read :: "app_state codec \<Rightarrow> path \<Rightarrow> app_state io" where
  "store_read c root =
     bnd (attempt (sys_open (state_file root))) (\<lambda>r.
       case r of
         Inl e \<Rightarrow> if e = Io ENOENT then ret default_state else fail e
       | Inr q \<Rightarrow>
           bnd (sys_read q) (\<lambda>bytes.
             case dec c bytes of
               None \<Rightarrow> fail (Bail ''Spawnr state is corrupt'')
             | Some st \<Rightarrow>
                 io_ensure (schema_version st = SCHEMA_VERSION) ''unsupported Spawnr state schema''
                   (ret st)))"

text \<open>\<open>lock\<close>: the lock file is opened and locked (no other command runs until it is closed).\<close>

definition store_lock :: "app_state codec \<Rightarrow> path \<Rightarrow> app_state io" where
  "store_lock c root =
     thn (sys_open_create (lock_file root) 384 False)
       (thn sys_nop (store_read c root))"

definition save_commit :: "string \<Rightarrow> path \<Rightarrow> path \<Rightarrow> path \<Rightarrow> unit io" where
  "save_commit bytes root temporary destination =
     thn (sys_create_new temporary 384)
     (thn (sys_write temporary bytes)
     (thn (sys_write temporary newline)
     (thn sys_nop
     (thn (sys_rename temporary destination)
     (sync_directory root)))))"

definition store_save :: "app_state codec \<Rightarrow> path \<Rightarrow> app_state \<Rightarrow> unit io" where
  "store_save c root st =
     bnd (get_os self_pid) (\<lambda>pid.
     bnd new_uuid (\<lambda>u.
       (let temporary = root @ [temporary_state_name pid u]
        in on_error (save_commit (enc c st) root temporary (state_file root))
             (sys_unlink temporary))))"

section \<open>Facts\<close>

lemma temporary_state_name_neq: "temporary_state_name pid u \<noteq> ''state.json''"
  by (simp add: temporary_state_name_def)

lemma fs_get_put: "q \<noteq> [] \<Longrightarrow>
  fs_get (files (put_entry p e s)) q = (if q = p then Some (e_node e) else fs_get (files s) q)"
  by (auto simp: fs_get_def put_entry_def)

lemma fs_get_del: "q \<noteq> [] \<Longrightarrow>
  fs_get (files (del_entry p s)) q = (if q = p then None else fs_get (files s) q)"
  by (auto simp: fs_get_def del_entry_def)

lemma put_del_listening [simp]:
  "listening (put_entry p e s) = listening s" "listening (del_entry p s) = listening s"
  "listening (append_file p d s) = listening s"
  by (auto simp: put_entry_def del_entry_def append_file_def split: option.splits node.splits)

lemma fs_get_append:
  "q \<noteq> [] \<Longrightarrow> fs_get (files (append_file p d s)) q =
     (if q = p then (case fs_get (files s) p of Some (File c) \<Rightarrow> Some (File (c @ d)) | n \<Rightarrow> n)
      else fs_get (files s) q)"
  by (auto simp: append_file_def fs_get_def put_entry_def split: option.splits node.splits)

text \<open>
  The steps of a replacement through a temporary file: \<open>dest\<close> keeps what it had, \<open>tmp\<close> holds what
  was written so far.
\<close>

definition staged :: "path \<Rightarrow> path \<Rightarrow> node option \<Rightarrow> string \<Rightarrow> os \<Rightarrow> bool" where
  "staged dest tmp old c s =
     (dest \<noteq> [] \<and> tmp \<noteq> [] \<and> dest \<noteq> tmp \<and> dest \<notin> listening s \<and> tmp \<notin> listening s
      \<and> fs_get (files s) dest = old \<and> fs_get (files s) tmp = Some (File c))"

definition unstaged :: "path \<Rightarrow> path \<Rightarrow> node option \<Rightarrow> os \<Rightarrow> bool" where
  "unstaged dest tmp old s =
     (dest \<noteq> [] \<and> tmp \<noteq> [] \<and> dest \<noteq> tmp \<and> dest \<notin> listening s \<and> tmp \<notin> listening s
      \<and> fs_get (files s) dest = old)"

lemma staged_unstaged: "staged dest tmp old c s \<Longrightarrow> unstaged dest tmp old s"
  by (simp add: staged_def unstaged_def)

lemma staged_before [simp]: "staged d t old c s \<Longrightarrow> staged d t old c (before_call s)"
  by (simp add: staged_def)

lemma unstaged_before [simp]: "unstaged d t old s \<Longrightarrow> unstaged d t old (before_call s)"
  by (simp add: unstaged_def)

lemma triple_create_staged:
  "triple (unstaged dest tmp old) (sys_create_new tmp m) (\<lambda>_. staged dest tmp old [])
     (\<lambda>_. unstaged dest tmp old)"
  unfolding sys_create_new_def
  by (rule triple_syscall)
    (auto simp: triple_def unstaged_def staged_def fs_get_put new_entry_def)

lemma triple_write_staged:
  "triple (staged dest tmp old c) (sys_write tmp d) (\<lambda>_. staged dest tmp old (c @ d))
     (\<lambda>_. unstaged dest tmp old)"
  by (auto simp: triple_def sys_write_def Let_def staged_def unstaged_def fs_get_append
      split: option.splits)

lemma triple_nop_staged:
  "triple (staged dest tmp old c) sys_nop (\<lambda>_. staged dest tmp old c) (\<lambda>_. unstaged dest tmp old)"
  unfolding sys_nop_def
  by (rule triple_syscall) (auto simp: staged_unstaged triple_ret)

definition replaced :: "path \<Rightarrow> path \<Rightarrow> string \<Rightarrow> os \<Rightarrow> bool" where
  "replaced dest tmp c s =
     (dest \<noteq> [] \<and> tmp \<noteq> [] \<and> dest \<noteq> tmp \<and> dest \<notin> listening s \<and> tmp \<notin> listening s
      \<and> fs_get (files s) dest = Some (File c) \<and> fs_get (files s) tmp = None)"

lemma replaced_before [simp]: "replaced d t c s \<Longrightarrow> replaced d t c (before_call s)"
  by (simp add: replaced_def)

lemma triple_rename_staged:
  "triple (staged dest tmp old c) (sys_rename tmp dest) (\<lambda>_. replaced dest tmp c)
     (\<lambda>_. unstaged dest tmp old)"
  unfolding sys_rename_def
proof (rule triple_syscall)
  fix s assume "staged dest tmp old c s"
  then show "staged dest tmp old c (before_call s)" by simp
next
  fix f s assume "staged dest tmp old c s"
  then show "unstaged dest tmp old s" by (rule staged_unstaged)
next
  show "triple (staged dest tmp old c)
     (\<lambda>s. case files s tmp of None \<Rightarrow> (Inl (Io ENOENT), s)
       | Some e \<Rightarrow> if \<not> is_dir_at s (butlast dest) then (Inl (Io ENOENT), s)
         else if is_dir_at s dest \<or> e_node e = Dir then (Inl (Io EEXIST), s)
         else (Ok (), put_entry dest e (del_entry tmp s)))
     (\<lambda>_. replaced dest tmp c) (\<lambda>_. unstaged dest tmp old)"
    unfolding triple_def
  proof (intro allI impI)
    fix s assume st: "staged dest tmp old c s"
    then obtain e where e: "files s tmp = Some e" "e_node e = File c"
      by (auto simp: staged_def fs_get_def)
    then show "case case files s tmp of None \<Rightarrow> (Inl (Io ENOENT), s)
       | Some e \<Rightarrow> if \<not> is_dir_at s (butlast dest) then (Inl (Io ENOENT), s)
         else if is_dir_at s dest \<or> e_node e = Dir then (Inl (Io EEXIST), s)
         else (Ok (), put_entry dest e (del_entry tmp s)) of
       (Inl e, t) \<Rightarrow> unstaged dest tmp old t | (Inr x, t) \<Rightarrow> replaced dest tmp c t"
      using st by (auto simp: staged_def unstaged_def replaced_def fs_get_put fs_get_del)
  qed
qed

lemma triple_stable_open:
  assumes "\<And>s. P s \<Longrightarrow> P (before_call s)"
  shows "triple P (sync_directory d) (\<lambda>_. P) (\<lambda>_. P)"
  unfolding sync_directory_def sys_open_def sys_nop_def
  by (rule triple_thn [where Q = "\<lambda>_. P"]; rule triple_syscall)
    (auto simp: assms triple_def ret_def split: sum.splits option.splits)

lemma triple_stable_unlink:
  assumes "tmp \<noteq> dest" and "dest \<noteq> []"
  shows "triple (\<lambda>s. dest \<notin> listening s \<and> fs_get (files s) dest \<in> X) (sys_unlink tmp)
    (\<lambda>_ s. dest \<notin> listening s \<and> fs_get (files s) dest \<in> X)
    (\<lambda>_ s. dest \<notin> listening s \<and> fs_get (files s) dest \<in> X)"
  unfolding sys_unlink_def
  by (rule triple_syscall) (use assms in \<open>auto simp: triple_def fs_get_del split: option.splits\<close>)

lemma triple_save_commit:
  "triple (unstaged dest tmp old) (save_commit bytes root tmp dest)
     (\<lambda>_. replaced dest tmp (bytes @ newline))
     (\<lambda>_ s. dest \<notin> listening s \<and> fs_get (files s) dest \<in> {old, Some (File (bytes @ newline))})"
proof -
  let ?E = "\<lambda>(_ :: err) s.
    dest \<notin> listening s \<and> fs_get (files s) dest \<in> {old, Some (File (bytes @ newline))}"
  have weak: "triple P m Q ?E" if "triple P m Q (\<lambda>_. unstaged dest tmp old)" for P m and Q :: "'b \<Rightarrow> os \<Rightarrow> bool"
    using that by (rule triple_conseq) (auto simp: unstaged_def)
  have sync: "triple (replaced dest tmp (bytes @ newline)) (sync_directory root)
      (\<lambda>_. replaced dest tmp (bytes @ newline)) ?E"
    by (rule triple_conseq [OF triple_stable_open [of "replaced dest tmp (bytes @ newline)"]])
      (auto simp: replaced_def)
  show ?thesis
    unfolding save_commit_def
    by (rule triple_thn [OF weak [OF triple_create_staged]]
          triple_thn [OF weak [OF triple_write_staged]] triple_thn [OF weak [OF triple_nop_staged]]
          triple_thn [OF weak [OF triple_rename_staged]])+
      (use sync in simp)
qed

text \<open>C2: Saving the state is atomic under every schedule of faults, so also under a crash at any point:
  the state file holds what it held before or the whole new encoding, success means the new one with
  the temporary file gone, and no other file of the system changes.\<close>

theorem store_save_atomic:
  assumes "store_save c root st s = (r, t)"
    and "tmp = root @ [temporary_state_name (self_pid s) (uuid_src s (uuid_next s))]"
    and "state_file root \<notin> listening s" and "tmp \<notin> listening s"
  shows "fs_get (files t) (state_file root)
      \<in> {fs_get (files s) (state_file root), Some (File (enc c st @ newline))}
    \<and> (r = Ok () \<longrightarrow> fs_get (files t) (state_file root) = Some (File (enc c st @ newline))
        \<and> fs_get (files t) tmp = None)
    \<and> outside {state_file root, tmp} s t"
proof -
  let ?s = "s\<lparr>uuid_next := Suc (uuid_next s)\<rparr>" and ?d = "state_file root"
  let ?m = "on_error (save_commit (enc c st) root tmp ?d) (sys_unlink tmp)"
  have neq: "tmp \<noteq> ?d" "?d \<noteq> []" "tmp \<noteq> []"
    using temporary_state_name_neq by (auto simp: assms(2) state_file_def)
  have run: "?m ?s = (r, t)"
    using assms(1,2)
    by (simp add: store_save_def bnd_def get_os_def new_uuid_def Let_def)
  have "triple (unstaged ?d tmp (fs_get (files s) ?d)) ?m
      (\<lambda>_. replaced ?d tmp (enc c st @ newline))
      (\<lambda>_ s'. ?d \<notin> listening s'
        \<and> fs_get (files s') ?d \<in> {fs_get (files s) ?d, Some (File (enc c st @ newline))})"
    by (rule triple_on_error [OF triple_save_commit]) (rule triple_stable_unlink [OF neq(1,2)])
  moreover have "unstaged ?d tmp (fs_get (files s) ?d) ?s"
    using neq assms(3,4) by (simp add: unstaged_def)
  ultimately have "case (r, t) of (Inr x, t) \<Rightarrow> replaced ?d tmp (enc c st @ newline) t
      | (Inl e, t) \<Rightarrow> fs_get (files t) ?d
          \<in> {fs_get (files s) ?d, Some (File (enc c st @ newline))}"
    unfolding triple_def run [symmetric] by (auto split: prod.splits sum.splits)
  moreover have "preserves (outside {?d, tmp}) ?m"
    unfolding save_commit_def
    by (intro outside.combinators outside_writes outside_reads outside_derived_reads) simp_all
  then have "outside {?d, tmp} ?s t" using run by (rule preservesD)
  then have "outside {?d, tmp} s t" by (simp add: outside_def)
  ultimately show ?thesis
    by (auto simp: replaced_def split: sum.splits)
qed

definition demo_store :: os where
  "demo_store = demo_os (\<lambda>p. if p = [''d''] then Some private_dir else None)"

lemma demo_save:
  "fst (store_save c [''d''] st demo_store) = Ok ()"
  "listening (snd (store_save c [''d''] st demo_store)) = {}"
  using temporary_state_name_neq
  by (simp_all add: store_save_def save_commit_def io_run Let_def demo_store_def demo_os_def
      private_dir_def state_file_def)

theorem store_save_atomic_witness:
  "fst (store_save (codec_of pc_state) [''d''] default_state demo_store) = Ok ()
   \<and> fs_get (files (snd (store_save (codec_of pc_state) [''d''] default_state demo_store)))
       (state_file [''d'']) = Some (File (enc (codec_of pc_state) default_state @ newline))"
proof -
  let ?r = "store_save (codec_of pc_state) [''d''] default_state demo_store"
  have ok: "fst ?r = Ok ()" by (rule demo_save)
  then have save: "?r = (Ok (), snd ?r)" by (metis prod.collapse)
  have "x \<notin> listening demo_store" for x by (simp add: demo_store_def demo_os_def)
  then have "fs_get (files (snd ?r)) (state_file [''d''])
      = Some (File (enc (codec_of pc_state) default_state @ newline))"
    using store_save_atomic [OF save refl] by blast
  with ok show ?thesis by blast
qed

lemma entry_at_get: "fs_get (files s) p = Some n \<Longrightarrow> \<exists>e. entry_at s p = Some e \<and> e_node e = n"
  by (auto simp: fs_get_def entry_at_def root_entry_def split: if_splits)

lemma is_fault: "sl_fault (next_slot s) = Some f \<Longrightarrow> \<exists>f. syscall m s = (Inl (Io (fault_errno f)), before_call s)"
  by (auto simp: syscall_def)

lemma fault_errno_not_absent [simp]: "fault_errno f \<noteq> ENOENT"
  by (cases f) simp_all

lemma store_read_present:
  assumes "real_dir (files s) root" and "\<forall>q. prefix q (state_file root) \<longrightarrow> q \<notin> listening s"
    and "fs_get (files s) (state_file root) = Some (File data)" and "dec c data = Some st"
    and "schema_version st = SCHEMA_VERSION" and "store_read c root s = (r, t)"
  shows "r = Ok st \<or> (\<exists>f. r = Inl (Io (fault_errno f)))"
proof -
  let ?p = "state_file root" and ?s = "before_call s"
  have data: "fs_get (files ?s) ?p = Some (File data)"
    using assms(2,3) by simp
  have "real_dir (files ?s) root"
    using assms(1,2) by (auto simp: real_dir_def state_file_def)
  then have res: "resolve (files ?s) ?p = Inr ?p"
    using data unfolding state_file_def by (intro resolve_real) auto
  obtain e where e: "entry_at ?s ?p = Some e" "e_node e = File data"
    using entry_at_get [OF data] by blast
  show ?thesis
  proof (cases "sl_fault (next_slot s)")
    case (Some f)
    then show ?thesis
      using assms(6) by (auto simp: store_read_def bnd_def attempt_def sys_open_def syscall_def fail_def)
  next
    case None
    then have open_ok: "sys_open ?p s = (Ok ?p, ?s)"
      by (simp add: sys_open_def syscall_def res e)
    have data2: "fs_get (files (before_call ?s)) ?p = Some (File data)"
      using assms(2) data by simp
    obtain e2 where e2: "entry_at (before_call ?s) ?p = Some e2" "e_node e2 = File data"
      using entry_at_get [OF data2] by blast
    show ?thesis
      using assms(4,5,6) e2 open_ok
      by (auto simp: store_read_def bnd_def attempt_def sys_read_def syscall_def ret_def
          io_ensure_def split: option.splits)
  qed
qed

text \<open>C35: What one command saved is what the next one reads: after a successful save, reading the
  state gives exactly the saved state or fails with an error of the system, never another state.\<close>

theorem save_then_read:
  assumes "codec_ok c" and "schema_version st = SCHEMA_VERSION"
    and "store_save c root st s = (Ok (), t)" and "store_read c root t = (r, u)"
    and "real_dir (files s) root"
    and "\<forall>q. prefix root q \<or> prefix q root \<longrightarrow> q \<notin> listening s"
    and "listening t = listening s"
  shows "r = Ok st \<or> (\<exists>f. r = Inl (Io (fault_errno f)))"
proof -
  let ?tmp = "root @ [temporary_state_name (self_pid s) (uuid_src s (uuid_next s))]"
  have quiet: "state_file root \<notin> listening s" "?tmp \<notin> listening s"
    using spec [OF assms(6), of "state_file root"] spec [OF assms(6), of ?tmp]
    by (simp_all add: state_file_def)
  note atomic = store_save_atomic [OF assms(3) refl quiet]
  have "outside {state_file root, ?tmp} s t" by (rule atomic [THEN conjunct2, THEN conjunct2])
  moreover have "q \<notin> {state_file root, ?tmp} \<and> q \<notin> listening s" if "prefix q root" for q
  proof -
    have "length q \<le> length root" by (rule prefix_length_le [OF that])
    then have "q \<notin> {state_file root, ?tmp}" by (auto simp: state_file_def)
    moreover have "q \<notin> listening s" using assms(6) that by blast
    ultimately show ?thesis by simp
  qed
  ultimately have "real_dir (files t) root"
    by (auto intro: real_dir_outside [OF _ assms(5)])
  moreover have "\<forall>q. prefix q (state_file root) \<longrightarrow> q \<notin> listening t"
  proof (intro allI impI)
    fix q assume "prefix q (state_file root)"
    then have "q = state_file root \<or> prefix q root" by (simp add: state_file_def)
    then show "q \<notin> listening t" using assms(6,7) quiet(1) by blast
  qed
  ultimately show ?thesis
    using atomic assms(1,2,4)
    by (intro store_read_present [of t root "enc c st @ newline" c st r u]) (auto simp: codec_ok_def)
qed

theorem save_then_read_witness:
  "\<exists>r t u. store_save (codec_of pc_state) [''d''] default_state demo_store = (Ok (), t)
     \<and> store_read (codec_of pc_state) [''d''] t = (r, u)
     \<and> (r = Ok default_state \<or> (\<exists>f. r = Inl (Io (fault_errno f))))"
proof -
  let ?c = "codec_of pc_state"
  let ?r = "store_save ?c [''d''] default_state demo_store"
  obtain r u where r: "store_read ?c [''d''] (snd ?r) = (r, u)" by fastforce
  have "fst ?r = Ok ()" by (rule demo_save)
  then have save: "?r = (Ok (), snd ?r)" by (metis prod.collapse)
  have quiet: "listening demo_store = {}" by (simp add: demo_store_def demo_os_def)
  have "outside {state_file [''d''], [''d''] @ [temporary_state_name (self_pid demo_store)
      (uuid_src demo_store (uuid_next demo_store))]} demo_store (snd ?r)"
    using store_save_atomic [OF save refl] quiet by blast
  moreover have "listening (snd ?r) = {}" by (rule demo_save)
  moreover have "real_dir (files demo_store) [''d'']"
    by (auto simp: real_dir_def demo_store_def demo_os_def fs_get_def private_dir_def
        prefix_Cons)
  moreover have "schema_version default_state = SCHEMA_VERSION"
    by (simp add: default_state_def)
  ultimately show ?thesis
    using save_then_read [OF codec_ok_of [OF pc_ok_state] _ save r] save r quiet by blast
qed

end
