(* ===== verification/ProcessId.thy ===== *)
theory ProcessId
  imports OsModel Codec StateStore
begin

text \<open>
  \<open>crates/spawnr/src/process.rs\<close>: the identity of a long-lived helper process (its number, the boot,
  its start time and its executable), the file that records it, and signals that reach that process
  or none. \<open>/proc\<close> is modelled as the kernel prints it from the process table.
\<close>

section \<open>Identities\<close>

record process_identity =
  pi_pid :: nat
  pi_boot_id :: string
  pi_start_time_ticks :: nat
  pi_executable :: path
  pi_executable_device :: nat
  pi_executable_inode :: nat

datatype managed_process_status =
    Missing
  | RunningProcess process_identity
  | StaleProcess process_identity

definition status_is_running :: "managed_process_status \<Rightarrow> bool" where
  "status_is_running st = (case st of RunningProcess _ \<Rightarrow> True | _ \<Rightarrow> False)"

definition status_identity :: "managed_process_status \<Rightarrow> process_identity option" where
  "status_identity st =
     (case st of RunningProcess i \<Rightarrow> Some i | StaleProcess i \<Rightarrow> Some i | Missing \<Rightarrow> None)"

section \<open>\<open>/proc\<close> and signals\<close>

text \<open>\<open>/proc/<pid>/stat\<close>: the start time is the 22nd field, the second one may hold any characters.\<close>

definition stat_text :: "nat \<Rightarrow> process \<Rightarrow> string" where
  "stat_text pid p =
     decimal pid @ '' ('' @ p_comm p @ '') '' @ [state_letter (p_state p)] @ concat (replicate 18 '' 0'')
     @ '' '' @ decimal (p_start p) @ '' 0'' @ newline"

definition sys_proc_stat :: "nat \<Rightarrow> string io" where
  "sys_proc_stat pid = syscall (\<lambda>s.
     case procs s pid of
       None \<Rightarrow> (Inl (Io ENOENT), s)
     | Some p \<Rightarrow> if valid_utf8 (stat_text pid p) then (Ok (stat_text pid p), s)
         else (Inl (Io EINVAL), s))"

text \<open>\<open>/proc/<pid>/exe\<close>: gone for a zombie, denied for a process that is not dumpable.\<close>

definition sys_proc_exe :: "nat \<Rightarrow> (path \<times> nat \<times> nat) io" where
  "sys_proc_exe pid = syscall (\<lambda>s.
     case procs s pid of
       None \<Rightarrow> (Inl (Io ENOENT), s)
     | Some p \<Rightarrow>
         if p_state p \<in> {PZombie, PDead} then (Inl (Io ENOENT), s)
         else if \<not> p_dumpable p then (Inl (Io EACCES), s)
         else (Ok (p_exe p, p_exe_dev p, p_exe_ino p), s))"

definition sys_boot_id :: "string io" where
  "sys_boot_id = syscall (\<lambda>s. (Ok (boot_id s), s))"

text \<open>A process descriptor stands for one process: its number and its stamp.\<close>

definition sys_pidfd_open :: "nat \<Rightarrow> (nat \<times> nat) io" where
  "sys_pidfd_open pid = syscall (\<lambda>s.
     if \<not> has_pidfd s then (Inl (Io ENOSYS), s)
     else (case procs s pid of
             None \<Rightarrow> (Inl (Io ESRCH), s)
           | Some p \<Rightarrow> (Ok (pid, p_stamp p), s)))"

definition deliver :: "nat \<Rightarrow> nat \<Rightarrow> os \<Rightarrow> os" where
  "deliver stamp sig s = s\<lparr>signals := signals s @ [(stamp, sig)]\<rparr>"

definition sys_pidfd_send :: "nat \<times> nat \<Rightarrow> nat \<Rightarrow> unit io" where
  "sys_pidfd_send fd sig = syscall (\<lambda>s.
     case procs s (fst fd) of
       None \<Rightarrow> (Inl (Io ESRCH), s)
     | Some p \<Rightarrow> if p_stamp p = snd fd then (Ok (), deliver (snd fd) sig s)
         else (Inl (Io ESRCH), s))"

definition sys_kill :: "nat \<Rightarrow> nat \<Rightarrow> unit io" where
  "sys_kill pid sig = syscall (\<lambda>s.
     case procs s pid of
       None \<Rightarrow> (Inl (Io ESRCH), s) | Some p \<Rightarrow> (Ok (), deliver (p_stamp p) sig s))"

section \<open>Reading an identity\<close>

definition parse_state_and_start_time :: "string \<Rightarrow> (nat \<times> nat) result" where
  "parse_state_and_start_time stat =
     some_or (rsplit_at CHR '')'' stat) ''process stat has no closing command delimiter''
       (\<lambda>(_, rest).
         let fields = split_whitespace rest
         in some_or (case fields of [] \<Rightarrow> None
              | f # _ \<Rightarrow> (case str_chars f of [] \<Rightarrow> None | c # _ \<Rightarrow> Some c))
              ''process stat does not contain state'' (\<lambda>state.
            some_or (if 19 < length fields then Some (fields ! 19) else None)
              ''process stat does not contain start time'' (\<lambda>v.
            some_or (parse_u64 v) ''process start time is not an integer'' (\<lambda>start_time.
              Ok (state, start_time)))))"

definition read_boot_id :: "string io" where
  "read_boot_id =
     bnd sys_boot_id (\<lambda>b. io_ensure (str_trim b \<noteq> []) ''Linux boot ID is empty'' (ret (str_trim b)))"

definition capture_identity :: "nat \<Rightarrow> process_identity io" where
  "capture_identity pid =
     io_ensure (pid > 0) ''refusing invalid PID''
     (bnd (sys_proc_stat pid) (\<lambda>stat.
      bnd (lift_r (parse_state_and_start_time stat)) (\<lambda>(_, start).
      bnd (sys_proc_exe pid) (\<lambda>(executable, _, _).
      bnd (sys_proc_exe pid) (\<lambda>(_, dev, ino).
      bnd read_boot_id (\<lambda>boot.
        ret \<lparr>pi_pid = pid, pi_boot_id = boot, pi_start_time_ticks = start,
             pi_executable = executable, pi_executable_device = dev,
             pi_executable_inode = ino\<rparr>))))))"

text \<open>
  \<open>matches_running_process\<close>, in three parts: the executable is the last check, after the boot, the start
  time and the state; 90 and 88 are the states \<open>Z\<close> and \<open>X\<close>.
\<close>

definition matches_executable :: "process_identity \<Rightarrow> bool io" where
  "matches_executable i =
     bnd (attempt (sys_proc_exe (pi_pid i))) (\<lambda>x.
       case x of
         Inr (_, dev, ino) \<Rightarrow> ret (pi_executable_device i = dev \<and> pi_executable_inode i = ino)
       | Inl e \<Rightarrow> if e = Io ENOENT then ret False else if e = Io EACCES then ret True else fail e)"

definition matches_stat :: "process_identity \<Rightarrow> nat \<times> nat \<Rightarrow> bool io" where
  "matches_stat i seen =
     bnd read_boot_id (\<lambda>boot.
       if pi_boot_id i \<noteq> boot \<or> pi_start_time_ticks i \<noteq> snd seen then ret False
       else if fst seen \<in> {90, 88} then ret False
       else matches_executable i)"

definition matches_running_process :: "process_identity \<Rightarrow> bool io" where
  "matches_running_process i =
     bnd (attempt (sys_proc_stat (pi_pid i))) (\<lambda>r.
       case r of
         Inl e \<Rightarrow> if e = Io ENOENT then ret False else fail e
       | Inr stat \<Rightarrow> bnd (lift_r (parse_state_and_start_time stat)) (matches_stat i))"

definition is_current :: "process_identity \<Rightarrow> bool io" where
  "is_current i = matches_running_process i"

section \<open>Signals\<close>

definition pidfd_open :: "nat \<Rightarrow> (nat \<times> nat) option io" where
  "pidfd_open pid =
     bnd (attempt (sys_pidfd_open pid)) (\<lambda>r.
       case r of
         Inr fd \<Rightarrow> ret (Some fd)
       | Inl e \<Rightarrow> if e \<in> {Io ENOSYS, Io EINVAL, Io ESRCH} then ret None else fail e)"

definition signal_outcome :: "unit result \<Rightarrow> bool io" where
  "signal_outcome r =
     (case r of Inr _ \<Rightarrow> ret True | Inl e \<Rightarrow> if e = Io ESRCH then ret False else fail e)"

definition send_signal_checked :: "process_identity \<Rightarrow> nat \<Rightarrow> bool io" where
  "send_signal_checked i sig =
     bnd (pidfd_open (pi_pid i)) (\<lambda>pidfd.
       case pidfd of
         Some fd \<Rightarrow>
           bnd (matches_running_process i) (\<lambda>current.
             if \<not> current then ret False
             else bnd (attempt (sys_pidfd_send fd sig)) signal_outcome)
       | None \<Rightarrow>
           bnd (is_current i) (\<lambda>current.
             if \<not> current then ret False
             else bnd (attempt (sys_kill (pi_pid i) sig)) signal_outcome))"

text \<open>\<open>None\<close>: the loop ran out of turns, which \<open>wait_for_exit_returns\<close> shows it never does.\<close>

definition exited :: "process_identity \<Rightarrow> unit option io" where
  "exited i = bnd (is_current i) (\<lambda>current. ret (if current then None else Some ()))"

definition wait_for_exit :: "process_identity \<Rightarrow> nat \<Rightarrow> bool option io" where
  "wait_for_exit i timeout =
     bnd (poll_until (exited i) timeout) (\<lambda>r. ret (map_option (\<lambda>x. x \<noteq> None) r))"

definition terminate :: "process_identity \<Rightarrow> nat \<Rightarrow> unit io" where
  "terminate i term_timeout =
     bnd (send_signal_checked i 15) (\<lambda>sent.
       if \<not> sent then ret ()
       else bnd (wait_for_exit i term_timeout) (\<lambda>gone.
         if gone = Some True then ret ()
         else bnd (send_signal_checked i 9) (\<lambda>killed.
           io_ensure killed ''managed process changed identity before SIGKILL''
           (bnd (wait_for_exit i 2000) (\<lambda>dead.
             io_ensure (dead = Some True) ''process did not exit after SIGKILL'' (ret ()))))))"

section \<open>Identity files\<close>

definition MAX_PID_FILE_BYTES :: nat where "MAX_PID_FILE_BYTES = 64 * 1024"

definition temporary_sibling :: "path \<Rightarrow> uuid \<Rightarrow> path" where
  "temporary_sibling p u = with_file_name p (file_name p @ ''.'' @ uuid_text u @ ''.tmp'')"

definition sync_parent :: "path \<Rightarrow> unit io" where
  "sync_parent p =
     (case parent p of None \<Rightarrow> fail (Bail ''path has no parent'') | Some d \<Rightarrow> sync_directory d)"

text \<open>\<open>ensure_pid_file_absent\<close>, which is also \<open>storage.rs\<close>'s \<open>ensure_destination_absent\<close>.\<close>

definition ensure_absent :: "path \<Rightarrow> unit io" where
  "ensure_absent p =
     bnd (attempt (sys_lstat p)) (\<lambda>r.
       case r of
         Inl e \<Rightarrow> if e = Io ENOENT then ret () else fail e
       | Inr _ \<Rightarrow> fail (Bail ''already exists''))"

definition pid_file_commit :: "string \<Rightarrow> path \<Rightarrow> path \<Rightarrow> unit io" where
  "pid_file_commit bytes temporary p =
     thn (sys_create_new temporary 384)
     (thn (sys_write temporary bytes)
     (thn (sys_write temporary newline)
     (thn sys_nop
     (thn (sys_link temporary p)
     (thn (sys_unlink temporary)
     (sync_parent p))))))"

definition write_pid_file :: "process_identity codec \<Rightarrow> path \<Rightarrow> process_identity \<Rightarrow> unit io" where
  "write_pid_file c p i =
     thn (ensure_absent p)
     (bnd new_uuid (\<lambda>u.
       (let temporary = temporary_sibling p u
        in on_error (pid_file_commit (enc c i) temporary p) (sys_unlink temporary))))"

definition read_pid_file :: "process_identity codec \<Rightarrow> path \<Rightarrow> process_identity option io" where
  "read_pid_file c p =
     bnd (attempt (sys_open_nofollow p)) (\<lambda>r.
       case r of
         Inl e \<Rightarrow> if e = Io ENOENT then ret None else fail e
       | Inr _ \<Rightarrow>
           bnd (sys_fstat p) (\<lambda>md.
           io_ensure (case e_node md of File d \<Rightarrow> length d \<le> MAX_PID_FILE_BYTES | _ \<Rightarrow> False)
             ''invalid PID file''
           (io_ensure (and (e_mode md) 63 = 0) ''PID file is accessible by another user''
           (bnd (sys_read p) (\<lambda>d.
             case dec c d of
               None \<Rightarrow> fail (Bail ''parse PID file'')
             | Some i \<Rightarrow> io_ensure (pi_pid i > 0) ''invalid process identity'' (ret (Some i)))))))"

definition inspect_pid_file :: "process_identity codec \<Rightarrow> path \<Rightarrow> managed_process_status io" where
  "inspect_pid_file c p =
     bnd (read_pid_file c p) (\<lambda>r.
       case r of
         None \<Rightarrow> ret Missing
       | Some i \<Rightarrow>
           bnd (matches_running_process i) (\<lambda>current.
             ret (if current then RunningProcess i else StaleProcess i)))"

definition remove_pid_file :: "process_identity codec \<Rightarrow> path \<Rightarrow> process_identity \<Rightarrow> unit io" where
  "remove_pid_file c p expected =
     bnd (read_pid_file c p) (\<lambda>r.
       case r of
         None \<Rightarrow> ret ()
       | Some found \<Rightarrow>
           io_ensure (found = expected) ''refusing to remove changed process identity''
             (thn (sys_unlink p) (sync_parent p)))"

definition remove_stale_pid_file :: "process_identity codec \<Rightarrow> path \<Rightarrow> bool io" where
  "remove_stale_pid_file c p =
     bnd (inspect_pid_file c p) (\<lambda>st.
       case st of
         Missing \<Rightarrow> ret False
       | RunningProcess _ \<Rightarrow> fail (Bail ''refusing to remove PID file for running process'')
       | StaleProcess i \<Rightarrow> thn (remove_pid_file c p i) (ret True))"

section \<open>Starting a managed process\<close>

text \<open>
  \<open>std::process::Child\<close>: a process descriptor of a process this command started. \<open>Command::spawn\<close> runs
  a program with its arguments; \<open>socks\<close> are the sockets that program is told to listen on. The number
  of the new process is the kernel's choice.
\<close>

type_synonym child = "nat \<times> nat"

definition new_process :: "path \<Rightarrow> entry \<Rightarrow> os \<Rightarrow> process" where
  "new_process q e s =
     \<lparr>p_stamp = next_stamp s, p_start = clock s div 10, p_comm = take 15 (last q), p_state = PRunning,
      p_exe = q, p_exe_dev = e_dev e, p_exe_ino = e_ino e, p_dumpable = True\<rparr>"

definition start_process :: "nat \<Rightarrow> path \<Rightarrow> entry \<Rightarrow> string list \<Rightarrow> path set \<Rightarrow> os \<Rightarrow> os" where
  "start_process pid q e args socks s =
     s\<lparr>procs := (procs s)(pid \<mapsto> new_process q e s), next_stamp := Suc (next_stamp s),
       spawned := spawned s @ [(next_stamp s, q, args, files s)], listening := listening s \<union> socks\<rparr>"

definition sys_spawn :: "path \<Rightarrow> string list \<Rightarrow> path set \<Rightarrow> child io" where
  "sys_spawn prog args socks s =
     (let s' = before_call s; pid = sl_pid (next_slot s) (next_stamp s')
      in case sl_fault (next_slot s) of
           Some f \<Rightarrow> (Inl (Io (fault_errno f)), s')
         | None \<Rightarrow>
             (case resolve (files s') prog of
                Inl e \<Rightarrow> (Inl (Io e), s')
              | Inr q \<Rightarrow>
                  (case entry_at s' q of
                     None \<Rightarrow> (Inl (Io ENOENT), s')
                   | Some e \<Rightarrow>
                       if \<not> is_regular e \<or> and (e_mode e) 73 = 0 then (Inl (Io EACCES), s')
                       else if pid = 0 \<or> procs s' pid \<noteq> None then (Inl (Io (EOTHER 11)), s')
                       else (Ok (pid, next_stamp s'), start_process pid q e args socks s'))))"

text \<open>\<open>try_wait\<close> reaps a child that has ended; \<open>kill\<close> followed by \<open>wait\<close> ends and reaps it.\<close>

definition sys_try_wait :: "child \<Rightarrow> bool io" where
  "sys_try_wait ch = syscall (\<lambda>s.
     case procs s (fst ch) of
       None \<Rightarrow> (Ok True, s)
     | Some p \<Rightarrow>
         if p_stamp p \<noteq> snd ch then (Ok True, s)
         else if p_state p = PZombie then (Ok True, s\<lparr>procs := (procs s)(fst ch := None)\<rparr>)
         else (Ok False, s))"

definition sys_kill_wait :: "child \<Rightarrow> unit io" where
  "sys_kill_wait ch = syscall (\<lambda>s.
     case procs s (fst ch) of
       None \<Rightarrow> (Ok (), s)
     | Some p \<Rightarrow>
         if p_stamp p \<noteq> snd ch then (Ok (), s)
         else (Ok (), (deliver (snd ch) 9 s)\<lparr>procs := (procs s)(fst ch := None)\<rparr>))"

record spawned_process =
  sp_child :: child
  sp_identity :: process_identity

definition open_private_log :: "path \<Rightarrow> unit io" where
  "open_private_log p =
     thn (sys_open_create p 384 True)
     (bnd (sys_fstat p) (\<lambda>md.
      io_ensure (is_regular md) ''process log is not a regular file'' (sys_chmod p 384)))"

text \<open>The blocked termination signals and the child's session are not modelled.\<close>

definition spawn_managed ::
    "process_identity codec \<Rightarrow> path \<Rightarrow> string list \<Rightarrow> path set \<Rightarrow> path \<Rightarrow> path \<Rightarrow> spawned_process io" where
  "spawn_managed c prog args socks pid_file log_file =
     thn (ensure_absent pid_file)
     (thn (open_private_log log_file)
     (bnd (sys_spawn prog args socks) (\<lambda>ch.
      bnd (on_error (capture_identity (fst ch)) (sys_kill_wait ch)) (\<lambda>i.
      thn (on_error (write_pid_file c pid_file i) (sys_kill_wait ch))
        (ret \<lparr>sp_child = ch, sp_identity = i\<rparr>)))))"

definition child_ended :: "child \<Rightarrow> unit option io" where
  "child_ended ch = bnd (sys_try_wait ch) (\<lambda>d. ret (if d then Some () else None))"

definition wait_for_child :: "child \<Rightarrow> nat \<Rightarrow> bool option io" where
  "wait_for_child ch timeout =
     bnd (poll_until (child_ended ch) timeout) (\<lambda>r. ret (map_option (\<lambda>x. x \<noteq> None) r))"

definition terminate_spawned :: "spawned_process \<Rightarrow> nat \<Rightarrow> unit io" where
  "terminate_spawned p term_timeout =
     bnd (sys_try_wait (sp_child p)) (\<lambda>d.
       if d then ret ()
       else bnd (send_signal_checked (sp_identity p) 15) (\<lambda>sent.
         io_ensure sent ''spawned process changed identity before SIGTERM''
         (bnd (wait_for_child (sp_child p) term_timeout) (\<lambda>gone.
           if gone = Some True then ret ()
           else bnd (send_signal_checked (sp_identity p) 9) (\<lambda>killed.
             io_ensure killed ''spawned process changed identity before SIGKILL''
             (bnd (wait_for_child (sp_child p) 2000) (\<lambda>dead.
               io_ensure (dead = Some True) ''spawned process did not exit after SIGKILL''
                 (ret ()))))))))"

section \<open>Executables\<close>

text \<open>A path given as text, resolved from the root (the working directory is not modelled).\<close>

definition sys_metadata_text :: "string \<Rightarrow> entry io" where
  "sys_metadata_text t = syscall (\<lambda>s.
     if \<not> is_absolute t then (Inl (Io ENOENT), s)
     else case walk (files s) 40 [] (components t) of
       Inl e \<Rightarrow> (Inl (Io e), s)
     | Inr q \<Rightarrow> (case entry_at s q of Some e \<Rightarrow> (Ok e, s) | None \<Rightarrow> (Inl (Io ENOENT), s)))"

definition sys_canonicalize_text :: "string \<Rightarrow> path io" where
  "sys_canonicalize_text t = syscall (\<lambda>s.
     if \<not> is_absolute t then (Inl (Io ENOENT), s)
     else case walk (files s) 40 [] (components t) of Inr q \<Rightarrow> (Ok q, s) | Inl e \<Rightarrow> (Inl (Io e), s))"

definition validate_executable :: "string \<Rightarrow> path io" where
  "validate_executable t =
     bnd (sys_metadata_text t) (\<lambda>md.
     io_ensure (is_regular md) ''is not a regular file''
     (io_ensure (and (e_mode md) 73 \<noteq> 0) ''is not executable'' (sys_canonicalize_text t)))"

fun first_executable :: "string list \<Rightarrow> path option io" where
  "first_executable [] = ret None"
| "first_executable (t # ts) =
     bnd (attempt (validate_executable t)) (\<lambda>r.
       case r of Inr p \<Rightarrow> ret (Some p) | Inl _ \<Rightarrow> first_executable ts)"

definition find_executable :: "string \<Rightarrow> path option io" where
  "find_executable nm =
     bnd (env_var ''PATH'') (\<lambda>p.
       case p of
         None \<Rightarrow> ret None
       | Some v \<Rightarrow> first_executable (map (\<lambda>d. join_text d nm) (split_on (\<lambda>c. c = CHR '':'') v)))"

definition resolve_executable :: "string \<Rightarrow> path \<Rightarrow> string \<Rightarrow> path io" where
  "resolve_executable override_variable bundled command_name =
     bnd (env_var override_variable) (\<lambda>ovr.
       case ovr of
         Some t \<Rightarrow> validate_executable t
       | None \<Rightarrow>
           bnd (sys_exists bundled) (\<lambda>there.
             if there then validate_executable (display bundled)
             else bnd (find_executable command_name) (\<lambda>found.
               case found of Some p \<Rightarrow> ret p | None \<Rightarrow> fail (Bail ''cannot find the executable''))))"

end
