(* ===== verification/ProcessFacts.thy ===== *)
theory ProcessFacts
  imports ProcessId
begin

text \<open>
  What \<open>process.rs\<close> guarantees: a signal reaches the recorded process or none, whatever other processes
  do in between; waiting always ends; stopping returns \<open>Ok\<close> only when the process is gone; and the
  identity files are written, read and removed without ever naming another process.
\<close>

section \<open>Reading \<open>/proc\<close>\<close>

lemma split_chars_bytes:
  "split_chars p (map byte s) = map (map byte) (split_on (\<lambda>c. p (byte c)) s)"
  by (induction s) (auto split: list.splits)

lemma utf8_encode_byte: "byte c < 128 \<Longrightarrow> utf8_encode (byte c) = [c]"
  by (simp add: utf8_encode_def)

lemma of_chars_bytes: "is_ascii s \<Longrightarrow> of_chars (map byte s) = s"
  by (induction s) (auto simp: of_chars_def is_ascii_def utf8_encode_byte)

lemma split_whitespace_ascii:
  assumes "is_ascii s"
  shows "split_whitespace s = filter (\<lambda>x. x \<noteq> []) (split_on (\<lambda>c. is_whitespace (byte c)) s)"
proof -
  let ?xs = "filter (\<lambda>x. x \<noteq> []) (split_on (\<lambda>c. is_whitespace (byte c)) s)"
  have "is_ascii x" if "x \<in> set ?xs" for x
    using that assms split_on_subset [of x "\<lambda>c. is_whitespace (byte c)" s] by (auto simp: is_ascii_def)
  then have "map (\<lambda>x. of_chars (map byte x)) ?xs = ?xs"
    by (intro map_idI) (simp add: of_chars_bytes)
  then show ?thesis
    using assms by (simp add: split_whitespace_def str_chars_ascii split_chars_bytes filter_map o_def)
qed

lemma split_on_words:
  assumes "p d" "p e" and "\<forall>w \<in> set ws. w \<noteq> [] \<and> (\<forall>c \<in> set w. \<not> p c)"
  shows "filter (\<lambda>x. x \<noteq> []) (split_on p (concat (map ((#) d) ws) @ [e])) = ws"
proof -
  have "filter (\<lambda>x. x \<noteq> []) (split_on p (w @ concat (map ((#) d) ws) @ [e])) = w # ws"
    if "w \<noteq> [] \<and> (\<forall>c \<in> set w. \<not> p c)" "\<forall>w \<in> set ws. w \<noteq> [] \<and> (\<forall>c \<in> set w. \<not> p c)" for w ws
    using that
  proof (induction ws arbitrary: w)
    case Nil
    then show ?case using assms(2) split_on_append [of w p e "[]"] by simp
  next
    case (Cons v ws)
    then show ?case
      using assms(1) split_on_append [of w p d "v @ concat (map ((#) d) ws) @ [e]"] by simp
  qed
  with assms show ?thesis by (cases ws) auto
qed

lemma state_letter_graphic: "\<not> is_whitespace (byte (state_letter x))" "byte (state_letter x) < 128"
  "state_letter x \<noteq> CHR '')''"
  by (cases x; simp add: is_whitespace_def)+

lemma digit_graphic: "is_ascii_digit c \<Longrightarrow> \<not> is_whitespace (byte c) \<and> byte c < 128 \<and> c \<noteq> CHR '')''"
  by (auto simp: is_ascii_digit_def is_whitespace_def)

definition stat_fields :: "process \<Rightarrow> string list" where
  "stat_fields p = [state_letter (p_state p)] # replicate 18 ''0'' @ [decimal (p_start p), ''0'']"

lemma stat_fields_graphic:
  assumes "w \<in> set (stat_fields p)"
  shows "w \<noteq> [] \<and> (\<forall>c \<in> set w. \<not> is_whitespace (byte c) \<and> byte c < 128 \<and> c \<noteq> CHR '')'')"
proof -
  have "is_ascii_digit CHR ''0''" by (simp add: is_ascii_digit_def)
  from digit_graphic [OF this] digit_graphic [OF decimal_digits [of _ "p_start p"]]
  show ?thesis
    using assms state_letter_graphic(1,2) state_letter_graphic(3) [of "p_state p", symmetric]
    by (auto simp: stat_fields_def)
qed

definition stat_tail :: "process \<Rightarrow> string" where
  "stat_tail p = concat (map ((#) CHR '' '') (stat_fields p)) @ newline"

lemma stat_text_tail:
  "stat_text pid p = (decimal pid @ '' ('' @ p_comm p) @ CHR '')'' # stat_tail p"
  by (simp add: stat_text_def stat_tail_def stat_fields_def)

lemma split_stat_tail: "split_whitespace (stat_tail p) = stat_fields p"
proof -
  have "is_ascii (stat_tail p)"
    using stat_fields_graphic [of _ p] by (auto simp: stat_tail_def is_ascii_def newline_def)
  then show ?thesis
    unfolding stat_tail_def newline_def
    using stat_fields_graphic [of _ p] 
    by (simp add: split_whitespace_ascii split_on_words is_whitespace_def)
qed

lemma parse_stat_text:
  "parse_state_and_start_time (stat_text pid p) =
     (if p_start p < 2 ^ 64 then Ok (byte (state_letter (p_state p)), p_start p)
      else bail ''process start time is not an integer'')"
proof -
  have "CHR '')'' \<notin> set (stat_tail p)"
    using stat_fields_graphic [of _ p] by (auto simp: stat_tail_def newline_def)
  then have "rsplit_at CHR '')'' (stat_text pid p) = Some (decimal pid @ '' ('' @ p_comm p, stat_tail p)"
    unfolding stat_text_tail by (rule rsplit_at_append)
  moreover have "str_chars [state_letter (p_state p)] = [byte (state_letter (p_state p))]"
    by (simp add: str_chars_ascii is_ascii_def state_letter_graphic)
  moreover have "parse_u64 (decimal n) = (if n < 2 ^ 64 then Some n else None)" for n
    using parse_decimal [of n "2 ^ 64"] parse_decimal [of n "Suc n"]
    by (auto simp: from_str_radix_def Let_def split: option.splits if_splits list.splits)
  moreover have "stat_fields p ! 19 = decimal (p_start p)" "19 < length (stat_fields p)"
    by (simp_all add: stat_fields_def nth_append)
  ultimately show ?thesis
    by (simp add: parse_state_and_start_time_def split_stat_tail) (simp add: stat_fields_def)
qed

section \<open>How processes evolve\<close>

text \<open>
  Time does not go back, and whatever holds a number at \<open>t\<close> is the process that held it at \<open>s\<close> or one
  that started since, with a later stamp. A process that has ended does not come back to life.
  \<open>numbered\<close>: stamps are given out in order. \<open>candid\<close>: the environment neither withdraws nor denies the
  access to the executable of a process that had it.
\<close>

definition ended :: "process \<Rightarrow> bool" where
  "ended p = (p_state p \<in> {PZombie, PDead})"

definition same_process :: "process \<Rightarrow> process \<Rightarrow> bool" where
  "same_process p q =
     (p_stamp q = p_stamp p \<and> p_start q = p_start p \<and> p_exe_dev q = p_exe_dev p
      \<and> p_exe_ino q = p_exe_ino p \<and> (ended p \<longrightarrow> ended q))"

definition numbered :: "os \<Rightarrow> bool" where
  "numbered s = (\<forall>pid p. procs s pid = Some p \<longrightarrow> p_stamp p < next_stamp s)"

definition candid_slot :: "slot \<Rightarrow> bool" where
  "candid_slot sl = (sl_fault sl \<noteq> Some FaultAccess \<and> (\<forall>pid. Undumpable pid \<notin> set (sl_events sl)))"

definition candid :: "os \<Rightarrow> bool" where
  "candid s = (\<forall>sl \<in> set (sched s). candid_slot sl)"

definition evolves_if :: "bool \<Rightarrow> os \<Rightarrow> os \<Rightarrow> bool" where
  "evolves_if open_exe s t =
     (clock s \<le> clock t \<and> next_stamp s \<le> next_stamp t \<and> has_pidfd t = has_pidfd s \<and> boot_id t = boot_id s
      \<and> (numbered s \<longrightarrow> numbered t)
      \<and> (\<forall>pid q. procs t pid = Some q \<longrightarrow>
            (\<exists>p. procs s pid = Some p \<and> same_process p q \<and> (open_exe \<and> p_dumpable p \<longrightarrow> p_dumpable q))
            \<or> clock s div 10 \<le> p_start q \<and> next_stamp s \<le> p_stamp q))"

definition evolves :: "os \<Rightarrow> os \<Rightarrow> bool" where
  "evolves s t = (evolves_if (candid s) s t \<and> (candid s \<longrightarrow> candid t))"

lemma evolvesD:
  assumes "evolves s t"
  shows "clock s \<le> clock t" "next_stamp s \<le> next_stamp t" "has_pidfd t = has_pidfd s" "boot_id t = boot_id s"
    "numbered s \<Longrightarrow> numbered t" "candid s \<Longrightarrow> candid t"
  using assms by (simp_all add: evolves_def evolves_if_def)

lemma evolves_process:
  assumes "evolves s t" and "procs t pid = Some q"
  obtains (same) p where "procs s pid = Some p" "same_process p q" "candid s \<Longrightarrow> p_dumpable p \<Longrightarrow> p_dumpable q"
    | (later) "clock s div 10 \<le> p_start q" "next_stamp s \<le> p_stamp q"
  using assms unfolding evolves_def evolves_if_def by blast

lemma same_process_refl: "same_process p p"
  by (simp add: same_process_def)

lemma same_process_trans: "same_process p q \<Longrightarrow> same_process q r \<Longrightarrow> same_process p r"
  by (simp add: same_process_def)

lemma evolves_if_refl: "evolves_if k s s"
  using same_process_refl by (auto simp: evolves_if_def)

lemma evolves_if_trans:
  assumes "evolves_if k s t" and "evolves_if k t u"
  shows "evolves_if k s u"
proof -
  have "(\<exists>p. procs s pid = Some p \<and> same_process p q \<and> (k \<and> p_dumpable p \<longrightarrow> p_dumpable q))
      \<or> clock s div 10 \<le> p_start q \<and> next_stamp s \<le> p_stamp q"
    if q: "procs u pid = Some q" for pid q
  proof -
    consider p where "procs t pid = Some p" "same_process p q" "k \<and> p_dumpable p \<longrightarrow> p_dumpable q"
      | "clock t div 10 \<le> p_start q" "next_stamp t \<le> p_stamp q"
      using assms(2) q unfolding evolves_if_def by blast
    then show ?thesis
    proof cases
      case 1
      with assms(1) have "(\<exists>p'. procs s pid = Some p' \<and> same_process p' p \<and> (k \<and> p_dumpable p' \<longrightarrow> p_dumpable p))
          \<or> clock s div 10 \<le> p_start p \<and> next_stamp s \<le> p_stamp p"
        unfolding evolves_if_def by blast
      with 1 show ?thesis using same_process_trans by (fastforce simp: same_process_def)
    next
      case 2
      have "clock s div 10 \<le> clock t div 10" "next_stamp s \<le> next_stamp t"
        using assms(1) by (simp_all add: evolves_if_def div_le_mono)
      with 2 show ?thesis by simp
    qed
  qed
  with assms show ?thesis by (auto simp: evolves_if_def)
qed

lemma evolves_if_weaken: "evolves_if k s t \<Longrightarrow> (k' \<longrightarrow> k) \<Longrightarrow> evolves_if k' s t"
  unfolding evolves_if_def by blast

lemma evolves_refl: "evolves s s"
  by (simp add: evolves_def evolves_if_refl)

lemma evolves_trans: "evolves s t \<Longrightarrow> evolves t u \<Longrightarrow> evolves s u"
  unfolding evolves_def using evolves_if_trans evolves_if_weaken by blast

text \<open>Changes that leave the schedule alone.\<close>

lemma evolves_same_sched: "evolves_if (candid s) s t \<Longrightarrow> sched t = sched s \<Longrightarrow> evolves s t"
  by (simp add: evolves_def candid_def)

lemma evolves_if_event: "(k \<longrightarrow> (\<forall>pid. e \<noteq> Undumpable pid)) \<Longrightarrow> evolves_if k s (apply_event e s)"
  by (cases e) (auto simp: evolves_if_def same_process_def ended_def numbered_def less_Suc_eq split: option.splits)

lemma sched_event [simp]: "sched (apply_event e s) = sched s"
  by (cases e) (auto split: option.splits)

lemma sched_events [simp]: "sched (fold apply_event es s) = sched s"
  by (induction es arbitrary: s) simp_all

lemma evolves_before: "evolves s (before_call s)"
proof -
  have "evolves_if k s (fold apply_event es s)" if "k \<longrightarrow> (\<forall>pid. Undumpable pid \<notin> set es)" for k es s
    using that
  proof (induction es arbitrary: s)
    case (Cons e es)
    then show ?case using evolves_if_trans [OF evolves_if_event [of k e s]] by auto
  qed (simp add: evolves_if_refl)
  moreover have "candid s \<longrightarrow> (\<forall>pid. Undumpable pid \<notin> set (sl_events (next_slot s)))"
    by (auto simp: candid_def candid_slot_def next_slot_def idle_slot_def split: list.splits)
  ultimately have "evolves_if (candid s) (s\<lparr>sched := tl (sched s)\<rparr>) (before_call s)"
    unfolding before_call_def by blast
  moreover have "evolves_if (candid s) s (s\<lparr>sched := tl (sched s)\<rparr>)"
    using same_process_refl by (auto simp: evolves_if_def numbered_def)
  moreover have "candid s \<longrightarrow> candid (before_call s)"
    by (cases "sched s") (auto simp: candid_def before_call_def)
  ultimately show ?thesis unfolding evolves_def using evolves_if_trans by blast
qed

interpretation evolves: frame evolves
  by unfold_locales (auto intro: evolves_refl evolves_before elim: evolves_trans)

text \<open>Calls that do not touch processes or the clock.\<close>

lemma evolves_eq:
  "clock t = clock s \<Longrightarrow> has_pidfd t = has_pidfd s \<Longrightarrow> boot_id t = boot_id s \<Longrightarrow> procs t = procs s
     \<Longrightarrow> next_stamp t = next_stamp s \<Longrightarrow> sched t = sched s \<Longrightarrow> evolves s t"
  by (rule evolves_same_sched) (auto simp: evolves_if_def same_process_refl numbered_def)

lemma evolves_sleep: "evolves s (s\<lparr>clock := clock s + n\<rparr>)"
  by (rule evolves_same_sched) (auto simp: evolves_if_def same_process_refl numbered_def)

lemma evolves_calls:
  "preserves evolves (sys_proc_stat pid)" "preserves evolves (sys_proc_exe pid)"
  "preserves evolves sys_boot_id" "preserves evolves (sys_pidfd_open pid)"
  "preserves evolves (sys_pidfd_send fd sig)" "preserves evolves (sys_kill pid sig)"
  "preserves evolves sys_now" "preserves evolves (sys_sleep n)"
proof -
  show "preserves evolves (sys_proc_stat pid)" "preserves evolves (sys_proc_exe pid)"
    "preserves evolves sys_boot_id" "preserves evolves (sys_pidfd_open pid)"
    "preserves evolves (sys_pidfd_send fd sig)" "preserves evolves (sys_kill pid sig)"
    unfolding sys_proc_stat_def sys_proc_exe_def sys_boot_id_def sys_pidfd_open_def sys_pidfd_send_def
      sys_kill_def deliver_def
    by (rule evolves.syscall; auto intro: evolves_eq split: option.splits)+
  show "preserves evolves sys_now"
    by (simp add: preserves_def sys_now_def Let_def evolves_before)
  show "preserves evolves (sys_sleep n)"
    by (auto simp: preserves_def sys_sleep_def Let_def intro: evolves_trans evolves_before evolves_sleep)
qed

lemma evolves_boot: "preserves evolves read_boot_id"
  unfolding read_boot_id_def by (intro evolves.combinators evolves_calls)

lemma evolves_executable: "preserves evolves (matches_executable i)"
  unfolding matches_executable_def
  by (intro evolves.combinators evolves_calls) (simp split: prod.splits add: evolves.combinators)

lemma evolves_matches: "preserves evolves (matches_running_process i)"
  "preserves evolves (is_current i)"
  unfolding is_current_def matches_running_process_def matches_stat_def
  by (intro evolves.combinators evolves_calls evolves_boot evolves_executable)+

lemma evolves_send: "preserves evolves (send_signal_checked i sig)"
  unfolding send_signal_checked_def pidfd_open_def signal_outcome_def
  by (intro evolves.combinators evolves_calls evolves_matches)

section \<open>Identities\<close>

text \<open>
  \<open>names i s p\<close>: at \<open>s\<close> the process \<open>p\<close> has the number and the start time of the identity \<open>i\<close>, in the boot
  it was recorded in. \<open>older i s\<close>: the identity was recorded in an earlier tick of the kernel's clock, so
  no process that starts later can have both. \<open>intended i s p\<close>: \<open>p\<close> also runs the recorded executable,
  where the system shows the executable at all.
\<close>

definition names :: "process_identity \<Rightarrow> os \<Rightarrow> process \<Rightarrow> bool" where
  "names i s p =
     (procs s (pi_pid i) = Some p \<and> p_start p = pi_start_time_ticks i \<and> str_trim (boot_id s) = pi_boot_id i)"

definition older :: "process_identity \<Rightarrow> os \<Rightarrow> bool" where
  "older i s = (pi_start_time_ticks i < clock s div 10)"

definition runs_recorded :: "process_identity \<Rightarrow> process \<Rightarrow> bool" where
  "runs_recorded i p = (p_exe_dev p = pi_executable_device i \<and> p_exe_ino p = pi_executable_inode i)"

definition intended :: "process_identity \<Rightarrow> os \<Rightarrow> process \<Rightarrow> bool" where
  "intended i s p = (names i s p \<and> (numbered s \<and> candid s \<and> p_dumpable p \<longrightarrow> runs_recorded i p))"

text \<open>The recorded process still runs, as the recorded program.\<close>

definition alive :: "process_identity \<Rightarrow> os \<Rightarrow> bool" where
  "alive i s = (\<exists>p. names i s p \<and> \<not> ended p \<and> runs_recorded i p)"

lemma older_mono: "older i s \<Longrightarrow> evolves s t \<Longrightarrow> older i t"
  using div_le_mono [of "clock s" "clock t" 10] evolvesD(1) by (fastforce simp: older_def)

lemma names_back:
  assumes "evolves s t" and "older i s" and "names i t q"
  shows "\<exists>p. names i s p \<and> same_process p q \<and> (candid s \<and> p_dumpable p \<longrightarrow> p_dumpable q)"
proof -
  have "procs t (pi_pid i) = Some q" "p_start q < clock s div 10"
    using assms(2,3) by (auto simp: names_def older_def)
  with assms(1) obtain p where "procs s (pi_pid i) = Some p" "same_process p q" "candid s \<and> p_dumpable p \<longrightarrow> p_dumpable q"
    by (cases rule: evolves_process) auto
  then show ?thesis
    using assms(3) evolvesD(4) [OF assms(1)] by (auto simp: names_def same_process_def)
qed

lemma intended_back:
  assumes "evolves s t" and "older i s" and "intended i t q"
  shows "\<exists>p. intended i s p \<and> p_stamp p = p_stamp q"
proof -
  from names_back [OF assms(1,2)] assms(3) obtain p where
    p: "names i s p" "same_process p q" "candid s \<and> p_dumpable p \<longrightarrow> p_dumpable q"
    by (auto simp: intended_def)
  with assms(3) evolvesD(5,6) [OF assms(1)] have "intended i s p"
    by (auto simp: intended_def same_process_def runs_recorded_def)
  with p(2) show ?thesis by (auto simp: same_process_def)
qed

lemma alive_back: "evolves s t \<Longrightarrow> older i s \<Longrightarrow> alive i t \<Longrightarrow> alive i s"
  using names_back [of s t i] by (fastforce simp: alive_def same_process_def runs_recorded_def)

text \<open>What the check \<open>matches_running_process\<close> has seen.\<close>

lemma proc_stat_result:
  "sys_proc_stat pid s = (r, t) \<Longrightarrow> t = before_call s
     \<and> (case r of Inr v \<Rightarrow> (\<exists>p. procs t pid = Some p \<and> v = stat_text pid p)
         | Inl e \<Rightarrow> e = Io ENOENT \<longrightarrow> procs t pid = None)"
  by (auto simp: sys_proc_stat_def syscall_def split: option.splits if_splits)

lemma proc_exe_result:
  "sys_proc_exe pid s = (r, t) \<Longrightarrow> t = before_call s
     \<and> (case r of Inr (_, dev, ino) \<Rightarrow> (\<exists>p. procs t pid = Some p \<and> dev = p_exe_dev p \<and> ino = p_exe_ino p)
         | Inl e \<Rightarrow> e = Io ENOENT \<longrightarrow> (\<forall>p. procs t pid = Some p \<longrightarrow> ended p))"
  by (auto simp: sys_proc_exe_def syscall_def ended_def split: option.splits if_splits)

lemma boot_result: "read_boot_id s = (Ok b, t) \<Longrightarrow> b = str_trim (boot_id s) \<and> evolves s t"
  using evolves_before [of s] evolvesD(4) [OF evolves_before, of s]
  by (auto simp: read_boot_id_def sys_boot_id_def io_Ok syscall_Ok)

lemma letter_ended: "byte (state_letter (p_state p)) \<in> {90, 88} \<longleftrightarrow> ended p"
  by (cases "p_state p") (simp_all add: ended_def)

lemma parse_seen:
  "parse_state_and_start_time (stat_text pid p) = Ok seen
     \<Longrightarrow> seen = (byte (state_letter (p_state p)), p_start p)"
  by (simp add: parse_stat_text split: if_splits)

lemma executable_result:
  assumes "matches_executable i s = (Ok b, t)"
  shows "evolves s t" and "b \<or> older i s \<Longrightarrow> b \<or> \<not> alive i t"
proof -
  obtain x u where exe': "sys_proc_exe (pi_pid i) s = (x, u)" by fastforce
  with assms have exe: "sys_proc_exe (pi_pid i) s = (x, t)"
    by (auto simp: matches_executable_def bnd_def attempt_def ret_def fail_def
        split: sum.splits prod.splits if_splits)
  show "evolves s t" using proc_exe_result [OF exe] evolves_before by simp
  show "b \<or> \<not> alive i t"
  proof (cases b)
    case False
    with assms exe proc_exe_result [OF exe] show ?thesis
      by (auto simp: matches_executable_def bnd_def attempt_def ret_def fail_def alive_def names_def
          runs_recorded_def split: sum.splits prod.splits if_splits)
  qed simp
qed

text \<open>What was at the number when the executable was read, if it could be read.\<close>

lemma executable_true:
  assumes "matches_executable i s = (Ok True, t)" and "candid s" and "procs t (pi_pid i) = Some p"
    and "p_dumpable p"
  shows "runs_recorded i p"
proof -
  have "sl_fault (next_slot s) \<noteq> Some FaultAccess"
    using assms(2) by (auto simp: candid_def candid_slot_def next_slot_def idle_slot_def split: list.splits)
  moreover have "f = FaultAccess" if "fault_errno f = EACCES" for f using that by (cases f) auto
  ultimately show ?thesis
    using assms by (auto simp: matches_executable_def sys_proc_exe_def syscall_def bnd_def attempt_def ret_def
        fail_def runs_recorded_def split: option.splits if_splits)
qed

lemma stat_Ok:
  assumes "matches_stat i seen s = (Ok b, t)"
  shows "\<exists>boot u. read_boot_id s = (Ok boot, u)
    \<and> (if pi_boot_id i \<noteq> boot \<or> pi_start_time_ticks i \<noteq> snd seen \<or> fst seen \<in> {90, 88}
       then \<not> b \<and> t = u else matches_executable i u = (Ok b, t))"
proof -
  obtain r u where r: "read_boot_id s = (r, u)" by fastforce
  with assms obtain boot where "r = Ok boot"
    by (cases r) (auto simp: matches_stat_def bnd_def)
  with r assms show ?thesis
    by (auto simp: matches_stat_def bnd_def ret_def split: if_splits)
qed

lemma matches_true:
  assumes "matches_running_process i s = (Ok True, t)"
  shows "\<exists>u p. evolves s u \<and> evolves u t \<and> names i u p \<and> \<not> ended p"
    and "candid s \<Longrightarrow> procs t (pi_pid i) = Some q \<Longrightarrow> p_dumpable q \<Longrightarrow> runs_recorded i q"
proof -
  from assms obtain stat u seen where
    stat: "sys_proc_stat (pi_pid i) s = (Ok stat, u)" and
    parse: "parse_state_and_start_time stat = Ok seen" and
    rest: "matches_stat i seen u = (Ok True, t)"
    by (auto simp: matches_running_process_def bnd_def attempt_def lift_r_def fail_def ret_def
        split: sum.splits prod.splits if_splits)
  from stat_Ok [OF rest] obtain boot u2 where boot: "read_boot_id u = (Ok boot, u2)" and
    same: "pi_boot_id i = boot" "pi_start_time_ticks i = snd seen" "fst seen \<notin> {90, 88}" and
    exe: "matches_executable i u2 = (Ok True, t)"
    by (auto split: if_splits)
  from proc_stat_result [OF stat] obtain p where p: "u = before_call s" "procs u (pi_pid i) = Some p"
      "stat = stat_text (pi_pid i) p" by auto
  have "evolves s u" using p(1) evolves_before by simp
  moreover have "evolves u t"
    using boot_result [OF boot] executable_result(1) [OF exe] evolves_trans by blast
  moreover have "names i u p" "\<not> ended p"
    using parse_seen [of "pi_pid i" p seen] parse p(2,3) same letter_ended [of p] boot_result [OF boot]
    by (simp_all add: names_def)
  ultimately show "\<exists>u p. evolves s u \<and> evolves u t \<and> names i u p \<and> \<not> ended p" by blast
  have "candid s \<Longrightarrow> candid u2"
    using evolvesD(6) [OF \<open>evolves s u\<close>] evolvesD(6) boot_result [OF boot] by blast
  then show "candid s \<Longrightarrow> procs t (pi_pid i) = Some q \<Longrightarrow> p_dumpable q \<Longrightarrow> runs_recorded i q"
    using executable_true [OF exe] by blast
qed

lemma stat_false:
  assumes "matches_stat i seen u = (Ok False, t)" and "older i u"
    and "procs u (pi_pid i) = Some p" and "seen = (byte (state_letter (p_state p)), p_start p)"
  shows "evolves u t \<and> \<not> alive i t"
proof -
  from stat_Ok [OF assms(1)] obtain boot u2 where boot: "read_boot_id u = (Ok boot, u2)" and
    run: "if pi_boot_id i \<noteq> boot \<or> pi_start_time_ticks i \<noteq> snd seen \<or> fst seen \<in> {90, 88}
      then \<not> False \<and> t = u2 else matches_executable i u2 = (Ok False, t)"
    by blast
  have u2: "evolves u u2" "boot = str_trim (boot_id u)" using boot_result [OF boot] by auto
  show ?thesis
  proof (cases "pi_boot_id i \<noteq> boot \<or> pi_start_time_ticks i \<noteq> snd seen \<or> fst seen \<in> {90, 88}")
    case True
    then have "\<not> alive i u"
      using assms(3,4) u2(2) letter_ended [of p] unfolding alive_def names_def by force
    with True run u2(1) assms(2) show ?thesis using alive_back by auto
  next
    case False
    with run have "matches_executable i u2 = (Ok False, t)" by simp
    from executable_result [OF this] older_mono [OF assms(2) u2(1)] u2(1) show ?thesis
      using evolves_trans by blast
  qed
qed

lemma matches_false:
  assumes "matches_running_process i s = (Ok False, t)" and "older i s"
  shows "\<not> alive i t"
proof -
  obtain r u where stat: "sys_proc_stat (pi_pid i) s = (r, u)" by fastforce
  note stat' = proc_stat_result [OF stat]
  show ?thesis
  proof (cases r)
    case (Inl e)
    with assms(1) stat have "e = Io ENOENT" "t = u"
      by (auto simp: matches_running_process_def bnd_def attempt_def ret_def fail_def split: if_splits)
    with Inl stat' show ?thesis by (auto simp: alive_def names_def)
  next
    case (Inr v)
    then obtain p where p: "procs u (pi_pid i) = Some p" "v = stat_text (pi_pid i) p"
      using stat' by auto
    from assms(1) stat Inr obtain seen where
      "parse_state_and_start_time v = Ok seen" "matches_stat i seen u = (Ok False, t)"
      by (auto simp: matches_running_process_def bnd_def attempt_def lift_r_def split: sum.splits)
    moreover have "older i u"
      using stat' older_mono [OF assms(2) evolves_before] by simp
    ultimately show ?thesis
      using stat_false p parse_seen by blast
  qed
qed

section \<open>Signals\<close>

definition no_signal :: "os \<Rightarrow> os \<Rightarrow> bool" where
  "no_signal s t = (signals t = signals s)"

lemma signals_before [simp]: "signals (before_call s) = signals s"
proof -
  have e: "signals (apply_event e s) = signals s" for e s
    by (cases e) (auto split: option.splits)
  have "signals (fold apply_event es s) = signals s" for es s
    by (induction es arbitrary: s) (simp_all add: e)
  then show ?thesis by (simp add: before_call_def)
qed

interpretation no_signal: frame no_signal
  by unfold_locales (simp_all add: no_signal_def)

lemma no_signal_reads:
  "preserves no_signal (sys_proc_stat pid)" "preserves no_signal (sys_proc_exe pid)"
  "preserves no_signal sys_boot_id" "preserves no_signal (sys_pidfd_open pid)"
  "preserves no_signal sys_now" "preserves no_signal (sys_sleep n)"
  unfolding sys_proc_stat_def sys_proc_exe_def sys_boot_id_def sys_pidfd_open_def
  by ((rule no_signal.syscall; auto simp: no_signal_def split: option.splits)
      | simp add: preserves_def no_signal_def sys_now_def sys_sleep_def Let_def)+

lemma no_signal_executable: "preserves no_signal (matches_executable i)"
  unfolding matches_executable_def
  by (intro no_signal.combinators no_signal_reads) (simp split: prod.splits add: no_signal.combinators)

lemma no_signal_matches: "preserves no_signal (matches_running_process i)"
  "preserves no_signal (is_current i)"
  unfolding is_current_def matches_running_process_def matches_stat_def read_boot_id_def
  by (intro no_signal.combinators no_signal_reads no_signal_executable)+

lemma pidfd_open_result:
  "pidfd_open pid s = (r, t) \<Longrightarrow> t = before_call s
     \<and> (case r of Inr (Some fd) \<Rightarrow> (\<exists>p. procs t pid = Some p \<and> fd = (pid, p_stamp p))
         | Inr None \<Rightarrow> has_pidfd s \<longrightarrow> procs t pid = None
         | Inl e \<Rightarrow> True)"
proof -
  have "fault_errno f \<notin> {ENOSYS, EINVAL, ESRCH}" for f by (cases f) simp_all
  moreover have "has_pidfd (before_call s) = has_pidfd s" by (rule evolvesD(3) [OF evolves_before])
  moreover assume "pidfd_open pid s = (r, t)"
  ultimately show ?thesis
    by (auto simp: pidfd_open_def sys_pidfd_open_def bnd_def attempt_def syscall_def ret_def fail_def
        split: option.splits if_splits)
qed

lemma pidfd_send_result:
  "sys_pidfd_send fd sig s = (r, t) \<Longrightarrow> evolves s t
     \<and> (case r of
          Inr _ \<Rightarrow> signals t = signals s @ [(snd fd, sig)] \<and> (\<exists>p. procs t (fst fd) = Some p \<and> p_stamp p = snd fd)
        | Inl e \<Rightarrow> signals t = signals s
             \<and> (e = Io ESRCH \<longrightarrow> (\<forall>p. procs t (fst fd) = Some p \<longrightarrow> p_stamp p \<noteq> snd fd)))"
proof -
  have "fault_errno f \<noteq> ESRCH" for f by (cases f) simp_all
  moreover assume send: "sys_pidfd_send fd sig s = (r, t)"
  moreover have "evolves s t" using preservesD [OF evolves_calls(5) send] .
  ultimately show ?thesis
    by (auto simp: sys_pidfd_send_def syscall_def deliver_def split: option.splits if_splits)
qed

text \<open>
  The process a descriptor was opened for is the one the identity names, when the check after the
  opening says so: the identity is too old for a process that started in between.
\<close>

lemma checked_after_open:
  assumes "older i s" and "pidfd_open (pi_pid i) s = (Ok (Some fd), u)"
    and "matches_running_process i u = (Ok True, v)"
  shows "\<exists>p. names i s p \<and> p_stamp p = snd fd \<and> fst fd = pi_pid i"
proof -
  from pidfd_open_result [OF assms(2)] obtain q where
    q: "u = before_call s" "procs u (pi_pid i) = Some q" "fd = (pi_pid i, p_stamp q)" by auto
  have su: "evolves s u" using q(1) evolves_before by simp
  from matches_true(1) [OF assms(3)] obtain w r where r: "evolves u w" "names i w r" by blast
  have "older i u" using older_mono [OF assms(1) su] .
  from names_back [OF r(1) this r(2)] q(2) have "names i u q" by (auto simp: names_def)
  from names_back [OF su assms(1) this] q(3) show ?thesis
    by (auto simp: same_process_def)
qed

text \<open>
  The receiver was there when the executable was read: its stamp is the descriptor's, and no process that
  starts later has it.
\<close>

lemma receiver_intended:
  assumes "names i s p" and "evolves s v" and "evolves v w" and "procs w (pi_pid i) = Some y" and "p_stamp y = p_stamp p"
    and "\<And>q. candid s \<Longrightarrow> procs v (pi_pid i) = Some q \<Longrightarrow> p_dumpable q \<Longrightarrow> runs_recorded i q"
  shows "intended i s p"
proof -
  have "runs_recorded i p" if n: "numbered s" and c: "candid s" and d: "p_dumpable p"
  proof -
    have p: "procs s (pi_pid i) = Some p" using assms(1) by (simp add: names_def)
    with n have "p_stamp p < next_stamp s" by (simp add: numbered_def)
    then have low: "p_stamp p < next_stamp s" "p_stamp p < next_stamp v"
      using evolvesD(2) [OF assms(2)] by simp_all
    from assms(3,4) obtain x where x: "procs v (pi_pid i) = Some x" "same_process x y"
      using low assms(5) by (cases rule: evolves_process) auto
    from assms(2) x(1) have "same_process p x \<and> p_dumpable x"
    proof (cases rule: evolves_process)
      case (same q)
      with p c d show ?thesis by auto
    next
      case later
      with low(1) x(2) assms(5) show ?thesis by (simp add: same_process_def)
    qed
    with assms(6) [OF c x(1)] show ?thesis by (auto simp: same_process_def runs_recorded_def)
  qed
  with assms(1) show ?thesis by (simp add: intended_def)
qed

lemma never_checked_after_absent:
  assumes "older i s" and "procs s (pi_pid i) = None" and "matches_running_process i s = (Ok True, v)"
  shows False
  using matches_true(1) [OF assms(3)] names_back [OF _ assms(1)] assms(2)
  by (fastforce simp: names_def)

lemma send_signal_result:
  assumes "has_pidfd s" and "older i s" and "send_signal_checked i sig s = (r, t)"
  shows "(r = Ok True \<and> (\<exists>p. intended i s p
        \<and> signals t = signals s @ [(p_stamp p, sig)]))
    \<or> (r \<noteq> Ok True \<and> signals t = signals s \<and> (r = Ok False \<longrightarrow> \<not> alive i t))"
proof -
  obtain r1 u where open_run: "pidfd_open (pi_pid i) s = (r1, u)" by fastforce
  note u = pidfd_open_result [OF open_run]
  have older_u: "older i u" using older_mono [OF assms(2)] u evolves_before by simp
  have sig_u: "signals u = signals s" using u by simp
  show ?thesis
  proof (cases r1)
    case (Inl e)
    with assms(3) open_run sig_u show ?thesis
      by (auto simp: send_signal_checked_def bnd_def)
  next
    case (Inr pidfd)
    obtain r2 v where check: "matches_running_process i u = (r2, v)" by fastforce
    have sig_v: "signals v = signals s"
      using preservesD [OF no_signal_matches(1) check] sig_u by (simp add: no_signal_def)
    consider e where "r2 = Inl e" | "r2 = Ok False" | "r2 = Ok True"
      by (cases r2) auto
    then show ?thesis
    proof cases
      case 1
      with assms(3) open_run Inr check sig_v show ?thesis
        by (auto simp: send_signal_checked_def bnd_def is_current_def split: option.splits)
    next
      case 2
      with assms(3) open_run Inr check have "r = Ok False" "t = v"
        by (auto simp: send_signal_checked_def bnd_def is_current_def ret_def split: option.splits)
      with sig_v matches_false [of i u v] check 2 older_u show ?thesis by simp
    next
      case 3
      with check never_checked_after_absent [of i u v] older_u u Inr assms(1)
      obtain fd where fd: "pidfd = Some fd" by (cases pidfd) auto
      obtain r3 w where send: "sys_pidfd_send fd sig v = (r3, w)" by fastforce
      note w = pidfd_send_result [OF send]
      from checked_after_open [OF assms(2), of fd u v] open_run Inr fd check 3
      obtain p where p: "names i s p" "p_stamp p = snd fd" "fst fd = pi_pid i" by auto
      have su: "evolves s u" using u evolves_before by simp
      have sv: "evolves s v" by (rule evolves_trans [OF su preservesD [OF evolves_matches(1) check]])
      have "evolves s w" using evolves_trans [OF sv] w by blast
      have receiver: "intended i s p" if "\<exists>q. procs w (fst fd) = Some q \<and> p_stamp q = snd fd"
        using that receiver_intended [OF p(1) sv, of w] w p(2,3) matches_true(2) [of i u v]
          check 3 evolvesD(6) [OF su] by auto
      note \<open>evolves s w\<close>
      then have gone: "\<not> alive i w" if "\<forall>q. procs w (fst fd) = Some q \<longrightarrow> p_stamp q \<noteq> snd fd"
        using that names_back [of s w i] assms(2) p
        by (fastforce simp: alive_def names_def same_process_def)
      show ?thesis
        using assms(3) open_run Inr check 3 fd send w p sig_v gone receiver
        by (auto simp: send_signal_checked_def bnd_def attempt_def ret_def signal_outcome_def fail_def
            split: sum.splits if_splits)
    qed
  qed
qed

text \<open>Identity-checked signals reach the recorded process or nobody: on a kernel with process
  descriptors and for an identity recorded in an earlier clock tick, whatever processes exit, start
  and reuse the number while the function runs, either exactly one signal was delivered, the result is
  \<open>Ok(true)\<close> and the receiver is the process that had the recorded number, start time and boot when the
  function was called, and the recorded executable if the system shows it, or nothing was delivered and the result is not
  \<open>Ok(true)\<close>; and \<open>Ok(false)\<close> means that the process is gone.\<close>

theorem signal_reaches_recorded_process:
  assumes "has_pidfd s" and "older i s" and "send_signal_checked i sig s = (r, t)"
  shows "(r = Ok True \<and> (\<exists>p. intended i s p
        \<and> signals t = signals s @ [(p_stamp p, sig)]))
    \<or> (r \<noteq> Ok True \<and> signals t = signals s \<and> (r = Ok False \<longrightarrow> \<not> alive i t))"
  using assms by (rule send_signal_result)

section \<open>Waiting and stopping\<close>

lemma evolves_exited: "preserves evolves (exited i)" and no_signal_exited: "preserves no_signal (exited i)"
  unfolding exited_def
  by (intro evolves.combinators evolves_matches) (intro no_signal.combinators no_signal_matches)

lemma wait_for_exit_frame:
  "preserves evolves (wait_for_exit i d)" "preserves no_signal (wait_for_exit i d)"
  unfolding wait_for_exit_def
  by (intro evolves.combinators evolves.poll evolves_exited evolves_calls)
    (intro no_signal.combinators no_signal.poll no_signal_exited no_signal_reads)

text \<open>A turn of the polling loop takes at least its sleep, so the turns suffice.\<close>

lemma poll_turns:
  assumes "preserves evolves step" and "poll w n step d s = (Ok None, t)" and "0 < n"
  shows "clock s + w * (n - 1) < d"
  using assms(2,3)
proof (induction n arbitrary: s)
  case (Suc n)
  from Suc.prems obtain r u where step: "step s = (Ok r, u)"
    by (auto simp: bnd_def split: prod.splits sum.splits)
  with Suc.prems obtain v z where
    now: "sys_now u = (Ok (clock v), v)" and sleep: "sys_sleep w v = (Ok (), z)" and
    rest: "poll w n step d z = (Ok None, t)" and before: "clock v < d"
    by (auto simp: bnd_def thn_def ret_def sys_now_def Let_def
        split: prod.splits sum.splits if_splits option.splits)
  have "clock s \<le> clock v"
    using evolvesD(1) [OF preservesD [OF assms(1) step]] evolvesD(1) [OF preservesD [OF evolves_calls(7) now]]
    by simp
  moreover have "clock v + w \<le> clock z"
    using sleep evolvesD(1) [OF evolves_before, of v] by (auto simp: sys_sleep_def Let_def)
  ultimately show ?case
    using Suc.IH [OF rest] before by (cases n) auto
qed simp

lemma poll_every_returns:
  assumes "preserves evolves step" and "0 < w"
  shows "poll_every w step timeout s \<noteq> (Ok None, t)"
proof
  assume "poll_every w step timeout s = (Ok None, t)"
  then obtain u where "poll w (timeout div w + 2) step (clock u + timeout) u = (Ok None, t)"
    by (auto simp: poll_every_def bnd_def sys_now_def Let_def)
  from poll_turns [OF assms(1) this] have "w * (timeout div w + 1) < timeout" by simp
  moreover have "timeout < w * (timeout div w + 1)"
    using dividend_less_div_times [OF assms(2), of timeout] by (simp add: mult.commute)
  ultimately show False by simp
qed

lemmas poll_until_returns = poll_every_returns [of _ 50, folded poll_until_def, simplified]

lemma wait_for_exit_returns: "wait_for_exit i d s \<noteq> (Ok None, t)"
  using poll_until_returns [OF evolves_exited]
  by (auto simp: wait_for_exit_def bnd_def ret_def split: prod.splits sum.splits)

lemma wait_for_exit_gone:
  assumes "wait_for_exit i d s = (Ok (Some True), t)" and "older i s"
  shows "\<not> alive i t"
proof -
  from assms(1) have "poll_until (exited i) d s = (Ok (Some (Some ())), t)"
    by (auto simp: wait_for_exit_def bnd_def ret_def split: prod.splits sum.splits)
  from evolves.poll_until_last [OF evolves_exited evolves_calls(7,8) this]
  obtain u where "evolves s u" "exited i u = (Ok (Some ()), t)" by blast
  then show ?thesis
    using matches_false [of i u t] older_mono [OF assms(2)]
    by (auto simp: exited_def is_current_def bnd_def ret_def split: prod.splits sum.splits if_splits)
qed

text \<open>What was delivered between two states went to the process that had the identity at the first.\<close>

definition delivered :: "process_identity \<Rightarrow> nat list \<Rightarrow> os \<Rightarrow> os \<Rightarrow> bool" where
  "delivered i gs s t =
     (evolves s t \<and> (\<exists>stamp. signals t = signals s @ map (Pair stamp) gs
        \<and> (gs \<noteq> [] \<longrightarrow> (\<exists>p. intended i s p \<and> p_stamp p = stamp))))"

lemma delivered_send:
  assumes "has_pidfd s" and "older i s" and "send_signal_checked i sig s = (r, t)"
  shows "delivered i (if r = Ok True then [sig] else []) s t" and "r = Ok False \<Longrightarrow> \<not> alive i t"
  using send_signal_result [OF assms] preservesD [OF evolves_send assms(3)]
  by (auto simp: delivered_def)

lemma delivered_none: "evolves s t \<Longrightarrow> no_signal s t \<Longrightarrow> delivered i [] s t"
  by (simp add: delivered_def no_signal_def)

lemma delivered_append:
  assumes "older i s" and "delivered i gs s t" and "delivered i hs t u"
  shows "delivered i (gs @ hs) s u"
proof -
  obtain x y where x: "signals t = signals s @ map (Pair x) gs" "gs \<noteq> [] \<longrightarrow> (\<exists>p. intended i s p \<and> p_stamp p = x)"
    and y: "signals u = signals t @ map (Pair y) hs" "hs \<noteq> [] \<longrightarrow> (\<exists>p. intended i t p \<and> p_stamp p = y)"
    and e: "evolves s t" "evolves t u"
    using assms(2,3) unfolding delivered_def by blast
  have earlier: "\<exists>p. intended i s p \<and> p_stamp p = y" if "hs \<noteq> []"
    using y(2) that intended_back [OF e(1) assms(1)] by fastforce
  have "x = y" if "gs \<noteq> []" "hs \<noteq> []"
    using x(2) earlier that by (auto simp: intended_def names_def)
  then show ?thesis
    unfolding delivered_def using x y earlier evolves_trans [OF e]
    by (cases "gs = []"; cases "hs = []") auto
qed

lemma bnd_cases:
  assumes "bnd m f s = (r, t)"
  obtains (err) e where "m s = (Inl e, t)" "r = Inl e" | (ok) x u where "m s = (Inr x, u)" "f x u = (r, t)"
  using assms by (auto simp: bnd_def split: prod.splits sum.splits)

lemma terminate_result:
  assumes "has_pidfd s" and "older i s" and "terminate i d s = (r, t)"
  shows "(\<exists>gs \<in> {[], [15], [15, 9]}. delivered i gs s t) \<and> (r = Ok () \<longrightarrow> \<not> alive i t)"
proof -
  have step: "has_pidfd v \<and> older i v" if "delivered i gs s v" for gs v
    using that assms(1) older_mono [OF assms(2)] evolvesD(3) [of s v] by (auto simp: delivered_def)
  have wait: "delivered i gs s w" if "delivered i gs s v" "wait_for_exit i k v = (x, w)" for gs v w x k
    using delivered_append [OF assms(2) that(1) delivered_none, of w]
      preservesD [OF wait_for_exit_frame(1) that(2)] preservesD [OF wait_for_exit_frame(2) that(2)] by simp
  from assms(3) show ?thesis
    unfolding terminate_def
  proof (cases rule: bnd_cases)
    case (err e)
    with delivered_send(1) [OF assms(1,2) err(1)] show ?thesis by auto
  next
    case (ok sent u)
    note u = delivered_send [OF assms(1,2) ok(1)]
    show ?thesis
    proof (cases sent)
      case False
      with ok(2) u show ?thesis by (auto simp: ret_def)
    next
      case True
      then have d15: "delivered i [15] s u" using u(1) by simp
      from ok(2) True have "bnd (wait_for_exit i d) (\<lambda>gone. if gone = Some True then ret ()
          else bnd (send_signal_checked i 9) (\<lambda>killed.
            io_ensure killed ''managed process changed identity before SIGKILL''
              (bnd (wait_for_exit i 2000) (\<lambda>dead.
                io_ensure (dead = Some True) ''process did not exit after SIGKILL'' (ret ()))))) u = (r, t)"
        by simp
      then show ?thesis
      proof (cases rule: bnd_cases)
        case (err e)
        with wait [OF d15 err(1)] show ?thesis by auto
      next
        case (ok gone v)
        note v = wait [OF d15 ok(1)]
        show ?thesis
        proof (cases "gone = Some True")
          case True
          with ok v wait_for_exit_gone step [OF d15] show ?thesis by (auto simp: ret_def)
        next
          case False
          from ok(2) False have "bnd (send_signal_checked i 9) (\<lambda>killed.
              io_ensure killed ''managed process changed identity before SIGKILL''
                (bnd (wait_for_exit i 2000) (\<lambda>dead.
                  io_ensure (dead = Some True) ''process did not exit after SIGKILL'' (ret ())))) v = (r, t)"
            by simp
          then show ?thesis
          proof (cases rule: bnd_cases)
            case (err e)
            with delivered_append [OF assms(2) v delivered_send(1), OF _ _ err(1)] step [OF v]
            show ?thesis by auto
          next
            case (ok killed w)
            note w = delivered_append [OF assms(2) v delivered_send(1), OF _ _ ok(1)] step [OF v]
            have r: "(\<not> killed \<and> t = w \<and> r \<noteq> Ok ())
              \<or> (killed \<and> (\<exists>x y. wait_for_exit i 2000 w = (x, y) \<and> t = y \<and> (r = Ok () \<longrightarrow> x = Ok (Some True))))"
              using ok(2) by (auto simp: io_ensure_def fail_def bnd_def ret_def split: if_splits prod.splits sum.splits)
            then show ?thesis
            proof (elim disjE conjE exE)
              assume "\<not> killed" "t = w" "r \<noteq> Ok ()"
              with w show ?thesis by simp
            next
              fix x y assume k: "killed" "wait_for_exit i 2000 w = (x, y)" "t = y"
                "r = Ok () \<longrightarrow> x = Ok (Some True)"
              with w have d: "delivered i [15, 9] s w" by simp
              with wait [OF d k(2)] k step [OF d] wait_for_exit_gone show ?thesis by auto
            qed
          qed
        qed
      qed
    qed
  qed
qed

text \<open>C1: Stopping a helper touches no other process and reports truthfully. On a kernel with process descriptors
  (\<open>has_pidfd\<close>; without them the code can only signal a number) and for an identity that was recorded in
  an earlier tick of the clock, \<open>terminate\<close> delivers nothing, \<open>SIGTERM\<close>, or \<open>SIGTERM\<close> and then \<open>SIGKILL\<close>,
  all to one process: the one that had the recorded number and start time in the recorded boot when it was
  called, and ran the recorded executable, if the system shows its executable; also when the number is
  reused while it waits. It returns \<open>Ok\<close> only when that process no longer runs.\<close>

theorem terminate_stops_only_recorded:
  assumes "has_pidfd s" and "older i s" and "terminate i d s = (r, t)"
  shows "(\<exists>stamp. \<exists>gs \<in> {[], [15], [15, 9]}. signals t = signals s @ map (Pair stamp) gs
        \<and> (gs = [] \<or> (\<exists>p. procs s (pi_pid i) = Some p \<and> p_stamp p = stamp
             \<and> p_start p = pi_start_time_ticks i \<and> str_trim (boot_id s) = pi_boot_id i
             \<and> (numbered s \<and> candid s \<and> p_dumpable p \<longrightarrow>
                   p_exe_dev p = pi_executable_device i \<and> p_exe_ino p = pi_executable_inode i))))
    \<and> (r = Ok () \<longrightarrow> \<not> alive i t)"
  using terminate_result [OF assms] unfolding delivered_def intended_def names_def runs_recorded_def by blast

section \<open>Concrete runs\<close>

text \<open>A system with one running helper, recorded 10 s ago.\<close>

definition demo_process :: process where
  "demo_process = \<lparr>p_stamp = 3, p_start = 5, p_comm = ''passt'', p_state = PSleeping,
     p_exe = [''bin'', ''passt''], p_exe_dev = 1, p_exe_ino = 9, p_dumpable = True\<rparr>"

definition demo_identity :: process_identity where
  "demo_identity = \<lparr>pi_pid = 7, pi_boot_id = ''b'', pi_start_time_ticks = 5,
     pi_executable = [''bin'', ''passt''], pi_executable_device = 1, pi_executable_inode = 9\<rparr>"

definition demo_procs :: os where
  "demo_procs = (demo_os (\<lambda>_. None))\<lparr>procs := [7 \<mapsto> demo_process], next_stamp := 4, clock := 10000\<rparr>"

lemma stat_ascii: "is_ascii (p_comm p) \<Longrightarrow> valid_utf8 (stat_text pid p)"
proof (rule valid_utf8_ascii)
  have "byte c < 128" if "c \<in> set (decimal n)" for c n
    using decimal_digits [OF that] by (simp add: is_ascii_digit_def)
  then show "is_ascii (p_comm p) \<Longrightarrow> is_ascii (stat_text pid p)"
    by (auto simp: is_ascii_def stat_text_def newline_def state_letter_graphic)
qed

lemma demo_stat: "valid_utf8 (stat_text pid demo_process)"
  "valid_utf8 (stat_text pid (demo_process\<lparr>p_state := PZombie\<rparr>))"
  by (rule stat_ascii; simp add: demo_process_def is_ascii_def)+

lemma trim_demo_boot: "str_trim [CHR ''b'', CHR 0x0A] = ''b''"
  using of_chars_bytes [of "''b''"]
  by (simp add: str_trim_def str_chars_ascii is_ascii_def is_whitespace_def)

lemma demo_matches: "matches_running_process demo_identity demo_procs = (Ok True, demo_procs)"
  using demo_stat [of 7]
  by (simp add: matches_running_process_def matches_stat_def matches_executable_def read_boot_id_def
      sys_proc_stat_def sys_proc_exe_def sys_boot_id_def demo_procs_def demo_os_def demo_identity_def
      io_run parse_stat_text trim_demo_boot) (simp add: demo_process_def)

lemma demo_signal: "send_signal_checked demo_identity sig demo_procs = (Ok True, deliver 3 sig demo_procs)"
proof -
  have "pidfd_open 7 demo_procs = (Ok (Some (7, 3)), demo_procs)"
    by (simp add: pidfd_open_def sys_pidfd_open_def io_run demo_procs_def demo_os_def demo_process_def)
  moreover have "sys_pidfd_send (7, 3) sig demo_procs = (Ok (), deliver 3 sig demo_procs)"
    by (simp add: sys_pidfd_send_def demo_procs_def demo_os_def demo_process_def)
  ultimately show ?thesis
    using demo_matches
    by (simp add: send_signal_checked_def bnd_def attempt_def ret_def signal_outcome_def
        demo_identity_def)
qed

theorem signal_reaches_recorded_process_witness:
  "\<exists>t. send_signal_checked demo_identity 15 demo_procs = (Ok True, t)
     \<and> (\<exists>p. intended demo_identity demo_procs p \<and> signals t = signals demo_procs @ [(p_stamp p, 15)])"
proof -
  have "has_pidfd demo_procs" "older demo_identity demo_procs"
    by (simp_all add: demo_procs_def demo_os_def older_def demo_identity_def)
  from signal_reaches_recorded_process [OF this demo_signal [of 15]] show ?thesis
    using demo_signal [of 15] by blast
qed

theorem terminate_stops_only_recorded_witness:
  "\<exists>gs \<in> {[], [15], [15, 9]}.
     signals (snd (terminate demo_identity 3000 demo_procs)) = signals demo_procs @ map (Pair 3) gs"
proof -
  obtain r t where run: "terminate demo_identity 3000 demo_procs = (r, t)" by fastforce
  have "has_pidfd demo_procs" "older demo_identity demo_procs"
    by (simp_all add: demo_procs_def demo_os_def older_def demo_identity_def)
  from terminate_stops_only_recorded [OF this run]
  obtain stamp gs where gs: "gs \<in> {[], [15], [15, 9]}" "signals t = signals demo_procs @ map (Pair stamp) gs"
    "gs = [] \<or> (\<exists>p. procs demo_procs (pi_pid demo_identity) = Some p \<and> p_stamp p = stamp)" by blast
  then have "gs = [] \<or> stamp = 3" by (auto simp: demo_procs_def demo_identity_def demo_process_def)
  with gs(1,2) run show ?thesis by auto
qed

text \<open>
  A child that ends between the check that it runs and the signal: it is a zombie then, which
  \<open>send_signal_checked\<close> reports as gone, and \<open>terminate_spawned\<close> fails although nothing is left to stop.
\<close>

definition exit_race :: os where
  "exit_race = demo_procs\<lparr>sched := [idle_slot, idle_slot\<lparr>sl_events := [Zombie 7]\<rparr>]\<rparr>"

text \<open>The check of a started child and its signal are two steps: a child that exits between them is an
  unreaped zombie, which has the recorded identity no more, and \<open>terminate_spawned\<close> reports a changed
  identity instead of having stopped it.\<close>

theorem terminate_spawned_exit_race:
  "fst (terminate_spawned \<lparr>sp_child = (7, 3), sp_identity = demo_identity\<rparr> 3000 exit_race)
     = Inl (Bail ''spawned process changed identity before SIGTERM'')"
proof -
  let ?z = "demo_procs\<lparr>procs := [7 \<mapsto> demo_process\<lparr>p_state := PZombie\<rparr>]\<rparr>"
  have wait: "sys_try_wait (7, 3) exit_race = (Ok False, demo_procs\<lparr>sched := [idle_slot\<lparr>sl_events := [Zombie 7]\<rparr>]\<rparr>)"
    by (simp add: sys_try_wait_def exit_race_def syscall_def next_slot_def before_call_def idle_slot_def
        demo_procs_def demo_process_def)
  have opened: "pidfd_open 7 (demo_procs\<lparr>sched := [idle_slot\<lparr>sl_events := [Zombie 7]\<rparr>]\<rparr>) = (Ok (Some (7, 3)), ?z)"
    by (simp add: pidfd_open_def sys_pidfd_open_def bnd_def attempt_def syscall_def next_slot_def
        before_call_def idle_slot_def demo_procs_def demo_process_def demo_os_def ret_def)
  have "matches_running_process demo_identity ?z = (Ok False, ?z)"
  proof -
    show ?thesis
      using demo_stat(2) [of 7]
      by (simp add: matches_running_process_def matches_stat_def read_boot_id_def
          sys_proc_stat_def sys_boot_id_def demo_procs_def demo_os_def demo_identity_def
          io_run parse_stat_text trim_demo_boot) (simp add: demo_process_def)
  qed
  with wait opened show ?thesis
    by (simp add: terminate_spawned_def send_signal_checked_def bnd_def ret_def io_ensure_def fail_def
        demo_identity_def)
qed

end
