(* ===== verification/GuestClient.thy ===== *)
theory GuestClient
  imports TerminalStream ProcessFacts
begin

text \<open>
  The host's side of a connection to a guest (\<open>crates/spawnr/src/guest.rs\<close>): the handshake with Cloud
  Hypervisor's virtual socket, one request with its response, waiting until a guest is healthy, and an
  interactive session. What the peer sends on a connection, given what it was sent, is a parameter
  (an expired deadline is an error of it), as are \<open>serde_json\<close> and the terminal.
\<close>

record guest_peer =
  gp_answer :: "path \<Rightarrow> string \<Rightarrow> os \<Rightarrow> string result"
  gp_request :: "request \<Rightarrow> string"
  gp_response :: "string \<Rightarrow> response option"

section \<open>The handshake\<close>

definition hello :: string where
  "hello = ''CONNECT '' @ decimal CONTROL_PORT @ [CHR 0x0A]"

text \<open>At most 128 bytes, one at a time, up to and including the first newline.\<close>

fun read_reply :: "nat \<Rightarrow> string \<Rightarrow> string \<Rightarrow> (string \<times> string) result" where
  "read_reply 0 reply inp = Ok (reply, inp)"
| "read_reply (Suc n) reply [] = Inl (Io EUNEXPECTEDEOF)"
| "read_reply (Suc n) reply (b # inp) =
     (if b = CHR 0x0A then Ok (reply @ [b], inp) else read_reply n (reply @ [b]) inp)"

text \<open>The bytes the peer sends after the handshake.\<close>

definition connect_hybrid_vsock :: "string \<Rightarrow> string result" where
  "connect_hybrid_vsock inp =
     rbind (read_reply 128 [] inp) (\<lambda>(reply, rest).
     ensure (valid_utf8 reply) ''vsock returned non-UTF-8 handshake''
     (ensure (starts_with ''OK '' reply \<and> ends_with [CHR 0x0A] reply) ''vsock rejected port connection''
       (Ok rest)))"

section \<open>Requests\<close>

definition exchange :: "guest_peer \<Rightarrow> path \<Rightarrow> request \<Rightarrow> os \<Rightarrow> response result" where
  "exchange g sock req s =
     (let framed = write_json (gp_request g) req;
          sent = hello @ (case framed of Inr d \<Rightarrow> d | Inl _ \<Rightarrow> [])
      in rbind (gp_answer g sock sent s) (\<lambda>inp.
         rbind (connect_hybrid_vsock inp) (\<lambda>rest.
         rbind framed (\<lambda>_.
         rbind (read_json (gp_response g) rest) (\<lambda>(v, _). Ok v)))))"

definition request_timeout :: "guest_peer \<Rightarrow> path \<Rightarrow> request \<Rightarrow> response io" where
  "request_timeout g sock req = syscall (\<lambda>s. (exchange g sock req s, s))"

text \<open>
  \<open>wait_healthy\<close>: \<open>None\<close> would be out of turns, which \<open>healthy_loop_ends\<close> excludes; the last error is what is
  reported when the deadline has passed.
\<close>

fun healthy_loop :: "nat \<Rightarrow> guest_peer \<Rightarrow> path \<Rightarrow> nat \<Rightarrow> err \<Rightarrow> unit result option io" where
  "healthy_loop 0 g sock deadline last_error = ret None"
| "healthy_loop (Suc n) g sock deadline last_error =
     bnd sys_now (\<lambda>now.
       if deadline \<le> now then ret (Some (Inl last_error))
       else bnd (attempt (request_timeout g sock Health)) (\<lambda>r.
         case r of
           Inr (HealthReply _ _ _) \<Rightarrow> ret (Some (Ok ()))
         | Inr _ \<Rightarrow> thn (sys_sleep 100) (healthy_loop n g sock deadline (Bail ''unexpected response''))
         | Inl e \<Rightarrow> thn (sys_sleep 100) (healthy_loop n g sock deadline e)))"

definition wait_healthy :: "guest_peer \<Rightarrow> path \<Rightarrow> nat \<Rightarrow> unit io" where
  "wait_healthy g sock timeout =
     bnd sys_now (\<lambda>now.
     bnd (healthy_loop (timeout div 100 + 2) g sock (now + timeout) (Bail ''guest did not answer'')) (\<lambda>r.
       case r of None \<Rightarrow> fail Hangs | Some res \<Rightarrow> lift_r res))"

section \<open>Interactive sessions\<close>

text \<open>The exit status and what the host's terminal was given on its two outputs.\<close>

definition session_ready :: "response \<Rightarrow> unit result" where
  "session_ready r =
     (case r of
        ExecReady \<Rightarrow> Ok ()
      | ErrorReply m \<Rightarrow> bail ''guest refused interactive session''
      | _ \<Rightarrow> bail ''guest returned an unexpected response'')"

definition interactive_wire :: "guest_peer \<Rightarrow> path \<Rightarrow> request \<Rightarrow> os \<Rightarrow> string result" where
  "interactive_wire g sock req s =
     (let framed = write_json (gp_request g) req;
          sent = hello @ (case framed of Inr d \<Rightarrow> d | Inl _ \<Rightarrow> [])
      in rbind (gp_answer g sock sent s) (\<lambda>inp.
         rbind (connect_hybrid_vsock inp) (\<lambda>rest.
         rbind framed (\<lambda>_.
         rbind (read_json (gp_response g) rest) (\<lambda>(v, wire).
         rbind (session_ready v) (\<lambda>_. Ok wire))))))"

definition interactive_exec :: "guest_peer \<Rightarrow> path \<Rightarrow> request \<Rightarrow> (int \<times> string \<times> string) io" where
  "interactive_exec g sock req =
     bnd (syscall (\<lambda>s. (interactive_wire g sock req s, s))) (\<lambda>wire.
       case host_loop wire [] [] of
         (Inl e, _) \<Rightarrow> fail e
       | (Inr code, shown) \<Rightarrow> ret (code, shown))"

section \<open>Facts\<close>

lemma read_reply_line:
  "read_reply n reply inp = Ok (line, rest) \<Longrightarrow> CHR 0x0A \<notin> set reply \<Longrightarrow>
     (\<exists>x. line = reply @ x \<and> inp = x @ rest \<and> length x \<le> n
        \<and> (if CHR 0x0A \<in> set line then \<exists>y. line = y @ [CHR 0x0A] \<and> CHR 0x0A \<notin> set y else length x = n))"
proof (induction n reply inp rule: read_reply.induct)
  case (3 n reply b inp)
  show ?case
  proof (cases "b = CHR 0x0A")
    case True
    with "3.prems" show ?thesis by auto
  next
    case False
    with "3.prems" "3.IH" obtain x where "line = (reply @ [b]) @ x" "inp = x @ rest" "length x \<le> n"
        "if CHR 0x0A \<in> set line then \<exists>y. line = y @ [CHR 0x0A] \<and> CHR 0x0A \<notin> set y else length x = n"
      by auto
    then show ?thesis by (intro exI [where x = "b # x"]) auto
  qed
qed auto

lemma read_reply_finds:
  "CHR 0x0A \<notin> set x \<Longrightarrow> length x < n \<Longrightarrow>
     read_reply n reply (x @ [CHR 0x0A] @ rest) = Ok (reply @ x @ [CHR 0x0A], rest)"
proof (induction x arbitrary: n reply)
  case Nil
  then show ?case by (cases n) simp_all
next
  case (Cons b x)
  then show ?case by (cases n) auto
qed

text \<open>C17: The handshake takes exactly the line of Cloud Hypervisor and leaves every byte of the guest's answer:
  it succeeds exactly on a line that starts with \<open>OK \<close>, is UTF-8 and ends with a newline within 128
  bytes, and what follows that line is what the response is read from.\<close>

theorem handshake_exact:
  "connect_hybrid_vsock inp = Ok rest \<longleftrightarrow>
     (\<exists>x. inp = ''OK '' @ x @ [CHR 0x0A] @ rest \<and> CHR 0x0A \<notin> set x \<and> length x \<le> 124
        \<and> valid_utf8 (''OK '' @ x @ [CHR 0x0A]))"
proof
  assume "connect_hybrid_vsock inp = Ok rest"
  then obtain line where line: "read_reply 128 [] inp = Ok (line, rest)" "valid_utf8 line"
      "starts_with ''OK '' line" "ends_with [CHR 0x0A] line"
    by (auto simp: connect_hybrid_vsock_def)
  then have "CHR 0x0A \<in> set line"
    by (cases line rule: rev_cases) (auto simp: ends_with_def)
  with read_reply_line [OF line(1)] obtain y where y: "line = y @ [CHR 0x0A]" "CHR 0x0A \<notin> set y"
      "inp = line @ rest" "length line \<le> 128"
    by auto
  from line(3) y(1) obtain x where x: "line = ''OK '' @ x" by (auto simp: prefix_def)
  with y(1) have "x \<noteq> []" by (cases x rule: rev_cases) auto
  then obtain z where "x = z @ [CHR 0x0A]" using x y(1) by (cases x rule: rev_cases) auto
  with x y line(2) show "\<exists>x. inp = ''OK '' @ x @ [CHR 0x0A] @ rest \<and> CHR 0x0A \<notin> set x \<and> length x \<le> 124
        \<and> valid_utf8 (''OK '' @ x @ [CHR 0x0A])"
    by (intro exI [where x = z]) auto
next
  assume "\<exists>x. inp = ''OK '' @ x @ [CHR 0x0A] @ rest \<and> CHR 0x0A \<notin> set x \<and> length x \<le> 124
        \<and> valid_utf8 (''OK '' @ x @ [CHR 0x0A])"
  then obtain x where x: "inp = (''OK '' @ x) @ [CHR 0x0A] @ rest" "CHR 0x0A \<notin> set (''OK '' @ x)"
      "length (''OK '' @ x) < 128" "valid_utf8 (''OK '' @ x @ [CHR 0x0A])"
    by auto
  from read_reply_finds [OF x(2,3), of "[]" rest] x(1,4) show "connect_hybrid_vsock inp = Ok rest"
    by (simp add: connect_hybrid_vsock_def ends_with_def suffix_def)
qed

lemma evolves_request: "preserves evolves (request_timeout g sock req)"
  unfolding request_timeout_def by (rule evolves.syscall) (simp add: evolves.refl)

lemma healthy_loop_turns:
  "healthy_loop n g sock d e s = (Ok None, t) \<Longrightarrow> 0 < n \<Longrightarrow> clock s + 100 * (n - 1) < d"
proof (induction n arbitrary: s e)
  case (Suc n)
  from Suc.prems obtain u where now: "u = before_call s" "clock u < d"
      and rest: "bnd (attempt (request_timeout g sock Health)) (\<lambda>r.
         case r of
           Inr (HealthReply _ _ _) \<Rightarrow> ret (Some (Ok ()))
         | Inr _ \<Rightarrow> thn (sys_sleep 100) (healthy_loop n g sock d (Bail ''unexpected response''))
         | Inl e \<Rightarrow> thn (sys_sleep 100) (healthy_loop n g sock d e)) u = (Ok None, t)"
    by (auto simp: bnd_Ok sys_now_def Let_def ret_Ok split: if_splits)
  obtain r v where req: "request_timeout g sock Health u = (r, v)" by (cases "request_timeout g sock Health u")
  have "\<exists>e'. thn (sys_sleep 100) (healthy_loop n g sock d e') v = (Ok None, t)"
  proof (cases r)
    case (Inl e')
    with rest req show ?thesis by (auto simp: bnd_def attempt_def)
  next
    case (Inr resp)
    with rest req show ?thesis by (cases resp) (auto simp: bnd_def attempt_def ret_def)
  qed
  then obtain e' where more: "thn (sys_sleep 100) (healthy_loop n g sock d e') v = (Ok None, t)" ..
  from more obtain w where sleep: "w = before_call v\<lparr>clock := clock (before_call v) + 100\<rparr>"
      and loop: "healthy_loop n g sock d e' w = (Ok None, t)"
    by (auto simp: thn_Ok sys_sleep_def Let_def)
  have "clock s \<le> clock u" using now(1) evolvesD(1) [OF evolves_before [of s]] by simp
  moreover have "clock u \<le> clock v" using preservesD [OF evolves_request req] by (rule evolvesD(1))
  moreover have "clock v + 100 \<le> clock w" using sleep evolvesD(1) [OF evolves_before [of v]] by simp
  ultimately show ?case
    using Suc.IH [OF loop] now(2) by (cases n) auto
qed simp

lemma healthy_loop_ends:
  "healthy_loop (timeout div 100 + 2) g sock (clock s + timeout) e s \<noteq> (Ok None, t)"
proof
  assume "healthy_loop (timeout div 100 + 2) g sock (clock s + timeout) e s = (Ok None, t)"
  from healthy_loop_turns [OF this] have "100 * (timeout div 100 + 1) < timeout" by simp
  moreover have "timeout < 100 * (timeout div 100 + 1)"
    using dividend_less_div_times [of 100 timeout] by (simp add: mult.commute)
  ultimately show False by simp
qed

end
