(* ===== verification/OciReference.thy ===== *)
theory OciReference
  imports StateStore
begin

text \<open>
  The values of \<open>crates/spawnr/src/oci.rs\<close> and their checks: references to images, digests, the
  environment an image declares, and the metadata of a prepared environment. \<open>serde_json\<close> gives the
  environment \<open>skopeo\<close> printed; its decoder is a parameter.
\<close>

section \<open>Types and constants\<close>

definition OCI_ENVIRONMENT_BYTES :: nat where "OCI_ENVIRONMENT_BYTES = 32 * 1024 * 1024 * 1024"
definition CACHE_METADATA :: string where "CACHE_METADATA = ''spawnr-environment.json''"
definition CACHE_DISK :: string where "CACHE_DISK = ''environment.raw''"
definition MAX_GUEST_ENVIRONMENT_ITEMS :: nat where "MAX_GUEST_ENVIRONMENT_ITEMS = 512"
definition MAX_GUEST_ENVIRONMENT_BYTES :: nat where "MAX_GUEST_ENVIRONMENT_BYTES = 1024 * 1024"
definition MAX_GUEST_ENVIRONMENT_JSON_BYTES :: nat where
  "MAX_GUEST_ENVIRONMENT_JSON_BYTES = 8 * 1024 * 1024"
definition MAX_SUBPROCESS_DIAGNOSTIC_BYTES :: nat where
  "MAX_SUBPROCESS_DIAGNOSTIC_BYTES = 1024 * 1024"
definition INTEGRATION_CACHE_SCHEMA :: string where
  "INTEGRATION_CACHE_SCHEMA = ''spawnr-guest-integration-v3''"

record prepared_metadata =
  pm_source_reference :: string
  pm_source_digest :: string
  pm_cache_key :: string
  pm_architecture :: string
  pm_os :: string
  pm_config_env :: "string list option"

section \<open>Digests\<close>

definition ensure_hex_digest :: "string \<Rightarrow> unit result" where
  "ensure_hex_digest v =
     ensure (length v = 64 \<and> list_all is_ascii_hexdigit v) ''invalid sha256 digest'' (Ok ())"

definition ensure_manifest_digest :: "string \<Rightarrow> unit result" where
  "ensure_manifest_digest v =
     some_or (strip_prefix ''sha256:'' v) ''OCI manifest digest does not use sha256'' ensure_hex_digest"

section \<open>References\<close>

definition FORBIDDEN_LOCAL_TRANSPORTS :: "string list" where
  "FORBIDDEN_LOCAL_TRANSPORTS =
     [''docker-daemon:'', ''containers-storage:'', ''dir:'', ''tarball:'', ''ostree:'']"

definition normalize_reference :: "string \<Rightarrow> string result" where
  "normalize_reference reference =
     ensure (reference \<noteq> [] \<and> \<not> starts_with ''-'' reference
         \<and> \<not> list_ex (\<lambda>c. c \<in> {CHR 0x0A, CHR 0x0D, CHR 0x00}) reference
         \<and> \<not> list_ex is_whitespace (str_chars reference)) ''invalid OCI reference''
     (ensure (\<not> list_ex (\<lambda>transport. starts_with transport reference) FORBIDDEN_LOCAL_TRANSPORTS)
       ''unsupported OCI transport; Spawnr never uses a container daemon''
     (if starts_with ''docker://'' reference \<or> starts_with ''oci:'' reference then Ok reference
      else ensure (\<not> str_contains ''://'' reference) ''unsupported OCI transport''
        (Ok (''docker://'' @ reference))))"

definition normalize_source_reference :: "string \<Rightarrow> string result" where
  "normalize_source_reference reference =
     normalize_reference (if reference = ''ubuntu'' then ''docker.io/library/ubuntu:24.04'' else reference)"

definition normalize_destination_reference :: "string \<Rightarrow> string result" where
  "normalize_destination_reference reference = normalize_reference reference"

text \<open>
  The name without its tag: the text before the last colon, where no slash comes after that colon (which
  would make it the port of the registry).
\<close>

definition without_tag :: "string \<Rightarrow> string" where
  "without_tag name =
     (case rsplit_at CHR '':'' name of
        Some (before, after) \<Rightarrow> if CHR ''/'' \<notin> set after then before else name
      | None \<Rightarrow> name)"

definition immutable_pull_reference :: "string \<Rightarrow> string \<Rightarrow> string result" where
  "immutable_pull_reference reference digest =
     ensure (case strip_prefix ''sha256:'' digest of
           None \<Rightarrow> False
         | Some hex \<Rightarrow> length hex = 64 \<and> list_all is_ascii_hexdigit hex)
       ''invalid OCI manifest digest''
     (case strip_prefix ''docker://'' reference of
        None \<Rightarrow> Ok reference
      | Some rest \<Rightarrow>
          (let name = without_tag (hd (split_on (\<lambda>c. c = CHR ''@'') rest))
           in ensure (name \<noteq> []) ''invalid registry OCI reference''
                (Ok (''docker://'' @ name @ ''@'' @ digest))))"

section \<open>The environment of an image\<close>

definition environment_entry :: "string \<Rightarrow> unit result" where
  "environment_entry entry =
     some_or (split_once CHR ''='' entry) ''OCI Config.Env entry has no = separator'' (\<lambda>(name, v).
     ensure (name \<noteq> [] \<and> CHR 0x00 \<notin> set name) ''OCI Config.Env entry has an invalid variable name''
     (ensure (CHR 0x00 \<notin> set v) ''OCI Config.Env entry contains NUL'' (Ok ())))"

text \<open>The loop: the bytes so far and the entries left.\<close>

fun environment_entries :: "nat \<Rightarrow> string list \<Rightarrow> unit result" where
  "environment_entries used [] = Ok ()"
| "environment_entries used (entry # rest) =
     some_or (checked_add used (length entry)) ''OCI Config.Env size overflow'' (\<lambda>bytes.
     some_or (checked_add bytes 1) ''OCI Config.Env size overflow'' (\<lambda>used'.
     ensure (used' \<le> MAX_GUEST_ENVIRONMENT_BYTES) ''OCI Config.Env is too large''
     (rbind (environment_entry entry) (\<lambda>_. environment_entries used' rest))))"

definition validate_image_environment :: "string list \<Rightarrow> unit result" where
  "validate_image_environment environment =
     ensure (length environment \<le> MAX_GUEST_ENVIRONMENT_ITEMS) ''OCI Config.Env has too many entries''
       (environment_entries 0 environment)"

text \<open>\<open>serde_json\<close> of an \<open>Option<Vec<String>>\<close>: \<open>null\<close> is \<open>Some None\<close>.\<close>

definition parse_image_environment_json ::
    "(string \<Rightarrow> string list option option) \<Rightarrow> string \<Rightarrow> string list result" where
  "parse_image_environment_json json encoded =
     ensure (length encoded \<le> MAX_GUEST_ENVIRONMENT_JSON_BYTES) ''OCI Config.Env JSON is too large''
     (some_or (json encoded) ''decode OCI Config.Env JSON'' (\<lambda>decoded.
       let environment = (case decoded of Some es \<Rightarrow> es | None \<Rightarrow> [])
       in rbind (validate_image_environment environment) (\<lambda>_. Ok environment)))"

section \<open>The metadata of a prepared environment\<close>

definition validate_prepared_metadata :: "prepared_metadata \<Rightarrow> bool \<Rightarrow> unit result" where
  "validate_prepared_metadata md require_environment =
     rbind (normalize_source_reference (pm_source_reference md)) (\<lambda>_.
     rbind (ensure_manifest_digest (pm_source_digest md)) (\<lambda>_.
     rbind (ensure_hex_digest (pm_cache_key md)) (\<lambda>_.
     ensure (pm_architecture md = ''amd64'' \<and> pm_os md = ''linux'')
       ''cache metadata has unsupported platform''
     (case pm_config_env md of
        Some environment \<Rightarrow> validate_image_environment environment
      | None \<Rightarrow>
          if require_environment then bail ''cache metadata does not contain the OCI Config.Env field''
          else Ok ()))))"

section \<open>Facts: digests\<close>

lemma ensure_hex_digest_Ok [simp]:
  "ensure_hex_digest v = Ok u \<longleftrightarrow> length v = 64 \<and> list_all is_ascii_hexdigit v"
  by (auto simp: ensure_hex_digest_def)

lemma ensure_manifest_digest_Ok:
  "ensure_manifest_digest v = Ok u \<longleftrightarrow>
     (\<exists>hex. v = ''sha256:'' @ hex \<and> length hex = 64 \<and> list_all is_ascii_hexdigit hex)"
  by (auto simp: ensure_manifest_digest_def strip_prefix_def some_or_def prefix_def
      split: option.splits if_splits)

section \<open>Facts: references\<close>

text \<open>
  What \<open>skopeo\<close> may be given: one argument that is no option, over one of two transports, and never a
  container daemon.
\<close>

definition plain_reference :: "string \<Rightarrow> bool" where
  "plain_reference t =
     ((starts_with ''docker://'' t \<or> starts_with ''oci:'' t)
      \<and> \<not> list_ex (\<lambda>transport. starts_with transport t) FORBIDDEN_LOCAL_TRANSPORTS
      \<and> \<not> list_ex is_whitespace (str_chars t) \<and> CHR 0x00 \<notin> set t)"

lemma ascii_scheme: "is_ascii ''docker://''"
  by code_simp

lemma no_whitespace_scheme:
  assumes "\<not> list_ex is_whitespace (str_chars r)"
  shows "\<not> list_ex is_whitespace (str_chars (''docker://'' @ r))"
proof (cases "from_utf8 r")
  case None
  then have "from_utf8 (''docker://'' @ r) = None"
    by (simp only: from_utf8_ascii_append [OF ascii_scheme] option.map)
  then show ?thesis by (simp add: str_chars_def)
next
  case (Some cs)
  then have "str_chars (''docker://'' @ r) = map byte ''docker://'' @ cs"
    by (simp only: str_chars_def from_utf8_ascii_append [OF ascii_scheme] option.map option.case)
  moreover have "\<not> list_ex is_whitespace (map byte ''docker://'')" by code_simp
  ultimately show ?thesis
    using assms Some by (simp add: str_chars_def)
qed

lemma scheme_not_forbidden:
  "\<not> list_ex (\<lambda>transport. starts_with transport (''docker://'' @ r)) FORBIDDEN_LOCAL_TRANSPORTS"
  by (simp add: FORBIDDEN_LOCAL_TRANSPORTS_def)

lemma normalize_reference_result:
  assumes "normalize_reference r = Ok t"
  shows "plain_reference t" and "normalize_reference t = Ok t"
proof -
  have ok: "r \<noteq> []" "\<not> starts_with ''-'' r" "\<not> list_ex (\<lambda>c. c \<in> {CHR 0x0A, CHR 0x0D, CHR 0x00}) r"
      "\<not> list_ex is_whitespace (str_chars r)"
      "\<not> list_ex (\<lambda>transport. starts_with transport r) FORBIDDEN_LOCAL_TRANSPORTS"
    using assms unfolding normalize_reference_def ensure_Inr by blast+
  have t: "t = r \<and> (starts_with ''docker://'' r \<or> starts_with ''oci:'' r) \<or> t = ''docker://'' @ r"
    using assms by (auto simp: normalize_reference_def split: if_splits)
  have nul: "CHR 0x00 \<notin> set r" using ok(3) by (auto simp: list_ex_iff)
  from t have "plain_reference t \<and> normalize_reference t = Ok t"
  proof
    assume "t = r \<and> (starts_with ''docker://'' r \<or> starts_with ''oci:'' r)"
    with assms ok nul show "plain_reference t \<and> normalize_reference t = Ok t"
      by (simp add: plain_reference_def)
  next
    assume t: "t = ''docker://'' @ r"
    have plain: "plain_reference t"
      unfolding plain_reference_def t
      using no_whitespace_scheme [OF ok(4)] scheme_not_forbidden nul by simp
    moreover have "normalize_reference t = Ok t"
      using plain ok(3) unfolding normalize_reference_def plain_reference_def t
      by (simp add: list_ex_iff)
    ultimately show "plain_reference t \<and> normalize_reference t = Ok t" ..
  qed
  then show "plain_reference t" and "normalize_reference t = Ok t" by simp_all
qed


text \<open>The only results of pinning: a name with exactly this digest, or a local layout as it was.\<close>

lemma immutable_pull_reference_shape:
  assumes "immutable_pull_reference r d = Ok p"
  shows "ensure_manifest_digest d = Ok ()"
    and "p = r \<and> \<not> starts_with ''docker://'' r
      \<or> (\<exists>name. p = ''docker://'' @ name @ ''@'' @ d \<and> name \<noteq> [] \<and> CHR ''@'' \<notin> set name
           \<and> prefix (''docker://'' @ name) r)"
proof -
  show "ensure_manifest_digest d = Ok ()"
    using assms by (auto simp: immutable_pull_reference_def ensure_manifest_digest_def split: option.splits)
  show "p = r \<and> \<not> starts_with ''docker://'' r
      \<or> (\<exists>name. p = ''docker://'' @ name @ ''@'' @ d \<and> name \<noteq> [] \<and> CHR ''@'' \<notin> set name
           \<and> prefix (''docker://'' @ name) r)"
  proof (cases "strip_prefix ''docker://'' r")
    case None
    with assms show ?thesis
      by (auto simp: immutable_pull_reference_def strip_prefix_def split: if_splits)
  next
    case (Some rest)
    then have r: "r = ''docker://'' @ rest" by (auto simp: strip_prefix_def prefix_def split: if_splits)
    define first where "first = hd (split_on (\<lambda>c. c = CHR ''@'') rest)"
    have first: "prefix first rest" "CHR ''@'' \<notin> set first"
      by (simp_all add: first_def prefix_hd_split_on hd_split_on_none)
    have tagless: "prefix (without_tag first) first"
      using rsplit_at_Some by (fastforce simp: without_tag_def prefix_def split: option.splits)
    then have "CHR ''@'' \<notin> set (without_tag first)"
      using first(2) set_mono_prefix by blast
    moreover have "prefix (''docker://'' @ without_tag first) r"
      unfolding r using prefix_order.trans [OF tagless first(1)] by simp
    moreover have "without_tag first \<noteq> [] \<and> p = ''docker://'' @ without_tag first @ ''@'' @ d"
      using assms by (simp add: immutable_pull_reference_def Some Let_def first_def [symmetric])
    ultimately show ?thesis by blast
  qed
qed


text \<open>The last segment of a repository, which has no colon: a colon before it is that of a port.\<close>

definition image_name :: "string \<Rightarrow> string" where
  "image_name repo = (case rsplit_at CHR ''/'' repo of Some (_, name) \<Rightarrow> name | None \<Rightarrow> repo)"

lemma without_tag_repository:
  assumes "CHR '':'' \<notin> set (image_name repo)"
  shows "without_tag repo = repo"
    and "CHR ''/'' \<notin> set tag \<Longrightarrow> CHR '':'' \<notin> set tag \<Longrightarrow> without_tag (repo @ CHR '':'' # tag) = repo"
proof -
  have "CHR ''/'' \<in> set b" if "rsplit_at CHR '':'' repo = Some (a, b)" for a b
  proof (rule ccontr)
    assume no_slash: "CHR ''/'' \<notin> set b"
    from that have repo: "repo = a @ CHR '':'' # b" by (simp add: rsplit_at_Some)
    show False
    proof (cases "rsplit_at CHR ''/'' repo")
      case None
      with assms repo show False by (simp add: image_name_def)
    next
      case (Some p)
      obtain u n where p: "p = (u, n)" by (cases p)
      with Some have eq: "a @ CHR '':'' # b = u @ CHR ''/'' # n" using rsplit_at_Some repo by blast
      have "CHR '':'' \<notin> set n" using assms Some p by (simp add: image_name_def)
      then show False
        using eq no_slash by (auto simp: append_eq_append_conv2 append_eq_Cons_conv Cons_eq_append_conv)
    qed
  qed
  then show "without_tag repo = repo" by (auto simp: without_tag_def split: option.splits)
  show "CHR ''/'' \<notin> set tag \<Longrightarrow> CHR '':'' \<notin> set tag \<Longrightarrow> without_tag (repo @ CHR '':'' # tag) = repo"
    by (simp add: without_tag_def rsplit_at_append)
qed

lemma immutable_pull_reference_registry:
  assumes "ensure_manifest_digest d = Ok ()" and "repo \<noteq> []" and "CHR ''@'' \<notin> set repo"
    and "CHR '':'' \<notin> set (image_name repo)"
    and "tag = [] \<or> (\<exists>t. tag = CHR '':'' # t \<and> set t \<inter> {CHR ''/'', CHR '':'', CHR ''@''} = {})"
    and "pin = [] \<or> hd pin = CHR ''@''"
  shows "immutable_pull_reference (''docker://'' @ repo @ tag @ pin) d = Ok (''docker://'' @ repo @ ''@'' @ d)"
proof -
  have "hd (split_on (\<lambda>c. c = CHR ''@'') (repo @ tag @ pin)) = repo @ tag"
    unfolding hd_split_on using assms(3,5,6)
    by (cases pin; cases tag) (auto simp: takeWhile_append takeWhile_eq_all_conv)
  moreover have "without_tag (repo @ tag) = repo"
    using assms(5) without_tag_repository [OF assms(4)] by auto
  moreover have "case strip_prefix ''sha256:'' d of None \<Rightarrow> False
         | Some hex \<Rightarrow> length hex = 64 \<and> list_all is_ascii_hexdigit hex"
    using assms(1) by (auto simp: ensure_manifest_digest_def split: option.splits)
  ultimately show ?thesis
    using assms(2) by (simp add: immutable_pull_reference_def strip_prefix_def Let_def)
qed

section \<open>Facts: the environment of an image\<close>

definition entry_fine :: "string \<Rightarrow> bool" where
  "entry_fine e = (\<exists>name v. split_once CHR ''='' e = Some (name, v) \<and> name \<noteq> []
     \<and> CHR 0x00 \<notin> set name \<and> CHR 0x00 \<notin> set v)"

lemma environment_entry_Ok: "environment_entry e = Ok u \<longleftrightarrow> entry_fine e"
  by (auto simp: environment_entry_def entry_fine_def)

lemma environment_entries_Ok:
  "used \<le> MAX_GUEST_ENVIRONMENT_BYTES \<Longrightarrow> environment_entries used es = Ok u \<longleftrightarrow>
     (\<forall>e \<in> set es. entry_fine e) \<and> used + sum_list (map (\<lambda>e. length e + 1) es) \<le> MAX_GUEST_ENVIRONMENT_BYTES"
proof (induction es arbitrary: used)
  case Nil
  then show ?case by simp
next
  case (Cons e es)
  have max: "MAX_GUEST_ENVIRONMENT_BYTES < 2 ^ 64 - 1" by (simp add: MAX_GUEST_ENVIRONMENT_BYTES_def)
  show ?case
  proof (cases "used + length e + 1 \<le> MAX_GUEST_ENVIRONMENT_BYTES")
    case True
    then show ?thesis
      using Cons.IH [of "used + length e + 1"] max by (auto simp: environment_entry_Ok)
  next
    case False
    then show ?thesis by auto
  qed
qed

lemma validate_image_environment_Ok:
  "validate_image_environment es = Ok u \<longleftrightarrow>
     length es \<le> MAX_GUEST_ENVIRONMENT_ITEMS \<and> (\<forall>e \<in> set es. entry_fine e)
     \<and> sum_list (map (\<lambda>e. length e + 1) es) \<le> MAX_GUEST_ENVIRONMENT_BYTES"
  by (simp add: validate_image_environment_def environment_entries_Ok)

end
