(* ===== verification/PidFiles.thy ===== *)
theory PidFiles
  imports ProcessFacts
begin

text \<open>
  The files that record process identities: what \<open>write_pid_file\<close>, \<open>read_pid_file\<close> and
  \<open>remove_pid_file\<close> of \<open>process.rs\<close> do to the file system.
\<close>

section \<open>Writing\<close>

text \<open>After the link both names have the content.\<close>

definition linked :: "path \<Rightarrow> path \<Rightarrow> string \<Rightarrow> os \<Rightarrow> bool" where
  "linked dest tmp c s =
     (dest \<noteq> [] \<and> tmp \<noteq> [] \<and> dest \<noteq> tmp \<and> dest \<notin> listening s \<and> tmp \<notin> listening s
      \<and> fs_get (files s) dest = Some (File c) \<and> fs_get (files s) tmp = Some (File c))"

lemma linked_before [simp]: "linked d t c s \<Longrightarrow> linked d t c (before_call s)"
  by (simp add: linked_def)

text \<open>What an error may leave at \<open>dest\<close>: what it had, or the whole content where nothing was.\<close>

definition committed_or :: "path \<Rightarrow> node option \<Rightarrow> string \<Rightarrow> os \<Rightarrow> bool" where
  "committed_or dest old c s =
     (dest \<notin> listening s \<and> (fs_get (files s) dest = old
        \<or> (old = None \<and> fs_get (files s) dest = Some (File c))))"

lemma triple_link_staged:
  "triple (staged dest tmp old c) (sys_link tmp dest) (\<lambda>_ s. linked dest tmp c s \<and> old = None)
     (\<lambda>_. unstaged dest tmp old)"
  unfolding sys_link_def
proof (rule triple_syscall)
  fix s assume "staged dest tmp old c s"
  then show "staged dest tmp old c (before_call s)" by simp
next
  fix f s assume "staged dest tmp old c s"
  then show "unstaged dest tmp old s" by (rule staged_unstaged)
next
  have "case case files s tmp of None \<Rightarrow> (Inl (Io ENOENT), s)
       | Some e \<Rightarrow> if files s dest \<noteq> None \<or> dest = [] then (Inl (Io EEXIST), s)
         else if \<not> is_dir_at s (butlast dest) then (Inl (Io ENOENT), s)
         else (Ok (), put_entry dest e s) of
       (Inl e, t) \<Rightarrow> unstaged dest tmp old t | (Inr x, t) \<Rightarrow> linked dest tmp c t \<and> old = None"
    if st: "staged dest tmp old c s" for s
  proof -
    from st obtain e where e: "files s tmp = Some e" "e_node e = File c"
      by (auto simp: staged_def fs_get_def)
    then show ?thesis
      using st by (auto simp: staged_def unstaged_def linked_def fs_get_put) (simp add: fs_get_def)
  qed
  then show "triple (staged dest tmp old c)
     (\<lambda>s. case files s tmp of None \<Rightarrow> (Inl (Io ENOENT), s)
       | Some e \<Rightarrow> if files s dest \<noteq> None \<or> dest = [] then (Inl (Io EEXIST), s)
         else if \<not> is_dir_at s (butlast dest) then (Inl (Io ENOENT), s)
         else (Ok (), put_entry dest e s))
     (\<lambda>_ s. linked dest tmp c s \<and> old = None) (\<lambda>_. unstaged dest tmp old)"
    unfolding triple_def by blast
qed

lemma triple_unlink_linked:
  "triple (\<lambda>s. linked dest tmp c s \<and> old = None) (sys_unlink tmp)
     (\<lambda>_ s. replaced dest tmp c s \<and> old = None) (\<lambda>_. committed_or dest old c)"
  unfolding sys_unlink_def
proof (rule triple_syscall)
  show "triple (\<lambda>s. linked dest tmp c s \<and> old = None)
     (\<lambda>s. case entry_at s tmp of None \<Rightarrow> (Inl (Io ENOENT), s)
       | Some e \<Rightarrow> if e_node e = Dir then (Inl (Io (EOTHER 21)), s) else (Ok (), del_entry tmp s))
     (\<lambda>_ s. replaced dest tmp c s \<and> old = None) (\<lambda>_. committed_or dest old c)"
    using entry_at_get by (fastforce simp: triple_def linked_def replaced_def fs_get_del)
qed (auto simp: linked_def committed_or_def)

lemma triple_unlink_committed:
  assumes "dest \<noteq> tmp" and "dest \<noteq> []"
  shows "triple (committed_or dest old c) (sys_unlink tmp) (\<lambda>_. committed_or dest old c)
    (\<lambda>_. committed_or dest old c)"
  unfolding sys_unlink_def
  by (rule triple_syscall) (use assms in \<open>auto simp: triple_def committed_or_def fs_get_del split: option.splits\<close>)

lemma triple_pid_commit:
  "triple (unstaged dest tmp old) (pid_file_commit bytes tmp dest)
     (\<lambda>_ s. replaced dest tmp (bytes @ newline) s \<and> old = None)
     (\<lambda>_. committed_or dest old (bytes @ newline))"
proof -
  let ?c = "bytes @ newline"
  have weak: "triple P m Q (\<lambda>_. committed_or dest old ?c)"
    if "triple P m Q (\<lambda>_. unstaged dest tmp old)" for P m and Q :: "'b \<Rightarrow> os \<Rightarrow> bool"
    using that by (rule triple_conseq) (auto simp: unstaged_def committed_or_def)
  have "triple (\<lambda>s. replaced dest tmp ?c s \<and> old = None) (sync_directory d)
      (\<lambda>_ s. replaced dest tmp ?c s \<and> old = None) (\<lambda>_. committed_or dest old ?c)" for d
    by (rule triple_conseq [OF triple_stable_open [of "\<lambda>s. replaced dest tmp ?c s \<and> old = None"]])
      (auto simp: replaced_def committed_or_def)
  then have sync: "triple (\<lambda>s. replaced dest tmp ?c s \<and> old = None) (sync_parent dest)
      (\<lambda>_ s. replaced dest tmp ?c s \<and> old = None) (\<lambda>_. committed_or dest old ?c)"
    by (cases "parent dest") (auto simp: sync_parent_def triple_def fail_def replaced_def committed_or_def)
  show ?thesis
    unfolding pid_file_commit_def
    by (rule triple_thn [OF weak [OF triple_create_staged]]
          triple_thn [OF weak [OF triple_write_staged]] triple_thn [OF weak [OF triple_nop_staged]]
          triple_thn [OF weak [OF triple_link_staged]])+
      (use triple_thn [OF triple_unlink_linked sync] in simp)
qed

lemma temporary_sibling_neq:
  assumes "p \<noteq> []"
  shows "temporary_sibling p u \<noteq> p" and "temporary_sibling p u \<noteq> []"
proof -
  have "last p \<noteq> file_name p @ x # y" for x y
    using assms by (simp add: file_name_def)
  then show "temporary_sibling p u \<noteq> p" "temporary_sibling p u \<noteq> []"
    using assms by (simp_all add: temporary_sibling_def with_file_name_def snoc_eq_iff_butlast)
qed

lemma outside_sync_parent: "preserves (outside S) (sync_parent p)"
  unfolding sync_parent_def by (intro outside.combinators outside_derived_reads)

lemma outside_ensure_absent: "preserves (outside S) (ensure_absent p)"
  unfolding ensure_absent_def by (intro outside.combinators outside_reads)

text \<open>\<open>ensure_absent\<close> succeeds where nothing is.\<close>

lemma ensure_absent_Ok:
  assumes "ensure_absent p s = (Ok (), t)" and "p \<notin> listening s"
  shows "fs_get (files s) p = None"
proof -
  have "fault_errno f \<noteq> ENOENT" for f by (cases f) simp_all
  with assms(1) have "entry_at (before_call s) p = None"
    by (auto simp: ensure_absent_def sys_lstat_def bnd_def attempt_def syscall_def ret_def fail_def
        split: option.splits if_splits)
  then have "fs_get (files (before_call s)) p = None"
    by (auto simp: entry_at_def fs_get_def split: if_splits)
  with assms(2) show ?thesis by simp
qed

lemma write_pid_file_result:
  assumes "write_pid_file c p i s = (r, t)" and "p \<noteq> []" and "p \<notin> listening s"
    and "\<forall>u. temporary_sibling p u \<notin> listening s"
  shows "(fs_get (files t) p = fs_get (files s) p
      \<or> (fs_get (files s) p = None \<and> fs_get (files t) p = Some (File (enc c i @ newline))))
    \<and> (r = Ok () \<longrightarrow> fs_get (files s) p = None \<and> fs_get (files t) p = Some (File (enc c i @ newline)))
    \<and> (\<exists>u. outside {p, temporary_sibling p u} s t)"
  using assms(1) unfolding write_pid_file_def thn_def
proof (cases rule: bnd_cases)
  case (err e)
  have "outside {} s t" using err(1) by (rule preservesD [OF outside_ensure_absent])
  with err(2) assms(3) outside_mono [of "{}"] show ?thesis by (auto simp: outside_def)
next
  case (ok x v)
  have none: "fs_get (files s) p = None"
    using ensure_absent_Ok [OF _ assms(3)] ok(1) by simp
  have "outside {} s v" using ok(1) by (rule preservesD [OF outside_ensure_absent])
  then have v: "fs_get (files v) p = None" "listening v = listening s" "\<And>S. outside S s v"
    using none assms(3) outside_mono [of "{}" s v] by (auto simp: outside_def)
  let ?tmp = "temporary_sibling p (uuid_src v (uuid_next v))"
  let ?v = "v\<lparr>uuid_next := Suc (uuid_next v)\<rparr>" and ?c = "enc c i @ newline"
  let ?m = "on_error (pid_file_commit (enc c i) ?tmp p) (sys_unlink ?tmp)"
  have run: "?m ?v = (r, t)" using ok(2) by (simp add: bnd_def new_uuid_def Let_def)
  have neq: "p \<noteq> ?tmp" "?tmp \<noteq> []" using temporary_sibling_neq [OF assms(2)] by metis+
  have "triple (unstaged p ?tmp None) ?m (\<lambda>_ s. replaced p ?tmp ?c s \<and> None = (None :: node option))
      (\<lambda>_. committed_or p None ?c)"
    by (rule triple_on_error [OF triple_pid_commit])
      (rule triple_unlink_committed [OF neq(1) assms(2)])
  moreover have "unstaged p ?tmp None ?v"
    using neq assms(2,3,4) v by (simp add: unstaged_def)
  ultimately have "case (r, t) of (Inr x, t) \<Rightarrow> replaced p ?tmp ?c t | (Inl e, t) \<Rightarrow> committed_or p None ?c t"
    unfolding triple_def run [symmetric] by (auto split: prod.splits sum.splits)
  moreover have "preserves (outside {p, ?tmp}) ?m"
    unfolding pid_file_commit_def
    by (intro outside.combinators outside_writes outside_reads outside_derived_reads outside_sync_parent)
      simp_all
  then have "outside {p, ?tmp} ?v t" using run by (rule preservesD)
  then have "outside {p, ?tmp} v t" by (simp add: outside_def)
  then have "\<exists>u. outside {p, temporary_sibling p u} s t" using v(3) outside_trans by blast
  ultimately show ?thesis
    using none by (auto simp: replaced_def committed_or_def split: sum.splits)
qed

section \<open>Reading and removing\<close>

lemma outside_read_pid: "preserves (outside S) (read_pid_file c p)"
proof -
  have "preserves (outside S) (case x of None \<Rightarrow> fail e | Some i \<Rightarrow> io_ensure (f i) m (ret (Some i)))"
    for x :: "process_identity option" and e f m
    by (cases x) (simp_all add: outside.combinators)
  then show ?thesis
    unfolding read_pid_file_def
    by (intro outside.combinators outside_reads outside_derived_reads)
qed

lemma read_pid_file_Ok:
  assumes "read_pid_file c p s = (Ok x, t)" and "p \<notin> listening s"
  shows "(case x of None \<Rightarrow> fs_get (files s) p = None
    | Some i \<Rightarrow> pi_pid i > 0 \<and> (\<exists>d. fs_get (files s) p = Some (File d) \<and> dec c d = Some i))"
proof -
  have same: "fs_get (files u) p = fs_get (files s) p \<and> p \<notin> listening u" if "outside {} s u" for u
    using that assms(2) by (auto simp: outside_def)
  obtain r u where opened: "sys_open_nofollow p s = (r, u)" by fastforce
  have u: "fs_get (files u) p = fs_get (files s) p" "p \<notin> listening u"
    using same preservesD [OF outside_reads(5) opened] by auto
  show ?thesis
  proof (cases r)
    case (Inl e)
    have "fault_errno f \<noteq> ENOENT" for f by (cases f) simp_all
    with Inl opened assms have "x = None" "entry_at u p = None"
      by (auto simp: read_pid_file_def bnd_def attempt_def ret_def fail_def sys_open_nofollow_def
          syscall_def split: if_splits option.splits node.splits)
    with u show ?thesis by (auto simp: fs_get_def entry_at_def split: if_splits)
  next
    case (Inr e)
    from assms(1) opened Inr obtain md v d i where
      md: "sys_fstat p u = (Ok md, v)" and data: "sys_read p v = (Ok d, t)"
      and i: "dec c d = Some i" "pi_pid i > 0" "x = Some i"
      by (auto simp: read_pid_file_def bnd_def attempt_def ret_def fail_def io_ensure_def
          split: prod.splits sum.splits if_splits option.splits)
    have v: "fs_get (files v) p = fs_get (files s) p" "p \<notin> listening v"
      using preservesD [OF outside_derived_reads(4) md, of "{}"] u by (auto simp: outside_def)
    have "fs_get (files (before_call v)) p = Some (File d)"
      using data by (auto simp: sys_read_def syscall_Ok entry_at_def fs_get_def root_entry_def
          split: option.splits node.splits if_splits)
    with v i show ?thesis by simp
  qed
qed

text \<open>Calls that signal nobody: the processes go on.\<close>

definition calm :: "os \<Rightarrow> os \<Rightarrow> bool" where
  "calm s t = (evolves s t \<and> no_signal s t)"

interpretation calm: frame calm
  by unfold_locales (auto simp: calm_def no_signal_def evolves_refl evolves_before intro: evolves_trans)

lemma calmI: "preserves evolves m \<Longrightarrow> preserves no_signal m \<Longrightarrow> preserves calm m"
  by (simp add: preserves_def calm_def)

text \<open>A change of the files only.\<close>

lemma calm_files: "calm s (s\<lparr>files := f\<rparr>)"
  by (simp add: calm_def no_signal_def evolves_eq)

lemma calm_refl: "calm s s"
  by (rule calm.refl)

lemma calm_reads:
  "preserves calm (sys_lstat p)" "preserves calm (sys_fstat p)" "preserves calm (sys_open p)"
  "preserves calm (sys_open_nofollow p)" "preserves calm (sys_read p)" "preserves calm sys_nop"
  "preserves calm (sys_metadata p)" "preserves calm (sys_canonicalize p)" "preserves calm new_uuid"
  "preserves calm sys_now" "preserves calm (sys_sleep n)" "preserves calm (sync_directory p)"
proof -
  show "preserves calm (sys_lstat p)" "preserves calm (sys_fstat p)" "preserves calm (sys_open p)"
    "preserves calm (sys_open_nofollow p)" "preserves calm (sys_read p)" "preserves calm sys_nop"
    "preserves calm (sys_metadata p)" "preserves calm (sys_canonicalize p)"
    unfolding sys_lstat_def sys_fstat_def sys_open_def sys_open_nofollow_def sys_read_def sys_nop_def
      sys_metadata_def sys_canonicalize_def
    by (rule calm.syscall; auto simp: calm_refl ret_def split: option.splits sum.splits node.splits)+
  then show "preserves calm (sync_directory p)"
    unfolding sync_directory_def by (intro calm.combinators)
  show "preserves calm new_uuid"
    by (simp add: preserves_def new_uuid_def calm_def no_signal_def evolves_eq)
  show "preserves calm sys_now" "preserves calm (sys_sleep n)"
    by (intro calmI evolves_calls no_signal_reads)+
qed

lemma calm_writes:
  "preserves calm (sys_create_new p m)" "preserves calm (sys_open_create p m b)"
  "preserves calm (sys_write p d)" "preserves calm (sys_rename p q)" "preserves calm (sys_link p q)"
  "preserves calm (sys_unlink p)" "preserves calm (sys_mkdir p)" "preserves calm (sys_chmod p m)"
proof -
  show "preserves calm (sys_create_new p m)" "preserves calm (sys_open_create p m b)"
    "preserves calm (sys_rename p q)" "preserves calm (sys_link p q)" "preserves calm (sys_unlink p)"
    "preserves calm (sys_mkdir p)" "preserves calm (sys_chmod p m)"
    unfolding sys_create_new_def sys_open_create_def sys_rename_def sys_link_def sys_unlink_def
      sys_mkdir_def sys_chmod_def
    by (rule calm.syscall; auto simp: calm_refl calm_files put_entry_def del_entry_def
          split: option.splits sum.splits node.splits)+
  have "calm u (append_file p d u)" for u d
    by (auto simp: append_file_def put_entry_def calm_refl calm_files split: option.splits node.splits)
  then show "preserves calm (sys_write p d)"
    by (auto simp: preserves_def sys_write_def Let_def calm.before split: option.splits
        intro: calm.trans [OF calm.before])
qed

lemma calm_matches: "preserves calm (matches_running_process i)" "preserves calm (is_current i)"
  and calm_wait: "preserves calm (wait_for_exit i d)"
  by (intro calmI evolves_matches no_signal_matches wait_for_exit_frame)+

lemma calm_read_pid: "preserves calm (read_pid_file c p)"
proof -
  have "preserves calm (case x of None \<Rightarrow> fail e | Some i \<Rightarrow> io_ensure (f i) m (ret (Some i)))"
    for x :: "process_identity option" and e f m
    by (cases x) (simp_all add: calm.combinators)
  then show ?thesis
    unfolding read_pid_file_def by (intro calm.combinators calm_reads)
qed

lemma calm_inspect: "preserves calm (inspect_pid_file c p)"
  unfolding inspect_pid_file_def by (intro calm.combinators calm_read_pid calm_matches)

lemma calm_remove_pid: "preserves calm (remove_pid_file c p e)"
  unfolding remove_pid_file_def sync_parent_def
  by (intro calm.combinators calm_read_pid calm_writes calm_reads)

lemma calm_sync_parent: "preserves calm (sync_parent p)"
  unfolding sync_parent_def by (intro calm.combinators calm_reads)

section \<open>What an inspection has seen\<close>

text \<open>The process calls do not touch files.\<close>

lemma outside_proc_calls:
  "preserves (outside S) (sys_proc_stat pid)" "preserves (outside S) (sys_proc_exe pid)"
  "preserves (outside S) sys_boot_id" "preserves (outside S) (sys_pidfd_open pid)"
  "preserves (outside S) (sys_pidfd_send fd sig)" "preserves (outside S) (sys_kill pid sig)"
  unfolding sys_proc_stat_def sys_proc_exe_def sys_boot_id_def sys_pidfd_open_def sys_pidfd_send_def
    sys_kill_def deliver_def
  by (rule outside.syscall; auto simp: outside_def split: option.splits)+

lemma outside_matches:
  "preserves (outside S) (matches_running_process i)" "preserves (outside S) (is_current i)"
  "preserves (outside S) (wait_for_exit i d)"
proof -
  have "preserves (outside S) (matches_executable i)"
    unfolding matches_executable_def
    by (intro outside.combinators outside_proc_calls) (simp split: prod.splits add: outside.combinators)
  then show "preserves (outside S) (matches_running_process i)"
    unfolding matches_running_process_def matches_stat_def read_boot_id_def
    by (intro outside.combinators outside_proc_calls)
  then show "preserves (outside S) (is_current i)" by (simp add: is_current_def)
  then show "preserves (outside S) (wait_for_exit i d)"
    unfolding wait_for_exit_def exited_def
    by (intro outside.combinators outside.poll outside_reads)
qed

lemma outside_signals:
  "preserves (outside S) (send_signal_checked i sig)" "preserves (outside S) (terminate i d)"
proof -
  show *: "preserves (outside S) (send_signal_checked i sig)" for sig
    unfolding send_signal_checked_def pidfd_open_def signal_outcome_def
    by (intro outside.combinators outside_proc_calls outside_matches)
  show "preserves (outside S) (terminate i d)"
    unfolding terminate_def by (intro outside.combinators * outside_matches)
qed

text \<open>The identity that is recorded in a file, for the decoder \<open>c\<close>.\<close>

definition recorded :: "process_identity codec \<Rightarrow> path \<Rightarrow> os \<Rightarrow> process_identity option" where
  "recorded c p s = (case fs_get (files s) p of Some (File d) \<Rightarrow> dec c d | _ \<Rightarrow> None)"

lemma inspect_pid_file_Ok:
  assumes "inspect_pid_file c p s = (Ok st, t)" and "p \<notin> listening s"
  shows "outside {} s t" and "calm s t"
    and "case st of Missing \<Rightarrow> fs_get (files s) p = None
      | RunningProcess i \<Rightarrow> recorded c p s = Some i
      | StaleProcess i \<Rightarrow> recorded c p s = Some i \<and> (older i s \<longrightarrow> \<not> alive i t)"
proof -
  have "preserves (outside {}) (inspect_pid_file c p)"
    unfolding inspect_pid_file_def by (intro outside.combinators outside_read_pid outside_matches)
  then show "outside {} s t" using assms(1) by (rule preservesD)
  show "calm s t" using preservesD [OF calm_inspect assms(1)] .
  from assms(1) obtain x u where read: "read_pid_file c p s = (Ok x, u)" and
    rest: "(case x of None \<Rightarrow> ret Missing
       | Some i \<Rightarrow> bnd (matches_running_process i) (\<lambda>current.
           ret (if current then RunningProcess i else StaleProcess i))) u = (Ok st, t)"
    by (auto simp: inspect_pid_file_def bnd_def split: prod.splits sum.splits)
  have su: "evolves s u" using preservesD [OF calm_read_pid read] by (simp add: calm_def)
  show "case st of Missing \<Rightarrow> fs_get (files s) p = None
      | RunningProcess i \<Rightarrow> recorded c p s = Some i
      | StaleProcess i \<Rightarrow> recorded c p s = Some i \<and> (older i s \<longrightarrow> \<not> alive i t)"
  proof (cases x)
    case None
    with rest read_pid_file_Ok [OF read assms(2)] show ?thesis by (auto simp: ret_def)
  next
    case (Some i)
    with rest obtain b where "matches_running_process i u = (Ok b, t)"
      "st = (if b then RunningProcess i else StaleProcess i)"
      by (auto simp: bnd_def ret_def split: prod.splits sum.splits)
    with Some read_pid_file_Ok [OF read assms(2)] matches_false [of i u t] older_mono [OF _ su] show ?thesis
      by (auto simp: recorded_def)
  qed
qed

lemma outside_remove_pid: "preserves (outside {p}) (remove_pid_file c p e)"
  unfolding remove_pid_file_def
  by (intro outside.combinators outside_read_pid outside_writes outside_sync_parent) simp

lemma remove_pid_file_result:
  assumes "remove_pid_file c p e s = (r, t)" and "p \<noteq> []" and "p \<notin> listening s"
  shows "(fs_get (files t) p = fs_get (files s) p
      \<or> (recorded c p s = Some e \<and> fs_get (files t) p = None))
    \<and> (r = Ok () \<longrightarrow> fs_get (files t) p = None)"
  using assms(1) unfolding remove_pid_file_def
proof (cases rule: bnd_cases)
  case (err x)
  have "outside {} s t" using err(1) by (rule preservesD [OF outside_read_pid])
  with assms(3) err(2) show ?thesis by (auto simp: outside_def)
next
  case (ok x u)
  have u: "fs_get (files u) p = fs_get (files s) p" "p \<notin> listening u"
    using preservesD [OF outside_read_pid ok(1), of "{}"] assms(3) by (auto simp: outside_def)
  note seen = read_pid_file_Ok [OF ok(1) assms(3)]
  show ?thesis
  proof (cases x)
    case None
    with ok(2) seen u show ?thesis by (auto simp: ret_def)
  next
    case (Some i)
    show ?thesis
    proof (cases "i = e")
      case False
      with Some ok(2) u show ?thesis by (auto simp: io_ensure_def fail_def)
    next
      case True
      with Some seen have rec: "recorded c p s = Some e" by (auto simp: recorded_def)
      from True Some ok(2) have "thn (sys_unlink p) (sync_parent p) u = (r, t)"
        by (simp add: io_ensure_def)
      then have "thn (sys_unlink p) (sync_parent p) u = (r, t)" .
      then have run: "bnd (sys_unlink p) (\<lambda>_. sync_parent p) u = (r, t)" by (simp add: thn_def)
      then show ?thesis
      proof (cases rule: bnd_cases)
        case (err y)
        then have "fs_get (files t) p = fs_get (files u) p"
          using u(2) by (auto simp: sys_unlink_def syscall_def split: option.splits if_splits)
        with u err(2) show ?thesis by simp
      next
        case (ok y v)
        then have v: "fs_get (files v) p = None" "listening v = listening u"
          using assms(2) by (auto simp: sys_unlink_def syscall_Ok fs_get_del split: option.splits if_splits)
        then have "fs_get (files t) p = None"
          using preservesD [OF outside_sync_parent ok(2), of "{}"] u(2) by (auto simp: outside_def)
        with rec show ?thesis by simp
      qed
    qed
  qed
qed

section \<open>Properties\<close>

text \<open>C7: An identity file is committed whole, never over another one, and read back as it was written:
  whatever fails on the way, the file is what it was or, where there was none, the complete new
  identity; success means the latter, and then a reader gets exactly this identity or an error.\<close>

theorem pid_file_committed_once:
  assumes "codec_ok c" and "write_pid_file c p i s = (r, t)" and "p \<noteq> []"
    and "\<forall>q. q = p \<or> (\<exists>u. q = temporary_sibling p u) \<longrightarrow> q \<notin> listening s"
  shows "(fs_get (files t) p = fs_get (files s) p
      \<or> (fs_get (files s) p = None \<and> recorded c p t = Some i))
    \<and> (r = Ok () \<longrightarrow> fs_get (files s) p = None \<and> recorded c p t = Some i
        \<and> (\<forall>x u. read_pid_file c p t = (Ok x, u) \<and> p \<notin> listening t \<longrightarrow> x = Some i))
    \<and> (\<exists>u. outside {p, temporary_sibling p u} s t)"
proof -
  have dec: "dec c (enc c i @ newline) = Some i" using assms(1) by (simp add: codec_ok_def)
  have "x = Some i"
    if "fs_get (files t) p = Some (File (enc c i @ newline))" "read_pid_file c p t = (Ok x, u)"
      "p \<notin> listening t" for x u
    using read_pid_file_Ok [OF that(2,3)] that(1) dec by (cases x) auto
  moreover have "p \<notin> listening s" "\<forall>u. temporary_sibling p u \<notin> listening s"
    using assms(4) by blast+
  note write_pid_file_result [OF assms(2,3) this]
  ultimately show ?thesis
    using dec by (auto simp: recorded_def)
qed

definition pc_identity :: "process_identity pcodec" where
  "pc_identity =
     pc_map (\<lambda>(a, b, d, e, f, g). process_identity.make a b d e f g)
       (\<lambda>i. (pi_pid i, pi_boot_id i, pi_start_time_ticks i, pi_executable i, pi_executable_device i,
             pi_executable_inode i))
       (pc_pair pc_nat (pc_pair pc_string (pc_pair pc_nat (pc_pair (pc_list pc_string)
         (pc_pair pc_nat pc_nat)))))"

lemma pc_ok_identity: "pc_ok pc_identity"
  unfolding pc_identity_def by (intro pc_ok_rules) (simp add: process_identity.make_def)

lemma demo_write_pid: "fst (write_pid_file c [''d'', ''vmm.pid''] i demo_store) = Ok ()"
  using temporary_sibling_neq [of "[''d'', ''vmm.pid'']"]
  by (simp add: write_pid_file_def pid_file_commit_def ensure_absent_def sync_parent_def parent_def
      io_run Let_def demo_store_def demo_os_def private_dir_def temporary_sibling_def with_file_name_def)

theorem pid_file_committed_once_witness:
  "\<exists>t. write_pid_file (codec_of pc_identity) [''d'', ''vmm.pid''] demo_identity demo_store = (Ok (), t)
     \<and> recorded (codec_of pc_identity) [''d'', ''vmm.pid''] t = Some demo_identity"
proof -
  let ?r = "write_pid_file (codec_of pc_identity) [''d'', ''vmm.pid''] demo_identity demo_store"
  have run: "?r = (Ok (), snd ?r)" using demo_write_pid by (metis prod.collapse)
  have "q \<notin> listening demo_store" for q by (simp add: demo_store_def demo_os_def)
  with pid_file_committed_once [OF codec_ok_of [OF pc_ok_identity] run] run show ?thesis
    by (metis list.distinct(1))
qed

text \<open>Removing an identity file never removes another identity: the file stays as it is unless it
  records exactly the expected process, nothing else in the file system changes, no process is
  signalled, and success means that no identity is left.\<close>

theorem remove_pid_file_only_expected:
  assumes "remove_pid_file c p e s = (r, t)" and "p \<noteq> []" and "p \<notin> listening s"
  shows "(fs_get (files t) p = fs_get (files s) p
      \<or> (recorded c p s = Some e \<and> fs_get (files t) p = None))
    \<and> (r = Ok () \<longrightarrow> fs_get (files t) p = None)
    \<and> outside {p} s t \<and> signals t = signals s"
  using remove_pid_file_result [OF assms] preservesD [OF outside_remove_pid assms(1)]
    preservesD [OF calm_remove_pid assms(1)] by (simp add: calm_def no_signal_def)

lemma demo_remove_pid: "fst (remove_pid_file c [''d'', ''vmm.pid''] i demo_store) = Ok ()"
  by (simp add: remove_pid_file_def read_pid_file_def io_run demo_store_def demo_os_def)

theorem remove_pid_file_only_expected_witness:
  "\<exists>t. remove_pid_file (codec_of pc_identity) [''d'', ''vmm.pid''] demo_identity demo_store = (Ok (), t)
     \<and> fs_get (files t) [''d'', ''vmm.pid''] = None \<and> signals t = signals demo_store"
proof -
  let ?r = "remove_pid_file (codec_of pc_identity) [''d'', ''vmm.pid''] demo_identity demo_store"
  have run: "?r = (Ok (), snd ?r)" using demo_remove_pid by (metis prod.collapse)
  have "[''d'', ''vmm.pid''] \<notin> listening demo_store" by (simp add: demo_store_def demo_os_def)
  with remove_pid_file_only_expected [OF run] run show ?thesis by blast
qed

end
