(* ===== verification/Storage.thy ===== *)
theory Storage
  imports PidFiles
begin

text \<open>
  \<open>crates/spawnr/src/storage.rs\<close>: the directory tree of a machine with its ownership markers, and the
  disk images in it. \<open>serde_json\<close> is a codec for each marker, \<open>mkfs.ext4\<close> a parameter that runs a command
  and says whether it succeeded, and what the kernel knows of reflinks and sparse extents is a record
  of parameters.
\<close>

section \<open>Types\<close>

definition SPAWNR_OWNER :: string where "SPAWNR_OWNER = ''spawnr''"
definition OWNER_FILE :: string where "OWNER_FILE = ''owner.json''"
definition DOMAIN_FILE :: string where "DOMAIN_FILE = ''domain.json''"
definition MIN_EXT4_BYTES :: nat where "MIN_EXT4_BYTES = 16 * 1024 * 1024"
definition DEFAULT_ENVIRONMENT_BYTES :: nat where
  "DEFAULT_ENVIRONMENT_BYTES = 32 * 1024 * 1024 * 1024"
definition DEFAULT_WORKSPACE_BYTES :: nat where
  "DEFAULT_WORKSPACE_BYTES = 64 * 1024 * 1024 * 1024"

record disk_sizes =
  environment_bytes :: nat
  workspace_bytes :: nat

definition default_sizes :: disk_sizes where
  "default_sizes = \<lparr>environment_bytes = DEFAULT_ENVIRONMENT_BYTES,
     workspace_bytes = DEFAULT_WORKSPACE_BYTES\<rparr>"

datatype storage_domain = EnvironmentDomain | WorkspaceDomain | SessionDomain

record domain_marker =
  dm_owner :: string
  dm_machine_id :: uuid
  dm_workspace_id :: uuid
  dm_domain :: storage_domain

record machine_paths =
  mp_root :: path
  mp_owner_marker :: path
  mp_environment_dir :: path
  mp_environment_disk :: path
  mp_workspace_dir :: path
  mp_workspace_disk :: path
  mp_session_dir :: path
  mp_vmm_pid_file :: path
  mp_network_pid_file :: path
  mp_api_socket :: path
  mp_vsock_socket :: path
  mp_network_socket :: path
  mp_vmm_log :: path
  mp_serial_log :: path

definition for_record :: "path \<Rightarrow> machine_record \<Rightarrow> machine_paths" where
  "for_record data r =
     (let root = machine_dir data (uuid_text (m_id r)); env = root @ [''environment''];
          work = root @ [''workspace'']; sess = root @ [''session'']
      in \<lparr>mp_root = root, mp_owner_marker = root @ [OWNER_FILE],
          mp_environment_dir = env, mp_environment_disk = env @ [''environment.raw''],
          mp_workspace_dir = work, mp_workspace_disk = work @ [''workspace.raw''],
          mp_session_dir = sess, mp_vmm_pid_file = sess @ [''cloud-hypervisor.pid.json''],
          mp_network_pid_file = sess @ [''passt.pid.json''], mp_api_socket = sess @ [''api.sock''],
          mp_vsock_socket = sess @ [''vsock.sock''], mp_network_socket = sess @ [''net.sock''],
          mp_vmm_log = sess @ [''cloud-hypervisor.log''], mp_serial_log = sess @ [''serial.log'']\<rparr>)"

text \<open>The codecs of the files a machine's directory holds.\<close>

record machine_codecs =
  mc_owner :: "ownership_marker codec"
  mc_domain :: "domain_marker codec"
  mc_identity :: "process_identity codec"

section \<open>Files\<close>

definition open_existing_regular :: "path \<Rightarrow> entry io" where
  "open_existing_regular p =
     bnd (sys_open_nofollow p) (\<lambda>_.
     bnd (sys_fstat p) (\<lambda>md. io_ensure (is_regular md) ''is not a regular file'' (ret md)))"

definition open_new_regular :: "path \<Rightarrow> unit io" where
  "open_new_regular p = sys_create_new p 384"

definition write_json_new :: "string \<Rightarrow> path \<Rightarrow> unit io" where
  "write_json_new bytes p =
     thn (open_new_regular p)
     (thn (sys_write p bytes)
     (thn (sys_write p newline)
     (thn sys_nop
     (sync_parent p))))"

definition read_json_regular :: "'a codec \<Rightarrow> path \<Rightarrow> 'a io" where
  "read_json_regular c p =
     thn (open_existing_regular p)
     (bnd (sys_fstat p) (\<lambda>md.
      io_ensure (and (e_mode md) 63 = 0) ''insecure permissions''
      (bnd (sys_read p) (\<lambda>d.
        case dec c d of None \<Rightarrow> fail (Bail ''read marker'') | Some x \<Rightarrow> ret x))))"

definition assert_private_directory :: "path \<Rightarrow> unit io" where
  "assert_private_directory p =
     bnd (sys_lstat p) (\<lambda>md.
     io_ensure (e_node md = Dir) ''is not a real directory''
     (io_ensure (and (e_mode md) 63 = 0) ''is accessible by another user''
     (bnd (get_os euid) (\<lambda>uid.
      io_ensure (e_uid md = uid) ''is not owned by the current user'' (ret ())))))"

definition set_private_permissions :: "path \<Rightarrow> unit io" where
  "set_private_permissions p = sys_chmod p 448"

section \<open>The tree of a machine\<close>

definition write_marker :: "machine_codecs \<Rightarrow> machine_paths \<Rightarrow> machine_record \<Rightarrow> unit io" where
  "write_marker cs mp r =
     write_json_new (enc (mc_owner cs) \<lparr>marker_owner = SPAWNR_OWNER, marker_machine_id = m_id r,
         marker_machine_name = m_name r\<rparr>) (mp_owner_marker mp)"

definition domain_marker_of :: "machine_record \<Rightarrow> storage_domain \<Rightarrow> domain_marker" where
  "domain_marker_of r d =
     \<lparr>dm_owner = SPAWNR_OWNER, dm_machine_id = m_id r, dm_workspace_id = m_workspace_id r, dm_domain = d\<rparr>"

definition write_domain_marker ::
    "machine_codecs \<Rightarrow> machine_record \<Rightarrow> storage_domain \<Rightarrow> path \<Rightarrow> unit io" where
  "write_domain_marker cs r d directory =
     write_json_new (enc (mc_domain cs) (domain_marker_of r d)) (directory @ [DOMAIN_FILE])"

definition write_domain_markers :: "machine_codecs \<Rightarrow> machine_paths \<Rightarrow> machine_record \<Rightarrow> unit io" where
  "write_domain_markers cs mp r =
     thn (write_domain_marker cs r EnvironmentDomain (mp_environment_dir mp))
     (thn (write_domain_marker cs r WorkspaceDomain (mp_workspace_dir mp))
     (write_domain_marker cs r SessionDomain (mp_session_dir mp)))"

definition machine_create :: "machine_codecs \<Rightarrow> machine_paths \<Rightarrow> machine_record \<Rightarrow> unit io" where
  "machine_create cs mp r =
     (case parent (mp_root mp) of
        None \<Rightarrow> fail (Bail ''machine directory has no parent'')
      | Some up \<Rightarrow>
          thn (assert_private_directory up)
          (thn (sys_mkdir (mp_root mp))
          (on_error
            (thn (set_private_permissions (mp_root mp))
            (thn (create_private_dir (mp_environment_dir mp))
            (thn (create_private_dir (mp_workspace_dir mp))
            (thn (create_private_dir (mp_session_dir mp))
            (thn (write_marker cs mp r)
            (thn (write_domain_markers cs mp r)
            (thn (sync_directory (mp_root mp))
            (sync_directory up))))))))
            (sys_remove_dir_all (mp_root mp)))))"

definition assert_owned :: "machine_codecs \<Rightarrow> machine_paths \<Rightarrow> machine_record \<Rightarrow> unit io" where
  "assert_owned cs mp r =
     thn (assert_private_directory (mp_root mp))
     (bnd (read_json_regular (mc_owner cs) (mp_owner_marker mp)) (\<lambda>mk.
       io_ensure (marker_owner mk = SPAWNR_OWNER \<and> marker_machine_id mk = m_id r
           \<and> marker_machine_name mk = m_name r)
         ''ownership marker does not match machine'' (ret ())))"

definition assert_domain_layout :: "machine_codecs \<Rightarrow> machine_paths \<Rightarrow> machine_record \<Rightarrow> unit io" where
  "assert_domain_layout cs mp r =
     thn (assert_owned cs mp r)
       (io_each [(mp_environment_dir mp, EnvironmentDomain), (mp_workspace_dir mp, WorkspaceDomain),
           (mp_session_dir mp, SessionDomain)] (\<lambda>(directory, d).
         thn (assert_private_directory directory)
         (bnd (read_json_regular (mc_domain cs) (directory @ [DOMAIN_FILE])) (\<lambda>mk.
           io_ensure (mk = domain_marker_of r d) ''storage domain marker does not match'' (ret ())))))"

definition clear_session :: "machine_codecs \<Rightarrow> machine_paths \<Rightarrow> machine_record \<Rightarrow> unit io" where
  "clear_session cs mp r =
     thn (assert_owned cs mp r)
     (bnd (attempt (sys_lstat (mp_session_dir mp))) (\<lambda>x.
      thn (case x of
             Inl _ \<Rightarrow> ret ()
           | Inr md \<Rightarrow> io_ensure (e_node md = Dir) ''refusing to clear non-directory session path''
               (sys_remove_dir_all (mp_session_dir mp)))
      (thn (create_private_dir (mp_session_dir mp))
      (thn (write_domain_marker cs r SessionDomain (mp_session_dir mp))
      (sync_directory (mp_root mp))))))"

definition machine_remove :: "machine_codecs \<Rightarrow> machine_paths \<Rightarrow> machine_record \<Rightarrow> unit io" where
  "machine_remove cs mp r =
     thn (assert_owned cs mp r)
     (case parent (mp_root mp) of
        None \<Rightarrow> fail (Bail ''machine directory has no parent'')
      | Some up \<Rightarrow> thn (sys_remove_dir_all (mp_root mp)) (sync_directory up))"

section \<open>File contents\<close>

text \<open>
  What the kernel knows of a file system: the error of the \<open>FICLONE\<close> call, if it cannot share extents,
  and where data and holes are in a file with a given content.
\<close>

record fs_kernel =
  fk_reflink :: "errno option"
  fk_seek_data :: "string \<Rightarrow> nat \<Rightarrow> errno + nat"
  fk_seek_hole :: "string \<Rightarrow> nat \<Rightarrow> errno + nat"

definition content_at :: "os \<Rightarrow> path \<Rightarrow> string" where
  "content_at s p = (case fs_get (files s) p of Some (File c) \<Rightarrow> c | _ \<Rightarrow> [])"

definition set_content :: "path \<Rightarrow> string \<Rightarrow> os \<Rightarrow> os" where
  "set_content p c s =
     (case files s p of
        Some e \<Rightarrow> (case e_node e of File _ \<Rightarrow> put_entry p (e\<lparr>e_node := File c\<rparr>) s | _ \<Rightarrow> s)
      | None \<Rightarrow> s)"

definition zero :: char where "zero = CHR 0x00"

definition resized :: "nat \<Rightarrow> string \<Rightarrow> string" where
  "resized n c = take n c @ replicate (n - length c) zero"

definition overwritten :: "nat \<Rightarrow> string \<Rightarrow> string \<Rightarrow> string" where
  "overwritten off d c =
     (if d = [] then c else take off (resized (max off (length c)) c) @ d @ drop (off + length d) c)"

definition sys_set_len :: "path \<Rightarrow> nat \<Rightarrow> unit io" where
  "sys_set_len p n = syscall (\<lambda>s. (Ok (), set_content p (resized n (content_at s p)) s))"

text \<open>How many of \<open>n\<close> bytes a read or write moves: at least one, all of them in a quiet slot.\<close>

definition moved :: "nat \<Rightarrow> slot \<Rightarrow> nat" where
  "moved n sl = (if sl_written sl = 0 then n else min n (sl_written sl))"

definition sys_read_at :: "path \<Rightarrow> nat \<Rightarrow> nat \<Rightarrow> string io" where
  "sys_read_at p off n s =
     (let k = moved n (next_slot s)
      in syscall (\<lambda>s. (Ok (take k (drop off (content_at s p))), s)) s)"

definition sys_write_at :: "path \<Rightarrow> nat \<Rightarrow> string \<Rightarrow> nat io" where
  "sys_write_at p off d s =
     (let k = moved (length d) (next_slot s)
      in syscall (\<lambda>s. (Ok k, set_content p (overwritten off (take k d) (content_at s p)) s)) s)"

definition sys_seek :: "(string \<Rightarrow> nat \<Rightarrow> errno + nat) \<Rightarrow> path \<Rightarrow> nat \<Rightarrow> nat io" where
  "sys_seek locate p off = syscall (\<lambda>s.
     case locate (content_at s p) off of Inl e \<Rightarrow> (Inl (Io e), s) | Inr n \<Rightarrow> (Ok n, s))"

definition sys_ficlone :: "fs_kernel \<Rightarrow> path \<Rightarrow> path \<Rightarrow> unit io" where
  "sys_ficlone k src dst = syscall (\<lambda>s.
     case fk_reflink k of
       Some e \<Rightarrow> (Inl (Io e), s)
     | None \<Rightarrow> (Ok (), set_content dst (content_at s src) s))"

text \<open>\<open>io::copy\<close> of the whole source into the empty destination.\<close>

definition sys_copy_all :: "path \<Rightarrow> path \<Rightarrow> unit io" where
  "sys_copy_all src dst = syscall (\<lambda>s. (Ok (), set_content dst (content_at s src) s))"

definition COPY_BUFFER :: nat where "COPY_BUFFER = 1024 * 1024"

section \<open>Copying an image\<close>

text \<open>The first argument of a loop is its remaining turns; the facts show that they suffice.\<close>

fun write_loop :: "nat \<Rightarrow> path \<Rightarrow> string \<Rightarrow> nat \<Rightarrow> unit io" where
  "write_loop 0 p d off = (if d = [] then ret () else fail Hangs)"
| "write_loop (Suc n) p d off =
     (if d = [] then ret ()
      else bnd (sys_write_at p off d) (\<lambda>written.
        if written = 0 then fail (Bail ''write raw image'')
        else write_loop n p (drop written d) (off + written)))"

definition write_all_at :: "path \<Rightarrow> string \<Rightarrow> nat \<Rightarrow> unit io" where
  "write_all_at p d off = write_loop (length d) p d off"

fun copy_extent :: "nat \<Rightarrow> path \<Rightarrow> path \<Rightarrow> nat \<Rightarrow> nat \<Rightarrow> unit io" where
  "copy_extent 0 src dst position hole = (if position < hole then fail Hangs else ret ())"
| "copy_extent (Suc n) src dst position hole =
     (if position < hole
      then bnd (sys_read_at src position (min (hole - position) COPY_BUFFER)) (\<lambda>d.
        io_ensure (length d \<noteq> 0) ''unexpected EOF while cloning raw image''
        (thn (write_all_at dst d position)
          (copy_extent n src dst (position + length d) hole)))
      else ret ())"

fun copy_loop :: "nat \<Rightarrow> fs_kernel \<Rightarrow> path \<Rightarrow> path \<Rightarrow> nat \<Rightarrow> nat \<Rightarrow> unit io" where
  "copy_loop 0 k src dst len off = (if off < len then fail Hangs else ret ())"
| "copy_loop (Suc n) k src dst len off =
     (if off < len
      then bnd (attempt (sys_seek (fk_seek_data k) src off)) (\<lambda>r.
        case r of
          Inl e \<Rightarrow>
            if e = Io ENXIO then ret ()
            else if e \<in> {Io EINVAL, Io EOPNOTSUPP}
            then thn (sys_set_len dst 0) (sys_copy_all src dst)
            else fail e
        | Inr data \<Rightarrow>
            bnd (attempt (sys_seek (fk_seek_hole k) src data)) (\<lambda>h.
            bnd (case h of
                   Inl e \<Rightarrow> if e = Io ENXIO then ret len else fail e
                 | Inr hole \<Rightarrow> ret (min hole len)) (\<lambda>hole.
            io_ensure (data \<le> hole) ''filesystem returned an invalid sparse extent''
            (thn (copy_extent (hole - data) src dst data hole)
              (copy_loop n k src dst len hole)))))
      else ret ())"

definition sparse_copy :: "fs_kernel \<Rightarrow> path \<Rightarrow> path \<Rightarrow> unit io" where
  "sparse_copy k src dst =
     bnd (sys_fstat src) (\<lambda>md.
       let len = (case e_node md of File c \<Rightarrow> length c | _ \<Rightarrow> 0)
       in thn (sys_set_len dst len) (copy_loop len k src dst len 0))"

definition clone_sparse_or_reflink :: "fs_kernel \<Rightarrow> path \<Rightarrow> path \<Rightarrow> unit io" where
  "clone_sparse_or_reflink k src dst =
     thn (open_existing_regular src)
     (thn (open_new_regular dst)
     (bnd (attempt (sys_ficlone k src dst)) (\<lambda>r.
       case r of
         Inr _ \<Rightarrow> sys_nop
       | Inl e \<Rightarrow>
           if e \<in> {Io EOPNOTSUPP, Io EXDEV, Io EINVAL, Io ENOTTY}
           then thn (sys_set_len dst 0) (thn (sparse_copy k src dst) sys_nop)
           else fail e)))"

section \<open>Disk images\<close>

definition validate_ext4_image :: "path \<Rightarrow> unit io" where
  "validate_ext4_image p =
     thn (open_existing_regular p)
     (thn sys_nop
     (bnd (sys_read p) (\<lambda>c.
       let magic = take 2 (drop (1024 + 56) c)
       in if length magic < 2 then fail (Io EUNEXPECTEDEOF)
          else io_ensure (byte (magic ! 0) + 256 * byte (magic ! 1) = 61267)
            ''does not contain a raw ext4 filesystem'' (ret ()))))"

definition commit_no_replace :: "path \<Rightarrow> path \<Rightarrow> unit io" where
  "commit_no_replace temporary destination =
     thn (sys_link temporary destination)
     (thn (on_error (sys_unlink temporary) (sys_unlink destination))
     (on_error (sync_parent destination) (sys_unlink destination)))"

definition clone_image_atomic :: "fs_kernel \<Rightarrow> path \<Rightarrow> path \<Rightarrow> unit io" where
  "clone_image_atomic k source destination =
     thn (ensure_absent destination)
     (bnd new_uuid (\<lambda>u.
       let temporary = temporary_sibling destination u
       in on_error
            (thn (clone_sparse_or_reflink k source temporary)
            (thn (validate_ext4_image temporary)
            (commit_no_replace temporary destination)))
            (sys_unlink temporary)))"

definition ensure_valid_label :: "string \<Rightarrow> unit result" where
  "ensure_valid_label label =
     ensure (label \<noteq> []) ''filesystem label cannot be empty''
     (ensure (length label \<le> 16 \<and> list_all (\<lambda>b. is_ascii_alphanumeric b \<or> b = CHR ''_'') label)
       ''invalid ext4 label'' (Ok ()))"

text \<open>A command that is run to its end: whether it succeeded.\<close>

type_synonym run_status = "path \<Rightarrow> string list \<Rightarrow> bool io"

definition create_ext4_atomic :: "run_status \<Rightarrow> path \<Rightarrow> path \<Rightarrow> nat \<Rightarrow> string \<Rightarrow> unit io" where
  "create_ext4_atomic run mkfs_ext4 destination bytes label =
     io_ensure (bytes \<ge> MIN_EXT4_BYTES) ''ext4 image is too small''
     (thn (lift_r (ensure_valid_label label))
     (thn (ensure_absent destination)
     (bnd new_uuid (\<lambda>u.
       let temporary = temporary_sibling destination u
       in on_error
            (thn (open_new_regular temporary)
            (thn (sys_set_len temporary bytes)
            (bnd (run mkfs_ext4 [''-q'', ''-F'', ''-m'', ''0'', ''-L'', label, ''--'', display temporary])
              (\<lambda>success.
            io_ensure success ''failed while formatting''
            (thn (validate_ext4_image temporary)
            (thn (sys_chmod temporary 384)
            (thn (sys_open temporary)
            (thn sys_nop
            (commit_no_replace temporary destination)))))))))
            (sys_unlink temporary)))))"

definition executable :: "string \<Rightarrow> path io" where
  "executable t =
     bnd (sys_metadata_text t) (\<lambda>md.
     io_ensure (is_regular md) ''is not a file''
     (io_ensure (and (e_mode md) 73 \<noteq> 0) ''is not executable'' (sys_canonicalize_text t)))"

fun first_candidate :: "string list \<Rightarrow> path option io" where
  "first_candidate [] = ret None"
| "first_candidate (t # ts) =
     bnd (attempt (executable t)) (\<lambda>r.
       case r of Inr p \<Rightarrow> ret (Some p) | Inl _ \<Rightarrow> first_candidate ts)"

definition storage_discover :: "path io" where
  "storage_discover =
     bnd (env_var ''SPAWNR_MKFS_EXT4'') (\<lambda>ovr.
       case ovr of
         Some t \<Rightarrow> executable t
       | None \<Rightarrow>
           bnd (env_var ''PATH'') (\<lambda>dirs.
           bnd (case dirs of None \<Rightarrow> ret None
                | Some v \<Rightarrow> first_candidate
                    (map (\<lambda>d. join_text d ''mkfs.ext4'') (split_on (\<lambda>c. c = CHR '':'') v))) (\<lambda>found.
             case found of Some p \<Rightarrow> ret p | None \<Rightarrow> fail (Bail ''mkfs.ext4 is required''))))"

definition storage_create ::
    "machine_codecs \<Rightarrow> fs_kernel \<Rightarrow> run_status \<Rightarrow> path \<Rightarrow> machine_paths \<Rightarrow> machine_record
     \<Rightarrow> path option \<Rightarrow> disk_sizes \<Rightarrow> unit io" where
  "storage_create cs k run mkfs_ext4 mp r base sizes =
     thn (assert_domain_layout cs mp r)
     (bnd (sys_exists (mp_environment_disk mp)) (\<lambda>have_env.
      bnd (if have_env then ret True else sys_exists (mp_workspace_disk mp)) (\<lambda>have.
      io_ensure (\<not> have) ''refusing to overwrite existing machine storage''
      (on_error
        (thn (case base of
                Some b \<Rightarrow> thn (validate_ext4_image b) (clone_image_atomic k b (mp_environment_disk mp))
              | None \<Rightarrow> create_ext4_atomic run mkfs_ext4 (mp_environment_disk mp)
                  (environment_bytes sizes) ''SPAWNR_ENV'')
          (create_ext4_atomic run mkfs_ext4 (mp_workspace_disk mp) (workspace_bytes sizes)
            ''SPAWNR_WORKSPACE''))
        (thn (attempt (sys_unlink (mp_environment_disk mp)))
          (sys_unlink (mp_workspace_disk mp)))))))"

definition commit_machine_storage ::
    "machine_codecs \<Rightarrow> fs_kernel \<Rightarrow> run_status \<Rightarrow> path \<Rightarrow> machine_record \<Rightarrow> path \<Rightarrow> unit io" where
  "commit_machine_storage cs k run data r base =
     (let mp = for_record data r
      in thn (machine_create cs mp r)
           (on_error
             (bnd storage_discover (\<lambda>mkfs_ext4.
               storage_create cs k run mkfs_ext4 mp r (Some base) default_sizes))
             (machine_remove cs mp r)))"

end
