(* ===== verification/HostCreds.thy ===== *)
theory HostCreds
  imports PidFiles GuestSession
begin

text \<open>
  \<open>crates/spawnr/src/credentials.rs\<close>: what the host offers a session (the Git identity, a GitHub token,
  the known hosts) and the one capability it exposes, a link to the user's SSH agent. \<open>git\<close> and \<open>gh\<close>
  are programs that are not part of the repository: what they print is a parameter.
\<close>

section \<open>What other programs say\<close>

text \<open>
  \<open>hp_git\<close>: whether \<open>git\<close> with these arguments could be run, and then whether it succeeded and what it
  printed. \<open>hp_gh\<close>: whether \<open>gh auth token\<close> succeeded once it ended, and what it printed.
\<close>

record host_programs =
  hp_git :: "string list \<Rightarrow> (bool \<times> string) option"
  hp_gh :: "bool \<times> string"

definition SSH_AGENT_VSOCK_PORT :: nat where "SSH_AGENT_VSOCK_PORT = 19871"
definition GH_AUTH_TIMEOUT :: nat where "GH_AUTH_TIMEOUT = 5000"
definition MAX_GITHUB_TOKEN_BYTES :: nat where "MAX_GITHUB_TOKEN_BYTES = 64 * 1024"
definition MAX_KNOWN_HOSTS_BYTES :: nat where "MAX_KNOWN_HOSTS_BYTES = 1024 * 1024"

record host_credentials =
  hc_session :: session_config
  hc_ssh_auth_sock :: "string option"

section \<open>Collecting\<close>

definition single_line :: "string \<Rightarrow> bool" where
  "single_line v = (\<not> list_ex (\<lambda>c. c \<in> {CHR 0x0A, CHR 0x0D, NUL}) v)"

definition one_safe_line :: "string \<Rightarrow> string option" where
  "one_safe_line bytes =
     (if \<not> valid_utf8 bytes then None
      else let value = str_trim bytes
           in if value \<noteq> [] \<and> single_line value then Some value else None)"

definition git_value :: "host_programs \<Rightarrow> string \<Rightarrow> string option" where
  "git_value h key =
     (case hp_git h [''config'', ''--global'', ''--get'', key] of
        None \<Rightarrow> None
      | Some (success, stdout) \<Rightarrow> if \<not> success then None else one_safe_line stdout)"

definition ssh_signing_key :: "host_programs \<Rightarrow> string option" where
  "ssh_signing_key h =
     (if git_value h ''gpg.format'' \<noteq> Some ''ssh'' then None else git_value h ''user.signingkey'')"

definition valid_agent_socket :: "string option io" where
  "valid_agent_socket =
     bnd (env_var ''SSH_AUTH_SOCK'') (\<lambda>v.
       case v of
         None \<Rightarrow> ret None
       | Some t \<Rightarrow> bnd (attempt (sys_metadata_text t)) (\<lambda>r.
           ret (case r of Inr md \<Rightarrow> if e_node md = Sock then Some t else None | Inl _ \<Rightarrow> None)))"

text \<open>One turn of waiting for \<open>gh\<close>: it ended, it is still running, or waiting failed.\<close>

definition gh_step :: "child \<Rightarrow> bool option io" where
  "gh_step ch = bnd (attempt (sys_try_wait ch)) (\<lambda>r.
     ret (case r of Inr d \<Rightarrow> if d then Some True else None | Inl _ \<Rightarrow> Some False))"

definition gh_token_from_command :: "host_programs \<Rightarrow> path \<Rightarrow> nat \<Rightarrow> string option io" where
  "gh_token_from_command h gh timeout =
     bnd (attempt (sys_spawn gh [''auth'', ''token'', ''--hostname'', ''github.com''] {})) (\<lambda>r.
       case r of
         Inl _ \<Rightarrow> ret None
       | Inr ch \<Rightarrow>
           bnd (poll_every 10 (gh_step ch) timeout) (\<lambda>st.
             if st \<noteq> Some (Some True) then thn (attempt (sys_kill_wait ch)) (ret None)
             else
               (let bytes = take (MAX_GITHUB_TOKEN_BYTES + 1) (snd (hp_gh h))
                in ret (if \<not> fst (hp_gh h) then None
                        else if length bytes > MAX_GITHUB_TOKEN_BYTES then None
                        else one_safe_line bytes))))"

fun token_from_environment :: "string list \<Rightarrow> string option io" where
  "token_from_environment [] = ret None"
| "token_from_environment (nm # nms) =
     bnd (env_var nm) (\<lambda>v.
       case v of
         None \<Rightarrow> token_from_environment nms
       | Some token \<Rightarrow>
           if valid_utf8 token \<and> token \<noteq> [] \<and> length token \<le> MAX_GITHUB_TOKEN_BYTES \<and> single_line token
           then ret (Some token) else token_from_environment nms)"

definition github_token :: "host_programs \<Rightarrow> string option io" where
  "github_token h =
     bnd (token_from_environment [''GH_TOKEN'', ''GITHUB_TOKEN'']) (\<lambda>t.
       case t of
         Some token \<Rightarrow> ret (Some token)
       | None \<Rightarrow>
           bnd (find_executable ''gh'') (\<lambda>gh.
             case gh of None \<Rightarrow> ret None | Some p \<Rightarrow> gh_token_from_command h p GH_AUTH_TIMEOUT))"

text \<open>\<open>fs::read_to_string\<close> of a textual path.\<close>

definition read_text :: "string \<Rightarrow> string io" where
  "read_text t = bnd (sys_canonicalize_text t) (\<lambda>q. bnd (sys_read q) (\<lambda>c.
     if valid_utf8 c then ret c else fail (Io EINVAL)))"

fun add_known_hosts :: "string list \<Rightarrow> string \<Rightarrow> string io" where
  "add_known_hosts [] hosts = ret hosts"
| "add_known_hosts (t # ts) hosts =
     bnd (attempt (sys_metadata_text t)) (\<lambda>r.
       case r of
         Inl _ \<Rightarrow> add_known_hosts ts hosts
       | Inr md \<Rightarrow>
           if \<not> is_regular md \<or> node_len md > MAX_KNOWN_HOSTS_BYTES - length hosts
           then add_known_hosts ts hosts
           else bnd (attempt (read_text t)) (\<lambda>c.
             case c of
               Inl _ \<Rightarrow> add_known_hosts ts hosts
             | Inr contents \<Rightarrow>
                 if NUL \<in> set contents \<or> CHR 0x0D \<in> set contents
                   \<or> list_ex (\<lambda>l. length l > 64 * 1024) (str_lines contents)
                   \<or> length hosts + length contents > MAX_KNOWN_HOSTS_BYTES
                 then add_known_hosts ts hosts
                 else
                   (let joined = hosts @ contents
                    in add_known_hosts ts
                      (if joined \<noteq> [] \<and> last joined = CHR 0x0A then joined else joined @ newline))))"

definition host_known_hosts :: "string option io" where
  "host_known_hosts =
     bnd (env_var ''HOME'') (\<lambda>home.
     bnd (add_known_hosts (''/etc/ssh/ssh_known_hosts''
           # (case home of None \<Rightarrow> [] | Some h \<Rightarrow> [join_text h ''.ssh/known_hosts''])) []) (\<lambda>hosts.
       ret (if hosts = [] then None else Some hosts)))"

definition collect :: "host_programs \<Rightarrow> host_credentials io" where
  "collect h =
     bnd valid_agent_socket (\<lambda>agent.
     bnd (github_token h) (\<lambda>token.
     bnd host_known_hosts (\<lambda>hosts.
       ret \<lparr>hc_session = \<lparr>git_user_name = git_value h ''user.name'',
              git_user_email = git_value h ''user.email'', git_signing_key = ssh_signing_key h,
              gh_token = token, ssh_known_hosts = hosts, ssh_agent = (agent \<noteq> None), image_env = []\<rparr>,
            hc_ssh_auth_sock = agent\<rparr>)))"

section \<open>The SSH agent\<close>

text \<open>The link beside the virtual socket; callers keep it (\<open>AgentLink::persist\<close>).\<close>

definition agent_link :: "path \<Rightarrow> path" where
  "agent_link vsock_base =
     with_file_name vsock_base (file_name vsock_base @ ''_'' @ decimal SSH_AGENT_VSOCK_PORT)"

definition expose_ssh_agent :: "host_credentials \<Rightarrow> path \<Rightarrow> path option io" where
  "expose_ssh_agent h vsock_base =
     (case hc_ssh_auth_sock h of
        None \<Rightarrow> ret None
      | Some agent \<Rightarrow>
          (let link = agent_link vsock_base
           in thn (bnd (attempt (sys_lstat link)) (\<lambda>r.
                case r of
                  Inr md \<Rightarrow> (case e_node md of
                      Link _ \<Rightarrow> sys_unlink link
                    | _ \<Rightarrow> fail (Bail ''refusing to replace non-symlink session endpoint''))
                | Inl e \<Rightarrow> if e = Io ENOENT then ret () else fail e))
              (thn (sys_symlink agent link) (ret (Some link)))))"

end
