(* ===== verification/MachineNames.thy ===== *)
theory MachineNames
  imports Records RustPath Protocol
begin

text \<open>
  The pure functions of \<open>crates/spawnr/src/machine.rs\<close>: validation of the user's names and
  references, the allocation of machine names, of the guest's context identifier and hardware
  address, and what \<open>open\<close> asks the guest to run.
\<close>

section \<open>Names\<close>

definition validate_name :: "string \<Rightarrow> unit result" where
  "validate_name name =
     (if name = [] \<or> length name > 63 then bail ''machine name must contain 1 to 63 characters''
      else if (\<not> is_ascii_lowercase (name ! 0) \<and> \<not> is_ascii_digit (name ! 0))
        \<or> (\<not> is_ascii_lowercase (name ! (length name - 1))
           \<and> \<not> is_ascii_digit (name ! (length name - 1)))
        \<or> \<not> (\<forall>b \<in> set name. is_ascii_lowercase b \<or> is_ascii_digit b \<or> b = CHR ''-'')
      then bail ''invalid machine name: use lowercase letters, digits, and interior hyphens''
      else Ok ())"

text \<open>
  \<open>char::to_lowercase\<close>, as far as its result can be an ASCII letter or digit: besides \<open>A\<close> to \<open>Z\<close>,
  only \<open>U+0130\<close> (which becomes \<open>i\<close> and a combining dot) and \<open>U+212A\<close> (which becomes \<open>k\<close>) lower to
  ASCII. What the other characters lower to stays outside ASCII, which is all \<open>slug\<close> asks of it.
\<close>

definition to_lowercase :: "nat \<Rightarrow> nat list" where
  "to_lowercase c =
     (if 65 \<le> c \<and> c \<le> 90 then [c + 32] else if c = 304 then [105, 775]
      else if c = 8490 then [107] else [c])"

definition char_is_ascii_alphanumeric :: "nat \<Rightarrow> bool" where
  "char_is_ascii_alphanumeric c =
     ((48 \<le> c \<and> c \<le> 57) \<or> (65 \<le> c \<and> c \<le> 90) \<or> (97 \<le> c \<and> c \<le> 122))"

fun slug_step :: "nat \<Rightarrow> string \<times> bool \<Rightarrow> string \<times> bool" where
  "slug_step c (output, separator) =
     (if char_is_ascii_alphanumeric c
      then ((if separator \<and> output \<noteq> [] then output @ ''-'' else output) @ [char_of c], False)
      else (output, True))"

definition slug :: "string \<Rightarrow> string" where
  "slug value =
     (let output = fst (fold slug_step (concat (map to_lowercase (str_chars value))) ([], False))
      in trim_end_matches (\<lambda>c. c = CHR ''-'') (take (min (length output) 50) output))"

abbreviation slash_or_colon :: "char \<Rightarrow> bool" where
  "slash_or_colon c \<equiv> c = CHR ''/'' \<or> c = CHR '':''"

definition repository_directory :: "string \<Rightarrow> string result" where
  "repository_directory repository =
     (let trimmed = trim_end_matches (\<lambda>c. c = CHR ''/'') repository;
          tail = (case strip_suffix ''.git'' (last_piece slash_or_colon trimmed) of
                    Some t \<Rightarrow> t
                  | None \<Rightarrow> last_piece slash_or_colon trimmed);
          res = slug tail
      in if res = [] then bail ''cannot derive a workspace directory from repository''
         else Ok res)"

definition validate_repository :: "string \<Rightarrow> unit result" where
  "validate_repository repository =
     (if repository = [] \<or> (\<exists>c \<in> set repository. byte c \<in> {10, 13, 0})
      then bail ''repository must be a non-empty, single-line Git URL''
      else rbind (repository_directory repository) (\<lambda>_. Ok ()))"

definition validate_environment_reference :: "string \<Rightarrow> unit result" where
  "validate_environment_reference rf =
     (if rf = [] \<or> starts_with ''-'' rf \<or> list_ex is_whitespace (str_chars rf)
         \<or> CHR 0x00 \<in> set rf
      then bail ''invalid OCI environment reference'' else Ok ())"

section \<open>Allocation of clone names\<close>

text \<open>
  The name tried for one sfx: the base cut so that the whole fits in 63 bytes. \<open>str::get\<close> refuses
  to cut inside a character, and the uncut base is used then.
\<close>

definition clone_candidate :: "string \<Rightarrow> nat \<Rightarrow> string" where
  "clone_candidate base sfx =
     (let maximum_base = 63 - (length (decimal sfx) + 1);
          truncated = (case str_get_to (min (length base) maximum_base) base of
                         Some t \<Rightarrow> t | None \<Rightarrow> base)
      in trim_end_matches (\<lambda>c. c = CHR ''-'') truncated @ ''-'' @ decimal sfx)"

text \<open>
  The \<open>while\<close> loop. \<open>sfx\<close> is a \<open>u32\<close>: its increment past the largest value panics (in a build
  with overflow checks; \<open>allocate_clone_names_total\<close> shows that no realistic state gets there).
\<close>

function clone_loop ::
    "string \<Rightarrow> nat \<Rightarrow> string set \<Rightarrow> nat \<Rightarrow> string list \<Rightarrow> string list result" where
  "clone_loop base count occupied sfx names =
     (if length names < count then
        (let candidate = clone_candidate base sfx;
             next = (\<lambda>occ ns.
               if sfx + 1 < 2 ^ 32 then clone_loop base count occ (sfx + 1) ns
               else Inl (Panic ''attempt to add with overflow''))
         in if candidate \<notin> occupied
            then rbind (validate_name candidate)
                   (\<lambda>_. next (insert candidate occupied) (names @ [candidate]))
            else next occupied names)
      else Ok names)"
  by pat_completeness auto
termination
  by (relation "measure (\<lambda>(_, _, _, sfx, _). 2 ^ 32 - sfx)") auto

declare clone_loop.simps [simp del]

definition allocate_clone_names ::
    "string option \<Rightarrow> string \<Rightarrow> 16 word \<Rightarrow> string list \<Rightarrow> string list result" where
  "allocate_clone_names requested repository count existing =
     (case (if count = 1 then requested else None) of
        Some name \<Rightarrow>
          if name \<in> set existing then bail ''a Spawnr machine with this name already exists''
          else Ok [name]
      | None \<Rightarrow>
          rbind (repository_directory repository) (\<lambda>derived.
            clone_loop (case requested of Some r \<Rightarrow> r | None \<Rightarrow> derived) (unat count)
              (set existing) 1 []))"

section \<open>New records\<close>

text \<open>
  The search for an unused context identifier, with fuel; \<open>new_record_fresh\<close> shows that the fuel
  \<open>new_record\<close> gives it is enough.
\<close>

fun next_cid :: "nat \<Rightarrow> 32 word set \<Rightarrow> 32 word \<Rightarrow> 32 word option" where
  "next_cid 0 used cid = None"
| "next_cid (Suc n) used cid =
     (if cid \<in> used then next_cid n used (if cid = - 1 then 4096 else cid + 1) else Some cid)"

definition first_cid :: "uuid \<Rightarrow> 32 word" where
  "first_cid u = 4096 + and (ucast (drop_bit 96 u) :: 32 word) 0x3fffffff"

definition mac_of_uuid :: "uuid \<Rightarrow> string" where
  "mac_of_uuid u =
     (let b = uuid_bytes u
      in ''02:'' @ hex2 (b ! 0) @ '':'' @ hex2 (b ! 1) @ '':'' @ hex2 (b ! 2) @ '':''
         @ hex2 (b ! 3) @ '':'' @ hex2 (b ! 4))"

text \<open>The two fresh identifiers and the time are arguments; \<open>None\<close> would be a loop that does not end.\<close>

definition new_record ::
    "uuid \<Rightarrow> uuid \<Rightarrow> timestamp \<Rightarrow> string \<Rightarrow> string \<Rightarrow> string option \<Rightarrow> string option
     \<Rightarrow> (string, machine_record) btree_map \<Rightarrow> machine_record option" where
  "new_record uid workspace now nm environment repository repository_dir existing =
     map_option (\<lambda>cid.
         \<lparr>m_id = uid, m_name = nm,
          m_environment =
            \<lparr>e_reference = environment, e_manifest_digest = None, e_base_cache_key = None\<rparr>,
          m_repository = repository, m_repository_dir = repository_dir,
          m_workspace_id = workspace, m_created_at = now, m_vsock_cid = cid,
          m_mac_address = mac_of_uuid uid\<rparr>)
       (next_cid (Suc (length existing)) (m_vsock_cid ` set (bt_values existing)) (first_cid uid))"

section \<open>Status, lookup and presentation\<close>

datatype machine_status = Running | Stopped | Degraded

fun status_str :: "machine_status \<Rightarrow> string" where
  "status_str Running = ''running''"
| "status_str Stopped = ''stopped''"
| "status_str Degraded = ''degraded''"

definition lookup ::
    "(string, machine_record) btree_map \<Rightarrow> string \<Rightarrow> machine_record result" where
  "lookup ms nm = some_or (bt_get ms nm) ''no Spawnr machine with this name'' Ok"

fun expect_ok :: "response \<Rightarrow> unit result" where
  "expect_ok (OkReply _) = Ok ()"
| "expect_ok (ErrorReply m) = bail ''guest operation failed''"
| "expect_ok _ = bail ''guest returned an unexpected response''"

definition DEFAULT_TERMINAL_TYPE :: string where "DEFAULT_TERMINAL_TYPE = ''xterm-256color''"
definition MAX_TERMINAL_TYPE_BYTES :: nat where "MAX_TERMINAL_TYPE_BYTES = 64"

definition terminal_byte :: "char \<Rightarrow> bool" where
  "terminal_byte b = (is_ascii_alphanumeric b \<or> b = CHR ''-'' \<or> b = CHR ''_'' \<or> b = CHR ''.'')"

definition terminal_type :: "string option \<Rightarrow> string" where
  "terminal_type value =
     (case value of None \<Rightarrow> DEFAULT_TERMINAL_TYPE
      | Some v \<Rightarrow> if v \<noteq> [] \<and> length v \<le> MAX_TERMINAL_TYPE_BYTES \<and> list_all terminal_byte v
                   then v else DEFAULT_TERMINAL_TYPE)"

definition open_shell_request ::
    "machine_record \<Rightarrow> 16 word \<Rightarrow> 16 word \<Rightarrow> string option \<Rightarrow> request" where
  "open_shell_request r rws cls host_term =
     Exec [''/bin/bash'', ''-i'']
       (case m_repository_dir r of
          Some d \<Rightarrow> Some (''/workspace/'' @ d) | None \<Rightarrow> Some ''/workspace'')
       (bt_insert ''TERM'' (terminal_type host_term)
         (bt_insert ''HISTFILE'' ''/run/spawnr/bash-history'' []))
       True rws cls"

definition with_rollback :: "err \<Rightarrow> unit result \<Rightarrow> err" where
  "with_rollback primary rollback =
     (case rollback of Ok _ \<Rightarrow> primary | Inl e \<Rightarrow> AlsoFailed primary e)"

definition repository_display :: "string option \<Rightarrow> string" where
  "repository_display repository =
     (case repository of None \<Rightarrow> ''-''
      | Some r \<Rightarrow>
          (let trimmed = trim_end_str ''.git'' (trim_end_matches (\<lambda>c. c = CHR ''/'') r);
               parts = take 2 (rev (split_on slash_or_colon trimmed))
           in if length parts = 2 then parts ! 1 @ ''/'' @ parts ! 0 else ''-''))"

definition indent :: "string \<Rightarrow> string" where
  "indent value = join_with [CHR 0x0A] (map (\<lambda>line. ''  '' @ line) (str_lines value))"

section \<open>Facts: names\<close>

definition name_byte :: "char \<Rightarrow> bool" where
  "name_byte b = (is_ascii_lowercase b \<or> is_ascii_digit b)"

text \<open>A DNS label in lower case.\<close>

definition is_label :: "nat \<Rightarrow> string \<Rightarrow> bool" where
  "is_label n s =
     (s \<noteq> [] \<and> length s \<le> n \<and> name_byte (hd s) \<and> name_byte (last s)
      \<and> (\<forall>b \<in> set s. name_byte b \<or> b = CHR ''-''))"

lemma name_byte_not [simp]:
  "\<not> name_byte CHR ''-''" "\<not> name_byte CHR ''/''" "\<not> name_byte CHR ''.''"
  by (simp_all add: name_byte_def ascii_class_defs)

lemma validate_name_Ok [result_simps]: "validate_name s = Ok u \<longleftrightarrow> is_label 63 s"
proof (cases "s = []")
  case True
  then show ?thesis by (simp add: validate_name_def is_label_def)
next
  case False
  then have "hd s = s ! 0" "last s = s ! (length s - 1)"
    by (simp_all add: hd_conv_nth last_conv_nth)
  with False show ?thesis
    by (auto simp: validate_name_def is_label_def name_byte_def)
qed

lemma is_label_mono: "is_label m s \<Longrightarrow> m \<le> n \<Longrightarrow> is_label n s"
  by (simp add: is_label_def)

lemma is_label_plain: "is_label n s \<Longrightarrow> plain_name s"
  by (fastforce simp: is_label_def plain_name_def)

lemma is_label_ascii: "is_label n s \<Longrightarrow> is_ascii s"
  by (force simp: is_label_def is_ascii_def name_byte_def ascii_class_defs)

subsection \<open>\<open>slug\<close>\<close>

text \<open>What \<open>slug\<close> produces: labels without two hyphens in a row, or nothing.\<close>

definition no_double :: "string \<Rightarrow> bool" where
  "no_double s = (\<forall>i. Suc i < length s \<longrightarrow> s ! i = CHR ''-'' \<longrightarrow> s ! Suc i \<noteq> CHR ''-'')"

definition slug_ok :: "string \<Rightarrow> bool" where
  "slug_ok s =
     ((\<forall>b \<in> set s. name_byte b \<or> b = CHR ''-'') \<and> no_double s
      \<and> (s \<noteq> [] \<longrightarrow> name_byte (hd s)))"

lemma no_double_Nil [simp]: "no_double []"
  by (simp add: no_double_def)

lemma no_double_snoc:
  "no_double (s @ [c]) \<longleftrightarrow> no_double s \<and> (s \<noteq> [] \<longrightarrow> last s = CHR ''-'' \<longrightarrow> c \<noteq> CHR ''-'')"
proof (cases s rule: rev_cases)
  case Nil
  then show ?thesis by (simp add: no_double_def)
next
  case (snoc t d)
  show ?thesis
    unfolding snoc no_double_def
    by (auto simp: nth_append less_Suc_eq)
qed

lemma slug_ok_snoc:
  "slug_ok (s @ [c]) \<longleftrightarrow> slug_ok s \<and> (if c = CHR ''-'' then s \<noteq> [] \<and> last s \<noteq> CHR ''-''
     else name_byte c)"
  by (auto simp: slug_ok_def no_double_snoc hd_append)

lemma slug_ok_prefix: "slug_ok s \<Longrightarrow> prefix t s \<Longrightarrow> slug_ok t"
proof (induction s rule: rev_induct)
  case Nil
  then show ?case by simp
next
  case (snoc c s)
  then show ?case by (auto simp: slug_ok_snoc)
qed

lemma to_lowercase_alnum:
  "d \<in> set (to_lowercase c) \<Longrightarrow> char_is_ascii_alphanumeric d \<Longrightarrow> name_byte (char_of d)"
  by (auto simp: to_lowercase_def char_is_ascii_alphanumeric_def name_byte_def ascii_class_defs
      split: if_splits)

lemma slug_fold_ok:
  assumes "\<forall>d \<in> set cs. char_is_ascii_alphanumeric d \<longrightarrow> name_byte (char_of d)"
    and "slug_ok out" and "out \<noteq> [] \<longrightarrow> name_byte (last out)"
  shows "slug_ok (fst (fold slug_step cs (out, sep)))"
  using assms
proof (induction cs arbitrary: out sep)
  case Nil
  then show ?case by simp
next
  case (Cons d cs)
  show ?case
  proof (cases "char_is_ascii_alphanumeric d")
    case False
    with Cons show ?thesis by simp
  next
    case True
    define out2 where "out2 = (if sep \<and> out \<noteq> [] then out @ ''-'' else out)"
    from True Cons.prems have d: "name_byte (char_of d)" by simp
    then have "char_of d \<noteq> CHR ''-''" by (metis name_byte_not(1))
    moreover have "slug_ok out2"
      using Cons.prems by (auto simp: out2_def slug_ok_snoc)
    ultimately have "slug_ok (out2 @ [char_of d])"
      using d by (simp add: slug_ok_snoc)
    from Cons.IH [OF _ this] d Cons.prems show ?thesis
      by (simp add: True out2_def)
  qed
qed

lemma slug_take: "\<exists>out. slug_ok out \<and> length out \<le> 50
    \<and> slug v = trim_end_matches (\<lambda>c. c = CHR ''-'') out"
proof -
  let ?cs = "concat (map to_lowercase (str_chars v))"
  have "slug_ok (fst (fold slug_step ?cs ([], False)))"
    by (rule slug_fold_ok) (auto dest: to_lowercase_alnum simp: slug_ok_def)
  then have "slug_ok (take (min n 50) (fst (fold slug_step ?cs ([], False))))" for n
    by (rule slug_ok_prefix) (rule take_is_prefix)
  then show ?thesis
    unfolding slug_def Let_def
    by (intro exI [of _ "take (min n 50) out" for n out] conjI) (assumption | simp | rule refl)+
qed

lemma slug_shape:
  assumes "slug v \<noteq> []"
  shows "is_label 50 (slug v)" and "no_double (slug v)"
proof -
  obtain out where out: "slug_ok out" "length out \<le> 50"
    and s: "slug v = trim_end_matches (\<lambda>c. c = CHR ''-'') out"
    using slug_take by blast
  have pre: "prefix (slug v) out"
    unfolding s by (rule trim_end_matches_prefix)
  with out have ok: "slug_ok (slug v)" by (blast intro: slug_ok_prefix)
  moreover have "last (slug v) \<noteq> CHR ''-''"
    using assms last_trim_end_matches [of "\<lambda>c. c = CHR ''-''" out] by (simp add: s)
  moreover have "length (slug v) \<le> 50"
    using prefix_length_le [OF pre] out by simp
  moreover have "last (slug v) \<in> set (slug v)" using assms by simp
  ultimately show "is_label 50 (slug v)" "no_double (slug v)"
    using assms by (auto simp: is_label_def slug_ok_def)
qed

lemma repository_directory_label:
  "repository_directory r = Ok d \<Longrightarrow> is_label 50 d"
  using slug_shape(1) by (auto simp: repository_directory_def Let_def split: if_splits)

section \<open>Facts: allocation of clone names\<close>

lemma is_char_boundary_ascii: "is_ascii s \<Longrightarrow> n \<le> length s \<Longrightarrow> is_char_boundary s n"
  using nth_mem [of n s] by (fastforce simp: is_char_boundary_def is_ascii_def is_cont_def)

lemma clone_candidate_inj:
  assumes "clone_candidate base i = clone_candidate base j"
  shows "i = j"
proof -
  have nd: "CHR ''-'' \<notin> set (decimal n)" for n
    using decimal_digits [of "CHR ''-''" n] by (auto simp: is_ascii_digit_def)
  obtain a b where "clone_candidate base i = a @ CHR ''-'' # decimal i"
    "clone_candidate base j = b @ CHR ''-'' # decimal j"
    by (simp add: clone_candidate_def)
  with assms nd have "decimal i = decimal j"
    by (metis option.inject prod.inject rsplit_at_append)
  then show ?thesis by (simp add: decimal_inj)
qed

lemma clone_candidate_label:
  assumes "is_label 63 base" and "n < 2 ^ 32"
  shows "is_label 63 (clone_candidate base n)"
proof -
  define m where "m = 63 - (length (decimal n) + 1)"
  define t where "t = take (min (length base) m) base"
  define u where "u = trim_end_matches (\<lambda>c. c = CHR ''-'') t"
  have "length (decimal n) \<le> 10"
    by (rule length_decimal) (use assms in simp_all)
  then have m: "0 < m" "m + 1 + length (decimal n) \<le> 63" by (simp_all add: m_def)
  have "str_get_to (min (length base) m) base = Some t"
    using is_label_ascii [OF assms(1)] by (simp add: str_get_to_def is_char_boundary_ascii t_def)
  then have cand: "clone_candidate base n = u @ ''-'' @ decimal n"
    by (simp add: clone_candidate_def Let_def m_def u_def)
  have base: "base \<noteq> []" "name_byte (hd base)" using assms by (simp_all add: is_label_def)
  with m have t: "t \<noteq> []" "hd t = hd base" by (auto simp: t_def)
  have pre: "prefix u t" unfolding u_def by (rule trim_end_matches_prefix)
  have "hd base \<noteq> CHR ''-''" using base by (metis name_byte_not(1))
  with t have "u \<noteq> []"
    unfolding u_def trim_end_matches_def by (cases t) (auto simp: dropWhile_append)
  with pre t have u: "u \<noteq> []" "hd u = hd base" by (auto elim!: prefixE)
  have "set u \<subseteq> set base" "length u \<le> m"
    using set_mono_prefix [OF pre] prefix_length_le [OF pre]
    by (auto simp: t_def dest: in_set_takeD)
  moreover have "last (decimal n) \<in> set (decimal n)" by simp
  ultimately show ?thesis
    using assms(1) base u m decimal_digits [of _ n]
    by (auto simp: cand is_label_def name_byte_def)
qed

text \<open>The names a loop that stops before suffix \<open>n\<close> has found.\<close>

definition free_names :: "string \<Rightarrow> string set \<Rightarrow> nat \<Rightarrow> string list" where
  "free_names base occupied n =
     filter (\<lambda>c. c \<notin> occupied) (map (clone_candidate base) [1..<n])"

lemma distinct_candidates: "distinct (map (clone_candidate base) xs) \<longleftrightarrow> distinct xs"
  using clone_candidate_inj by (auto simp: distinct_map inj_on_def)

lemma distinct_free_names: "distinct (free_names base E n)"
  by (simp add: free_names_def distinct_candidates del: distinct_map)

lemma free_names_Suc:
  "1 \<le> n \<Longrightarrow> free_names base E (Suc n) = free_names base E n @
     (if clone_candidate base n \<in> E then [] else [clone_candidate base n])"
  by (simp add: free_names_def)

lemma free_names_count:
  assumes "finite E" and "1 \<le> n"
  shows "n \<le> length (free_names base E n) + card E + 1"
proof -
  let ?xs = "map (clone_candidate base) [1..<n]"
  have "distinct (filter (\<lambda>c. c \<in> E) ?xs)" by (simp add: distinct_candidates del: distinct_map)
  then have "length (filter (\<lambda>c. c \<in> E) ?xs) = card (set (filter (\<lambda>c. c \<in> E) ?xs))"
    by (simp only: distinct_card)
  also have "\<dots> \<le> card E"
    by (rule card_mono) (use assms in auto)
  finally show ?thesis
    using sum_length_filter_compl [of "\<lambda>c. c \<in> E" ?xs] assms(2) by (simp add: free_names_def)
qed

lemma clone_loop_spec:
  assumes "finite E" and "count + card E + 1 < 2 ^ 32"
    and "\<forall>n < 2 ^ 32. is_label 63 (clone_candidate base n)"
    and "1 \<le> n" and "length (free_names base E n) \<le> count"
  shows "\<exists>k. clone_loop base count (E \<union> set (free_names base E n)) n (free_names base E n)
      = Ok (free_names base E k) \<and> length (free_names base E k) = count \<and> k < 2 ^ 32"
  using assms(4,5)
proof (induction "count + card E + 1 - n" arbitrary: n rule: less_induct)
  case less
  let ?f = "free_names base E n" and ?c = "clone_candidate base n"
  show ?case
  proof (cases "length ?f < count")
    case False
    then have "n < 2 ^ 32"
      using free_names_count [OF assms(1) less.prems(1), of base] less.prems(2) assms(2) by linarith
    with False less.prems show ?thesis
      by (intro exI [of _ n]) (simp add: clone_loop.simps)
  next
    case True
    then have n: "n < count + card E + 1"
      using free_names_count [OF assms(1) less.prems(1), of base] by linarith
    with assms(2) have over: "n + 1 < 2 ^ 32" and n32: "n < 2 ^ 32" by simp_all
    have fresh: "?c \<notin> set ?f"
      using distinct_candidates [of base "[1..<Suc n]"] less.prems(1) by (auto simp: free_names_def)
    have valid: "validate_name ?c = Ok ()"
      using assms(3) n32 by (simp add: validate_name_Ok)
    have step: "clone_loop base count (E \<union> set ?f) n ?f
      = clone_loop base count (E \<union> set (free_names base E (Suc n))) (Suc n)
          (free_names base E (Suc n))"
      using True over fresh valid less.prems(1)
      by (subst clone_loop.simps) (auto simp: free_names_Suc Let_def)
    have "length (free_names base E (Suc n)) \<le> count"
      using True less.prems by (simp add: free_names_Suc)
    from less.hyps [OF _ _ this] n show ?thesis
      unfolding step by simp
  qed
qed

text \<open>C25: For a valid machine name (or none) and a repository a directory can be derived from,
  allocation always returns: exactly as many names as asked for, in the order of their suffixes the
  first ones no machine has, all different and each a valid machine name; no overflow of the
  suffix.\<close>

theorem allocate_clone_names_total:
  assumes "repository_directory repository = Ok derived"
    and "\<forall>r. requested = Some r \<longrightarrow> validate_name r = Ok ()"
    and "count = 1 \<longrightarrow> requested = None"
    and "length existing < 2 ^ 31"
  shows "\<exists>k. allocate_clone_names requested repository count existing
           = Ok (free_names (case requested of Some r \<Rightarrow> r | None \<Rightarrow> derived) (set existing) k)
    \<and> (let names = free_names (case requested of Some r \<Rightarrow> r | None \<Rightarrow> derived) (set existing) k
       in length names = unat count \<and> distinct names \<and> set names \<inter> set existing = {}
          \<and> (\<forall>n \<in> set names. validate_name n = Ok ()))"
proof -
  define base where "base = (case requested of Some r \<Rightarrow> r | None \<Rightarrow> derived)"
  have base: "is_label 63 base"
    using assms(1,2) is_label_mono [OF repository_directory_label]
    by (auto simp: base_def validate_name_Ok split: option.splits)
  have cands: "\<forall>n < 2 ^ 32. is_label 63 (clone_candidate base n)"
    using clone_candidate_label [OF base] by simp
  have "unat count < 65536" by (rule unat_u16)
  moreover have "card (set existing) \<le> length existing" by (rule card_length)
  ultimately have "unat count + card (set existing) + 1 < 2 ^ 32" using assms(4) by simp
  moreover have "free_names base (set existing) 1 = []" by (simp add: free_names_def)
  ultimately obtain k where
      loop: "clone_loop base (unat count) (set existing) 1 [] = Ok (free_names base (set existing) k)"
    and len: "length (free_names base (set existing) k) = unat count" and k: "k < 2 ^ 32"
    using clone_loop_spec [of "set existing" "unat count" base 1] cands by auto
  have "allocate_clone_names requested repository count existing
      = Ok (free_names base (set existing) k)"
    using assms loop by (auto simp: allocate_clone_names_def base_def split: option.splits)
  moreover have "set (free_names base (set existing) k) \<inter> set existing = {}"
    by (auto simp: free_names_def)
  moreover have "n \<in> set (free_names base (set existing) k) \<Longrightarrow> is_label 63 n" for n
    using cands k by (auto simp: free_names_def)
  ultimately show ?thesis
    using len distinct_free_names unfolding base_def [symmetric] Let_def
    by (auto simp: validate_name_Ok)
qed

theorem allocate_clone_names_total_witness:
  "\<exists>k. allocate_clone_names None ''https://host/org/demo.git'' 2 [''demo'', ''demo-2'']
      = Ok (free_names ''demo'' {''demo'', ''demo-2''} k)
    \<and> length (free_names ''demo'' {''demo'', ''demo-2''} k) = 2"
proof -
  have "repository_directory ''https://host/org/demo.git'' = Ok ''demo''" by code_simp
  from allocate_clone_names_total [OF this, of None 2 "[''demo'', ''demo-2'']"] show ?thesis
    by (auto simp: Let_def)
qed

section \<open>Facts: context identifiers\<close>

definition succ_cid :: "32 word \<Rightarrow> 32 word" where
  "succ_cid c = (if c = - 1 then 4096 else c + 1)"

lemma next_cid_Suc:
  "next_cid (Suc n) used c = (if c \<in> used then next_cid n used (succ_cid c) else Some c)"
  by (simp add: succ_cid_def)

text \<open>The identifiers from 4096 up form a ring of \<open>2 ^ 32 - 4096\<close>; \<open>ring_pos\<close> is the place in it.\<close>

definition ring_pos :: "32 word \<Rightarrow> nat" where
  "ring_pos c = unat c - 4096"

lemma succ_cid_ring:
  assumes "4096 \<le> unat c"
  shows "4096 \<le> unat (succ_cid c) \<and> ring_pos (succ_cid c) = Suc (ring_pos c) mod 4294963200"
proof (cases "c = - 1")
  case True
  have "unat (- 1 :: 32 word) = 4294967295"
    by (simp add: unsigned_minus_1_eq_mask mask_eq_exp_minus_1)
  with True show ?thesis by (simp add: succ_cid_def ring_pos_def)
next
  case False
  have less: "unat c < 4294967295"
  proof (rule ccontr)
    assume "\<not> unat c < 4294967295"
    then have "unat c = 4294967295" using unat_u32 [of c] by linarith
    then have "unat c = unat (- 1 :: 32 word)"
      by (simp add: unsigned_minus_1_eq_mask mask_eq_exp_minus_1)
    with False show False by (simp add: word_unat_eq_iff)
  qed
  then have "unat (c + 1) = unat c + 1"
    by (simp add: unat_word_ariths)
  with False less assms show ?thesis by (simp add: succ_cid_def ring_pos_def)
qed

lemma funpow_succ_cid:
  assumes "4096 \<le> unat c"
  shows "4096 \<le> unat ((succ_cid ^^ k) c)
    \<and> ring_pos ((succ_cid ^^ k) c) = (ring_pos c + k) mod 4294963200"
proof (induction k)
  case 0
  then show ?case using assms unat_u32 [of c] by (simp add: ring_pos_def)
next
  case (Suc k)
  then show ?case using succ_cid_ring [of "(succ_cid ^^ k) c"] by (simp add: mod_Suc_eq)
qed

lemma next_cid_None:
  "next_cid n used c = None \<Longrightarrow> k < n \<Longrightarrow> (succ_cid ^^ k) c \<in> used"
proof (induction n arbitrary: c k)
  case 0
  then show ?case by simp
next
  case (Suc n)
  then have c: "c \<in> used" "next_cid n used (succ_cid c) = None"
    by (auto simp: next_cid_Suc simp del: next_cid.simps split: if_splits)
  show ?case
  proof (cases k)
    case 0
    with c show ?thesis by simp
  next
    case (Suc j)
    with Suc.prems(2) Suc.IH [OF c(2), of j] show ?thesis by (simp add: funpow_swap1)
  qed
qed

lemma ring_inj:
  assumes "i < (m :: nat)" and "j < m" and "(p + i) mod m = (p + j) mod m"
  shows "i = j"
proof (cases "i \<le> j")
  case True
  with assms(3) have "m dvd j - i" using mod_eq_dvd_iff_nat [of "p + i" "p + j" m] by simp
  with True assms(1,2) show ?thesis by (auto dest: dvd_imp_le)
next
  case False
  with assms(3) have "m dvd i - j" using mod_eq_dvd_iff_nat [of "p + j" "p + i" m] by simp
  with False assms(1,2) show ?thesis by (auto dest: dvd_imp_le)
qed

lemma next_cid_enough:
  assumes "finite used" and "card used < n" and "n \<le> 4294963200" and "4096 \<le> unat c"
  shows "next_cid n used c \<noteq> None"
proof
  assume "next_cid n used c = None"
  then have sub: "(\<lambda>k. (succ_cid ^^ k) c) ` {..<n} \<subseteq> used"
    using next_cid_None by blast
  have "inj_on (\<lambda>k. (succ_cid ^^ k) c) {..<n}"
  proof (rule inj_onI)
    fix i j assume ij: "i \<in> {..<n}" "j \<in> {..<n}" "(succ_cid ^^ i) c = (succ_cid ^^ j) c"
    then have "(ring_pos c + i) mod 4294963200 = (ring_pos c + j) mod 4294963200"
      using funpow_succ_cid [OF assms(4), of i] funpow_succ_cid [OF assms(4), of j] by simp
    with ij assms(3) show "i = j"
      using ring_inj [of i 4294963200 j "ring_pos c"] by simp
  qed
  then have "card ((\<lambda>k. (succ_cid ^^ k) c) ` {..<n}) = n" by (simp add: card_image)
  with card_mono [OF assms(1) sub] assms(2) show False by simp
qed

lemma next_cid_Some:
  "next_cid n used c = Some d \<Longrightarrow> 4096 \<le> unat c \<Longrightarrow> 4096 \<le> unat d \<and> d \<notin> used"
proof (induction n arbitrary: c)
  case 0
  then show ?case by simp
next
  case (Suc n)
  then show ?case
    using succ_cid_ring [of c]
    by (auto simp: next_cid_Suc simp del: next_cid.simps split: if_splits)
qed

lemma first_cid_range: "4096 \<le> unat (first_cid u)"
proof -
  define w where "w = and (ucast (drop_bit 96 u) :: 32 word) 0x3fffffff"
  have "w \<le> 0x3fffffff" unfolding w_def by (rule word_and_le1)
  then have "unat w \<le> 1073741823" by (simp add: word_le_nat_alt)
  then have "unat (4096 + w) = 4096 + unat w"
    by (simp add: unat_word_ariths)
  then show ?thesis by (simp add: first_cid_def w_def)
qed

text \<open>A new record is always found while fewer machines exist than there are context identifiers;
  its identifier is at least 4096 (never one of the reserved ones) and no other machine's, and the
  record carries the names and references it was asked for.\<close>

theorem new_record_fresh:
  assumes "length existing < 4294963200"
  shows "\<exists>r. new_record u w now nm environment repository dir existing = Some r
    \<and> 4096 \<le> unat (m_vsock_cid r) \<and> m_vsock_cid r \<notin> m_vsock_cid ` set (bt_values existing)
    \<and> m_id r = u \<and> m_workspace_id r = w \<and> m_name r = nm \<and> m_repository_dir r = dir
    \<and> e_reference (m_environment r) = environment"
proof -
  let ?used = "m_vsock_cid ` set (bt_values existing)"
  have "card ?used \<le> length existing"
    using card_length [of "map m_vsock_cid (bt_values existing)"] by (simp add: bt_values_def image_image)
  then have "next_cid (Suc (length existing)) ?used (first_cid u) \<noteq> None"
    using assms by (intro next_cid_enough first_cid_range) auto
  then obtain c where c: "next_cid (Suc (length existing)) ?used (first_cid u) = Some c"
    by blast
  from next_cid_Some [OF this first_cid_range] show ?thesis
    by (simp add: new_record_def c del: next_cid.simps)
qed

theorem new_record_fresh_witness:
  "\<exists>r. new_record 7 8 0 ''demo'' ''debian:13'' None None [] = Some r \<and> 4096 \<le> unat (m_vsock_cid r)"
  using new_record_fresh [of "[]" 7 8 0 "''demo''" "''debian:13''" None None] by auto

end
