(* ===== verification/VmmCommand.thy ===== *)
theory VmmCommand
  imports Storage HostCreds MachineNames
begin

text \<open>
  The command lines of \<open>crates/spawnr/src/vmm.rs\<close>: what Cloud Hypervisor and passt are started with, the
  checks on every value that goes into them, the choice of the host's resolver, and the status line of
  Cloud Hypervisor's API.
\<close>

section \<open>Types and constants\<close>

definition KVM_GET_API_VERSION :: nat where "KVM_GET_API_VERSION = 44544"
definition EXPECTED_KVM_API_VERSION :: int where "EXPECTED_KVM_API_VERSION = 12"
definition START_TIMEOUT :: nat where "START_TIMEOUT = 5000"
definition GRACEFUL_TIMEOUT :: nat where "GRACEFUL_TIMEOUT = 15000"
definition FORCE_TIMEOUT :: nat where "FORCE_TIMEOUT = 3000"
definition MAX_UNIX_SOCKET_PATH_BYTES :: nat where "MAX_UNIX_SOCKET_PATH_BYTES = 107"

datatype vmm_status = VmmStopped | VmmRunning | VmmDegraded

record vmm =
  vm_cloud_hypervisor :: path
  vm_passt :: path
  vm_kernel :: path
  vm_initramfs :: "path option"

definition with_components :: "path \<Rightarrow> path \<Rightarrow> path \<Rightarrow> path option \<Rightarrow> vmm" where
  "with_components ch passt krnl initramfs =
     \<lparr>vm_cloud_hypervisor = ch, vm_passt = passt, vm_kernel = krnl, vm_initramfs = initramfs\<rparr>"

text \<open>A command line: the program and its arguments.\<close>

type_synonym command_line = "path \<times> string list"

section \<open>Checks\<close>

definition validate_unix_socket_path :: "string \<Rightarrow> unit result" where
  "validate_unix_socket_path p =
     ensure (length p \<le> MAX_UNIX_SOCKET_PATH_BYTES) ''Unix socket path is too long'' (Ok ())"

definition option_text :: "string \<Rightarrow> string result" where
  "option_text p =
     ensure (valid_utf8 p) ''Cloud Hypervisor path is not UTF-8''
     (ensure (\<not> list_ex (\<lambda>c. c \<in> {CHR '','', CHR 0x22, CHR 0x0A, CHR 0x0D, CHR 0x00}) p)
       ''Cloud Hypervisor path contains an unsupported character'' (Ok p))"

definition option_path :: "path \<Rightarrow> string result" where
  "option_path p = option_text (display p)"

definition validate_machine_hostname :: "string \<Rightarrow> unit result" where
  "validate_machine_hostname nm =
     ensure (nm \<noteq> [] \<and> length nm \<le> 63 \<and> \<not> starts_with ''-'' nm \<and> \<not> ends_with ''-'' nm
         \<and> list_all (\<lambda>b. is_ascii_lowercase b \<or> is_ascii_digit b \<or> b = CHR ''-'') nm)
       ''invalid machine name for guest hostname'' (Ok ())"

definition mac_octet :: "string \<Rightarrow> nat result" where
  "mac_octet octet =
     ensure (length octet = 2) ''invalid VM MAC address''
       (some_or (from_str_radix 256 16 octet) ''invalid hexadecimal octet in VM MAC address'' Ok)"

definition validate_mac_address :: "string \<Rightarrow> string result" where
  "validate_mac_address address =
     rbind (collect_results (map mac_octet (split_on (\<lambda>c. c = CHR '':'') address))) (\<lambda>octets.
       ensure (length octets = 6 \<and> and (octets ! 0) 3 = 2)
         ''VM MAC address must be a locally administered unicast address'' (Ok address))"

section \<open>Cloud Hypervisor's command line\<close>

definition kernel_cmdline :: "string \<Rightarrow> string" where
  "kernel_cmdline nm =
     ''console=hvc0 root=/dev/vda rw rootfstype=ext4 rootwait panic=1 init=/usr/libexec/spawnr-agent spawnr.machine_name='' @ nm"

definition disk_option :: "string \<Rightarrow> string \<Rightarrow> string \<Rightarrow> string" where
  "disk_option p ident serial =
     ''path='' @ p @ '',id='' @ ident @ '',image_type=raw,direct=off,sparse=on,serial='' @ serial"

definition net_option :: "string \<Rightarrow> string \<Rightarrow> string" where
  "net_option sock mac =
     ''vhost_user=on,vhost_mode=client,socket='' @ sock @ '',mac='' @ mac @ '',id=network''"

definition vsock_option :: "32 word \<Rightarrow> string \<Rightarrow> string" where
  "vsock_option cid sock = ''cid='' @ decimal (unat cid) @ '',socket='' @ sock @ '',id=control''"

definition landlock_option :: "string \<Rightarrow> string" where
  "landlock_option p = ''path='' @ p @ '',access=rw''"

text \<open>The endpoint of the guest's agent connections is beside the virtual socket.\<close>

definition agent_endpoint :: "path \<Rightarrow> string" where
  "agent_endpoint vsock_socket = display vsock_socket @ ''_'' @ decimal SSH_AGENT_VSOCK_PORT"

definition check_command_paths :: "machine_paths \<Rightarrow> unit result" where
  "check_command_paths mp =
     rbind (for_each [mp_api_socket mp, mp_vsock_socket mp, mp_network_socket mp]
        (\<lambda>p. validate_unix_socket_path (display p))) (\<lambda>_.
     rbind (validate_unix_socket_path (agent_endpoint (mp_vsock_socket mp))) (\<lambda>_.
     for_each [mp_environment_disk mp, mp_workspace_disk mp, mp_api_socket mp, mp_vsock_socket mp,
         mp_network_socket mp, mp_serial_log mp, mp_root mp]
       (\<lambda>p. rbind (option_path p) (\<lambda>_. Ok ()))))"

text \<open>The arguments, once every path has been turned into the text of an option.\<close>

definition vmm_arguments ::
    "vmm \<Rightarrow> machine_paths \<Rightarrow> machine_record \<Rightarrow> 8 word \<Rightarrow> string option \<Rightarrow> string \<Rightarrow> string list result" where
  "vmm_arguments v mp r verbose agent_sock mac =
     rbind (option_path (mp_environment_disk mp)) (\<lambda>environment.
     rbind (option_path (mp_workspace_disk mp)) (\<lambda>workspace.
     rbind (option_path (mp_network_socket mp)) (\<lambda>network.
     rbind (option_path (mp_vsock_socket mp)) (\<lambda>vsock.
     rbind (option_path (mp_api_socket mp)) (\<lambda>api.
     rbind (option_path (mp_serial_log mp)) (\<lambda>serial.
     rbind (option_path (mp_root mp)) (\<lambda>root.
     rbind (case agent_sock of None \<Rightarrow> Ok []
            | Some agent \<Rightarrow> rbind (option_text agent) (\<lambda>a. Ok [landlock_option a])) (\<lambda>agent_rule.
       Ok ([''--kernel'', display (vm_kernel v), ''--cmdline'', kernel_cmdline (m_name r),
            ''--cpus'', ''boot=4'', ''--memory'', ''size=4G,shared=on'',
            ''--disk'', disk_option environment ''environment'' ''SPAWNR_ENV'',
            disk_option workspace ''workspace'' ''SPAWNR_WORKSPACE'',
            ''--net'', net_option network mac, ''--vsock'', vsock_option (m_vsock_cid r) vsock,
            ''--api-socket'', ''path='' @ api, ''--console'', ''file='' @ serial,
            ''--serial'', ''null'', ''--rng'', ''src=/dev/urandom'',
            ''--landlock'', ''--landlock-rules'', landlock_option root]
         @ agent_rule
         @ (case vm_initramfs v of None \<Rightarrow> [] | Some p \<Rightarrow> [''--initramfs'', display p])
         @ replicate (min (unat verbose) 3) ''-v'')))))))))"

definition command_with_agent ::
    "vmm \<Rightarrow> machine_paths \<Rightarrow> machine_record \<Rightarrow> 8 word \<Rightarrow> string option \<Rightarrow> command_line io" where
  "command_with_agent v mp r verbose agent_sock =
     thn (lift_r (validate_machine_hostname (m_name r)))
     (bnd (lift_r (validate_mac_address (m_mac_address r))) (\<lambda>mac.
      thn (validate_ext4_image (mp_environment_disk mp))
      (thn (validate_ext4_image (mp_workspace_disk mp))
      (thn (lift_r (check_command_paths mp))
      (bnd (lift_r (vmm_arguments v mp r verbose agent_sock mac)) (\<lambda>args.
        ret (vm_cloud_hypervisor v, args)))))))"

definition vmm_command :: "vmm \<Rightarrow> machine_paths \<Rightarrow> machine_record \<Rightarrow> 8 word \<Rightarrow> command_line io" where
  "vmm_command v mp r verbose = command_with_agent v mp r verbose None"

section \<open>passt's command line\<close>

text \<open>\<open>std::net::Ipv4Addr\<close>: its four octets, its text, and the only text that is parsed to it.\<close>

type_synonym ipv4 = "8 word list"

definition show_ipv4 :: "ipv4 \<Rightarrow> string" where
  "show_ipv4 a = join_with ''.'' (map (\<lambda>b. decimal (unat b)) a)"

definition ipv4_octet :: "string \<Rightarrow> 8 word option" where
  "ipv4_octet t =
     (if t = [] \<or> 3 < length t \<or> \<not> list_all is_ascii_digit t \<or> (1 < length t \<and> hd t = CHR ''0'')
      then None
      else map_option of_nat (from_str_radix 256 10 t))"

definition parse_ipv4 :: "string \<Rightarrow> ipv4 option" where
  "parse_ipv4 t =
     (let os = map ipv4_octet (split_on (\<lambda>c. c = CHR ''.'') t)
      in if length os = 4 \<and> None \<notin> set os then Some (map the os) else None)"

fun first_resolver :: "string list \<Rightarrow> ipv4 option" where
  "first_resolver [] = None"
| "first_resolver (l # ls) =
     (case split_ascii_whitespace (str_trim (hd (split_on (\<lambda>c. c = CHR ''#'') l))) of
        keyword # address # _ \<Rightarrow>
          if keyword \<noteq> ''nameserver'' then first_resolver ls
          else (case parse_ipv4 address of Some a \<Rightarrow> Some a | None \<Rightarrow> first_resolver ls)
      | _ \<Rightarrow> first_resolver ls)"

definition parse_ipv4_resolver :: "string \<Rightarrow> ipv4 result" where
  "parse_ipv4_resolver contents =
     some_or (first_resolver (str_lines contents)) ''host /etc/resolv.conf has no IPv4 nameserver'' Ok"

definition host_ipv4_resolver :: "ipv4 io" where
  "host_ipv4_resolver =
     bnd (sys_read_to_string [''etc'', ''resolv.conf'']) (\<lambda>contents. lift_r (parse_ipv4_resolver contents))"

definition network_command :: "vmm \<Rightarrow> machine_paths \<Rightarrow> 8 word \<Rightarrow> command_line io" where
  "network_command v mp verbose =
     bnd host_ipv4_resolver (\<lambda>host_dns.
       ret (vm_passt v,
         [''--vhost-user'', ''--socket'', display (mp_network_socket mp), ''--foreground'', ''--one-off'',
          ''--no-map-gw'', ''--dns'', ''169.254.0.53'', ''--dns-forward'', ''169.254.0.53'',
          ''--dns-host'', show_ipv4 host_dns, ''--tcp-ports'', ''none'', ''--udp-ports'', ''none'',
          if verbose = 0 then ''--quiet'' else ''--debug'']))"

section \<open>The API of Cloud Hypervisor\<close>

definition CRLF :: string where "CRLF = [CHR 0x0D, CHR 0x0A]"

definition api_request :: "string \<Rightarrow> string" where
  "api_request endpoint =
     ''PUT /api/v1/'' @ endpoint @ '' HTTP/1.1'' @ CRLF @ ''Host: localhost'' @ CRLF
     @ ''Content-Length: 0'' @ CRLF @ ''Connection: close'' @ CRLF @ CRLF"

definition status_code :: "string \<Rightarrow> unit result" where
  "status_code status =
     some_or (case split_whitespace status of _ # v # _ \<Rightarrow> from_str_radix 65536 10 v | _ \<Rightarrow> None)
       ''Cloud Hypervisor returned an invalid HTTP status'' (\<lambda>code.
     ensure (200 \<le> code \<and> code < 300) ''Cloud Hypervisor failed'' (Ok ()))"

text \<open>\<open>BufRead::read_line\<close>: the bytes up to and including the first newline, which must be UTF-8.\<close>

definition first_line :: "string \<Rightarrow> string" where
  "first_line s = (let a = takeWhile (\<lambda>c. c \<noteq> CHR 0x0A) s in take (Suc (length a)) s)"

definition api_response :: "string \<Rightarrow> unit result" where
  "api_response answer =
     (if valid_utf8 (first_line answer) then status_code (first_line answer) else Inl (Io EINVAL))"

end
