(* ===== verification/RuntimeContract.thy ===== *)
theory RuntimeContract
  imports RustPath Protocol
begin

text \<open>
  \<open>crates/spawnr/src/runtime.rs\<close>: the contract between a release of the command and the runtime
  archive it installs: the lock that pins an archive, the manifest inside it, and the checks both
  must pass. \<open>semver\<close> and \<open>serde_json\<close> are third-party: the first is the record \<open>semver\<close> every
  function that parses a version takes, the second the decoder argument of \<open>from_json\<close>. The integers
  of the records (\<open>u16\<close>, \<open>u32\<close>, \<open>u64\<close>) are only compared, and are naturals here.
\<close>

section \<open>Data\<close>

definition RUNTIME_LOCK_SCHEMA_VERSION :: nat where "RUNTIME_LOCK_SCHEMA_VERSION = 1"
definition RUNTIME_MANIFEST_SCHEMA_VERSION :: nat where "RUNTIME_MANIFEST_SCHEMA_VERSION = 1"
definition RUNTIME_TARGET :: string where "RUNTIME_TARGET = ''x86_64-linux''"

definition REQUIRED_COMPONENTS :: "string list" where
  "REQUIRED_COMPONENTS =
     [''busybox'', ''cloud-hypervisor'', ''du'', ''e2fsck'', ''fuse2fs'', ''fusermount3'',
      ''guest-initramfs'', ''guest-kernel'', ''mkfs-ext4'', ''passt'', ''skopeo'', ''spawnr-agent'',
      ''umoci'', ''unshare'']"

text \<open>What the code uses of \<open>semver::Version\<close>: parsing, order, the build part and the text.\<close>

record 'v semver =
  sv_parse :: "string \<Rightarrow> 'v option"
  sv_less :: "'v \<Rightarrow> 'v \<Rightarrow> bool"
  sv_no_build :: "'v \<Rightarrow> bool"
  sv_display :: "'v \<Rightarrow> string"

record cli_compatibility =
  cli_minimum :: string
  cli_maximum_exclusive :: string

datatype archive_format = TarZstd

record runtime_archive =
  ar_file_name :: string
  ar_format :: archive_format
  ar_url :: string
  ar_size_bytes :: nat
  ar_sha256 :: string
  ar_manifest_sha256 :: string

record runtime_lock =
  lk_schema_version :: nat
  lk_runtime_version :: string
  lk_target :: string
  lk_protocol_version :: nat
  lk_cli_compatibility :: cli_compatibility
  lk_release_tag :: string
  lk_archive :: runtime_archive

datatype component_kind = HostExecutable | GuestKernel | GuestInitramfs | GuestExecutable | Data

text \<open>\<open>ElfLoader loader library_paths\<close>.\<close>

datatype runtime_launcher = Direct | ElfLoader string "string list"

record runtime_component =
  rc_name :: string
  rc_version :: string
  rc_kind :: component_kind
  rc_path :: string
  rc_launcher :: "runtime_launcher option"

record runtime_file =
  rf_path :: string
  rf_size_bytes :: nat
  rf_sha256 :: string
  rf_executable :: bool

record runtime_manifest =
  mf_schema_version :: nat
  mf_runtime_version :: string
  mf_target :: string
  mf_protocol_version :: nat
  mf_cli_compatibility :: cli_compatibility
  mf_components :: "runtime_component list"
  mf_files :: "runtime_file list"

section \<open>Checks on single values\<close>

definition validate_target_protocol :: "string \<Rightarrow> nat \<Rightarrow> unit result" where
  "validate_target_protocol target protocol_version =
     ensure (target = RUNTIME_TARGET) ''unsupported runtime target''
       (ensure (protocol_version = PROTOCOL_VERSION) ''runtime protocol is incompatible'' (Ok ()))"

definition parse_version :: "'v semver \<Rightarrow> string \<Rightarrow> 'v result" where
  "parse_version sv v =
     some_or (sv_parse sv v) ''invalid version'' (\<lambda>version.
       ensure (sv_no_build sv version) ''version must not contain build metadata'' (Ok version))"

definition validate_sha256 :: "string \<Rightarrow> unit result" where
  "validate_sha256 v =
     ensure (length v = 64 \<and>
         (\<forall>b \<in> set v. is_ascii_digit b \<or> (97 \<le> byte b \<and> byte b \<le> 102)))
       ''must be 64 lowercase hexadecimal characters''
     (ensure (\<not> (\<forall>b \<in> set v. b = CHR ''0'')) ''must not be the all-zero placeholder'' (Ok ()))"

definition validate_download_url :: "string \<Rightarrow> string \<Rightarrow> unit result" where
  "validate_download_url url fname =
     ensure (starts_with ''https://'' url) ''runtime URL must use HTTPS''
     (ensure (\<not> list_ex is_whitespace (str_chars url) \<and> CHR ''#'' \<notin> set url)
       ''runtime URL contains invalid characters''
     (some_or (strip_prefix ''https://'' url) ''validated HTTPS prefix'' (\<lambda>remainder.
      some_or (split_once CHR ''/'' remainder) ''runtime URL must contain a host and path''
        (\<lambda>(authority, path).
          ensure (authority \<noteq> [] \<and> CHR ''@'' \<notin> set authority \<and> path \<noteq> [])
            ''runtime URL must contain a host without user information and a path''
          (ensure (ends_with (''/'' @ fname) url)
            ''runtime URL must end with its archive file name'' (Ok ()))))))"

definition validate_component_name :: "string \<Rightarrow> unit result" where
  "validate_component_name nm =
     ensure (nm \<noteq> []
         \<and> (\<forall>b \<in> set nm. is_ascii_lowercase b \<or> is_ascii_digit b \<or> b = CHR ''-'')
         \<and> \<not> starts_with ''-'' nm \<and> \<not> ends_with ''-'' nm)
       ''invalid runtime component name'' (Ok ())"

abbreviation is_slash :: "char \<Rightarrow> bool" where
  "is_slash c \<equiv> c = CHR ''/''"

definition validate_runtime_path :: "string \<Rightarrow> bool \<Rightarrow> unit result" where
  "validate_runtime_path path directory =
     ensure (path \<noteq> []) ''runtime path is empty''
     (ensure (\<not> starts_with ''/'' path) ''runtime path must be relative''
     (ensure (CHR 0x5C \<notin> set path) ''runtime path contains a backslash''
     (ensure (\<not> list_ex is_control (str_chars path)) ''runtime path contains a control character''
     (ensure (\<forall>c \<in> set (split_on is_slash path). c \<noteq> [] \<and> c \<noteq> ''.'' \<and> c \<noteq> ''..'')
       ''runtime path contains an unsafe component''
     (ensure (hd (split_on is_slash path) \<in> {''bin'', ''guest'', ''lib'', ''share''})
       ''runtime path is outside the allowed layout''
     (if directory
      then ensure (\<not> ends_with ''/'' path) ''runtime directory must omit trailing slash'' (Ok ())
      else ensure (CHR ''/'' \<in> set path) ''runtime file path must include a file name'' (Ok ())))))))"

definition ensure_sorted :: "string option \<Rightarrow> string \<Rightarrow> unit result" where
  "ensure_sorted previous current =
     (case previous of
        Some p \<Rightarrow> ensure (p < current) ''must be sorted lexicographically'' (Ok ())
      | None \<Rightarrow> Ok ())"

definition expected_component_kind :: "string \<Rightarrow> component_kind option" where
  "expected_component_kind nm =
     (if nm \<in> {''busybox'', ''spawnr-agent''} then Some GuestExecutable
      else if nm = ''guest-initramfs'' then Some GuestInitramfs
      else if nm = ''guest-kernel'' then Some GuestKernel
      else if nm \<in> {''cloud-hypervisor'', ''du'', ''e2fsck'', ''fuse2fs'', ''fusermount3'',
                   ''mkfs-ext4'', ''passt'', ''skopeo'', ''umoci'', ''unshare''}
      then Some HostExecutable
      else None)"

section \<open>Compatibility\<close>

definition cli_validate :: "'v semver \<Rightarrow> cli_compatibility \<Rightarrow> unit result" where
  "cli_validate sv c =
     rbind (parse_version sv (cli_minimum c)) (\<lambda>minimum.
     rbind (parse_version sv (cli_maximum_exclusive c)) (\<lambda>maximum.
       ensure (sv_less sv minimum maximum)
         ''minimum CLI version must be lower than the exclusive maximum'' (Ok ())))"

definition ensure_contains :: "'v semver \<Rightarrow> cli_compatibility \<Rightarrow> 'v \<Rightarrow> unit result" where
  "ensure_contains sv c cli_version =
     rbind (cli_validate sv c) (\<lambda>_.
     (case (sv_parse sv (cli_minimum c), sv_parse sv (cli_maximum_exclusive c)) of
        (Some minimum, Some maximum) \<Rightarrow>
          ensure (\<not> sv_less sv cli_version minimum \<and> sv_less sv cli_version maximum)
            ''runtime does not support this CLI version'' (Ok ())
      | _ \<Rightarrow> Inl (Panic ''validated CLI version'')))"

section \<open>The lock\<close>

definition lock_validate :: "'v semver \<Rightarrow> runtime_lock \<Rightarrow> unit result" where
  "lock_validate sv l =
     ensure (lk_schema_version l = RUNTIME_LOCK_SCHEMA_VERSION)
       ''unsupported runtime lock schema''
     (rbind (parse_version sv (lk_runtime_version l)) (\<lambda>runtime_version.
      rbind (validate_target_protocol (lk_target l) (lk_protocol_version l)) (\<lambda>_.
      rbind (cli_validate sv (lk_cli_compatibility l)) (\<lambda>_.
      ensure (lk_release_tag l = ''v'' @ sv_display sv runtime_version)
        ''runtime release tag must be v and the runtime version''
      (let expected_file = ''spawnr-runtime-'' @ sv_display sv runtime_version @ ''-''
             @ lk_target l @ ''.tar.zst'';
           archive = lk_archive l
       in ensure (ar_file_name archive = expected_file) ''runtime archive is misnamed''
         (ensure (ar_size_bytes archive > 0) ''runtime archive is empty''
         (rbind (validate_sha256 (ar_sha256 archive)) (\<lambda>_.
          rbind (validate_sha256 (ar_manifest_sha256 archive)) (\<lambda>_.
          validate_download_url (ar_url archive) (ar_file_name archive))))))))))"

definition lock_from_json ::
    "'v semver \<Rightarrow> (string \<Rightarrow> runtime_lock option) \<Rightarrow> string \<Rightarrow> runtime_lock result" where
  "lock_from_json sv decode bytes =
     some_or (decode bytes) ''decode Spawnr runtime lock'' (\<lambda>v.
       rbind (lock_validate sv v) (\<lambda>_. Ok v))"

definition lock_validate_for_cli :: "'v semver \<Rightarrow> runtime_lock \<Rightarrow> 'v \<Rightarrow> unit result" where
  "lock_validate_for_cli sv l cli_version =
     rbind (lock_validate sv l) (\<lambda>_. ensure_contains sv (lk_cli_compatibility l) cli_version)"

section \<open>The manifest\<close>

text \<open>\<open>files.iter().find(|file| file.path == path)\<close>.\<close>

definition find_file :: "runtime_file list \<Rightarrow> string \<Rightarrow> runtime_file option" where
  "find_file files path = find (\<lambda>f. rf_path f = path) files"

fun check_library_paths ::
    "runtime_file list \<Rightarrow> string set \<Rightarrow> string list \<Rightarrow> unit result" where
  "check_library_paths files unique [] = Ok ()"
| "check_library_paths files unique (path # paths) =
     rbind (validate_runtime_path path True) (\<lambda>_.
     ensure (path = ''lib'' \<or> starts_with ''lib/'' path) ''ELF library path must be under lib/''
     (ensure (path \<notin> unique) ''duplicate ELF library path''
     (ensure (\<exists>f \<in> set files. starts_with (path @ ''/'') (rf_path f))
       ''ELF library path contains no runtime file''
     (check_library_paths files (insert path unique) paths))))"

definition validate_component_launcher ::
    "runtime_component \<Rightarrow> runtime_file \<Rightarrow> runtime_file list \<Rightarrow> unit result" where
  "validate_component_launcher c component_file files =
     (case rc_kind c of
        HostExecutable \<Rightarrow>
          ensure (rf_executable component_file) ''host component is not executable''
          (some_or (rc_launcher c) ''host component has no launcher'' (\<lambda>launcher.
            case launcher of
              Direct \<Rightarrow> Ok ()
            | ElfLoader loader library_paths \<Rightarrow>
                rbind (validate_runtime_path loader False) (\<lambda>_.
                ensure (starts_with ''lib/'' loader) ''ELF loader must be under lib/''
                (some_or (find_file files loader) ''ELF loader is unlisted'' (\<lambda>loader_file.
                 ensure (rf_executable loader_file) ''ELF loader is not executable''
                 (ensure (library_paths \<noteq> []) ''ELF loader has no library path''
                 (check_library_paths files {} library_paths)))))))
      | GuestExecutable \<Rightarrow>
          ensure (rf_executable component_file) ''guest component is not executable''
          (ensure (rc_launcher c = None) ''guest component must not define a host launcher'' (Ok ()))
      | _ \<Rightarrow> ensure (rc_launcher c = None) ''non-host component must not define a launcher'' (Ok ()))"

fun check_files :: "string set \<Rightarrow> string option \<Rightarrow> runtime_file list \<Rightarrow> unit result" where
  "check_files file_paths previous [] = Ok ()"
| "check_files file_paths previous (f # fs) =
     rbind (validate_runtime_path (rf_path f) False) (\<lambda>_.
     ensure (rf_path f \<noteq> ''manifest.json'') ''manifest.json must not hash itself''
     (ensure (rf_size_bytes f > 0) ''runtime file is empty''
     (rbind (validate_sha256 (rf_sha256 f)) (\<lambda>_.
      ensure (rf_path f \<notin> file_paths) ''duplicate runtime file''
      (rbind (ensure_sorted previous (rf_path f)) (\<lambda>_.
       check_files (insert (rf_path f) file_paths) (Some (rf_path f)) fs))))))"

text \<open>The set of component names the loop has gathered when it ends.\<close>

fun check_components ::
    "runtime_file list \<Rightarrow> string set \<Rightarrow> string option \<Rightarrow> runtime_component list
     \<Rightarrow> string set result" where
  "check_components files component_names previous [] = Ok component_names"
| "check_components files component_names previous (c # cs) =
     rbind (validate_component_name (rc_name c)) (\<lambda>_.
     ensure (rc_name c \<notin> component_names) ''duplicate runtime component''
     (rbind (ensure_sorted previous (rc_name c)) (\<lambda>_.
     ensure (rc_version c \<noteq> [] \<and> \<not> list_ex is_control (str_chars (rc_version c)))
       ''runtime component has an invalid version''
     (ensure (case expected_component_kind (rc_name c) of None \<Rightarrow> True | Some k \<Rightarrow> rc_kind c = k)
       ''runtime component has an unexpected kind''
     (rbind (validate_runtime_path (rc_path c) False) (\<lambda>_.
      some_or (find_file files (rc_path c)) ''runtime component references an unlisted file''
        (\<lambda>component_file.
          rbind (validate_component_launcher c component_file files) (\<lambda>_.
          check_components files (insert (rc_name c) component_names) (Some (rc_name c)) cs))))))))"

definition manifest_validate :: "'v semver \<Rightarrow> runtime_manifest \<Rightarrow> unit result" where
  "manifest_validate sv m =
     ensure (mf_schema_version m = RUNTIME_MANIFEST_SCHEMA_VERSION)
       ''unsupported runtime manifest schema''
     (rbind (parse_version sv (mf_runtime_version m)) (\<lambda>_.
      rbind (validate_target_protocol (mf_target m) (mf_protocol_version m)) (\<lambda>_.
      rbind (cli_validate sv (mf_cli_compatibility m)) (\<lambda>_.
      ensure (mf_components m \<noteq> []) ''runtime has no components''
      (ensure (mf_files m \<noteq> []) ''runtime has no files''
      (rbind (check_files {} None (mf_files m)) (\<lambda>_.
       rbind (check_components (mf_files m) {} None (mf_components m)) (\<lambda>component_names.
       for_each REQUIRED_COMPONENTS (\<lambda>required.
         ensure (required \<in> component_names) ''runtime is missing required component'' (Ok ()))))))))))"

definition manifest_from_json ::
    "'v semver \<Rightarrow> (string \<Rightarrow> runtime_manifest option) \<Rightarrow> string \<Rightarrow> runtime_manifest result" where
  "manifest_from_json sv decode bytes =
     some_or (decode bytes) ''decode Spawnr runtime manifest'' (\<lambda>v.
       rbind (manifest_validate sv v) (\<lambda>_. Ok v))"

definition validate_against_lock ::
    "'v semver \<Rightarrow> runtime_manifest \<Rightarrow> runtime_lock \<Rightarrow> unit result" where
  "validate_against_lock sv m l =
     rbind (manifest_validate sv m) (\<lambda>_.
     rbind (lock_validate sv l) (\<lambda>_.
     ensure (mf_runtime_version m = lk_runtime_version l)
       ''runtime manifest version does not match its lock''
     (ensure (mf_target m = lk_target l) ''runtime manifest target does not match its lock''
     (ensure (mf_protocol_version m = lk_protocol_version l)
       ''runtime manifest protocol does not match its lock''
     (ensure (mf_cli_compatibility m = lk_cli_compatibility l)
       ''runtime manifest CLI compatibility does not match its lock'' (Ok ()))))))"

section \<open>Facts\<close>

text \<open>What a path of the archive is: at least \<open>n\<close> plain names under one of the four directories.\<close>

definition archive_path :: "nat \<Rightarrow> string \<Rightarrow> bool" where
  "archive_path n p =
     (\<exists>ns. p = join_with ''/'' ns \<and> n \<le> length ns \<and> list_all plain_name ns
        \<and> hd ns \<in> {''bin'', ''guest'', ''lib'', ''share''}
        \<and> CHR 0x5C \<notin> set p \<and> \<not> list_ex is_control (str_chars p))"

lemma split_join_names:
  "ns \<noteq> [] \<Longrightarrow> list_all plain_name ns \<Longrightarrow> split_on is_slash (join_with ''/'' ns) = ns"
  by (rule split_on_join) (auto simp: list_all_iff plain_name_def)

lemma not_mem_join: "2 \<le> length ns \<Longrightarrow> CHR ''/'' \<in> set (join_with ''/'' ns)"
  by (cases ns rule: remdups_adj.cases) auto

lemma ends_with_singleton: "ends_with [c] s \<longleftrightarrow> s \<noteq> [] \<and> last s = c"
  by (cases s rule: rev_cases) (auto simp: ends_with_def)

lemma split_on_snoc_sep: "p c \<Longrightarrow> split_on p (q @ [c]) = split_on p q @ [[]]"
proof (induction q)
  case (Cons d q)
  then show ?case
    using split_on_not_Nil [of p q] by (auto split: list.splits)
qed simp

lemma validate_runtime_path_pieces:
  assumes "validate_runtime_path p d = Ok u"
  shows "archive_path (if d then 1 else 2) p"
proof -
  let ?ns = "split_on is_slash p"
  have p: "join_with ''/'' ?ns = p" by (rule join_split_on)
  have "list_all plain_name ?ns"
    using assms split_on_pieces [of _ is_slash p]
    by (fastforce simp: validate_runtime_path_def list_all_iff plain_name_def)
  moreover have "length ?ns \<noteq> 0" by simp
  moreover have "2 \<le> length ?ns" if "CHR ''/'' \<in> set p"
  proof (rule ccontr)
    assume "\<not> 2 \<le> length ?ns"
    then obtain x where x: "?ns = [x]" by (cases ?ns rule: remdups_adj.cases) auto
    with p have "x = p" by simp
    with x that show False using split_on_pieces [of x is_slash p "CHR ''/''"] by simp
  qed
  ultimately show ?thesis
    using assms p unfolding archive_path_def validate_runtime_path_def
    by (intro exI [of _ ?ns]) (auto simp: Suc_le_eq split: if_splits)
qed


lemma validate_runtime_path_Ok [simp]:
  "validate_runtime_path p d = Ok u \<longleftrightarrow> archive_path (if d then 1 else 2) p"
proof
  assume "archive_path (if d then 1 else 2) p"
  then obtain ns where p: "p = join_with ''/'' ns" and len: "(if d then 1 else 2) \<le> length ns"
    and ns: "list_all plain_name ns" and top: "hd ns \<in> {''bin'', ''guest'', ''lib'', ''share''}"
    and chars: "CHR 0x5C \<notin> set p" "\<not> list_ex is_control (str_chars p)"
    unfolding archive_path_def by blast
  have ne: "ns \<noteq> []" using len by (auto split: if_splits)
  then have split: "split_on is_slash p = ns" using ns by (simp add: p split_join_names)
  have "last ns \<noteq> []" "hd ns \<noteq> []"
    using ne ns by (auto simp: list_all_iff plain_name_def)
  moreover have "p = butlast p @ [CHR ''/'']" if "ends_with ''/'' p"
    using that by (metis append_butlast_last_id ends_with_singleton)
  ultimately have "p \<noteq> []" "\<not> starts_with ''/'' p" "\<not> ends_with ''/'' p"
    using split split_on_snoc_sep [of is_slash "CHR ''/''" "butlast p"]
    by (auto elim!: prefixE)
  moreover have "\<not> d \<Longrightarrow> CHR ''/'' \<in> set p"
    using len not_mem_join [of ns] by (auto simp: p split: if_splits)
  ultimately show "validate_runtime_path p d = Ok u"
    using ns top chars
    by (auto simp: validate_runtime_path_def split list_all_iff plain_name_def)
qed (rule validate_runtime_path_pieces)

lemma validate_sha256_Ok [simp]:
  "validate_sha256 v = Ok u \<longleftrightarrow> length v = 64
     \<and> (\<forall>b \<in> set v. is_ascii_digit b \<or> (97 \<le> byte b \<and> byte b \<le> 102)) \<and> (\<exists>b \<in> set v. b \<noteq> CHR ''0'')"
  by (auto simp: validate_sha256_def)

lemma ensure_sorted_Ok [simp]:
  "ensure_sorted prev c = Ok u \<longleftrightarrow> (\<forall>p. prev = Some p \<longrightarrow> p < c)"
  by (auto simp: ensure_sorted_def split: option.splits)

definition file_ok :: "runtime_file \<Rightarrow> bool" where
  "file_ok f = (archive_path 2 (rf_path f) \<and> rf_size_bytes f > 0 \<and> is_ok (validate_sha256 (rf_sha256 f)))"

lemma not_manifest_json: "archive_path 2 p \<Longrightarrow> p \<noteq> ''manifest.json''"
proof
  assume "archive_path 2 p" "p = ''manifest.json''"
  then obtain ns where ns: "join_with ''/'' ns = ''manifest.json''" "2 \<le> length ns"
    unfolding archive_path_def by auto
  then have "CHR ''/'' \<in> set ''manifest.json''" using not_mem_join [of ns] by metis
  then show False by simp
qed

lemma sorted_wrt_prev:
  "(\<forall>q. prev = Some q \<longrightarrow> q < x) \<Longrightarrow> sorted_wrt (<) (x # xs) \<Longrightarrow>
     (\<forall>q y. prev = Some q \<longrightarrow> y \<in> set (x # xs) \<longrightarrow> (q :: string) < y)"
  by (auto intro: order.strict_trans)

lemma check_files_Ok:
  assumes "\<forall>q \<in> seen. \<exists>p. prev = Some p \<and> q \<le> p"
  shows "check_files seen prev fs = Ok u \<longleftrightarrow>
    (\<forall>f \<in> set fs. file_ok f) \<and> sorted_wrt (<) (map rf_path fs)
    \<and> (\<forall>p. prev = Some p \<longrightarrow> (\<forall>f \<in> set fs. p < rf_path f))"
  using assms
proof (induction fs arbitrary: seen prev)
  case Nil
  then show ?case by simp
next
  case (Cons f fs)
  have "\<forall>q \<in> insert (rf_path f) seen. \<exists>p. Some (rf_path f) = Some p \<and> q \<le> p"
    if "\<forall>p. prev = Some p \<longrightarrow> p < rf_path f"
    using Cons.prems that by (auto intro: order.trans less_imp_le)
  moreover have "rf_path f \<notin> seen" if "\<forall>p. prev = Some p \<longrightarrow> p < rf_path f"
    using Cons.prems that by (auto simp: not_le)
  ultimately show ?case
    using Cons.IH [of "insert (rf_path f) seen" "Some (rf_path f)"] not_manifest_json
    by (auto simp: file_ok_def is_ok_iff intro: order.strict_trans simp del: validate_sha256_Ok)
qed

subsection \<open>Components\<close>

definition library_path_ok :: "runtime_file list \<Rightarrow> string \<Rightarrow> bool" where
  "library_path_ok files p =
     (archive_path 1 p \<and> (p = ''lib'' \<or> starts_with ''lib/'' p)
      \<and> (\<exists>f \<in> set files. starts_with (p @ ''/'') (rf_path f)))"

text \<open>
  What an accepted component is: it starts an executable of the archive, and a program loader it
  names is itself an executable file under \<open>lib/\<close> with library directories that hold files.
\<close>

definition launcher_ok :: "runtime_file list \<Rightarrow> runtime_component \<Rightarrow> runtime_file \<Rightarrow> bool" where
  "launcher_ok files c f =
     (case rc_kind c of
        HostExecutable \<Rightarrow> rf_executable f \<and>
          (case rc_launcher c of
             None \<Rightarrow> False
           | Some Direct \<Rightarrow> True
           | Some (ElfLoader l ps) \<Rightarrow>
               archive_path 2 l \<and> starts_with ''lib/'' l
               \<and> (\<exists>lf \<in> set files. rf_path lf = l \<and> rf_executable lf)
               \<and> ps \<noteq> [] \<and> distinct ps \<and> (\<forall>p \<in> set ps. library_path_ok files p))
      | GuestExecutable \<Rightarrow> rf_executable f \<and> rc_launcher c = None
      | _ \<Rightarrow> rc_launcher c = None)"

definition component_ok :: "runtime_file list \<Rightarrow> runtime_component \<Rightarrow> bool" where
  "component_ok files c =
     (is_ok (validate_component_name (rc_name c))
      \<and> rc_version c \<noteq> [] \<and> \<not> list_ex is_control (str_chars (rc_version c))
      \<and> (\<forall>k. expected_component_kind (rc_name c) = Some k \<longrightarrow> rc_kind c = k)
      \<and> archive_path 2 (rc_path c)
      \<and> (\<exists>f \<in> set files. rf_path f = rc_path c \<and> launcher_ok files c f))"

lemma find_file_Some:
  assumes "sorted_wrt (<) (map rf_path files)"
  shows "find_file files p = Some f \<longleftrightarrow> f \<in> set files \<and> rf_path f = p"
  using assms by (induction files) (auto simp: find_file_def)

lemma find_file_None: "find_file files p = None \<longleftrightarrow> (\<forall>f \<in> set files. rf_path f \<noteq> p)"
  by (auto simp: find_file_def find_None_iff)

lemma check_library_paths_Ok [simp]:
  "check_library_paths files un ps = Ok u \<longleftrightarrow>
     (\<forall>p \<in> set ps. library_path_ok files p) \<and> distinct ps \<and> set ps \<inter> un = {}"
  by (induction ps arbitrary: un) (auto simp: library_path_ok_def)

lemma validate_component_launcher_Ok:
  assumes "sorted_wrt (<) (map rf_path files)"
  shows "validate_component_launcher c f files = Ok u \<longleftrightarrow> launcher_ok files c f"
proof (cases "rc_launcher c")
  case None
  then show ?thesis
    by (cases "rc_kind c") (auto simp: validate_component_launcher_def launcher_ok_def)
next
  case (Some l)
  then show ?thesis
    using find_file_Some [OF assms]
    by (cases "rc_kind c"; cases l) (auto simp: validate_component_launcher_def launcher_ok_def)
qed

lemma check_components_Ok:
  assumes sorted: "sorted_wrt (<) (map rf_path files)"
    and "\<forall>q \<in> seen. \<exists>p. prev = Some p \<and> q \<le> p"
  shows "check_components files seen prev cs = Ok names \<longleftrightarrow>
    (\<forall>c \<in> set cs. component_ok files c) \<and> sorted_wrt (<) (map rc_name cs)
    \<and> (\<forall>p. prev = Some p \<longrightarrow> (\<forall>c \<in> set cs. p < rc_name c)) \<and> names = seen \<union> rc_name ` set cs"
  using assms(2)
proof (induction cs arbitrary: seen prev)
  case Nil
  then show ?case by auto
next
  case (Cons c cs)
  let ?first = "\<forall>p. prev = Some p \<longrightarrow> p < rc_name c"
  have "\<forall>q \<in> insert (rc_name c) seen. \<exists>p. Some (rc_name c) = Some p \<and> q \<le> p" if ?first
    using Cons.prems that by (auto intro: order.trans less_imp_le)
  note IH = Cons.IH [OF this]
  have fresh: "rc_name c \<notin> seen" if ?first
    using Cons.prems that by (auto simp: not_le)
  have "check_components files seen prev (c # cs) = Ok names \<longleftrightarrow>
      component_ok files c \<and> ?first
      \<and> check_components files (insert (rc_name c) seen) (Some (rc_name c)) cs = Ok names"
    using find_file_Some [OF sorted] validate_component_launcher_Ok [OF sorted] fresh
    by (auto simp: component_ok_def is_ok_iff split: option.splits)
  also have "\<dots> \<longleftrightarrow> component_ok files c \<and> ?first
      \<and> (\<forall>c \<in> set cs. component_ok files c) \<and> sorted_wrt (<) (map rc_name cs)
      \<and> (\<forall>d \<in> set cs. rc_name c < rc_name d) \<and> names = seen \<union> rc_name ` set (c # cs)"
    using IH by auto
  also have "\<dots> \<longleftrightarrow> (\<forall>c \<in> set (c # cs). component_ok files c)
      \<and> sorted_wrt (<) (map rc_name (c # cs))
      \<and> (\<forall>p. prev = Some p \<longrightarrow> (\<forall>d \<in> set (c # cs). p < rc_name d))
      \<and> names = seen \<union> rc_name ` set (c # cs)"
    by (auto intro: order.strict_trans)
  finally show ?case .
qed

text \<open>C14: A manifest is accepted exactly when its versions are those this build supports, its files are
  listed once each in order under safe relative paths with a real digest, its components are listed
  once each in order, every component is backed by a listed file with the launcher its kind calls
  for, and no required component is missing.\<close>

theorem manifest_validate_iff:
  "manifest_validate sv m = Ok () \<longleftrightarrow>
     mf_schema_version m = RUNTIME_MANIFEST_SCHEMA_VERSION
     \<and> is_ok (parse_version sv (mf_runtime_version m))
     \<and> mf_target m = RUNTIME_TARGET \<and> mf_protocol_version m = PROTOCOL_VERSION
     \<and> cli_validate sv (mf_cli_compatibility m) = Ok ()
     \<and> mf_components m \<noteq> [] \<and> mf_files m \<noteq> []
     \<and> (\<forall>f \<in> set (mf_files m). file_ok f) \<and> sorted_wrt (<) (map rf_path (mf_files m))
     \<and> (\<forall>c \<in> set (mf_components m). component_ok (mf_files m) c)
     \<and> sorted_wrt (<) (map rc_name (mf_components m))
     \<and> set REQUIRED_COMPONENTS \<subseteq> rc_name ` set (mf_components m)"
proof -
  have files: "check_files {} None (mf_files m) = Ok () \<longleftrightarrow>
      (\<forall>f \<in> set (mf_files m). file_ok f) \<and> sorted_wrt (<) (map rf_path (mf_files m))"
    by (subst check_files_Ok) auto
  have comps: "check_components (mf_files m) {} None (mf_components m) = Ok names \<longleftrightarrow>
      (\<forall>c \<in> set (mf_components m). component_ok (mf_files m) c)
      \<and> sorted_wrt (<) (map rc_name (mf_components m)) \<and> names = rc_name ` set (mf_components m)"
    if "sorted_wrt (<) (map rf_path (mf_files m))" for names
    using that by (subst check_components_Ok) auto
  show ?thesis
    unfolding manifest_validate_def validate_target_protocol_def
    by (auto simp: is_ok_iff files comps)
qed


text \<open>A \<open>semver\<close> on plain triples of numbers, and an archive it accepts.\<close>

definition triple_semver :: "(nat \<times> nat \<times> nat) semver" where
  "triple_semver =
     \<lparr>sv_parse = (\<lambda>s. case map (digits_val 10 0) (split_on (\<lambda>c. c = CHR ''.'') s) of
         [Some a, Some b, Some c] \<Rightarrow> Some (a, b, c) | _ \<Rightarrow> None),
      sv_less = (\<lambda>(a, b, c) (d, e, f). a < d \<or> a = d \<and> (b < e \<or> b = e \<and> c < f)),
      sv_no_build = (\<lambda>_. True),
      sv_display = (\<lambda>(a, b, c). decimal a @ ''.'' @ decimal b @ ''.'' @ decimal c)\<rparr>"

definition demo_digest :: string where
  "demo_digest = replicate 63 CHR ''0'' @ ''1''"

definition demo_component :: "string \<Rightarrow> runtime_component" where
  "demo_component nm =
     (let k = the (expected_component_kind nm)
      in \<lparr>rc_name = nm, rc_version = ''1'', rc_kind = k, rc_path = ''bin/'' @ nm,
          rc_launcher = (if k = HostExecutable then Some Direct else None)\<rparr>)"

definition demo_manifest :: runtime_manifest where
  "demo_manifest =
     \<lparr>mf_schema_version = 1, mf_runtime_version = ''1.2.3'', mf_target = ''x86_64-linux'',
      mf_protocol_version = 1,
      mf_cli_compatibility = \<lparr>cli_minimum = ''0.1.0'', cli_maximum_exclusive = ''0.2.0''\<rparr>,
      mf_components = map demo_component REQUIRED_COMPONENTS,
      mf_files = map (\<lambda>nm. \<lparr>rf_path = ''bin/'' @ nm, rf_size_bytes = 1, rf_sha256 = demo_digest,
         rf_executable = True\<rparr>) REQUIRED_COMPONENTS\<rparr>"

definition demo_lock :: runtime_lock where
  "demo_lock =
     \<lparr>lk_schema_version = 1, lk_runtime_version = ''1.2.3'', lk_target = ''x86_64-linux'',
      lk_protocol_version = 1,
      lk_cli_compatibility = \<lparr>cli_minimum = ''0.1.0'', cli_maximum_exclusive = ''0.2.0''\<rparr>,
      lk_release_tag = ''v1.2.3'',
      lk_archive = \<lparr>ar_file_name = ''spawnr-runtime-1.2.3-x86_64-linux.tar.zst'',
        ar_format = TarZstd,
        ar_url = ''https://example.org/spawnr-runtime-1.2.3-x86_64-linux.tar.zst'',
        ar_size_bytes = 1, ar_sha256 = demo_digest, ar_manifest_sha256 = demo_digest\<rparr>\<rparr>"

lemma demo_lock_valid: "lock_validate triple_semver demo_lock = Ok ()"
proof -
  let ?a = "lk_archive demo_lock"
  have "\<not> list_ex is_whitespace (str_chars (ar_url ?a))"
    by (rule ascii_no_whitespace) code_simp+
  moreover have "starts_with ''https://'' (ar_url ?a)" "CHR ''#'' \<notin> set (ar_url ?a)"
    "strip_prefix ''https://'' (ar_url ?a) = Some (''example.org/'' @ ar_file_name ?a)"
    "split_once CHR ''/'' (''example.org/'' @ ar_file_name ?a) = Some (''example.org'', ar_file_name ?a)"
    "ends_with (''/'' @ ar_file_name ?a) (ar_url ?a)" "ar_file_name ?a \<noteq> []"
    by code_simp+
  ultimately have "validate_download_url (ar_url ?a) (ar_file_name ?a) = Ok ()"
    by (simp add: validate_download_url_def)
  moreover have "parse_version triple_semver (lk_runtime_version demo_lock) = Ok (1, 2, 3)"
    "cli_validate triple_semver (lk_cli_compatibility demo_lock) = Ok ()"
    "lk_release_tag demo_lock = ''v'' @ sv_display triple_semver (1, 2, 3)"
    "ar_file_name ?a = ''spawnr-runtime-'' @ sv_display triple_semver (1, 2, 3) @ ''-''
       @ lk_target demo_lock @ ''.tar.zst''"
    "is_ok (validate_sha256 (ar_sha256 ?a))" "is_ok (validate_sha256 (ar_manifest_sha256 ?a))"
    "ar_size_bytes ?a > 0" "lk_schema_version demo_lock = RUNTIME_LOCK_SCHEMA_VERSION"
    "validate_target_protocol (lk_target demo_lock) (lk_protocol_version demo_lock) = Ok ()"
    by code_simp+
  ultimately show ?thesis
    by (simp add: lock_validate_def is_ok_iff Let_def)
qed

lemma demo_manifest_valid: "manifest_validate triple_semver demo_manifest = Ok ()"
proof -
  have "check_files {} None (mf_files demo_manifest) = Ok ()"
    "check_components (mf_files demo_manifest) {} None (mf_components demo_manifest)
      = Ok (set REQUIRED_COMPONENTS)"
    "parse_version triple_semver (mf_runtime_version demo_manifest) = Ok (1, 2, 3)"
    "validate_target_protocol (mf_target demo_manifest) (mf_protocol_version demo_manifest) = Ok ()"
    "cli_validate triple_semver (mf_cli_compatibility demo_manifest) = Ok ()"
    "mf_components demo_manifest \<noteq> []" "mf_files demo_manifest \<noteq> []"
    by code_simp+
  then show ?thesis
    by (simp add: manifest_validate_def) (simp add: demo_manifest_def RUNTIME_MANIFEST_SCHEMA_VERSION_def)
qed

theorem manifest_validate_iff_witness:
  "list_all file_ok (mf_files demo_manifest)
   \<and> list_all (component_ok (mf_files demo_manifest)) (mf_components demo_manifest)
   \<and> sorted_wrt (<) (map rc_name (mf_components demo_manifest))"
  using demo_manifest_valid [unfolded manifest_validate_iff [of triple_semver demo_manifest]]
  by (simp add: list_all_iff)


end
