(* ===== verification/RuntimeInstall.thy ===== *)
theory RuntimeInstall
  imports OsTree Storage RuntimeContract
begin

text \<open>
  \<open>crates/spawnr/src/runtime_install.rs\<close>: the managed runtime is downloaded, checked against its lock,
  unpacked beside the installed one, checked again, moved into place and made the active one; and its
  components are only used after another check. The digest, the archive formats, the HTTP client and
  \<open>serde_json\<close> are third-party: fields of the record \<open>installer\<close>.
\<close>

section \<open>Types\<close>

definition ACTIVE_SCHEMA_VERSION :: nat where "ACTIVE_SCHEMA_VERSION = 1"
definition MAX_LOCK_BYTES :: nat where "MAX_LOCK_BYTES = 64 * 1024"
definition MAX_MANIFEST_BYTES :: nat where "MAX_MANIFEST_BYTES = 2 * 1024 * 1024"
definition MAX_UNPACKED_BYTES :: nat where "MAX_UNPACKED_BYTES = 1024 * 1024 * 1024"
definition TRANSFER_BUFFER :: nat where "TRANSFER_BUFFER = 64 * 1024"

record installed_runtime =
  ir_root :: path
  ir_manifest :: runtime_manifest
  ir_manifest_sha256 :: string

record active_runtime =
  act_schema_version :: nat
  act_runtime_version :: string
  act_manifest_sha256 :: string

record actual_file =
  af_size_bytes :: nat
  af_sha256 :: string
  af_executable :: bool

text \<open>
  A member of a \<open>tar\<close> archive as the library gives it: header fields that may not parse are options,
  \<open>tm_data\<close> is what reading the member yields.
\<close>

record tar_member =
  tm_regular :: bool
  tm_path :: string
  tm_uid :: "nat option"
  tm_gid :: "nat option"
  tm_mtime :: "nat option"
  tm_mode :: "nat option"
  tm_size :: "nat option"
  tm_data :: string

record http_response =
  http_status :: nat
  http_url :: string
  http_length :: "string option"
  http_body :: "string result list"

text \<open>
  \<open>in_untar\<close>: opening an archive may fail, and so may every entry. \<open>in_sha256\<close> gives the 32 raw bytes.
  \<open>in_embedded_lock\<close> is \<open>option_env!("SPAWNR_RUNTIME_LOCK_JSON")\<close>.
\<close>

record 'v installer =
  in_semver :: "'v semver"
  in_lock :: "string \<Rightarrow> runtime_lock option"
  in_manifest :: "string \<Rightarrow> runtime_manifest option"
  in_active :: "active_runtime codec"
  in_sha256 :: "string \<Rightarrow> string"
  in_untar :: "string \<Rightarrow> tar_member result list result"
  in_http :: "string \<Rightarrow> http_response result"
  in_ls :: listing
  in_cli_version :: 'v
  in_embedded_lock :: "string option"

section \<open>Files\<close>

definition hex_digest :: "string \<Rightarrow> string" where
  "hex_digest bytes = concat (map (\<lambda>b. hex2 (byte b)) bytes)"

text \<open>\<open>hash_reader\<close> of a whole file: its size and digest.\<close>

definition hash_reader :: "'v installer \<Rightarrow> string \<Rightarrow> nat \<times> string" where
  "hash_reader i c = (length c, hex_digest (in_sha256 i c))"

text \<open>\<open>Path::join\<close> with a relative text of plain names.\<close>

definition below :: "path \<Rightarrow> string \<Rightarrow> path" where
  "below root t = root @ split_on is_slash t"

definition open_regular :: "path \<Rightarrow> unit io" where
  "open_regular p =
     thn (sys_open_nofollow p)
     (bnd (sys_fstat p) (\<lambda>md. io_ensure (is_regular md) ''is not a regular file'' (ret ())))"

definition read_limited :: "path \<Rightarrow> nat \<Rightarrow> string io" where
  "read_limited p limit =
     thn (sys_open_nofollow p)
     (bnd (sys_fstat p) (\<lambda>md.
       case e_node md of
         File c \<Rightarrow> if length c > limit then fail (Io EINVAL) else sys_read p
       | _ \<Rightarrow> fail (Io EINVAL)))"

fun make_tree_removable :: "nat \<Rightarrow> listing \<Rightarrow> path \<Rightarrow> unit io" where
  "make_tree_removable 0 ls d = too_long"
| "make_tree_removable (Suc n) ls d =
     thn (sys_chmod d 448)
     (bnd (sys_read_dir ls d) (\<lambda>names.
       io_each names (\<lambda>nm.
         bnd (sys_lstat (d @ [nm])) (\<lambda>md.
           if e_node md = Dir then make_tree_removable n ls (d @ [nm]) else ret ()))))"

definition remove_any :: "listing \<Rightarrow> path \<Rightarrow> unit io" where
  "remove_any ls p =
     bnd (attempt (sys_lstat p)) (\<lambda>r.
       case r of
         Inr md \<Rightarrow>
           if e_node md = Dir then thn (make_tree_removable MAX_DEPTH ls p) (sys_remove_dir_all p)
           else sys_unlink p
       | Inl e \<Rightarrow> if e = Io ENOENT then ret () else fail e)"

fun collect_directories :: "nat \<Rightarrow> listing \<Rightarrow> path \<Rightarrow> path list \<Rightarrow> path list io" where
  "collect_directories 0 ls d dirs = too_long"
| "collect_directories (Suc n) ls d dirs =
     bnd (sys_read_dir ls d) (\<lambda>names.
       io_fold (\<lambda>nm ds.
         bnd (sys_lstat (d @ [nm])) (\<lambda>md.
           if e_node md = Dir then collect_directories n ls (d @ [nm]) ds else ret ds))
         names (dirs @ [d]))"

text \<open>\<open>sort_by_key(Reverse(components().count()))\<close>: a stable sort, the deepest first.\<close>

definition deepest_first :: "path list \<Rightarrow> path list" where
  "deepest_first ds = rev (sort_key length (rev ds))"

definition normalize_directories :: "listing \<Rightarrow> path \<Rightarrow> unit io" where
  "normalize_directories ls root =
     bnd (collect_directories MAX_DEPTH ls root []) (\<lambda>ds.
       io_each (deepest_first ds) (\<lambda>d. sys_chmod d 365))"

definition sync_tree :: "listing \<Rightarrow> path \<Rightarrow> unit io" where
  "sync_tree ls root =
     bnd (collect_directories MAX_DEPTH ls root []) (\<lambda>ds.
       io_each (deepest_first ds) sync_directory)"

text \<open>The files below a directory, as texts relative to \<open>root\<close>.\<close>

fun walk_runtime_files :: "nat \<Rightarrow> listing \<Rightarrow> path \<Rightarrow> path \<Rightarrow> string set \<Rightarrow> string set io" where
  "walk_runtime_files 0 ls root d found = too_long"
| "walk_runtime_files (Suc n) ls root d found =
     bnd (sys_read_dir ls d) (\<lambda>names.
       io_fold (\<lambda>nm fnd.
         bnd (sys_lstat (d @ [nm])) (\<lambda>md.
           if e_node md = Dir then walk_runtime_files n ls root (d @ [nm]) fnd
           else io_ensure (is_regular md) ''managed runtime contains a special file''
             (let relative = join_with ''/'' (drop (length root) (d @ [nm]))
              in io_ensure (valid_utf8 relative) ''managed runtime path is not UTF-8''
                (io_ensure (relative \<notin> fnd) ''duplicate managed runtime path''
                  (ret (insert relative fnd))))))
         names found)"

section \<open>Verifying an installation\<close>

definition verify_runtime_file :: "'v installer \<Rightarrow> path \<Rightarrow> runtime_file \<Rightarrow> unit io" where
  "verify_runtime_file i p expected =
     bnd (sys_lstat p) (\<lambda>md.
     io_ensure (is_regular md) ''is not a file''
     (io_ensure (e_nlink md = 1) ''is hard-linked''
     (io_ensure (node_len md = rf_size_bytes expected) ''has the wrong size''
     (io_ensure (e_mode md = (if rf_executable expected then 365 else 292)) ''has unsafe permissions''
     (thn (open_regular p)
     (bnd (sys_read p) (\<lambda>c.
       io_ensure (snd (hash_reader i c) = rf_sha256 expected) ''failed SHA-256 verification''
         (ret ()))))))))"

definition load_installation :: "'v installer \<Rightarrow> path \<Rightarrow> installed_runtime io" where
  "load_installation i root =
     bnd (sys_lstat root) (\<lambda>md.
     io_ensure (e_node md = Dir) ''managed runtime root is not a directory''
     (bnd (read_limited (root @ [''manifest.json'']) MAX_MANIFEST_BYTES) (\<lambda>bytes.
      bnd (lift_r (manifest_from_json (in_semver i) (in_manifest i) bytes)) (\<lambda>m.
        ret \<lparr>ir_root = root, ir_manifest = m, ir_manifest_sha256 = hex_digest (in_sha256 i bytes)\<rparr>))))"

definition verify_installation_at ::
    "'v installer \<Rightarrow> path \<Rightarrow> runtime_lock option \<Rightarrow> installed_runtime io" where
  "verify_installation_at i root lock =
     bnd (load_installation i root) (\<lambda>inst.
     thn (case lock of
            None \<Rightarrow> ret ()
          | Some l \<Rightarrow>
              io_ensure (ir_manifest_sha256 inst = ar_manifest_sha256 (lk_archive l))
                ''installed runtime manifest digest does not match its lock''
                (lift_r (validate_against_lock (in_semver i) (ir_manifest inst) l)))
     (bnd (sys_lstat (root @ [''manifest.json''])) (\<lambda>md.
      io_ensure (is_regular md \<and> e_nlink md = 1 \<and> e_mode md = 292)
        ''installed runtime manifest has unsafe metadata''
      (bnd (walk_runtime_files MAX_DEPTH (in_ls i) root root {}) (\<lambda>found.
       io_ensure (found - {''manifest.json''} = set (map rf_path (mf_files (ir_manifest inst))))
         ''installed runtime files do not match its manifest''
       (thn (io_each (mf_files (ir_manifest inst)) (\<lambda>f.
              verify_runtime_file i (below root (rf_path f)) f))
         (ret inst)))))))"

section \<open>Discovery\<close>

definition discover_runtime :: "'v installer \<Rightarrow> path \<Rightarrow> installed_runtime option io" where
  "discover_runtime i data =
     bnd (attempt (read_limited (runtime_active_file data) MAX_LOCK_BYTES)) (\<lambda>r.
       case r of
         Inl e \<Rightarrow> if e = Io ENOENT then ret None else fail e
       | Inr bytes \<Rightarrow>
           (case dec (in_active i) bytes of
              None \<Rightarrow> fail (Bail ''decode active managed runtime'')
            | Some act \<Rightarrow>
                io_ensure (act_schema_version act = ACTIVE_SCHEMA_VERSION)
                  ''unsupported active runtime schema''
                (case sv_parse (in_semver i) (act_runtime_version act) of
                   None \<Rightarrow> fail (Bail ''active runtime contains an invalid version'')
                 | Some v \<Rightarrow>
                     io_ensure (sv_no_build (in_semver i) v
                         \<and> sv_display (in_semver i) v = act_runtime_version act)
                       ''active runtime version is not canonical''
                     (io_ensure (length (act_manifest_sha256 act) = 64
                         \<and> list_all (\<lambda>b. is_ascii_hexdigit b \<and> \<not> is_ascii_uppercase b)
                             (act_manifest_sha256 act))
                       ''active runtime manifest digest is invalid''
                     (bnd (load_installation i (runtime_version_dir data (act_runtime_version act)))
                       (\<lambda>inst.
                       io_ensure (mf_runtime_version (ir_manifest inst) = act_runtime_version act)
                         ''active runtime version does not match its manifest''
                       (io_ensure (ir_manifest_sha256 inst = act_manifest_sha256 act)
                         ''active runtime manifest digest does not match active.json''
                       (thn (lift_r (ensure_contains (in_semver i)
                              (mf_cli_compatibility (ir_manifest inst)) (in_cli_version i)))
                         (ret (Some inst))))))))))"

definition verify_active :: "'v installer \<Rightarrow> path \<Rightarrow> installed_runtime option io" where
  "verify_active i data =
     bnd (discover_runtime i data) (\<lambda>active.
       case active of
         None \<Rightarrow> ret None
       | Some a \<Rightarrow> bnd (verify_installation_at i (ir_root a) None) (\<lambda>inst. ret (Some inst)))"

definition runtime_component_path :: "'v installer \<Rightarrow> installed_runtime \<Rightarrow> string \<Rightarrow> path io" where
  "runtime_component_path i inst name =
     (case find (\<lambda>c. rc_name c = name) (mf_components (ir_manifest inst)) of
        None \<Rightarrow> fail (Bail ''managed runtime has no component'')
      | Some c \<Rightarrow>
          (case find_file (mf_files (ir_manifest inst)) (rc_path c) of
             None \<Rightarrow> fail (Panic ''validated component references a runtime file'')
           | Some expected \<Rightarrow>
               (let p = below (ir_root inst) (rc_path c)
                in bnd (sys_canonicalize (ir_root inst)) (\<lambda>canonical_root.
                   bnd (sys_canonicalize p) (\<lambda>canonical_path.
                   io_ensure (path_starts_with canonical_path canonical_root)
                     ''managed runtime component escapes its versioned root''
                   (thn (verify_runtime_file i p expected) (ret p)))))))"

definition component_path :: "'v installer \<Rightarrow> path \<Rightarrow> string \<Rightarrow> path option io" where
  "component_path i data name =
     bnd (discover_runtime i data) (\<lambda>r.
       case r of
         None \<Rightarrow> ret None
       | Some inst \<Rightarrow> bnd (runtime_component_path i inst name) (\<lambda>p. ret (Some p)))"

definition preferred_component :: "'v installer \<Rightarrow> path \<Rightarrow> string \<Rightarrow> string \<Rightarrow> path \<Rightarrow> path io" where
  "preferred_component i data override_variable name legacy =
     bnd (env_var override_variable) (\<lambda>ovr.
       if ovr \<noteq> None then ret legacy
       else bnd (component_path i data name) (\<lambda>c.
         case c of
           Some p \<Rightarrow> ret p
         | None \<Rightarrow>
             if in_embedded_lock i \<noteq> None then fail (Bail ''managed runtime is not installed'')
             else ret legacy))"

section \<open>Making an installation active\<close>

definition active_commit :: "string \<Rightarrow> path \<Rightarrow> path \<Rightarrow> path \<Rightarrow> unit io" where
  "active_commit bytes directory temporary destination =
     thn (sys_create_new temporary 384)
     (thn (sys_write temporary bytes)
     (thn (sys_write temporary newline)
     (thn sys_nop
     (thn (sys_rename temporary destination)
     (sync_directory directory)))))"

definition active_of :: "installed_runtime \<Rightarrow> active_runtime" where
  "active_of inst = \<lparr>act_schema_version = ACTIVE_SCHEMA_VERSION,
     act_runtime_version = mf_runtime_version (ir_manifest inst),
     act_manifest_sha256 = ir_manifest_sha256 inst\<rparr>"

definition write_active :: "'v installer \<Rightarrow> path \<Rightarrow> installed_runtime \<Rightarrow> unit io" where
  "write_active i data inst =
     bnd new_uuid (\<lambda>u.
       let temporary = runtime_dir data @ [''.active-'' @ uuid_text u @ ''.tmp'']
       in on_error
            (active_commit (enc (in_active i) (active_of inst)) (runtime_dir data) temporary
              (runtime_active_file data))
            (sys_unlink temporary))"

text \<open>The blocked termination signals are not modelled.\<close>

definition install_staging ::
    "'v installer \<Rightarrow> path \<Rightarrow> path \<Rightarrow> path \<Rightarrow> installed_runtime \<Rightarrow> unit io" where
  "install_staging i data staging destination inst =
     bnd (attempt (sys_lstat destination)) (\<lambda>r.
     thn (if is_ok r then sys_exchange staging destination
          else sys_rename_dir (in_ls i) staging destination)
     (thn (write_active i data (inst\<lparr>ir_root := destination\<rparr>))
     (thn (sync_directory (runtime_dir data))
     (bnd (sys_exists staging) (\<lambda>left.
       if left then remove_any (in_ls i) staging else ret ())))))"

section \<open>Unpacking\<close>

text \<open>
  Reading a stream of data in buffers of 64 KiB and writing them out, until the data ends or exceeds
  \<open>limit\<close>; the result is how much was written. The first argument is the turns left.
\<close>

fun transfer :: "nat \<Rightarrow> path \<Rightarrow> nat \<Rightarrow> nat \<Rightarrow> string \<Rightarrow> string \<Rightarrow> nat io" where
  "transfer 0 p limit written msg d = (if d = [] then ret written else fail Hangs)"
| "transfer (Suc n) p limit written msg d =
     (if d = [] then ret written
      else
        (let buffer = take TRANSFER_BUFFER d; total = written + length buffer
         in io_ensure (total \<le> limit) msg
              (thn (sys_write p buffer)
                (transfer n p limit total msg (drop TRANSFER_BUFFER d)))))"

text \<open>What the header of a member must say, in the order of the checks: its path, mode and size.\<close>

definition member_owner :: "tar_member \<Rightarrow> unit result" where
  "member_owner m =
     some_or (tm_uid m) ''invalid header'' (\<lambda>uid.
       if uid \<noteq> 0 then bail ''runtime archive member is not owned by 0:0''
       else some_or (tm_gid m) ''invalid header'' (\<lambda>gid.
         ensure (gid = 0) ''runtime archive member is not owned by 0:0'' (Ok ())))"

definition member_header ::
    "(string, actual_file) btree_map \<Rightarrow> tar_member \<Rightarrow> (string \<times> nat \<times> nat) result" where
  "member_header actual m =
     ensure (tm_regular m) ''runtime archive contains a non-regular member''
     (ensure (valid_utf8 (tm_path m)) ''runtime archive path is not UTF-8''
     (rbind (if tm_path m \<noteq> ''manifest.json'' then validate_runtime_path (tm_path m) False else Ok ()) (\<lambda>_.
      ensure (bt_get actual (tm_path m) = None) ''duplicate runtime archive member''
     (rbind (member_owner m) (\<lambda>_.
      some_or (tm_mtime m) ''invalid header'' (\<lambda>mtime.
      ensure (mtime = 1) ''runtime archive member has a non-normalized mtime''
     (some_or (tm_mode m) ''invalid header'' (\<lambda>raw_mode.
      let mode = and raw_mode 4095
      in ensure (mode = 292 \<or> mode = 365) ''runtime archive member has unsafe mode''
     (some_or (tm_size m) ''invalid header'' (\<lambda>size.
      ensure (size > 0) ''runtime archive member is empty'' (Ok (tm_path m, mode, size))))))))))))"

type_synonym unpacked = "(string, actual_file) btree_map \<times> nat"

text \<open>Writing one member out, after its header has been checked.\<close>

definition store_member ::
    "'v installer \<Rightarrow> path \<Rightarrow> tar_member \<Rightarrow> unpacked \<Rightarrow> string \<times> nat \<times> nat \<Rightarrow> unpacked io" where
  "store_member i staging m acc header =
     (let (actual, total_size) = acc; (path, mode, size) = header; destination = below staging path in
      bnd (lift_r (some_or (checked_add total_size size) ''runtime unpacked size overflow'' Ok)) (\<lambda>total.
      io_ensure (total \<le> MAX_UNPACKED_BYTES) ''runtime archive exceeds the unpacked size limit''
      (io_ensure (path = ''manifest.json'' \<longrightarrow> size \<le> MAX_MANIFEST_BYTES)
        ''runtime manifest exceeds the size limit''
      (case parent destination of
         None \<Rightarrow> fail (Bail ''runtime archive member has no parent'')
       | Some up \<Rightarrow>
           thn (sys_create_dir_all up)
           (thn (sys_create_new destination 384)
           (bnd (transfer (length (tm_data m)) destination size 0
                  ''runtime member exceeds its header size'' (tm_data m)) (\<lambda>written.
            io_ensure (written = size) ''runtime member is truncated''
            (thn (sys_chmod destination mode)
            (thn sys_nop
            (ret (bt_insert path \<lparr>af_size_bytes = size, af_sha256 = hex_digest (in_sha256 i (tm_data m)),
                  af_executable = (mode = 365)\<rparr> actual, total)))))))))))"

definition unpack_member :: "'v installer \<Rightarrow> path \<Rightarrow> tar_member result \<Rightarrow> unpacked \<Rightarrow> unpacked io" where
  "unpack_member i staging entry acc =
     bnd (lift_r entry) (\<lambda>m.
     bnd (lift_r (member_header (fst acc) m)) (store_member i staging m acc))"

fun check_unpacked :: "(string, actual_file) btree_map \<Rightarrow> runtime_file list \<Rightarrow> unit result" where
  "check_unpacked actual [] = Ok ()"
| "check_unpacked actual (f # fs) =
     some_or (bt_get actual (rf_path f)) ''runtime archive is missing a file'' (\<lambda>found.
       ensure (af_size_bytes found = rf_size_bytes f \<and> af_sha256 found = rf_sha256 f
           \<and> af_executable found = rf_executable f)
         ''runtime archive member does not match its manifest'' (check_unpacked actual fs))"

definition extract_archive :: "'v installer \<Rightarrow> path \<Rightarrow> path \<Rightarrow> runtime_lock \<Rightarrow> unit io" where
  "extract_archive i archive staging lock =
     thn (open_regular archive)
     (bnd (sys_read archive) (\<lambda>packed.
      bnd (lift_r (in_untar i packed)) (\<lambda>entries.
      bnd (io_fold (unpack_member i staging) entries ([], 0)) (\<lambda>(actual, _).
      bnd (read_limited (staging @ [''manifest.json'']) MAX_MANIFEST_BYTES) (\<lambda>bytes.
      io_ensure (hex_digest (in_sha256 i bytes) = ar_manifest_sha256 (lk_archive lock))
        ''runtime manifest SHA-256 does not match its lock''
      (bnd (lift_r (manifest_from_json (in_semver i) (in_manifest i) bytes)) (\<lambda>manifest.
      thn (lift_r (validate_against_lock (in_semver i) manifest lock))
      (bnd (lift_r (some_or (bt_get actual ''manifest.json'')
              ''runtime archive has no manifest.json'' Ok)) (\<lambda>manifest_actual.
       let members = bt_remove ''manifest.json'' actual in
       io_ensure (\<not> af_executable manifest_actual) ''runtime manifest must not be executable''
       (io_ensure (length members = length (mf_files manifest))
         ''runtime archive members do not match the manifest''
       (thn (lift_r (check_unpacked members (mf_files manifest)))
       (thn (normalize_directories (in_ls i) staging)
       (sync_tree (in_ls i) staging)))))))))))))"

section \<open>Setting up\<close>

definition load_runtime_lock :: "'v installer \<Rightarrow> path option \<Rightarrow> runtime_lock io" where
  "load_runtime_lock i p =
     bnd (case p of
            Some q \<Rightarrow> read_limited q MAX_LOCK_BYTES
          | None \<Rightarrow> (case in_embedded_lock i of
              Some embedded \<Rightarrow> ret embedded
            | None \<Rightarrow> fail (Bail ''this development build has no embedded runtime lock'')))
       (\<lambda>bytes. lift_r (lock_from_json (in_semver i) (in_lock i) bytes))"

fun save_body :: "path \<Rightarrow> nat \<Rightarrow> nat \<Rightarrow> string result list \<Rightarrow> nat io" where
  "save_body p limit got [] = ret got"
| "save_body p limit got (r # rs) =
     bnd (lift_r r) (\<lambda>buffer.
     bnd (lift_r (some_or (checked_add got (length buffer)) ''runtime download size overflow'' Ok)) (\<lambda>total.
     io_ensure (total \<le> limit) ''runtime download exceeds its locked size''
       (thn (sys_write p buffer) (save_body p limit total rs))))"

definition download_archive :: "'v installer \<Rightarrow> path \<Rightarrow> runtime_lock \<Rightarrow> path io" where
  "download_archive i data lock =
     bnd new_uuid (\<lambda>u.
       let destination = runtime_dir data @ [''.download-'' @ lk_runtime_version lock @ ''-'' @ uuid_text u];
           expected = ar_size_bytes (lk_archive lock)
       in on_error
            (bnd (lift_r (in_http i (ar_url (lk_archive lock)))) (\<lambda>response.
             io_ensure (http_status response = 200) ''runtime download failed''
             (io_ensure (starts_with ''https://'' (http_url response))
               ''runtime download redirected outside HTTPS''
             (io_ensure (case http_length response of None \<Rightarrow> True
                 | Some l \<Rightarrow> parse_u64 l = Some expected)
               ''runtime download Content-Length does not match its lock''
             (thn (sys_create_new destination 384)
             (bnd (save_body destination expected 0 (http_body response)) (\<lambda>size.
              io_ensure (size = expected) ''runtime download is truncated''
              (thn sys_nop (ret destination)))))))))
            (sys_unlink destination))"

definition verify_archive :: "'v installer \<Rightarrow> path \<Rightarrow> runtime_lock \<Rightarrow> unit io" where
  "verify_archive i p lock =
     thn (open_regular p)
     (bnd (sys_read p) (\<lambda>c.
       let (size, digest) = hash_reader i c
       in io_ensure (size = ar_size_bytes (lk_archive lock)) ''runtime archive has the wrong size''
         (io_ensure (digest = ar_sha256 (lk_archive lock))
           ''runtime archive SHA-256 does not match its lock'' (ret ()))))"

text \<open>\<open>SetupLock::acquire\<close>: no other setup runs until the lock file is closed.\<close>

definition acquire_setup_lock :: "path \<Rightarrow> unit io" where
  "acquire_setup_lock p = thn (sys_open_create p 384 True) sys_nop"

definition install_from :: "'v installer \<Rightarrow> path \<Rightarrow> runtime_lock \<Rightarrow> path \<Rightarrow> path \<Rightarrow> installed_runtime io" where
  "install_from i data lock archive staging =
     (let destination = runtime_version_dir data (lk_runtime_version lock)
      in thn (extract_archive i archive staging lock)
         (bnd (verify_installation_at i staging (Some lock)) (\<lambda>inst.
          thn (install_staging i data staging destination inst)
            (verify_installation_at i destination (Some lock)))))"

text \<open>The outcome: the installation, and whether it was installed just now.\<close>

definition setup_fresh ::
    "'v installer \<Rightarrow> path \<Rightarrow> runtime_lock \<Rightarrow> path option \<Rightarrow> (installed_runtime \<times> bool) io" where
  "setup_fresh i data lock supplied =
     bnd (case supplied of Some a \<Rightarrow> ret a | None \<Rightarrow> download_archive i data lock) (\<lambda>archive.
     thn (verify_archive i archive lock)
     (bnd new_uuid (\<lambda>u.
       let staging = runtime_dir data @ [''.install-'' @ lk_runtime_version lock @ ''-'' @ uuid_text u]
       in thn (create_private_dir staging)
          (bnd (attempt (on_error (install_from i data lock archive staging)
                  (remove_any (in_ls i) staging))) (\<lambda>r.
           thn (if supplied = None then bnd (attempt (sys_unlink archive)) (\<lambda>_. ret ()) else ret ())
             (bnd (lift_r r) (\<lambda>inst. ret (inst, True))))))))"

definition setup_runtime ::
    "'v installer \<Rightarrow> path \<Rightarrow> path option \<Rightarrow> path option \<Rightarrow> (installed_runtime \<times> bool) io" where
  "setup_runtime i data lock_path supplied =
     thn (create_private_dir data)
     (thn (create_private_dir (runtime_dir data))
     (thn (acquire_setup_lock (runtime_lock_file data))
     (bnd (load_runtime_lock i lock_path) (\<lambda>lock.
     thn (lift_r (lock_validate_for_cli (in_semver i) lock (in_cli_version i)))
     (let destination = runtime_version_dir data (lk_runtime_version lock)
      in bnd (sys_exists destination) (\<lambda>there.
         bnd (if there then attempt (verify_installation_at i destination (Some lock))
              else ret (bail ''not installed'')) (\<lambda>r.
           case r of
             Inr inst \<Rightarrow> thn (write_active i data inst) (ret (inst, False))
           | Inl _ \<Rightarrow> setup_fresh i data lock supplied)))))))"

end
