(* ===== verification/VmmControl.thy ===== *)
theory VmmControl
  imports VmmCommand RuntimeInstall
begin

text \<open>
  \<open>crates/spawnr/src/vmm.rs\<close>: starting and stopping the two helper processes of a machine, passt and Cloud
  Hypervisor, their status, the discovery of their programs, and the report of \<open>spawnr doctor\<close>. What a
  server that listens on a socket answers, KVM, the platform and the printed form of an error are the
  fields of a record.
\<close>

record vmm_host =
  vh_platform :: "string \<times> string"
  vh_is_char_device :: "entry \<Rightarrow> bool"
  vh_kvm_api :: "nat \<Rightarrow> os \<Rightarrow> errno + int"
  vh_answer :: "path \<Rightarrow> string \<Rightarrow> os \<Rightarrow> string result"
  vh_full_text :: "err \<Rightarrow> string"
  vh_short_text :: "err \<Rightarrow> string"

section \<open>Discovery\<close>

definition sys_kvm_api :: "vmm_host \<Rightarrow> int io" where
  "sys_kvm_api h = syscall (\<lambda>s. case vh_kvm_api h KVM_GET_API_VERSION s of
     Inl e \<Rightarrow> (Inl (Io e), s) | Inr v \<Rightarrow> (Ok v, s))"

definition verify_kvm :: "vmm_host \<Rightarrow> unit io" where
  "verify_kvm h =
     thn (sys_open_nofollow [''dev'', ''kvm''])
     (bnd (sys_fstat [''dev'', ''kvm'']) (\<lambda>md.
      io_ensure (e_node md = Special \<and> vh_is_char_device h md) ''/dev/kvm is not a character device''
      (bnd (sys_kvm_api h) (\<lambda>version.
       io_ensure (version = EXPECTED_KVM_API_VERSION) ''unexpected KVM API version'' (ret ())))))"

definition resolve_asset :: "string \<Rightarrow> path \<Rightarrow> path option io" where
  "resolve_asset variable bundled =
     bnd (env_var variable) (\<lambda>ovr.
     bnd (case ovr of
            Some t \<Rightarrow> ret (Some t)
          | None \<Rightarrow> bnd (sys_exists bundled) (\<lambda>there. ret (if there then Some (display bundled) else None)))
       (\<lambda>chosen.
       case chosen of
         None \<Rightarrow> ret None
       | Some p \<Rightarrow>
           thn (sys_metadata_text p)
           (bnd (sys_metadata_text p) (\<lambda>md.
            io_ensure (is_regular md) ''is not a regular file''
            (bnd (sys_canonicalize_text p) (\<lambda>q. ret (Some q)))))))"

definition required_asset :: "string \<Rightarrow> string \<Rightarrow> path \<Rightarrow> path io" where
  "required_asset msg variable bundled =
     bnd (resolve_asset variable bundled) (\<lambda>x. case x of Some p \<Rightarrow> ret p | None \<Rightarrow> fail (Bail msg))"

definition supported :: "vmm_host \<Rightarrow> bool" where
  "supported h = (vh_platform h = (''linux'', ''x86_64''))"

definition vmm_discover :: "vmm_host \<Rightarrow> 'v installer \<Rightarrow> path \<Rightarrow> vmm io" where
  "vmm_discover h i data =
     io_ensure (supported h) ''Spawnr V1 requires Linux x86_64''
     (thn (verify_kvm h)
     (bnd (preferred_component i data ''SPAWNR_CLOUD_HYPERVISOR'' ''cloud-hypervisor''
             (bin_dir data @ [''cloud-hypervisor''])) (\<lambda>ch_bundle.
      bnd (resolve_executable ''SPAWNR_CLOUD_HYPERVISOR'' ch_bundle ''cloud-hypervisor'') (\<lambda>ch.
      bnd (preferred_component i data ''SPAWNR_PASST'' ''passt'' (bin_dir data @ [''passt'']))
        (\<lambda>passt_bundle.
      bnd (resolve_executable ''SPAWNR_PASST'' passt_bundle ''passt'') (\<lambda>passt.
      bnd (preferred_component i data ''SPAWNR_KERNEL'' ''guest-kernel'' (bin_dir data @ [''vmlinux'']))
        (\<lambda>kernel_bundle.
      bnd (required_asset ''Spawnr guest kernel is unavailable'' ''SPAWNR_KERNEL'' kernel_bundle) (\<lambda>krnl.
      bnd (preferred_component i data ''SPAWNR_INITRAMFS'' ''guest-initramfs''
             (bin_dir data @ [''initramfs''])) (\<lambda>initramfs_bundle.
      bnd (required_asset ''Spawnr guest initramfs is unavailable'' ''SPAWNR_INITRAMFS'' initramfs_bundle)
        (\<lambda>initramfs.
        ret \<lparr>vm_cloud_hypervisor = ch, vm_passt = passt, vm_kernel = krnl,
             vm_initramfs = Some initramfs\<rparr>))))))))))"

section \<open>Status\<close>

definition vmm_status_of :: "process_identity codec \<Rightarrow> machine_paths \<Rightarrow> vmm_status io" where
  "vmm_status_of c mp =
     bnd (inspect_pid_file c (mp_vmm_pid_file mp)) (\<lambda>v.
     bnd (inspect_pid_file c (mp_network_pid_file mp)) (\<lambda>n.
       ret (case (status_is_running v, status_is_running n) of
              (True, True) \<Rightarrow> VmmRunning
            | (False, False) \<Rightarrow> VmmStopped
            | _ \<Rightarrow> VmmDegraded)))"

section \<open>Stopping\<close>

definition cloud_hypervisor_request :: "vmm_host \<Rightarrow> path \<Rightarrow> string \<Rightarrow> unit io" where
  "cloud_hypervisor_request h sock endpoint =
     bnd (syscall (\<lambda>s. (vh_answer h sock (api_request endpoint) s, s))) (\<lambda>answer.
       lift_r (api_response answer))"

definition stop_network :: "process_identity codec \<Rightarrow> machine_paths \<Rightarrow> unit io" where
  "stop_network c mp =
     bnd (inspect_pid_file c (mp_network_pid_file mp)) (\<lambda>st.
       case st of
         Missing \<Rightarrow> ret ()
       | StaleProcess found \<Rightarrow> remove_pid_file c (mp_network_pid_file mp) found
       | RunningProcess i \<Rightarrow>
           thn (terminate i FORCE_TIMEOUT) (remove_pid_file c (mp_network_pid_file mp) i))"

text \<open>The first of the errors that were kept while going on.\<close>

definition error_of :: "'a result \<Rightarrow> err option" where
  "error_of r = (case r of Inl e \<Rightarrow> Some e | Inr _ \<Rightarrow> None)"

definition first_error :: "err option \<Rightarrow> 'a result \<Rightarrow> err option" where
  "first_error e r = (case e of Some x \<Rightarrow> Some x | None \<Rightarrow> error_of r)"

text \<open>What \<open>stop\<close> does about the VMM: an error of stopping it is kept, and the rest goes on.\<close>

definition stop_running_vmm ::
    "vmm_host \<Rightarrow> process_identity codec \<Rightarrow> machine_paths \<Rightarrow> process_identity \<Rightarrow> err option io" where
  "stop_running_vmm h c mp i =
     thn (attempt (cloud_hypervisor_request h (mp_api_socket mp) ''vm.power-button''))
     (bnd (wait_for_exit i GRACEFUL_TIMEOUT) (\<lambda>gone.
      thn (if gone = Some True then ret ()
           else thn (attempt (cloud_hypervisor_request h (mp_api_socket mp) ''vm.shutdown'')) (ret ()))
      (bnd (wait_for_exit i FORCE_TIMEOUT) (\<lambda>exited.
       bnd (attempt (if exited = Some True then ret () else terminate i FORCE_TIMEOUT)) (\<lambda>r.
       bnd (is_current i) (\<lambda>current.
       thn (if current then ret () else remove_pid_file c (mp_vmm_pid_file mp) i)
         (ret (error_of r))))))))"

definition stop_vmm_process ::
    "vmm_host \<Rightarrow> process_identity codec \<Rightarrow> machine_paths \<Rightarrow> err option io" where
  "stop_vmm_process h c mp =
     bnd (inspect_pid_file c (mp_vmm_pid_file mp)) (\<lambda>st.
       case st of
         Missing \<Rightarrow> ret None
       | StaleProcess found \<Rightarrow> thn (remove_pid_file c (mp_vmm_pid_file mp) found) (ret None)
       | RunningProcess i \<Rightarrow> stop_running_vmm h c mp i)"

definition vmm_stop :: "vmm_host \<Rightarrow> machine_codecs \<Rightarrow> machine_paths \<Rightarrow> machine_record \<Rightarrow> unit io" where
  "vmm_stop h cs mp r =
     thn (assert_owned cs mp r)
     (bnd (stop_vmm_process h (mc_identity cs) mp) (\<lambda>e1.
      bnd (attempt (stop_network (mc_identity cs) mp)) (\<lambda>net.
        case first_error e1 net of
          None \<Rightarrow> clear_session cs mp r
        | Some e \<Rightarrow> fail e)))"

section \<open>Starting\<close>

text \<open>One turn of \<open>wait_for_socket\<close>, and the loop.\<close>

definition socket_ready :: "path \<Rightarrow> child \<Rightarrow> unit option io" where
  "socket_ready p ch =
     bnd (sys_try_wait ch) (\<lambda>ended.
       if ended then fail (Bail ''process exited before becoming ready'')
       else bnd (attempt (sys_lstat p)) (\<lambda>r.
         case r of
           Inr md \<Rightarrow> if e_node md = Sock then ret (Some ())
             else fail (Bail ''runtime endpoint is not a socket'')
         | Inl e \<Rightarrow> if e = Io ENOENT then ret None else fail e))"

definition wait_for_socket :: "path \<Rightarrow> child \<Rightarrow> nat \<Rightarrow> unit io" where
  "wait_for_socket p ch timeout =
     bnd (poll_until (socket_ready p ch) timeout) (\<lambda>r.
       case r of
         Some (Some _) \<Rightarrow> ret ()
       | Some None \<Rightarrow> fail (Bail ''timed out waiting for the socket'')
       | None \<Rightarrow> fail Hangs)"

definition with_cleanup :: "err \<Rightarrow> unit result \<Rightarrow> err" where
  "with_cleanup primary cleanup =
     (case cleanup of Inr _ \<Rightarrow> primary | Inl e \<Rightarrow> AlsoFailed primary e)"

definition clean_spawned :: "process_identity codec \<Rightarrow> path \<Rightarrow> spawned_process \<Rightarrow> unit io" where
  "clean_spawned c pid_file p =
     thn (terminate_spawned p FORCE_TIMEOUT) (remove_pid_file c pid_file (sp_identity p))"

definition cleanup_failed_start ::
    "machine_codecs \<Rightarrow> machine_paths \<Rightarrow> machine_record \<Rightarrow> spawned_process option \<Rightarrow> spawned_process \<Rightarrow> unit io" where
  "cleanup_failed_start cs mp r started network =
     bnd (case started of
            None \<Rightarrow> ret None
          | Some v \<Rightarrow> bnd (attempt (clean_spawned (mc_identity cs) (mp_vmm_pid_file mp) v))
              (\<lambda>x. ret (error_of x))) (\<lambda>e1.
     bnd (attempt (clean_spawned (mc_identity cs) (mp_network_pid_file mp) network)) (\<lambda>net.
       case first_error e1 net of
         Some e \<Rightarrow> fail e
       | None \<Rightarrow> clear_session cs mp r))"

text \<open>\<open>if let Err(error) = m { return Err(with_cleanup(error, cleanup)) }\<close>.\<close>

definition or_clean_up :: "'a io \<Rightarrow> unit io \<Rightarrow> 'a io" where
  "or_clean_up m cleanup =
     bnd (attempt m) (\<lambda>r.
       case r of
         Inr x \<Rightarrow> ret x
       | Inl e \<Rightarrow> bnd (attempt cleanup) (\<lambda>c. fail (with_cleanup e c)))"

text \<open>From the fresh session on; the sockets are those each program is told to listen on.\<close>

definition launch ::
    "machine_codecs \<Rightarrow> vmm \<Rightarrow> machine_paths \<Rightarrow> machine_record \<Rightarrow> host_credentials \<Rightarrow> 8 word \<Rightarrow> unit io" where
  "launch cs v mp r creds verbose =
     bnd (command_with_agent v mp r verbose (hc_ssh_auth_sock creds)) (\<lambda>(ch, ch_args).
     bnd (network_command v mp verbose) (\<lambda>(passt, passt_args).
     bnd (spawn_managed (mc_identity cs) passt passt_args {mp_network_socket mp}
            (mp_network_pid_file mp) (mp_vmm_log mp)) (\<lambda>network.
     thn (or_clean_up (wait_for_socket (mp_network_socket mp) (sp_child network) START_TIMEOUT)
            (cleanup_failed_start cs mp r None network))
     (thn (or_clean_up (expose_ssh_agent creds (mp_vsock_socket mp))
            (cleanup_failed_start cs mp r None network))
     (bnd (or_clean_up (spawn_managed (mc_identity cs) ch ch_args {mp_api_socket mp, mp_vsock_socket mp}
              (mp_vmm_pid_file mp) (mp_vmm_log mp))
            (cleanup_failed_start cs mp r None network)) (\<lambda>started.
      or_clean_up (wait_for_socket (mp_api_socket mp) (sp_child started) START_TIMEOUT)
        (cleanup_failed_start cs mp r (Some started) network)))))))"

text \<open>What is left of an earlier start, when the VMM is not running any more.\<close>

definition clear_stale :: "process_identity codec \<Rightarrow> machine_paths \<Rightarrow> managed_process_status \<Rightarrow> unit io" where
  "clear_stale c mp st =
     thn (case st of
            StaleProcess _ \<Rightarrow> thn (remove_stale_pid_file c (mp_vmm_pid_file mp)) (ret ())
          | _ \<Rightarrow> ret ())
       (stop_network c mp)"

definition vmm_start ::
    "vmm_host \<Rightarrow> machine_codecs \<Rightarrow> vmm \<Rightarrow> machine_paths \<Rightarrow> machine_record \<Rightarrow> host_credentials \<Rightarrow> 8 word \<Rightarrow> unit io" where
  "vmm_start h cs v mp r creds verbose =
     thn (assert_domain_layout cs mp r)
     (bnd (inspect_pid_file (mc_identity cs) (mp_vmm_pid_file mp)) (\<lambda>vst.
      bnd (inspect_pid_file (mc_identity cs) (mp_network_pid_file mp)) (\<lambda>nst.
        if status_is_running vst \<and> status_is_running nst then ret ()
        else
          thn (if status_is_running vst then vmm_stop h cs mp r else clear_stale (mc_identity cs) mp vst)
          (thn (clear_session cs mp r)
          (launch cs v mp r creds verbose)))))"

section \<open>By data directory\<close>

definition machine_status_of :: "machine_codecs \<Rightarrow> path \<Rightarrow> machine_record \<Rightarrow> vmm_status io" where
  "machine_status_of cs data r = vmm_status_of (mc_identity cs) (for_record data r)"

definition machine_is_running :: "machine_codecs \<Rightarrow> path \<Rightarrow> machine_record \<Rightarrow> bool io" where
  "machine_is_running cs data r = bnd (machine_status_of cs data r) (\<lambda>st. ret (st = VmmRunning))"

definition machine_start ::
    "vmm_host \<Rightarrow> machine_codecs \<Rightarrow> 'v installer \<Rightarrow> path \<Rightarrow> machine_record \<Rightarrow> host_credentials \<Rightarrow> 8 word \<Rightarrow> unit io" where
  "machine_start h cs i data r creds verbose =
     bnd (vmm_discover h i data) (\<lambda>v. vmm_start h cs v (for_record data r) r creds verbose)"

definition machine_stop :: "vmm_host \<Rightarrow> machine_codecs \<Rightarrow> path \<Rightarrow> machine_record \<Rightarrow> unit io" where
  "machine_stop h cs data r = vmm_stop h cs (for_record data r) r"

end
