(* ===== verification/OciTools.thy ===== *)
theory OciTools
  imports OciReference VmmControl
begin

text \<open>
  The programs \<open>crates/spawnr/src/oci.rs\<close> works with: how \<open>skopeo\<close>, \<open>umoci\<close>, \<open>mkfs.ext4\<close>, \<open>du\<close> and \<open>rm\<close> are found
  and run, the bound on what is kept of their output, and the check that a guest program is a static
  executable. What a program does when it is run is a field of the record \<open>oci_host\<close>; what the source
  prints of a command's diagnostics with \<open>--verbose\<close> is left out.
\<close>

section \<open>Running programs\<close>

record shell_command =
  sc_program :: path
  sc_args :: "string list"
  sc_env :: "(string \<times> string) list"

text \<open>The exit code (\<open>None\<close>: ended by a signal) and the captured output.\<close>

record process_output =
  po_code :: "nat option"
  po_stdout :: string
  po_stderr :: string

text \<open>A child with pipes: what the reads of each pipe return until its end, and what \<open>wait\<close> returns.\<close>

record piped_child =
  pc_stdout :: "string result list"
  pc_stderr :: "string result list"
  pc_wait :: "nat option result"

text \<open>The third-party parts, the parts of the build and the environment.\<close>

record 'v oci_host =
  oh_installer :: "'v installer"
  oh_output :: "shell_command \<Rightarrow> process_output io"
  oh_piped :: "shell_command \<Rightarrow> piped_child io"
  oh_metadata :: "prepared_metadata codec"
  oh_env_json :: "string \<Rightarrow> string list option option"
  oh_exe :: "path option"
  oh_version :: string
  oh_udhcpc :: string
  oh_platform :: "string \<times> string"

definition shell :: "path \<Rightarrow> string list \<Rightarrow> shell_command" where
  "shell program args = \<lparr>sc_program = program, sc_args = args, sc_env = []\<rparr>"

definition MAPPED :: "string list" where
  "MAPPED = [''--user'', ''--map-auto'', ''--map-root-user'', ''--mount'', ''--fork'', ''--'']"

definition mapped_command :: "path \<Rightarrow> path \<Rightarrow> string list \<Rightarrow> shell_command" where
  "mapped_command unshare program args = shell unshare (MAPPED @ [display program] @ args)"

definition run_output :: "'v oci_host \<Rightarrow> shell_command \<Rightarrow> string \<Rightarrow> process_output io" where
  "run_output h c operation =
     bnd (oh_output h c) (\<lambda>out.
       if po_code out = Some 0 then ret out else fail (Bail operation))"

definition run_checked :: "'v oci_host \<Rightarrow> shell_command \<Rightarrow> string \<Rightarrow> unit io" where
  "run_checked h c operation =
     bnd (run_output h c operation) (\<lambda>out.
       io_ensure (po_code out = Some 0) operation (ret ()))"

text \<open>
  \<open>drain_bounded\<close>: all of the pipe is read, at most \<open>limit\<close> bytes are kept. The argument is what the reads
  return; the empty list is the end of the pipe, as is an empty read.
\<close>

fun drain_bounded :: "nat \<Rightarrow> string \<Rightarrow> string result list \<Rightarrow> string result" where
  "drain_bounded limit retained [] = Ok retained"
| "drain_bounded limit retained (Inl e # rest) = Inl e"
| "drain_bounded limit retained (Inr chunk # rest) =
     (if chunk = [] then Ok retained
      else drain_bounded limit
             (retained @ take (min (length chunk) (limit - length retained)) chunk) rest)"

text \<open>\<open>Read::take(n).read_to_end\<close>: reading stops at the end, at an error or after \<open>n\<close> bytes.\<close>

fun take_to_end :: "nat \<Rightarrow> string result list \<Rightarrow> string result" where
  "take_to_end n [] = Ok []"
| "take_to_end n (r # rest) =
     (if n = 0 then Ok []
      else case r of
        Inl e \<Rightarrow> Inl e
      | Inr chunk \<Rightarrow>
          if chunk = [] then Ok []
          else rbind (take_to_end (n - length chunk) rest) (\<lambda>more. Ok (take n chunk @ more)))"

definition run_output_bounded ::
    "'v oci_host \<Rightarrow> shell_command \<Rightarrow> string \<Rightarrow> nat \<Rightarrow> process_output io" where
  "run_output_bounded h c operation stdout_limit =
     bnd (oh_piped h c) (\<lambda>child.
     bnd (lift_r (take_to_end (stdout_limit + 1) (pc_stdout child))) (\<lambda>stdout_bytes.
     io_ensure (length stdout_bytes \<le> stdout_limit) operation
     (bnd (lift_r (pc_wait child)) (\<lambda>status.
      bnd (lift_r (drain_bounded MAX_SUBPROCESS_DIAGNOSTIC_BYTES [] (pc_stderr child))) (\<lambda>stderr_bytes.
      io_ensure (status = Some 0) operation
        (ret \<lparr>po_code = status, po_stdout = stdout_bytes, po_stderr = stderr_bytes\<rparr>))))))"

section \<open>Guest programs\<close>

definition le_value :: "nat \<Rightarrow> nat \<Rightarrow> string \<Rightarrow> nat" where
  "le_value off n c = be_value (rev (take n (drop off c)))"

definition saturating_mul :: "nat \<Rightarrow> nat \<Rightarrow> nat" where
  "saturating_mul a b = min (a * b) (2 ^ 64 - 1)"

text \<open>
  The loop over the program headers: the offset of each is a \<open>u64\<close>, a seek beyond \<open>i64::MAX\<close> fails, and
  \<open>read_exact\<close> needs four bytes there.
\<close>

fun program_headers :: "string \<Rightarrow> nat \<Rightarrow> nat \<Rightarrow> nat list \<Rightarrow> bool \<Rightarrow> bool result" where
  "program_headers c program_offset entry_size [] found_load = Ok found_load"
| "program_headers c program_offset entry_size (index # rest) found_load =
     (let off = (program_offset + index * entry_size) mod 2 ^ 64
      in if 2 ^ 63 \<le> off then Inl (Io EINVAL)
         else if length c < off + 4 then Inl (Io EUNEXPECTEDEOF)
         else if le_value off 4 c = 1 then program_headers c program_offset entry_size rest True
         else if le_value off 4 c = 3 then bail ''ELF has a dynamic interpreter (PT_INTERP)''
         else program_headers c program_offset entry_size rest found_load)"

definition static_x86_64_elf :: "string \<Rightarrow> unit result" where
  "static_x86_64_elf c =
     (if length c < 64 then Inl (Io EUNEXPECTEDEOF)
      else
        ensure (take 4 c = [CHR 0x7F, CHR ''E'', CHR ''L'', CHR ''F'']) ''missing ELF header''
        (ensure (byte (c ! 4) = 2 \<and> byte (c ! 5) = 1) ''ELF is not 64-bit little-endian''
        (ensure (le_value 18 2 c = 62) ''ELF is not x86_64''
        (let program_offset = le_value 32 8 c;
             entry_size = le_value 54 2 c;
             entry_count = le_value 56 2 c
         in ensure (56 \<le> entry_size \<and> entry_count \<le> 256) ''invalid ELF program headers''
            (ensure (saturating_add program_offset (saturating_mul entry_size entry_count) \<le> length c)
              ''ELF program headers exceed file length''
            (rbind (program_headers c program_offset entry_size [0..<entry_count] False) (\<lambda>found_load.
               ensure found_load ''ELF has no loadable segment'' (Ok ()))))))))"

definition validate_static_x86_64_elf :: "path \<Rightarrow> unit io" where
  "validate_static_x86_64_elf p =
     bnd (sys_open p) (\<lambda>q.
     thn (sys_fstat q)
     (bnd (sys_read q) (\<lambda>c. lift_r (static_x86_64_elf c))))"

section \<open>Finding the programs\<close>

record oci_tools =
  ot_skopeo :: path
  ot_ca_certificates :: "path option"
  ot_umoci :: path
  ot_unshare :: path
  ot_mkfs_ext4 :: path
  ot_du :: path
  ot_agent :: path
  ot_busybox :: path

record publish_tools =
  pt_common :: oci_tools
  pt_e2fsck :: path
  pt_fuse2fs :: path
  pt_fusermount :: path

definition resolve_tool :: "'v oci_host \<Rightarrow> path \<Rightarrow> string \<Rightarrow> string \<Rightarrow> string \<Rightarrow> path io" where
  "resolve_tool h data variable name component =
     bnd (preferred_component (oh_installer h) data variable component (bin_dir data @ [name]))
       (\<lambda>bundled. resolve_executable variable bundled name)"

fun first_named :: "path \<Rightarrow> string \<Rightarrow> string list \<Rightarrow> path option io" where
  "first_named data variable [] = ret None"
| "first_named data variable (nm # others) =
     bnd (attempt (resolve_executable variable (bin_dir data @ [nm]) nm)) (\<lambda>r.
       case r of Inr p \<Rightarrow> ret (Some p) | Inl _ \<Rightarrow> first_named data variable others)"

definition resolve_one_of :: "'v oci_host \<Rightarrow> path \<Rightarrow> string \<Rightarrow> string list \<Rightarrow> path io" where
  "resolve_one_of h data variable choices =
     bnd (env_var variable) (\<lambda>ovr.
       case ovr of
         Some t \<Rightarrow> validate_executable t
       | None \<Rightarrow>
           bnd (component_path (oh_installer h) data ''fusermount3'') (\<lambda>c.
             case c of
               Some p \<Rightarrow> validate_executable (display p)
             | None \<Rightarrow>
                 bnd (first_named data variable choices) (\<lambda>found.
                   case found of Some p \<Rightarrow> ret p | None \<Rightarrow> fail (Bail ''cannot find the program''))))"

text \<open>A development build has the guest's programs beside its own.\<close>

definition sibling_asset :: "'v oci_host \<Rightarrow> string \<Rightarrow> path option io" where
  "sibling_asset h name =
     (case oh_exe h of
        None \<Rightarrow> ret None
      | Some current \<Rightarrow>
          (case parent current of
             None \<Rightarrow> ret None
           | Some directory \<Rightarrow>
               bnd (sys_exists (directory @ [name])) (\<lambda>there.
                 ret (if there then Some (directory @ [name]) else None))))"

definition select_asset :: "'v oci_host \<Rightarrow> path \<Rightarrow> string \<Rightarrow> string \<Rightarrow> string \<Rightarrow> path io" where
  "select_asset h data variable name component =
     bnd (env_var variable) (\<lambda>ovr.
       case ovr of
         Some t \<Rightarrow> validate_executable t
       | None \<Rightarrow>
           (let bundled = bin_dir data @ [name]
            in bnd (preferred_component (oh_installer h) data variable component bundled) (\<lambda>preferred.
               bnd (if preferred \<noteq> bundled then ret True else sys_exists bundled) (\<lambda>use.
                 if use then validate_executable (display preferred)
                 else bnd (sibling_asset h name) (\<lambda>s.
                   case s of
                     None \<Rightarrow> fail (Bail ''cannot find guest asset'')
                   | Some p \<Rightarrow> validate_executable (display p))))))"

definition resolve_guest_asset :: "'v oci_host \<Rightarrow> path \<Rightarrow> string \<Rightarrow> string \<Rightarrow> string \<Rightarrow> path io" where
  "resolve_guest_asset h data variable name component =
     bnd (select_asset h data variable name component) (\<lambda>selected.
       thn (validate_static_x86_64_elf selected) (ret selected))"

definition discover_tools :: "'v oci_host \<Rightarrow> path \<Rightarrow> oci_tools io" where
  "discover_tools h data =
     bnd (resolve_tool h data ''SPAWNR_SKOPEO'' ''skopeo'' ''skopeo'') (\<lambda>skopeo.
     bnd (env_var ''SSL_CERT_FILE'') (\<lambda>cert.
     bnd (if cert \<noteq> None then ret None else component_path (oh_installer h) data ''ca-certificates'') (\<lambda>ca.
     bnd (resolve_tool h data ''SPAWNR_UMOCI'' ''umoci'' ''umoci'') (\<lambda>umoci.
     bnd (resolve_tool h data ''SPAWNR_UNSHARE'' ''unshare'' ''unshare'') (\<lambda>unshare.
     bnd (resolve_tool h data ''SPAWNR_MKFS_EXT4'' ''mkfs.ext4'' ''mkfs-ext4'') (\<lambda>mkfs.
     bnd (resolve_tool h data ''SPAWNR_DU'' ''du'' ''du'') (\<lambda>du.
     bnd (resolve_guest_asset h data ''SPAWNR_AGENT'' ''spawnr-agent'' ''spawnr-agent'') (\<lambda>agent.
     bnd (resolve_guest_asset h data ''SPAWNR_BUSYBOX'' ''spawnr-busybox'' ''busybox'') (\<lambda>busybox.
       ret \<lparr>ot_skopeo = skopeo, ot_ca_certificates = ca, ot_umoci = umoci, ot_unshare = unshare,
            ot_mkfs_ext4 = mkfs, ot_du = du, ot_agent = agent, ot_busybox = busybox\<rparr>)))))))))"

definition discover_publish_tools :: "'v oci_host \<Rightarrow> path \<Rightarrow> publish_tools io" where
  "discover_publish_tools h data =
     bnd (discover_tools h data) (\<lambda>common.
     bnd (resolve_tool h data ''SPAWNR_E2FSCK'' ''e2fsck'' ''e2fsck'') (\<lambda>e2fsck.
     bnd (resolve_tool h data ''SPAWNR_FUSE2FS'' ''fuse2fs'' ''fuse2fs'') (\<lambda>fuse2fs.
     bnd (resolve_one_of h data ''SPAWNR_FUSERMOUNT'' [''fusermount3'', ''fusermount'']) (\<lambda>fusermount.
       ret \<lparr>pt_common = common, pt_e2fsck = e2fsck, pt_fuse2fs = fuse2fs, pt_fusermount = fusermount\<rparr>))))"

section \<open>skopeo\<close>

definition skopeo_command :: "oci_tools \<Rightarrow> string list \<Rightarrow> shell_command" where
  "skopeo_command t args =
     \<lparr>sc_program = ot_skopeo t, sc_args = args,
      sc_env = (case ot_ca_certificates t of None \<Rightarrow> []
        | Some certificates \<Rightarrow> [(''SSL_CERT_FILE'', display certificates)])\<rparr>"

definition PLATFORM :: "string list" where
  "PLATFORM = [''--override-os'', ''linux'', ''--override-arch'', ''amd64'']"

definition inspect_digest :: "'v oci_host \<Rightarrow> oci_tools \<Rightarrow> string \<Rightarrow> string io" where
  "inspect_digest h t reference =
     bnd (run_output h (skopeo_command t
            ([''--insecure-policy'', ''inspect''] @ PLATFORM @ [''--format'', ''{{.Digest}}'', reference]))
          ''resolve OCI environment digest'') (\<lambda>out.
     io_ensure (valid_utf8 (po_stdout out)) ''digest is not UTF-8''
     (let digest = str_trim (po_stdout out)
      in thn (lift_r (ensure_manifest_digest digest)) (ret digest)))"

definition inspect_image_environment :: "'v oci_host \<Rightarrow> oci_tools \<Rightarrow> string \<Rightarrow> string list io" where
  "inspect_image_environment h t copied_reference =
     io_ensure (starts_with ''oci:'' copied_reference)
       ''image environment must be inspected from a copied OCI layout''
     (bnd (run_output_bounded h (skopeo_command t
            ([''--insecure-policy'', ''inspect''] @ PLATFORM @ [''--format'', ''{{json .Env}}'',
              copied_reference]))
          ''read OCI image environment'' MAX_GUEST_ENVIRONMENT_JSON_BYTES) (\<lambda>out.
      lift_r (parse_image_environment_json (oh_env_json h) (po_stdout out))))"

definition run_e2fsck :: "'v oci_host \<Rightarrow> path \<Rightarrow> path \<Rightarrow> unit io" where
  "run_e2fsck h program disk =
     bnd (oh_output h (shell program [''-p'', ''-f'', display disk])) (\<lambda>out.
       io_ensure (po_code out \<in> {Some 0, Some 1}) ''e2fsck failed'' (ret ()))"

definition remove_tree_mapped :: "'v oci_host \<Rightarrow> oci_tools \<Rightarrow> path \<Rightarrow> unit io" where
  "remove_tree_mapped h t p =
     bnd (sys_exists p) (\<lambda>there.
       if \<not> there then ret ()
       else bnd (find_executable ''rm'') (\<lambda>found.
         case found of
           None \<Rightarrow> fail (Bail ''rm is required for mapped OCI cleanup'')
         | Some rm \<Rightarrow>
             bnd (oh_output h (mapped_command (ot_unshare t) rm [''-rf'', ''--'', display p])) (\<lambda>out.
               io_ensure (po_code out = Some 0) ''failed to clean temporary OCI directory'' (ret ()))))"

definition directory_apparent_size :: "'v oci_host \<Rightarrow> oci_tools \<Rightarrow> path \<Rightarrow> nat io" where
  "directory_apparent_size h t root =
     bnd (run_output h (mapped_command (ot_unshare t) (ot_du t)
            [''--bytes'', ''--summarize'', ''--apparent-size'', ''--'', display root])
          ''measure OCI root filesystem'') (\<lambda>out.
     io_ensure (valid_utf8 (po_stdout out)) ''du returned non-UTF-8 output''
     (case split_ascii_whitespace (po_stdout out) of
        [] \<Rightarrow> fail (Bail ''du returned no filesystem size'')
      | word # _ \<Rightarrow>
          (case parse_u64 word of
             None \<Rightarrow> fail (Bail ''du returned an invalid filesystem size'')
           | Some n \<Rightarrow> ret n)))"

end
