(* ===== verification/OciImage.thy ===== *)
theory OciImage
  imports OciTools
begin

text \<open>
  \<open>crates/spawnr/src/oci.rs\<close>: preparing the disk of an environment from an image, in a cache whose key is
  the digest of everything that went into it, and publishing the disk of a machine. The programs are
  those of \<open>OciTools\<close>.
\<close>

section \<open>Files\<close>

text \<open>\<open>fs::read_link\<close> and \<open>fs::copy\<close> of the standard library.\<close>

definition sys_readlink :: "path \<Rightarrow> string io" where
  "sys_readlink p = syscall (\<lambda>s.
     case entry_at s p of
       None \<Rightarrow> (Inl (Io ENOENT), s)
     | Some e \<Rightarrow> (case e_node e of Link t \<Rightarrow> (Ok t, s) | _ \<Rightarrow> (Inl (Io EINVAL), s)))"

definition fs_copy :: "path \<Rightarrow> path \<Rightarrow> unit io" where
  "fs_copy src dst =
     bnd (sys_open src) (\<lambda>q.
     bnd (sys_fstat q) (\<lambda>md.
     thn (sys_open_create dst (e_mode md) False)
     (thn (sys_chmod dst (e_mode md)) (sys_copy_all q dst))))"

text \<open>The first argument is the number of levels a path can have.\<close>

fun copy_tree :: "nat \<Rightarrow> listing \<Rightarrow> path \<Rightarrow> path \<Rightarrow> unit io" where
  "copy_tree 0 ls source destination = too_long"
| "copy_tree (Suc n) ls source destination =
     thn (sys_mkdir destination)
     (bnd (sys_read_dir ls source) (\<lambda>entries.
      io_each entries (\<lambda>name.
        bnd (sys_lstat (source @ [name])) (\<lambda>md.
          case e_node md of
            Dir \<Rightarrow> copy_tree n ls (source @ [name]) (destination @ [name])
          | File _ \<Rightarrow> fs_copy (source @ [name]) (destination @ [name])
          | Link _ \<Rightarrow> bnd (sys_readlink (source @ [name])) (\<lambda>t. sys_symlink t (destination @ [name]))
          | _ \<Rightarrow> fail (Bail ''unexpected file type in OCI layout'')))))"

definition remove_replaceable_file :: "path \<Rightarrow> unit io" where
  "remove_replaceable_file p =
     bnd (attempt (sys_lstat p)) (\<lambda>r.
       case r of
         Inr md \<Rightarrow>
           (case e_node md of
              File _ \<Rightarrow> sys_unlink p
            | Link _ \<Rightarrow> sys_unlink p
            | _ \<Rightarrow> fail (Bail ''refusing to replace non-file integration asset''))
       | Inl e \<Rightarrow> if e = Io ENOENT then ret () else fail e)"

definition copy_regular :: "path \<Rightarrow> path \<Rightarrow> nat \<Rightarrow> unit io" where
  "copy_regular source destination mode =
     bnd (sys_lstat source) (\<lambda>md.
     io_ensure (is_regular md) ''is not a file''
     (thn (remove_replaceable_file destination)
     (thn (sys_open_nofollow source)
     (thn (sys_create_new destination mode)
     (thn (sys_copy_all source destination)
     (thn sys_nop
     (sys_chmod destination mode)))))))"

definition write_executable :: "path \<Rightarrow> string \<Rightarrow> unit io" where
  "write_executable p contents =
     thn (remove_replaceable_file p)
     (thn (sys_create_new p 493)
     (thn (sys_write p contents)
     sys_nop))"

definition write_json_file :: "string \<Rightarrow> path \<Rightarrow> unit io" where
  "write_json_file bytes p =
     thn (sys_create_new p 384)
     (thn (sys_write p bytes)
     (thn (sys_write p newline)
     sys_nop))"

text \<open>The directories of the guest's root are those of the image, which may be hostile.\<close>

fun safe_components :: "path \<Rightarrow> component list \<Rightarrow> path io" where
  "safe_components current [] = ret current"
| "safe_components current (Normal name # rest) =
     bnd (attempt (sys_lstat (current @ [name]))) (\<lambda>r.
     thn (case r of
            Inr md \<Rightarrow> io_ensure (e_node md = Dir) ''refusing OCI-controlled non-directory path'' (ret ())
          | Inl e \<Rightarrow> if e = Io ENOENT then sys_mkdir (current @ [name]) else fail e)
       (safe_components (current @ [name]) rest))"
| "safe_components current (_ # rest) =
     fail (Bail ''integration directory must be a relative normal path'')"

definition ensure_safe_directory :: "path \<Rightarrow> string \<Rightarrow> path io" where
  "ensure_safe_directory root relative =
     bnd (sys_lstat root) (\<lambda>md.
     io_ensure (e_node md = Dir) ''OCI root is not a real directory''
       (safe_components root (components relative)))"

section \<open>The guest's root file system\<close>

definition make_dns_ephemeral :: "path \<Rightarrow> unit io" where
  "make_dns_ephemeral etc =
     (let resolv = etc @ [''resolv.conf'']
      in bnd (attempt (sys_lstat resolv)) (\<lambda>r.
         thn (case r of
                Inr md \<Rightarrow>
                  (case e_node md of
                     Link _ \<Rightarrow> sys_unlink resolv
                   | File _ \<Rightarrow> sys_unlink resolv
                   | _ \<Rightarrow> fail (Bail ''guest /etc/resolv.conf is not a regular file or symlink''))
              | Inl e \<Rightarrow> if e = Io ENOENT then ret () else fail e)
           (sys_symlink ''/run/spawnr/resolv.conf'' resolv)))"

text \<open>2541 is \<open>0o4755\<close>: the agent is set-user-ID root.\<close>

definition provision_rootfs :: "'v oci_host \<Rightarrow> oci_tools \<Rightarrow> path \<Rightarrow> unit io" where
  "provision_rootfs h t rootfs =
     bnd (ensure_safe_directory rootfs ''usr/libexec'') (\<lambda>libexec.
     thn (copy_regular (ot_agent t) (libexec @ [''spawnr-agent'']) 2541)
     (thn (copy_regular (ot_busybox t) (libexec @ [''spawnr-busybox'']) 493)
     (thn (write_executable (libexec @ [''spawnr-udhcpc'']) (oh_udhcpc h))
     (thn (ensure_safe_directory rootfs ''workspace'')
     (thn (ensure_safe_directory rootfs ''run/spawnr'')
     (bnd (ensure_safe_directory rootfs ''etc'') make_dns_ephemeral))))))"

section \<open>The cache\<close>

definition hash_file :: "path \<Rightarrow> string io" where
  "hash_file p = bnd (sys_open p) sys_read"

definition integration_cache_key :: "'v oci_host \<Rightarrow> oci_tools \<Rightarrow> string \<Rightarrow> string io" where
  "integration_cache_key h t source_digest =
     bnd (hash_file (ot_agent t)) (\<lambda>agent.
     bnd (hash_file (ot_busybox t)) (\<lambda>busybox.
     (let z = [CHR 0x00]
      in ret (hex_digest (in_sha256 (oh_installer h)
           (INTEGRATION_CACHE_SCHEMA @ z @ oh_version h @ z @ source_digest @ z @ agent @ z @ busybox
            @ z @ oh_udhcpc h))))))"

definition read_prepared_metadata :: "prepared_metadata codec \<Rightarrow> path \<Rightarrow> prepared_metadata io" where
  "read_prepared_metadata c p =
     thn (sys_open_nofollow p)
     (bnd (sys_fstat p) (\<lambda>md.
      io_ensure (is_regular md) ''OCI cache metadata is not a regular file''
      (io_ensure (node_len md \<le> MAX_GUEST_ENVIRONMENT_JSON_BYTES) ''OCI cache metadata is too large''
      (bnd (sys_read p) (\<lambda>all_bytes.
       let encoded = take (MAX_GUEST_ENVIRONMENT_JSON_BYTES + 1) all_bytes
       in io_ensure (length encoded \<le> MAX_GUEST_ENVIRONMENT_JSON_BYTES) ''OCI cache metadata is too large''
            (case dec c encoded of
               None \<Rightarrow> fail (Bail ''decode OCI cache metadata'')
             | Some m \<Rightarrow> ret m))))))"

definition valid_cache :: "prepared_metadata codec \<Rightarrow> path \<Rightarrow> path \<Rightarrow> string \<Rightarrow> string \<Rightarrow> bool io" where
  "valid_cache c cache disk digest cache_key =
     bnd (sys_exists cache) (\<lambda>there.
       if \<not> there then ret False
       else bnd (attempt (validate_ext4_image disk)) (\<lambda>v.
         if \<not> is_ok v then ret False
         else bnd (attempt (read_prepared_metadata c (cache @ [CACHE_METADATA]))) (\<lambda>r.
           case r of
             Inl _ \<Rightarrow> ret False
           | Inr m \<Rightarrow>
               if \<not> is_ok (validate_prepared_metadata m True) then ret False
               else ret (pm_source_digest m = digest \<and> pm_cache_key m = cache_key
                      \<and> pm_architecture m = ''amd64'' \<and> pm_os m = ''linux''))))"

definition acquire_cache_lock :: "path \<Rightarrow> unit io" where
  "acquire_cache_lock p = thn (sys_open_create p 384 True) sys_nop"

definition base_image :: "path \<Rightarrow> string" where
  "base_image layout = display layout @ '':base''"

definition disk_size :: "nat \<Rightarrow> nat" where
  "disk_size used =
     max OCI_ENVIRONMENT_BYTES (saturating_add (saturating_mul used 2) (4 * 1024 * 1024 * 1024))"

definition pull_image :: "'v oci_host \<Rightarrow> oci_tools \<Rightarrow> path \<Rightarrow> string \<Rightarrow> string \<Rightarrow> unit io" where
  "pull_image h t layout transport_reference digest =
     bnd (lift_r (immutable_pull_reference transport_reference digest)) (\<lambda>pull_reference.
     thn (run_checked h (skopeo_command t
            ([''--insecure-policy'', ''copy''] @ PLATFORM @ [pull_reference, ''oci:'' @ base_image layout]))
          ''pull OCI environment'')
     (if starts_with ''oci:'' transport_reference
      then bnd (inspect_digest h t (''oci:'' @ base_image layout)) (\<lambda>copied.
        io_ensure (copied = digest) ''local OCI tag changed while it was being copied'' (ret ()))
      else ret ()))"

definition make_disk :: "'v oci_host \<Rightarrow> oci_tools \<Rightarrow> path \<Rightarrow> path \<Rightarrow> unit io" where
  "make_disk h t rootfs disk =
     bnd (directory_apparent_size h t rootfs) (\<lambda>used.
     thn (sys_create_new disk 384)
     (thn (sys_set_len disk (disk_size used))
     (thn (run_checked h (mapped_command (ot_unshare t) (ot_mkfs_ext4 t)
            [''-q'', ''-F'', ''-m'', ''0'', ''-L'', ''SPAWNR_ENV'', ''-d'', display rootfs, display disk])
          ''materialize OCI environment as ext4'')
     (validate_ext4_image disk))))"

definition build_cache ::
    "'v oci_host \<Rightarrow> oci_tools \<Rightarrow> path \<Rightarrow> string \<Rightarrow> string \<Rightarrow> string \<Rightarrow> string \<Rightarrow> unit io" where
  "build_cache h t temporary transport_reference user_reference digest cache_key =
     (let layout = temporary @ [''layout'']; bundle = temporary @ [''bundle'']; rootfs = bundle @ [''rootfs'']
      in thn (pull_image h t layout transport_reference digest)
         (bnd (inspect_image_environment h t (''oci:'' @ base_image layout)) (\<lambda>image_environment.
         thn (run_checked h (mapped_command (ot_unshare t) (ot_umoci t)
                [''unpack'', ''--image'', base_image layout, display bundle]) ''unpack OCI filesystem layers'')
         (thn (provision_rootfs h t rootfs)
         (thn (make_disk h t rootfs (temporary @ [CACHE_DISK]))
         (thn (write_json_file (enc (oh_metadata h)
                \<lparr>pm_source_reference = user_reference, pm_source_digest = digest, pm_cache_key = cache_key,
                 pm_architecture = ''amd64'', pm_os = ''linux'', pm_config_env = Some image_environment\<rparr>)
                (temporary @ [CACHE_METADATA]))
         (thn (remove_tree_mapped h t bundle)
         (sync_directory temporary))))))))"

section \<open>Preparing an environment\<close>

definition cache_temporary :: "path \<Rightarrow> string \<Rightarrow> uuid \<Rightarrow> path" where
  "cache_temporary data cache_key u =
     images_dir data @ [''.'' @ cache_key @ ''.'' @ uuid_text u @ ''.tmp'']"

definition fill_cache ::
    "'v oci_host \<Rightarrow> oci_tools \<Rightarrow> path \<Rightarrow> string \<Rightarrow> string \<Rightarrow> string \<Rightarrow> string \<Rightarrow> path io" where
  "fill_cache h t data reference user_reference digest cache_key =
     (let cache = images_dir data @ [cache_key]
      in bnd new_uuid (\<lambda>u.
         let temporary = cache_temporary data cache_key u
         in thn (create_private_dir temporary)
            (thn (on_error (build_cache h t temporary reference user_reference digest cache_key)
                   (remove_tree_mapped h t temporary))
            (thn (sys_rename_dir (in_ls (oh_installer h)) temporary cache)
            (thn (sync_directory (images_dir data))
            (ret (cache @ [CACHE_DISK])))))))"

definition prepare_cached ::
    "'v oci_host \<Rightarrow> oci_tools \<Rightarrow> path \<Rightarrow> string \<Rightarrow> string \<Rightarrow> string \<Rightarrow> string \<Rightarrow> path io" where
  "prepare_cached h t data reference user_reference digest cache_key =
     (let cache = images_dir data @ [cache_key]; disk = cache @ [CACHE_DISK]
      in bnd (valid_cache (oh_metadata h) cache disk digest cache_key) (\<lambda>hit.
         if hit then ret disk
         else thn (acquire_cache_lock (images_dir data @ [cache_key @ ''.lock'']))
           (bnd (valid_cache (oh_metadata h) cache disk digest cache_key) (\<lambda>hit.
            if hit then ret disk
            else bnd (sys_exists cache) (\<lambda>there.
              io_ensure (\<not> there) ''OCI cache entry is incomplete''
                (fill_cache h t data reference user_reference digest cache_key))))))"

definition prepare_environment :: "'v oci_host \<Rightarrow> path \<Rightarrow> machine_record \<Rightarrow> path io" where
  "prepare_environment h data r =
     io_ensure (oh_platform h = (''linux'', ''x86_64'')) ''unsupported platform''
     (thn (ensure_layout data)
     (bnd (discover_tools h data) (\<lambda>t.
      bnd (lift_r (normalize_source_reference (e_reference (m_environment r)))) (\<lambda>reference.
      bnd (inspect_digest h t reference) (\<lambda>digest.
      bnd (integration_cache_key h t digest) (\<lambda>cache_key.
      thn (lift_r (ensure_hex_digest cache_key))
        (prepare_cached h t data reference (e_reference (m_environment r)) digest cache_key)))))))"

definition prepared_metadata_of :: "prepared_metadata codec \<Rightarrow> path \<Rightarrow> prepared_metadata io" where
  "prepared_metadata_of c disk =
     (case parent disk of
        None \<Rightarrow> fail (Bail ''prepared environment has no cache directory'')
      | Some directory \<Rightarrow>
          bnd (read_prepared_metadata c (directory @ [CACHE_METADATA])) (\<lambda>m.
          thn (lift_r (validate_prepared_metadata m True)) (ret m)))"

text \<open>\<open>storage.rs\<close>: the record is bound to the environment that was prepared for it.\<close>

definition prepare_machine_environment ::
    "'v oci_host \<Rightarrow> path \<Rightarrow> machine_record \<Rightarrow> (path \<times> machine_record) io" where
  "prepare_machine_environment h data r =
     thn (ensure_layout data)
     (bnd (prepare_environment h data r) (\<lambda>base.
      bnd (prepared_metadata_of (oh_metadata h) base) (\<lambda>m.
        ret (base, r\<lparr>m_environment := (m_environment r)\<lparr>e_manifest_digest := Some (pm_source_digest m),
               e_base_cache_key := Some (pm_cache_key m)\<rparr>\<rparr>))))"

text \<open>What a machine's record says of its base must be what the cache says.\<close>

definition base_key :: "machine_record \<Rightarrow> string result" where
  "base_key r =
     some_or (e_base_cache_key (m_environment r)) ''machine metadata has no immutable OCI base cache identity''
       (\<lambda>key. rbind (ensure_hex_digest key) (\<lambda>_. Ok key))"

definition same_digest :: "machine_record \<Rightarrow> prepared_metadata \<Rightarrow> unit result" where
  "same_digest r m =
     (case e_manifest_digest (m_environment r) of
        None \<Rightarrow> Ok ()
      | Some expected \<Rightarrow>
          ensure (expected = pm_source_digest m) ''machine OCI digest does not match its cache metadata'' (Ok ()))"

definition machine_config_env :: "prepared_metadata codec \<Rightarrow> path \<Rightarrow> machine_record \<Rightarrow> string list io" where
  "machine_config_env c data r =
     bnd (lift_r (base_key r)) (\<lambda>key.
     bnd (read_prepared_metadata c (images_dir data @ [key, CACHE_METADATA])) (\<lambda>m.
     thn (lift_r (validate_prepared_metadata m False))
     (io_ensure (pm_cache_key m = key) ''machine OCI cache metadata has the wrong identity''
     (thn (lift_r (same_digest r m))
     (let environment = (case pm_config_env m of Some es \<Rightarrow> es | None \<Rightarrow> [])
      in thn (lift_r (validate_image_environment environment)) (ret environment))))))"

end
