(* ===== verification/OciPublish.thy ===== *)
theory OciPublish
  imports OciImage
begin

text \<open>
  Publishing the environment of a machine (\<open>publish_machine_environment\<close> of \<open>crates/spawnr/src/oci.rs\<close>): the
  disk is checked, its difference to the layers of the cache becomes a new layer, and the result is
  pushed.
\<close>

definition QUOTE :: string where "QUOTE = [CHR 0x22]"

text \<open>The lines of the script that \<open>unshare\<close> runs.\<close>

definition REPACK_LINES :: "string list" where
  "REPACK_LINES =
     [''#!/bin/sh'',
      ''set -eu'',
      ''umoci=$1'',
      ''fuse2fs=$2'',
      ''fusermount=$3'',
      ''layout=$4'',
      ''disk=$5'',
      ''bundle=$6'',
      QUOTE @ ''$umoci'' @ QUOTE @ '' unpack --image '' @ QUOTE @ ''$layout:base'' @ QUOTE @ '' '' @ QUOTE @ ''$bundle'' @ QUOTE,
      QUOTE @ ''$fuse2fs'' @ QUOTE @ '' -o ro '' @ QUOTE @ ''$disk'' @ QUOTE @ '' '' @ QUOTE @ ''$bundle/rootfs'' @ QUOTE,
      ''mounted=1'',
      ''cleanup() {'',
      ''  if test '' @ QUOTE @ ''${mounted:-0}'' @ QUOTE @ '' = 1; then'',
      ''    '' @ QUOTE @ ''$fusermount'' @ QUOTE @ '' -u '' @ QUOTE @ ''$bundle/rootfs'' @ QUOTE @ '' || true'',
      ''  fi'',
      ''}'',
      ''trap cleanup EXIT INT TERM'',
      QUOTE @ ''$umoci'' @ QUOTE @ '' repack '' @ [CHR 0x5C],
      ''  --no-mask-volumes '' @ [CHR 0x5C],
      ''  --image '' @ QUOTE @ ''$layout:published'' @ QUOTE @ '' '' @ [CHR 0x5C],
      ''  --history.created_by '' @ QUOTE @ ''spawnr publish'' @ QUOTE @ '' '' @ [CHR 0x5C],
      ''  --history.comment '' @ QUOTE @ ''Spawnr environment filesystem'' @ QUOTE @ '' '' @ [CHR 0x5C],
      ''  --compress gzip '' @ [CHR 0x5C],
      ''  '' @ QUOTE @ ''$bundle'' @ QUOTE,
      QUOTE @ ''$fusermount'' @ QUOTE @ '' -u '' @ QUOTE @ ''$bundle/rootfs'' @ QUOTE,
      ''mounted=0'']"

definition REPACK_SCRIPT :: string where
  "REPACK_SCRIPT = concat (map (\<lambda>l. l @ newline) REPACK_LINES)"

text \<open>\<open>unshare\<close> running the script, and \<open>skopeo\<close> pushing the result.\<close>

definition repack_command :: "publish_tools \<Rightarrow> path \<Rightarrow> path \<Rightarrow> shell_command" where
  "repack_command t temporary disk =
     shell (ot_unshare (pt_common t))
       (MAPPED @ [display (temporary @ [''repack.sh'']), display (ot_umoci (pt_common t)),
          display (pt_fuse2fs t), display (pt_fusermount t), display (temporary @ [''layout'']),
          display disk, display (temporary @ [''bundle''])])"

definition push_command :: "publish_tools \<Rightarrow> path \<Rightarrow> string \<Rightarrow> shell_command" where
  "push_command t temporary target =
     skopeo_command (pt_common t)
       [''--insecure-policy'', ''copy'', ''--format'', ''oci'', ''--dest-precompute-digests'',
        ''oci:'' @ display (temporary @ [''layout'']) @ '':published'', target]"

definition publish_layer ::
    "'v oci_host \<Rightarrow> publish_tools \<Rightarrow> path \<Rightarrow> path \<Rightarrow> path \<Rightarrow> string \<Rightarrow> unit io" where
  "publish_layer h t cache temporary disk target =
     thn (copy_tree MAX_DEPTH (in_ls (oh_installer h)) (cache @ [''layout'']) (temporary @ [''layout'']))
     (thn (write_executable (temporary @ [''repack.sh'']) REPACK_SCRIPT)
     (bnd (oh_output h (repack_command t temporary disk)) (\<lambda>out.
      io_ensure (po_code out = Some 0) ''umoci failed to generate environment layer''
        (run_checked h (push_command t temporary target) ''push published OCI environment''))))"

text \<open>\<open>let result = ..; remove_tree_mapped(..).ok(); result\<close>\<close>

definition and_then_clean :: "'a io \<Rightarrow> 'b io \<Rightarrow> 'a io" where
  "and_then_clean m cleanup = bnd (attempt m) (\<lambda>r. thn (attempt cleanup) (lift_r r))"

text \<open>Publishing, once the programs are found.\<close>

definition publish_with ::
    "'v oci_host \<Rightarrow> machine_codecs \<Rightarrow> publish_tools \<Rightarrow> path \<Rightarrow> machine_record \<Rightarrow> string \<Rightarrow> unit io" where
  "publish_with h cs t data r reference =
     (let mp = for_record data r
      in thn (assert_domain_layout cs mp r)
         (thn (validate_ext4_image (mp_environment_disk mp))
         (bnd (lift_r (base_key r)) (\<lambda>key.
          let cache = images_dir data @ [key]
          in bnd (read_prepared_metadata (oh_metadata h) (cache @ [CACHE_METADATA])) (\<lambda>m.
             thn (lift_r (validate_prepared_metadata m False))
             (thn (lift_r (same_digest r m))
             (thn (run_e2fsck h (pt_e2fsck t) (mp_environment_disk mp))
             (bnd (lift_r (normalize_destination_reference reference)) (\<lambda>target.
              bnd new_uuid (\<lambda>u.
              let temporary = oci_dir data @ [''publish-'' @ uuid_text u]
              in thn (create_private_dir temporary)
                 (and_then_clean
                   (publish_layer h t cache temporary (mp_environment_disk mp) target)
                   (remove_tree_mapped h (pt_common t) temporary))))))))))))"

definition publish_machine_environment ::
    "'v oci_host \<Rightarrow> machine_codecs \<Rightarrow> path \<Rightarrow> machine_record \<Rightarrow> string \<Rightarrow> unit io" where
  "publish_machine_environment h cs data r reference =
     bnd (discover_publish_tools h data) (\<lambda>t. publish_with h cs t data r reference)"

end
