(* ===== verification/Application.thy ===== *)
theory Application
  imports GuestClient OciPublish MachineNames
begin

text \<open>
  The commands of \<open>spawnr\<close> (\<open>Application\<close> of \<open>crates/spawnr/src/machine.rs\<close>): how the state file, the storage, the
  image cache, the VMM and the guest are put together for the life cycle of a machine. What a command
  prints is left out; \<open>None\<close> of \<open>remember\<close> is a search for a context identifier that does not end.
\<close>

definition CLONE_TIMEOUT :: nat where "CLONE_TIMEOUT = 15 * 60"

record 'v application =
  ap_data :: path
  ap_verbose :: "8 word"
  ap_vmm :: vmm_host
  ap_oci :: "'v oci_host"
  ap_state :: "app_state codec"
  ap_codecs :: machine_codecs
  ap_programs :: host_programs
  ap_guest :: guest_peer
  ap_kernel :: fs_kernel
  ap_run :: run_status
  ap_now :: "os \<Rightarrow> timestamp"
  ap_terminal :: "16 word \<times> 16 word"

section \<open>The parts\<close>

definition runtime_paths :: "'v application \<Rightarrow> machine_record \<Rightarrow> machine_paths" where
  "runtime_paths a r = for_record (ap_data a) r"

definition guest_request :: "'v application \<Rightarrow> machine_record \<Rightarrow> request \<Rightarrow> response io" where
  "guest_request a r req = request_timeout (ap_guest a) (mp_vsock_socket (runtime_paths a r)) req"

text \<open>\<open>.and_then(expect_ok)\<close>\<close>

definition guest_ok :: "'v application \<Rightarrow> machine_record \<Rightarrow> request \<Rightarrow> unit io" where
  "guest_ok a r req = bnd (guest_request a r req) (\<lambda>resp. lift_r (expect_ok resp))"

definition prepare_storage :: "'v application \<Rightarrow> machine_record \<Rightarrow> (path \<times> machine_record) io" where
  "prepare_storage a r = prepare_machine_environment (ap_oci a) (ap_data a) r"

definition commit_storage :: "'v application \<Rightarrow> machine_record \<Rightarrow> path \<Rightarrow> unit io" where
  "commit_storage a r base =
     commit_machine_storage (ap_codecs a) (ap_kernel a) (ap_run a) (ap_data a) r base"

definition vm_stop :: "'v application \<Rightarrow> machine_record \<Rightarrow> unit io" where
  "vm_stop a r = machine_stop (ap_vmm a) (ap_codecs a) (ap_data a) r"

text \<open>\<open>storage::remove_machine\<close>: every helper is stopped before its identity file goes.\<close>

definition remove_machine :: "'v application \<Rightarrow> machine_record \<Rightarrow> unit io" where
  "remove_machine a r =
     thn (vm_stop a r) (machine_remove (ap_codecs a) (runtime_paths a r) r)"

definition remove_storage :: "'v application \<Rightarrow> machine_record \<Rightarrow> unit io" where
  "remove_storage a r = remove_machine a r"

fun status_of_vmm :: "vmm_status \<Rightarrow> machine_status" where
  "status_of_vmm VmmRunning = Running"
| "status_of_vmm VmmStopped = Stopped"
| "status_of_vmm VmmDegraded = Degraded"

definition app_machine_status :: "'v application \<Rightarrow> machine_record \<Rightarrow> machine_status io" where
  "app_machine_status a r =
     bnd (machine_status_of (ap_codecs a) (ap_data a) r) (\<lambda>st. ret (status_of_vmm st))"

definition collect_credentials :: "'v application \<Rightarrow> machine_record \<Rightarrow> host_credentials io" where
  "collect_credentials a r =
     bnd (collect (ap_programs a)) (\<lambda>c.
     bnd (machine_config_env (oh_metadata (ap_oci a)) (ap_data a) r) (\<lambda>env.
       ret (c\<lparr>hc_session := (hc_session c)\<lparr>image_env := env\<rparr>\<rparr>)))"

text \<open>A failed boot is cleaned up; the cleanup's own failure is reported with it.\<close>

definition fail_after :: "'v application \<Rightarrow> machine_record \<Rightarrow> err \<Rightarrow> unit io" where
  "fail_after a r e = bnd (attempt (vm_stop a r)) (\<lambda>cleanup. fail (with_rollback e cleanup))"

definition boot_guest :: "'v application \<Rightarrow> machine_record \<Rightarrow> host_credentials \<Rightarrow> unit io" where
  "boot_guest a r creds =
     bnd (attempt (wait_healthy (ap_guest a) (mp_vsock_socket (runtime_paths a r)) 30000)) (\<lambda>healthy.
       case healthy of
         Inl e \<Rightarrow> fail_after a r e
       | Inr _ \<Rightarrow>
           bnd (attempt (guest_ok a r (ConfigureSession (hc_session creds)))) (\<lambda>configured.
             case configured of Inl e \<Rightarrow> fail_after a r e | Inr _ \<Rightarrow> ret ()))"

definition start_record :: "'v application \<Rightarrow> machine_record \<Rightarrow> unit io" where
  "start_record a r =
     bnd (collect_credentials a r) (\<lambda>creds.
     thn (machine_start (ap_vmm a) (ap_codecs a) (oh_installer (ap_oci a)) (ap_data a) r creds (ap_verbose a))
       (boot_guest a r creds))"

definition stop_record :: "'v application \<Rightarrow> machine_record \<Rightarrow> unit io" where
  "stop_record a r =
     bnd (attempt (guest_ok a r Shutdown)) (\<lambda>guest_shutdown.
     bnd (attempt (vm_stop a r)) (\<lambda>stopped.
       case stopped of
         Inr _ \<Rightarrow> ret ()
       | Inl e \<Rightarrow> fail (with_rollback e guest_shutdown)))"

definition configure_session_of :: "'v application \<Rightarrow> machine_record \<Rightarrow> unit io" where
  "configure_session_of a r =
     bnd (collect_credentials a r) (\<lambda>creds.
     thn (expose_ssh_agent creds (mp_vsock_socket (runtime_paths a r)))
       (guest_ok a r (ConfigureSession (hc_session creds))))"

section \<open>Rolling back\<close>

text \<open>In reverse order; a machine that cannot be removed keeps its record.\<close>

fun rollback_each :: "'v application \<Rightarrow> machine_record list \<Rightarrow> app_state \<times> nat \<Rightarrow> (app_state \<times> nat) io" where
  "rollback_each a [] acc = ret acc"
| "rollback_each a (r # rs) (st, failures) =
     bnd (attempt (remove_storage a r)) (\<lambda>res.
       case res of
         Inr _ \<Rightarrow> rollback_each a rs (st\<lparr>machines := bt_remove (m_name r) (machines st)\<rparr>, failures)
       | Inl _ \<Rightarrow> rollback_each a rs (st, Suc failures))"

definition rollback_created :: "'v application \<Rightarrow> app_state \<Rightarrow> machine_record list \<Rightarrow> unit io" where
  "rollback_created a st created =
     bnd (rollback_each a (rev created) (st, 0)) (\<lambda>(st', failures).
     thn (store_save (ap_state a) (ap_data a) st')
       (io_ensure (failures = 0) ''could not remove machines; their state records were preserved'' (ret ())))"

definition fail_rolled_back :: "'v application \<Rightarrow> app_state \<Rightarrow> machine_record list \<Rightarrow> err \<Rightarrow> unit io" where
  "fail_rolled_back a st created e =
     bnd (attempt (rollback_created a st created)) (\<lambda>cleanup. fail (with_rollback e cleanup))"

section \<open>Creating machines\<close>

definition locked :: "'v application \<Rightarrow> (app_state \<Rightarrow> unit io) \<Rightarrow> unit io" where
  "locked a f = thn (store_open (ap_data a)) (bnd (store_lock (ap_state a) (ap_data a)) f)"

text \<open>\<open>TerminationSignalBlock::acquire\<close>: of the signal mask around a commit, that it may fail.\<close>

definition protected_commit :: "unit io" where
  "protected_commit = sys_nop"

definition make_record ::
    "'v application \<Rightarrow> string \<Rightarrow> string \<Rightarrow> string option \<Rightarrow> string option \<Rightarrow> app_state \<Rightarrow> machine_record io" where
  "make_record a nm environment repository repository_dir st =
     bnd new_uuid (\<lambda>uid.
     bnd new_uuid (\<lambda>workspace.
     bnd (get_os (ap_now a)) (\<lambda>now.
       case new_record uid workspace now nm environment repository repository_dir (machines st) of
         None \<Rightarrow> fail Hangs
       | Some r \<Rightarrow> ret r)))"

definition remember :: "machine_record \<Rightarrow> app_state \<Rightarrow> app_state" where
  "remember r st = st\<lparr>machines := bt_insert (m_name r) r (machines st)\<rparr>"

definition forget :: "string \<Rightarrow> app_state \<Rightarrow> app_state" where
  "forget nm st = st\<lparr>machines := bt_remove nm (machines st)\<rparr>"

definition init_locked :: "'v application \<Rightarrow> string \<Rightarrow> string \<Rightarrow> app_state \<Rightarrow> unit io" where
  "init_locked a nm environment st =
     io_ensure (bt_get (machines st) nm = None) ''a Spawnr machine with this name already exists''
       (bnd (make_record a nm environment None None st) (\<lambda>r0.
        bnd (prepare_storage a r0) (\<lambda>(base, r).
        thn protected_commit
        (thn (commit_storage a r base)
        (bnd (attempt (store_save (ap_state a) (ap_data a) (remember r st))) (\<lambda>saved.
           case saved of
             Inr _ \<Rightarrow> ret ()
           | Inl e \<Rightarrow> fail_rolled_back a (remember r st) [r] e))))))"

definition app_init :: "'v application \<Rightarrow> string \<Rightarrow> string \<Rightarrow> unit io" where
  "app_init a nm environment =
     thn (lift_r (validate_name nm))
     (thn (lift_r (validate_environment_reference environment))
     (locked a (init_locked a nm environment)))"

text \<open>A machine that cannot be recorded is removed again, and then those before it.\<close>

definition clone_unsaved ::
    "'v application \<Rightarrow> app_state \<Rightarrow> machine_record list \<Rightarrow> machine_record \<Rightarrow> err \<Rightarrow> unit io" where
  "clone_unsaved a st created r e =
     bnd (attempt (remove_storage a r)) (\<lambda>current.
     bnd (attempt (rollback_created a (if is_ok current then forget (m_name r) st else st) created)) (\<lambda>prior.
       fail (with_rollback e (if is_ok current then prior else current))))"

definition clone_start :: "'v application \<Rightarrow> machine_record \<Rightarrow> string \<Rightarrow> string \<Rightarrow> unit io" where
  "clone_start a r repository repository_dir =
     thn (start_record a r)
       (guest_ok a r (CloneRepository repository (''/workspace/'' @ repository_dir)))"

fun clone_each ::
    "'v application \<Rightarrow> string \<Rightarrow> string \<Rightarrow> string \<Rightarrow> string list \<Rightarrow> app_state \<Rightarrow> machine_record list \<Rightarrow> unit io" where
  "clone_each a environment repository repository_dir [] st created = ret ()"
| "clone_each a environment repository repository_dir (nm # rest) st created =
     bnd (make_record a nm environment (Some repository) (Some repository_dir) st) (\<lambda>r0.
     bnd (attempt (prepare_storage a r0)) (\<lambda>prepared.
       case prepared of
         Inl e \<Rightarrow> fail_rolled_back a st created e
       | Inr (base, r) \<Rightarrow>
           bnd (attempt (thn protected_commit (commit_storage a r base))) (\<lambda>committed.
             case committed of
               Inl e \<Rightarrow> fail_rolled_back a st created e
             | Inr _ \<Rightarrow>
                 bnd (attempt (store_save (ap_state a) (ap_data a) (remember r st))) (\<lambda>saved.
                   case saved of
                     Inl e \<Rightarrow> clone_unsaved a (remember r st) created r e
                   | Inr _ \<Rightarrow>
                       bnd (attempt (clone_start a r repository repository_dir)) (\<lambda>started.
                         case started of
                           Inl e \<Rightarrow> fail_rolled_back a (remember r st) (created @ [r]) e
                         | Inr _ \<Rightarrow>
                             clone_each a environment repository repository_dir rest (remember r st)
                               (created @ [r]))))))"

definition clone_locked ::
    "'v application \<Rightarrow> string \<Rightarrow> string \<Rightarrow> string option \<Rightarrow> 16 word \<Rightarrow> app_state \<Rightarrow> unit io" where
  "clone_locked a environment repository requested_name count st =
     bnd (lift_r (allocate_clone_names requested_name repository count (bt_keys (machines st)))) (\<lambda>nms.
     bnd (lift_r (repository_directory repository)) (\<lambda>repository_dir.
       clone_each a environment repository repository_dir nms st []))"

definition clone_machines ::
    "'v application \<Rightarrow> string \<Rightarrow> string \<Rightarrow> string option \<Rightarrow> 16 word \<Rightarrow> unit io" where
  "clone_machines a environment repository requested_name count =
     thn (lift_r (validate_environment_reference environment))
     (thn (lift_r (validate_repository repository))
     (thn (lift_r (case requested_name of None \<Rightarrow> Ok () | Some nm \<Rightarrow> validate_name nm))
     (locked a (clone_locked a environment repository requested_name count))))"

section \<open>The other commands\<close>

definition with_machine :: "'v application \<Rightarrow> string \<Rightarrow> (app_state \<Rightarrow> machine_record \<Rightarrow> unit io) \<Rightarrow> unit io" where
  "with_machine a nm f = locked a (\<lambda>st. bnd (lift_r (lookup (machines st) nm)) (f st))"

definition app_start :: "'v application \<Rightarrow> string \<Rightarrow> unit io" where
  "app_start a nm = with_machine a nm (\<lambda>st r.
     bnd (app_machine_status a r) (\<lambda>status. if status = Running then ret () else start_record a r))"

definition app_stop :: "'v application \<Rightarrow> string \<Rightarrow> unit io" where
  "app_stop a nm = with_machine a nm (\<lambda>st r. thn (app_machine_status a r) (stop_record a r))"

definition app_open :: "'v application \<Rightarrow> string \<Rightarrow> unit io" where
  "app_open a nm = with_machine a nm (\<lambda>st r.
     bnd (app_machine_status a r) (\<lambda>status.
     thn (if status \<noteq> Running then start_record a r else configure_session_of a r)
     (bnd (env_var ''TERM'') (\<lambda>host_term.
      let term = (case host_term of Some t \<Rightarrow> if valid_utf8 t then Some t else None | None \<Rightarrow> None)
      in bnd (interactive_exec (ap_guest a) (mp_vsock_socket (runtime_paths a r))
            (open_shell_request r (fst (ap_terminal a)) (snd (ap_terminal a)) term)) (\<lambda>(code, _).
          io_ensure (code = 0) ''interactive shell exited with a status'' (ret ()))))))"

definition publish_outcome :: "unit result \<Rightarrow> unit result \<Rightarrow> unit result" where
  "publish_outcome published restarted =
     (case (published, restarted) of
        (Inr _, Inr _) \<Rightarrow> Ok ()
      | (Inl p, Inr _) \<Rightarrow> Inl p
      | (Inr _, Inl r) \<Rightarrow> Inl r
      | (Inl p, Inl r) \<Rightarrow> Inl (AlsoFailed p r))"

definition app_publish :: "'v application \<Rightarrow> string \<Rightarrow> string \<Rightarrow> unit io" where
  "app_publish a nm reference =
     thn (lift_r (validate_environment_reference reference))
     (with_machine a nm (\<lambda>st r.
       bnd (app_machine_status a r) (\<lambda>status.
       thn (if status \<noteq> Stopped then stop_record a r else ret ())
       (bnd (attempt (publish_machine_environment (ap_oci a) (ap_codecs a) (ap_data a) r reference)) (\<lambda>published.
        bnd (if status = Running then attempt (start_record a r) else ret (Ok ())) (\<lambda>restarted.
          lift_r (publish_outcome published restarted)))))))"

record list_row =
  lr_name :: string
  lr_environment :: string
  lr_repository :: "string option"
  lr_status :: string

definition list_row_of :: "'v application \<Rightarrow> machine_record \<Rightarrow> list_row list \<Rightarrow> list_row list io" where
  "list_row_of a r rows =
     bnd (app_machine_status a r) (\<lambda>status.
       ret (rows @ [\<lparr>lr_name = m_name r, lr_environment = e_reference (m_environment r),
                     lr_repository = m_repository r, lr_status = status_str status\<rparr>]))"

definition list_rows :: "'v application \<Rightarrow> list_row list io" where
  "list_rows a =
     thn (store_open (ap_data a)) (bnd (store_lock (ap_state a) (ap_data a)) (\<lambda>st.
       io_fold (list_row_of a) (bt_values (machines st)) []))"

text \<open>What the guest says about the workspace before a machine is destroyed.\<close>

definition clean_answer :: "response \<Rightarrow> unit result" where
  "clean_answer resp =
     (case resp of
        WorkspaceStatusReply clean porcelain \<Rightarrow>
          if clean then Ok () else bail ''Workspace contains uncommitted changes''
      | ErrorReply m \<Rightarrow> bail ''could not verify workspace cleanliness''
      | _ \<Rightarrow> bail ''guest returned an unexpected workspace response'')"

definition ensure_clean :: "'v application \<Rightarrow> machine_record \<Rightarrow> bool \<Rightarrow> unit io" where
  "ensure_clean a r was_running =
     thn (if was_running then ret () else start_record a r)
     (bnd (attempt (guest_request a r (WorkspaceStatus
             (''/workspace/'' @ (case m_repository_dir r of Some d \<Rightarrow> d | None \<Rightarrow> [])))))
       (\<lambda>status.
      thn (if was_running then ret () else thn (attempt (stop_record a r)) (ret ()))
        (bnd (lift_r status) (\<lambda>resp. lift_r (clean_answer resp)))))"

definition remove_locked :: "'v application \<Rightarrow> string \<Rightarrow> bool \<Rightarrow> app_state \<Rightarrow> machine_record \<Rightarrow> unit io" where
  "remove_locked a nm force st r =
     bnd (app_machine_status a r) (\<lambda>before.
     thn (if m_repository r \<noteq> None \<and> \<not> force then ensure_clean a r (before = Running) else ret ())
     (bnd (app_machine_status a r) (\<lambda>status.
      thn (if status = Running then stop_record a r else ret ())
      (thn (remove_storage a r)
        (store_save (ap_state a) (ap_data a) (forget nm st))))))"

definition app_remove :: "'v application \<Rightarrow> string \<Rightarrow> bool \<Rightarrow> unit io" where
  "app_remove a nm force = with_machine a nm (remove_locked a nm force)"

end
