(* ===== verification/ImageCopy.thy ===== *)
theory ImageCopy
  imports Storage
begin

text \<open>
  Copying a disk image (\<open>sparse_copy\<close>, \<open>clone_sparse_or_reflink\<close>, \<open>clone_image_atomic\<close> of \<open>storage.rs\<close>) is
  exact: whatever the kernel says of holes, however short its reads and writes are and wherever a call
  fails, the loops end and success means the copy has the content of the source.
\<close>

section \<open>What the code relies on\<close>

text \<open>
  \<open>lseek(2)\<close> at an offset inside the file: \<open>SEEK_DATA\<close> gives the next offset that holds data, what it skips
  reads as zeros, \<open>ENXIO\<close> means that only a hole is left; \<open>SEEK_HOLE\<close> at data gives a later offset.
\<close>

definition zeros_between :: "nat \<Rightarrow> nat \<Rightarrow> string \<Rightarrow> bool" where
  "zeros_between a b c = (take (b - a) (drop a c) = replicate (min b (length c) - a) zero)"

definition extents_ok :: "fs_kernel \<Rightarrow> string \<Rightarrow> bool" where
  "extents_ok k c =
     ((\<forall>off < length c. case fk_seek_data k c off of
         Inl e \<Rightarrow> e = ENXIO \<longrightarrow> zeros_between off (length c) c
       | Inr d \<Rightarrow> off \<le> d \<and> d < length c \<and> zeros_between off d c
           \<and> (\<forall>h. fk_seek_hole k c d = Inr h \<longrightarrow> d < h)))"

section \<open>Contents\<close>

text \<open>The destination while the copy is at offset \<open>p\<close>: the source up to there, zeros after it.\<close>

definition progress :: "nat \<Rightarrow> string \<Rightarrow> string" where
  "progress p c = take p c @ replicate (length c - p) zero"

lemma length_progress [simp]: "length (progress p c) = length c"
  by (simp add: progress_def)

lemma progress_0: "resized (length c) [] = progress 0 c"
  by (simp add: resized_def progress_def)

lemma progress_full: "length c \<le> p \<Longrightarrow> progress p c = c"
  by (simp add: progress_def)

lemma progress_zeros:
  assumes "zeros_between a b c" and "a \<le> b" and "b \<le> length c"
  shows "progress a c = progress b c"
proof -
  have "take b c = take a c @ take (b - a) (drop a c)"
    using assms(2) take_add [of a "b - a" c] by simp
  also have "take (b - a) (drop a c) = replicate (b - a) zero"
    using assms by (simp add: zeros_between_def)
  finally have "progress b c = take a c @ replicate (b - a) zero @ replicate (length c - b) zero"
    by (simp add: progress_def)
  also have "replicate (b - a) zero @ replicate (length c - b) zero = replicate (length c - a) zero"
    using assms(2,3) by (simp flip: replicate_add)
  finally show ?thesis by (simp add: progress_def)
qed

lemma overwritten_inside:
  "off + length d \<le> length c \<Longrightarrow> overwritten off d c = take off c @ d @ drop (off + length d) c"
  by (simp add: overwritten_def resized_def)

lemma overwritten_append:
  assumes "off + length a + length b \<le> length c"
  shows "overwritten (off + length a) b (overwritten off a c) = overwritten off (a @ b) c"
  using assms by (simp add: overwritten_inside drop_drop add.commute add.left_commute)

lemma overwritten_progress:
  assumes "d = take k (drop p c)"
  shows "overwritten p d (progress p c) = progress (p + length d) c"
proof (cases "p \<le> length c")
  case True
  with assms have len: "p + length d \<le> length c" by simp
  have "take (p + length d) c = take p c @ d"
    using assms by (simp add: take_add min_def)
  then show ?thesis
    using len True by (simp add: overwritten_inside) (simp add: progress_def)
next
  case False
  with assms show ?thesis by (simp add: overwritten_def)
qed

section \<open>The loops\<close>

text \<open>While copying: the source has its content \<open>c\<close> and the destination has \<open>d\<close>.\<close>

definition copying :: "path \<Rightarrow> path \<Rightarrow> string \<Rightarrow> string \<Rightarrow> os \<Rightarrow> bool" where
  "copying src dst c d s =
     (src \<noteq> [] \<and> dst \<noteq> [] \<and> src \<noteq> dst \<and> src \<notin> listening s \<and> dst \<notin> listening s
      \<and> fs_get (files s) src = Some (File c) \<and> fs_get (files s) dst = Some (File d))"

text \<open>What every error leaves: a file at the destination; and the error is not that a loop hangs.\<close>

definition stopped :: "path \<Rightarrow> path \<Rightarrow> string \<Rightarrow> err \<Rightarrow> os \<Rightarrow> bool" where
  "stopped src dst c e s = (e \<noteq> Hangs \<and> (\<exists>d. copying src dst c d s))"

lemma copying_before [simp]: "copying src dst c d s \<Longrightarrow> copying src dst c d (before_call s)"
  by (simp add: copying_def)

lemma copying_content [simp]:
  "copying src dst c d s \<Longrightarrow> content_at s src = c" "copying src dst c d s \<Longrightarrow> content_at s dst = d"
  by (simp_all add: copying_def content_at_def)

lemma copying_set [simp]:
  "copying src dst c d s \<Longrightarrow> copying src dst c d' (set_content dst d' s)"
  by (auto simp: copying_def set_content_def put_entry_def fs_get_def split: option.splits node.splits)

lemma triple_copying:
  assumes "\<And>s. copying src dst c d s \<Longrightarrow> case act s of (Inr x, t) \<Rightarrow> Q x t | (Inl e, t) \<Rightarrow> stopped src dst c e t"
  shows "triple (copying src dst c d) (syscall act) Q (stopped src dst c)"
  by (rule triple_syscall) (use assms in \<open>auto simp: triple_def stopped_def\<close>)

lemma triple_read_at:
  "triple (copying src dst c d) (sys_read_at src off n)
     (\<lambda>b s. copying src dst c d s \<and> (\<exists>k. b = take k (drop off c))
        \<and> length b \<le> n \<and> (0 < n \<longrightarrow> off < length c \<longrightarrow> 0 < length b)) (stopped src dst c)"
proof -
  have "triple (copying src dst c d) (syscall (\<lambda>s. (Ok (take k (drop off (content_at s src))), s)))
     (\<lambda>b s. copying src dst c d s \<and> (\<exists>k. b = take k (drop off c))
        \<and> length b \<le> n \<and> (0 < n \<longrightarrow> off < length c \<longrightarrow> 0 < length b)) (stopped src dst c)"
    if "k \<le> n" "0 < n \<longrightarrow> 0 < k" for k
    by (rule triple_copying) (use that in auto)
  note run = this
  have "moved n sl \<le> n" "0 < n \<longrightarrow> 0 < moved n sl" for sl
    by (simp_all add: moved_def)
  note run = run [OF this]
  show ?thesis
    unfolding triple_def
  proof (intro allI impI)
    fix s assume "copying src dst c d s"
    with run [of "next_slot s", unfolded triple_def]
    show "case sys_read_at src off n s of
       (Inl e, t) \<Rightarrow> stopped src dst c e t
     | (Inr b', t) \<Rightarrow> copying src dst c d t \<and> (\<exists>k. b' = take k (drop off c))
        \<and> length b' \<le> n \<and> (0 < n \<longrightarrow> off < length c \<longrightarrow> 0 < length b')"
      by (simp add: sys_read_at_def Let_def)
  qed
qed

lemma triple_write_at:
  "triple (copying src dst c d) (sys_write_at dst off b)
     (\<lambda>w s. copying src dst c (overwritten off (take w b) d) s \<and> w \<le> length b \<and> (b \<noteq> [] \<longrightarrow> 0 < w))
     (stopped src dst c)"
proof -
  have "triple (copying src dst c d)
     (syscall (\<lambda>s. (Ok k, set_content dst (overwritten off (take k b) (content_at s dst)) s)))
     (\<lambda>w s. copying src dst c (overwritten off (take w b) d) s \<and> w \<le> length b \<and> (b \<noteq> [] \<longrightarrow> 0 < w))
     (stopped src dst c)"
    if "k \<le> length b" "b \<noteq> [] \<longrightarrow> 0 < k" for k
    by (rule triple_copying) (use that in auto)
  note run = this
  have "moved (length b) sl \<le> length b" "b \<noteq> [] \<longrightarrow> 0 < moved (length b) sl" for sl
    by (simp_all add: moved_def)
  note run = run [OF this]
  show ?thesis
    unfolding triple_def
  proof (intro allI impI)
    fix s assume "copying src dst c d s"
    with run [of "next_slot s", unfolded triple_def]
    show "case sys_write_at dst off b s of
       (Inl e, t) \<Rightarrow> stopped src dst c e t
     | (Inr b', t) \<Rightarrow> copying src dst c (overwritten off (take b' b) d) t \<and> b' \<le> length b \<and> (b \<noteq> [] \<longrightarrow> 0 < b')"
      by (simp add: sys_write_at_def Let_def)
  qed
qed

lemma triple_stopped_fail:
  "e \<noteq> Hangs \<Longrightarrow> triple (copying src dst c d) (fail e) Q (stopped src dst c)"
  by (rule triple_fail) (auto simp: stopped_def)

lemma triple_pure:
  "(\<And>s. P s \<Longrightarrow> A) \<Longrightarrow> (A \<Longrightarrow> triple P m Q E) \<Longrightarrow> triple P m Q E"
  by (auto simp: triple_def)

lemma triple_conj: "(A \<Longrightarrow> triple P m Q E) \<Longrightarrow> triple (\<lambda>s. P s \<and> A) m Q E"
  by (auto simp: triple_def)

lemma triple_write_loop:
  assumes "length b \<le> n" and "off + length b \<le> length d"
  shows "triple (copying src dst c d) (write_loop n dst b off)
    (\<lambda>_. copying src dst c (overwritten off b d)) (stopped src dst c)"
  using assms
proof (induction n arbitrary: b off d)
  case 0
  then show ?case by (simp add: overwritten_inside triple_ret)
next
  case (Suc n)
  show ?case
  proof (cases "b = []")
    case True
    with Suc.prems show ?thesis by (simp add: overwritten_inside triple_ret)
  next
    case False
    have step: "triple (copying src dst c (overwritten off (take w b) d)) (write_loop n dst (drop w b) (off + w))
        (\<lambda>_. copying src dst c (overwritten off b d)) (stopped src dst c)" if "0 < w" "w \<le> length b" for w
    proof -
      have "overwritten (off + w) (drop w b) (overwritten off (take w b) d) = overwritten off b d"
        using overwritten_append [of off "take w b" "drop w b" d] that Suc.prems by simp
      moreover have "length (overwritten off (take w b) d) = length d"
        using that Suc.prems by (simp add: overwritten_inside)
      ultimately show ?thesis
        using Suc.IH [of "drop w b" "off + w" "overwritten off (take w b) d"] that Suc.prems False by simp
    qed
    show ?thesis
      unfolding write_loop.simps
      by (simp add: False, rule triple_bnd [OF triple_write_at])
        (rule triple_pure [of _ "0 < w \<and> w \<le> length b" for w], use False in simp,
          auto intro: triple_conseq [OF step])
  qed
qed

lemma triple_copy_extent:
  assumes "hole - p \<le> n" and "hole \<le> length c" and "p \<le> hole"
  shows "triple (copying src dst c (progress p c)) (copy_extent n src dst p hole)
    (\<lambda>_. copying src dst c (progress hole c)) (stopped src dst c)"
  using assms
proof (induction n arbitrary: p)
  case 0
  then show ?case by (simp add: triple_ret)
next
  case (Suc n)
  show ?case
  proof (cases "p < hole")
    case False
    with Suc.prems show ?thesis by (simp add: triple_ret)
  next
    case True
    have body: "triple (\<lambda>s. copying src dst c (progress p c) s \<and> (\<exists>k. b = take k (drop p c))
          \<and> length b \<le> min (hole - p) COPY_BUFFER \<and> (0 < min (hole - p) COPY_BUFFER \<longrightarrow> p < length c \<longrightarrow> 0 < length b))
        (io_ensure (length b \<noteq> 0) ''unexpected EOF while cloning raw image''
          (thn (write_all_at dst b p) (copy_extent n src dst (p + length b) hole)))
        (\<lambda>_. copying src dst c (progress hole c)) (stopped src dst c)" for b
    proof (rule triple_conj, elim conjE exE)
      fix k assume b: "b = take k (drop p c)" "length b \<le> min (hole - p) COPY_BUFFER"
      have len: "p + length b \<le> length (progress p c)" using b(1) Suc.prems by simp
      have written: "triple (copying src dst c (progress p c)) (write_all_at dst b p)
          (\<lambda>_. copying src dst c (progress (p + length b) c)) (stopped src dst c)"
        unfolding write_all_at_def
        using triple_write_loop [OF order_refl len, of src dst c] overwritten_progress [OF b(1)] by simp
      show "triple (copying src dst c (progress p c))
        (io_ensure (length b \<noteq> 0) ''unexpected EOF while cloning raw image''
          (thn (write_all_at dst b p) (copy_extent n src dst (p + length b) hole)))
        (\<lambda>_. copying src dst c (progress hole c)) (stopped src dst c)"
      proof (rule triple_ensure)
        assume some: "length b \<noteq> 0"
        have "length b \<le> hole - p" using b(2) by simp
        with some Suc.prems True have "hole - (p + length b) \<le> n" "p + length b \<le> hole"
          by linarith+
        with Suc.prems have "triple (copying src dst c (progress (p + length b) c))
            (copy_extent n src dst (p + length b) hole)
            (\<lambda>_. copying src dst c (progress hole c)) (stopped src dst c)"
          by (intro Suc.IH) auto
        then show "triple (copying src dst c (progress p c))
            (thn (write_all_at dst b p) (copy_extent n src dst (p + length b) hole))
            (\<lambda>_. copying src dst c (progress hole c)) (stopped src dst c)"
          by (rule triple_thn [OF written])
      qed (auto simp: stopped_def)
    qed
    show ?thesis
      unfolding copy_extent.simps if_P [OF True] by (rule triple_bnd [OF triple_read_at body])
  qed
qed

lemma triple_seek:
  "triple (copying src dst c d) (sys_seek locate src off)
     (\<lambda>n s. copying src dst c d s \<and> locate c off = Inr n)
     (\<lambda>e s. copying src dst c d s \<and> e \<noteq> Hangs
        \<and> (e = Io ENXIO \<longrightarrow> locate c off = Inl ENXIO))"
proof -
  have "fault_errno f \<noteq> ENXIO" for f by (cases f) simp_all
  then show ?thesis
    unfolding sys_seek_def by (intro triple_syscall) (auto simp: triple_def split: sum.splits)
qed

lemma triple_copy_all:
  "triple (copying src dst c d) (sys_copy_all src dst) (\<lambda>_. copying src dst c c) (stopped src dst c)"
  unfolding sys_copy_all_def by (rule triple_copying) auto

lemma triple_set_len:
  "triple (copying src dst c d) (sys_set_len dst n) (\<lambda>_. copying src dst c (resized n d)) (stopped src dst c)"
  unfolding sys_set_len_def by (rule triple_copying) auto

lemma triple_copy_loop:
  assumes "extents_ok k c" and "length c - off \<le> n"
  shows "triple (copying src dst c (progress off c)) (copy_loop n k src dst (length c) off)
    (\<lambda>_. copying src dst c c) (stopped src dst c)"
  using assms(2)
proof (induction n arbitrary: off)
  case 0
  then show ?case by (simp add: triple_ret progress_full)
next
  case (Suc n)
  show ?case
  proof (cases "off < length c")
    case False
    then show ?thesis by (simp add: triple_ret progress_full)
  next
    case True
    let ?P = "copying src dst c" and ?E = "stopped src dst c"
    note law = assms(1) [unfolded extents_ok_def, rule_format, OF True]
    have data: "triple (\<lambda>s. ?P (progress off c) s \<and> fk_seek_data k c off = Inr data)
        (bnd (attempt (sys_seek (fk_seek_hole k) src data)) (\<lambda>h.
          bnd (case h of Inl e \<Rightarrow> if e = Io ENXIO then ret (length c) else fail e
               | Inr hole \<Rightarrow> ret (min hole (length c))) (\<lambda>hole.
          io_ensure (data \<le> hole) ''filesystem returned an invalid sparse extent''
          (thn (copy_extent (hole - data) src dst data hole)
            (copy_loop n k src dst (length c) hole))))) (\<lambda>_. ?P c) ?E" for data
    proof (rule triple_conj)
      assume found: "fk_seek_data k c off = Inr data"
      with law have d: "off \<le> data" "data < length c" "zeros_between off data c"
        and later: "\<And>h. fk_seek_hole k c data = Inr h \<Longrightarrow> data < h" by auto
      have same: "progress off c = progress data c" using d by (intro progress_zeros) auto
      have rest: "triple (?P (progress data c)) (io_ensure (data \<le> hole) m
          (thn (copy_extent (hole - data) src dst data hole) (copy_loop n k src dst (length c) hole)))
          (\<lambda>_. ?P c) ?E" if "data < hole" "hole \<le> length c" for hole m
        using that Suc.prems d
        by (intro triple_ensure triple_thn [OF triple_copy_extent] Suc.IH) (auto simp: stopped_def)
      have "triple (?P (progress data c)) (attempt (sys_seek (fk_seek_hole k) src data))
          (\<lambda>h s. ?P (progress data c) s \<and> (case h of Inl e \<Rightarrow> e \<noteq> Hangs | Inr hole \<Rightarrow> data < hole)) ?E"
        by (rule triple_attempt, rule triple_conseq [OF triple_seek]) (use later in auto)
      moreover have "triple (\<lambda>s. ?P (progress data c) s \<and> (case h of Inl e \<Rightarrow> e \<noteq> Hangs | Inr hole \<Rightarrow> data < hole))
          (bnd (case h of Inl e \<Rightarrow> if e = Io ENXIO then ret (length c) else fail e
               | Inr hole \<Rightarrow> ret (min hole (length c))) (\<lambda>hole.
          io_ensure (data \<le> hole) ''filesystem returned an invalid sparse extent''
          (thn (copy_extent (hole - data) src dst data hole)
            (copy_loop n k src dst (length c) hole)))) (\<lambda>_. ?P c) ?E" for h
      proof (cases h)
        case (Inl e)
        show ?thesis
          using rest [of "length c" "''filesystem returned an invalid sparse extent''"] d(2)
          by (auto simp: Inl triple_def bnd_def ret_def fail_def stopped_def)
      next
        case (Inr hole)
        show ?thesis
          using rest [of "min hole (length c)" "''filesystem returned an invalid sparse extent''"] d(2)
          by (auto simp: Inr triple_def bnd_def ret_def)
      qed
      ultimately show "triple (?P (progress off c))
        (bnd (attempt (sys_seek (fk_seek_hole k) src data)) (\<lambda>h.
          bnd (case h of Inl e \<Rightarrow> if e = Io ENXIO then ret (length c) else fail e
               | Inr hole \<Rightarrow> ret (min hole (length c))) (\<lambda>hole.
          io_ensure (data \<le> hole) ''filesystem returned an invalid sparse extent''
          (thn (copy_extent (hole - data) src dst data hole)
            (copy_loop n k src dst (length c) hole))))) (\<lambda>_. ?P c) ?E"
        unfolding same by (rule triple_bnd)
    qed
    have none: "triple (\<lambda>s. ?P (progress off c) s \<and> (e \<noteq> Hangs
          \<and> (e = Io ENXIO \<longrightarrow> fk_seek_data k c off = Inl ENXIO)))
        (if e = Io ENXIO then ret ()
         else if e \<in> {Io EINVAL, Io EOPNOTSUPP} then thn (sys_set_len dst 0) (sys_copy_all src dst)
         else fail e) (\<lambda>_. ?P c) ?E" for e
    proof (rule triple_conj)
      assume e: "e \<noteq> Hangs \<and> (e = Io ENXIO \<longrightarrow> fk_seek_data k c off = Inl ENXIO)"
      have "progress off c = c" if "e = Io ENXIO"
        using that e law progress_zeros [of off "length c" c] True by (simp add: progress_full)
      moreover have "triple (?P d) (thn (sys_set_len dst 0) (sys_copy_all src dst)) (\<lambda>_. ?P c) ?E" for d
        by (rule triple_thn [OF triple_set_len triple_copy_all])
      ultimately show "triple (?P (progress off c)) (if e = Io ENXIO then ret ()
         else if e \<in> {Io EINVAL, Io EOPNOTSUPP} then thn (sys_set_len dst 0) (sys_copy_all src dst)
         else fail e) (\<lambda>_. ?P c) ?E"
        using e by (auto intro: triple_stopped_fail simp: triple_ret)
    qed
    have seek: "triple (?P (progress off c)) (attempt (sys_seek (fk_seek_data k) src off))
        (\<lambda>r s. ?P (progress off c) s \<and> (case r of Inr n \<Rightarrow> fk_seek_data k c off = Inr n
          | Inl e \<Rightarrow> e \<noteq> Hangs \<and> (e = Io ENXIO \<longrightarrow> fk_seek_data k c off = Inl ENXIO))) ?E"
      by (rule triple_attempt, rule triple_conseq [OF triple_seek]) auto
    show ?thesis
      unfolding copy_loop.simps if_P [OF True]
      by (rule triple_bnd [OF seek]) (use data none in \<open>auto split: sum.splits\<close>)
  qed
qed

section \<open>Cloning\<close>

lemma triple_sparse_copy:
  assumes "extents_ok k c"
  shows "triple (copying src dst c []) (sparse_copy k src dst) (\<lambda>_. copying src dst c c) (stopped src dst c)"
proof -
  have stat: "triple (copying src dst c []) (sys_fstat src)
      (\<lambda>md s. copying src dst c [] s \<and> e_node md = File c) (stopped src dst c)"
    unfolding sys_fstat_def sys_lstat_def
    by (rule triple_copying) (auto simp: copying_def stopped_def fs_get_def entry_at_def split: option.splits)
  have len: "triple (copying src dst c []) (sys_set_len dst (length c))
      (\<lambda>_. copying src dst c (progress 0 c)) (stopped src dst c)"
    using triple_set_len [of src dst c "[]" "length c"] by (simp add: progress_0)
  have "triple (copying src dst c (progress 0 c)) (copy_loop (length c) k src dst (length c) 0)
      (\<lambda>_. copying src dst c c) (stopped src dst c)"
    by (rule triple_copy_loop [OF assms]) simp
  then show ?thesis
    unfolding sparse_copy_def Let_def
    by (intro triple_bnd [OF stat] triple_conj) (simp add: triple_thn [OF len])
qed

text \<open>Before the clone: the source is there; nothing is said of the destination.\<close>

definition clonable :: "path \<Rightarrow> path \<Rightarrow> string \<Rightarrow> os \<Rightarrow> bool" where
  "clonable src dst c s =
     (src \<noteq> [] \<and> dst \<noteq> [] \<and> src \<noteq> dst \<and> src \<notin> listening s \<and> dst \<notin> listening s
      \<and> fs_get (files s) src = Some (File c))"

definition unclonable :: "path \<Rightarrow> path \<Rightarrow> string \<Rightarrow> err \<Rightarrow> os \<Rightarrow> bool" where
  "unclonable src dst c e s = (e \<noteq> Hangs \<and> clonable src dst c s)"

lemma clonable_before [simp]: "clonable src dst c s \<Longrightarrow> clonable src dst c (before_call s)"
  by (simp add: clonable_def)

lemma copying_clonable: "copying src dst c d s \<Longrightarrow> clonable src dst c s"
  by (simp add: copying_def clonable_def)

lemma triple_clonable:
  assumes "\<And>s. clonable src dst c s \<Longrightarrow> case act s of (Inr x, t) \<Rightarrow> Q x t | (Inl e, t) \<Rightarrow> unclonable src dst c e t"
  shows "triple (clonable src dst c) (syscall act) Q (unclonable src dst c)"
  by (rule triple_syscall) (use assms in \<open>auto simp: triple_def unclonable_def\<close>)

lemma triple_weaken_stopped:
  "triple P m Q (stopped src dst c) \<Longrightarrow> triple P m Q (unclonable src dst c)"
  by (erule triple_conseq) (auto simp: stopped_def unclonable_def copying_clonable)

lemma triple_open_source:
  "triple (clonable src dst c) (open_existing_regular src) (\<lambda>_. clonable src dst c) (unclonable src dst c)"
proof -
  have "triple (clonable src dst c) (sys_open_nofollow src) (\<lambda>_. clonable src dst c) (unclonable src dst c)"
    unfolding sys_open_nofollow_def
    by (rule triple_clonable) (auto simp: unclonable_def split: option.splits node.splits)
  moreover have "triple (clonable src dst c) (sys_fstat src) (\<lambda>_. clonable src dst c) (unclonable src dst c)"
    unfolding sys_fstat_def sys_lstat_def
    by (rule triple_clonable) (auto simp: unclonable_def split: option.splits)
  ultimately show ?thesis
    unfolding open_existing_regular_def
    by (intro triple_bnd triple_ensure triple_ret) (auto simp: unclonable_def)
qed

lemma triple_open_copy:
  "triple (clonable src dst c) (open_new_regular dst) (\<lambda>_. copying src dst c []) (unclonable src dst c)"
  unfolding open_new_regular_def sys_create_new_def
  by (rule triple_clonable)
    (auto simp: unclonable_def clonable_def copying_def fs_get_put new_entry_def)

lemma triple_nop_copying: "triple (copying src dst c d) sys_nop (\<lambda>_. copying src dst c d) (stopped src dst c)"
  unfolding sys_nop_def by (rule triple_copying) (simp add: ret_def)

lemma triple_clone:
  assumes "extents_ok k c"
  shows "triple (clonable src dst c) (clone_sparse_or_reflink k src dst) (\<lambda>_. copying src dst c c)
    (unclonable src dst c)"
proof -
  have share: "triple (copying src dst c []) (attempt (sys_ficlone k src dst))
      (\<lambda>r s. case r of Inr _ \<Rightarrow> copying src dst c c s | Inl e \<Rightarrow> copying src dst c [] s \<and> e \<noteq> Hangs)
      (stopped src dst c)"
    unfolding sys_ficlone_def
    by (rule triple_attempt, rule triple_syscall) (auto simp: triple_def split: option.splits)
  have copy: "triple (copying src dst c []) (thn (sys_set_len dst 0) (thn (sparse_copy k src dst) sys_nop))
      (\<lambda>_. copying src dst c c) (stopped src dst c)"
    using triple_set_len [of src dst c "[]" 0]
    by (intro triple_thn [OF _ triple_thn [OF triple_sparse_copy [OF assms] triple_nop_copying]])
      (simp add: resized_def)
  have "triple (\<lambda>s. case r of Inr _ \<Rightarrow> copying src dst c c s | Inl e \<Rightarrow> copying src dst c [] s \<and> e \<noteq> Hangs)
      (case r of
         Inr _ \<Rightarrow> sys_nop
       | Inl e \<Rightarrow>
           if e \<in> {Io EOPNOTSUPP, Io EXDEV, Io EINVAL, Io ENOTTY}
           then thn (sys_set_len dst 0) (thn (sparse_copy k src dst) sys_nop)
           else fail e) (\<lambda>_. copying src dst c c) (stopped src dst c)" for r :: "unit result"
    by (cases r) (auto intro!: triple_conj copy triple_stopped_fail triple_nop_copying)
  then have "triple (copying src dst c []) (bnd (attempt (sys_ficlone k src dst)) (\<lambda>r.
       case r of
         Inr _ \<Rightarrow> sys_nop
       | Inl e \<Rightarrow>
           if e \<in> {Io EOPNOTSUPP, Io EXDEV, Io EINVAL, Io ENOTTY}
           then thn (sys_set_len dst 0) (thn (sparse_copy k src dst) sys_nop)
           else fail e)) (\<lambda>_. copying src dst c c) (stopped src dst c)"
    by (rule triple_bnd [OF share])
  then show ?thesis
    unfolding clone_sparse_or_reflink_def
    by (intro triple_thn [OF triple_open_source] triple_thn [OF triple_open_copy] triple_weaken_stopped)
qed

section \<open>Committing\<close>

lemma triple_outside:
  assumes "triple P m Q E" and "preserves (outside S) m"
  shows "triple (\<lambda>s. P s \<and> outside S s0 s) m (\<lambda>x s. Q x s \<and> outside S s0 s) (\<lambda>e s. E e s \<and> outside S s0 s)"
  unfolding triple_def
proof (intro allI impI)
  fix s assume s: "P s \<and> outside S s0 s"
  obtain r t where run: "m s = (r, t)" by fastforce
  have "outside S s0 t" using s preservesD [OF assms(2) run] outside_trans by blast
  moreover have "case m s of (Inr x, t) \<Rightarrow> Q x t | (Inl e, t) \<Rightarrow> E e t"
    using assms(1) s by (simp add: triple_def)
  ultimately show "case m s of
      (Inl e, t) \<Rightarrow> E e t \<and> outside S s0 t | (Inr x, t) \<Rightarrow> Q x t \<and> outside S s0 t"
    using run by (auto split: sum.splits)
qed

definition is_ext4 :: "string \<Rightarrow> bool" where
  "is_ext4 c = (take 2 (drop 1080 c) = [CHR 0x53, CHR 0xEF])"

lemma ext4_magic:
  assumes "length (take 2 (drop 1080 c)) = 2"
    and "byte (take 2 (drop 1080 c) ! 0) + 256 * byte (take 2 (drop 1080 c) ! 1) = 61267"
  shows "is_ext4 c"
proof -
  obtain a b where ab: "take 2 (drop 1080 c) = [a, b]"
    using assms(1) by (metis length_0_conv length_Suc_conv numeral_2_eq_2)
  have lt: "byte a < 256" "byte b < 256" by simp_all
  have eq: "byte a + 256 * byte b = 61267" using assms(2) ab by simp
  have "byte a = 83" "byte b = 239" using eq lt by presburger+
  then have "a = char_of (83 :: nat)" "b = char_of (239 :: nat)"
    by (metis char_of_char)+
  moreover have "char_of (83 :: nat) = CHR 0x53" "char_of (239 :: nat) = CHR 0xEF" by code_simp+
  ultimately have "a = CHR 0x53" "b = CHR 0xEF" by simp_all
  with ab show ?thesis by (simp add: is_ext4_def)
qed

lemma triple_validate_copy:
  "triple (copying src dst c d) (validate_ext4_image dst)
     (\<lambda>_ s. copying src dst c d s \<and> is_ext4 d) (stopped src dst c)"
proof -
  have opened: "triple (copying src dst c d) (sys_open_nofollow dst) (\<lambda>_. copying src dst c d) (stopped src dst c)"
    unfolding sys_open_nofollow_def
    by (rule triple_copying) (auto simp: stopped_def split: option.splits node.splits)
  have stat: "triple (copying src dst c d) (sys_fstat dst) (\<lambda>_. copying src dst c d) (stopped src dst c)"
    unfolding sys_fstat_def sys_lstat_def
    by (rule triple_copying) (auto simp: stopped_def split: option.splits)
  have open_dst: "triple (copying src dst c d) (open_existing_regular dst)
      (\<lambda>_. copying src dst c d) (stopped src dst c)"
    unfolding open_existing_regular_def
    by (intro triple_bnd [OF opened] triple_bnd [OF stat] triple_ensure triple_ret) (auto simp: stopped_def)
  have read: "triple (copying src dst c d) (sys_read dst)
      (\<lambda>b s. copying src dst c d s \<and> b = d) (stopped src dst c)"
    unfolding sys_read_def
  proof (rule triple_copying)
    fix s assume s: "copying src dst c d s"
    then have "fs_get (files s) dst = Some (File d)" by (simp add: copying_def)
    from entry_at_get [OF this] obtain e where "entry_at s dst = Some e" "e_node e = File d" by blast
    with s show "case case entry_at s dst of
        Some e \<Rightarrow> (case e_node e of File c \<Rightarrow> (Ok c, s) | Dir \<Rightarrow> (Inl (Io (EOTHER 21)), s)
          | _ \<Rightarrow> (Inl (Io EIO), s))
      | None \<Rightarrow> (Inl (Io ENOENT), s) of
        (Inl e, t) \<Rightarrow> stopped src dst c e t | (Inr x, t) \<Rightarrow> copying src dst c d t \<and> x = d"
      by simp
  qed
  show ?thesis
    unfolding validate_ext4_image_def
    by (intro triple_thn [OF open_dst] triple_thn [OF triple_nop_copying] triple_bnd [OF read] triple_conj)
      (auto simp: Let_def triple_def fail_def ret_def io_ensure_def stopped_def intro!: ext4_magic)
qed

text \<open>A loop of the code that does not end is the error \<open>Hangs\<close> of the model; no call gives it.\<close>

definition no_hang :: "'a io \<Rightarrow> bool" where
  "no_hang m = (\<forall>s. fst (m s) \<noteq> Inl Hangs)"

lemma no_hang_syscall: "(\<And>s. fst (act s) \<noteq> Inl Hangs) \<Longrightarrow> no_hang (syscall act)"
  by (simp add: no_hang_def syscall_def split: option.split)

lemma no_hang_bnd: "no_hang m \<Longrightarrow> (\<And>x. no_hang (f x)) \<Longrightarrow> no_hang (bnd m f)"
  unfolding no_hang_def bnd_def by (auto split: prod.splits sum.splits) (metis fst_conv)+

lemma no_hang_calls:
  "no_hang (sys_link p q)" "no_hang (sys_unlink p)" "no_hang (sys_open p)" "no_hang sys_nop"
  unfolding sys_link_def sys_unlink_def sys_open_def sys_nop_def
  by (rule no_hang_syscall; simp add: ret_def split: option.splits sum.splits)+

lemma no_hang_sync: "no_hang (sync_parent p)"
proof -
  have "no_hang (sync_directory d)" for d
    unfolding sync_directory_def thn_def by (intro no_hang_bnd no_hang_calls)
  then show ?thesis
    by (cases "parent p") (simp_all add: sync_parent_def no_hang_def fail_def)
qed

lemma triple_no_hang:
  "triple P m Q E \<Longrightarrow> no_hang m \<Longrightarrow> triple P m Q (\<lambda>e s. e \<noteq> Hangs \<and> E e s)"
  unfolding triple_def no_hang_def
  by (auto split: prod.splits sum.splits) (metis fst_conv)

text \<open>What a failed commit may leave: nothing at the destination, or the whole checked image.\<close>

definition committed :: "path \<Rightarrow> string \<Rightarrow> err \<Rightarrow> os \<Rightarrow> bool" where
  "committed dest c e s =
     (e \<noteq> Hangs \<and> dest \<notin> listening s
      \<and> fs_get (files s) dest \<in> insert None {Some (File d) |d. d = c \<and> is_ext4 c})"

lemma triple_unlink_either:
  "triple (\<lambda>s. dest \<notin> listening s \<and> fs_get (files s) dest \<in> insert None X) (sys_unlink p)
    (\<lambda>_ s. dest \<notin> listening s \<and> fs_get (files s) dest \<in> insert None X)
    (\<lambda>e s. dest \<notin> listening s \<and> fs_get (files s) dest \<in> insert None X)"
  unfolding sys_unlink_def
proof (rule triple_syscall)
  fix s :: os assume "dest \<notin> listening s \<and> fs_get (files s) dest \<in> insert None X"
  then show "dest \<notin> listening (before_call s) \<and> fs_get (files (before_call s)) dest \<in> insert None X"
    by simp
next
  show "triple (\<lambda>s. dest \<notin> listening s \<and> fs_get (files s) dest \<in> insert None X)
    (\<lambda>s. case entry_at s p of None \<Rightarrow> (Inl (Io ENOENT), s)
      | Some e \<Rightarrow> if e_node e = Dir then (Inl (Io (EOTHER 21)), s) else (Ok (), del_entry p s))
    (\<lambda>_ s. dest \<notin> listening s \<and> fs_get (files s) dest \<in> insert None X)
    (\<lambda>e s. dest \<notin> listening s \<and> fs_get (files s) dest \<in> insert None X)"
    using fs_get_del [of dest p] by (cases "dest = []") (auto simp: triple_def split: option.splits)
qed simp

lemma triple_cleanup:
  assumes "triple P m Q (committed dest c)"
  shows "triple P (on_error m (sys_unlink p)) Q (committed dest c)"
proof (rule triple_on_error [OF assms(1)])
  fix e
  show "triple (committed dest c e) (sys_unlink p) (\<lambda>_. committed dest c e) (\<lambda>_. committed dest c e)"
  proof (cases "e = Hangs")
    case True
    then show ?thesis by (simp add: triple_def committed_def)
  next
    case False
    then show ?thesis
      by (intro triple_conseq [OF triple_unlink_either
            [where X = "{Some (File d) |d. d = c \<and> is_ext4 c}"]])
        (auto simp: committed_def)
  qed
qed

lemma triple_commit_no_replace:
  assumes "is_ext4 c"
  shows "triple (staged dest tmp None c) (commit_no_replace tmp dest) (\<lambda>_. replaced dest tmp c)
    (committed dest c)"
proof -
  have link: "triple (staged dest tmp None c) (sys_link tmp dest) (\<lambda>_. linked dest tmp c) (committed dest c)"
    by (rule triple_conseq [OF triple_no_hang [OF triple_link_staged no_hang_calls(1)]])
      (auto simp: unstaged_def committed_def)
  have unlink: "triple (linked dest tmp c) (sys_unlink tmp) (\<lambda>_. replaced dest tmp c) (committed dest c)"
    by (rule triple_conseq [OF triple_no_hang [OF triple_unlink_linked no_hang_calls(2)]])
      (use assms in \<open>auto simp: committed_or_def committed_def\<close>)
  have stable: "triple (replaced dest tmp c) (sync_directory d) (\<lambda>_. replaced dest tmp c) (\<lambda>_. replaced dest tmp c)"
    for d
    by (rule triple_stable_open) simp
  have "triple (replaced dest tmp c) (sync_parent dest) (\<lambda>_. replaced dest tmp c) (\<lambda>_. replaced dest tmp c)"
    by (cases "parent dest") (use stable in \<open>auto simp: sync_parent_def triple_def fail_def\<close>)
  then have sync: "triple (replaced dest tmp c) (sync_parent dest) (\<lambda>_. replaced dest tmp c) (committed dest c)"
    by (rule triple_conseq [OF triple_no_hang [OF _ no_hang_sync]])
      (use assms in \<open>auto simp: replaced_def committed_def\<close>)
  show ?thesis
    unfolding commit_no_replace_def
    by (rule triple_thn [OF link] triple_thn [OF triple_cleanup [OF unlink]] triple_cleanup [OF sync])+
qed

section \<open>Where a copy writes\<close>

lemma outside_set_content: "p \<in> S \<Longrightarrow> outside S s (set_content p d s)"
  by (auto simp: set_content_def outside_refl outside_put split: option.splits node.splits)

lemma outside_content_calls:
  assumes "p \<in> S"
  shows "preserves (outside S) (sys_set_len p n)" "preserves (outside S) (sys_write_at p off d)"
    "preserves (outside S) (sys_ficlone k q p)" "preserves (outside S) (sys_copy_all q p)"
    "preserves (outside S) (sys_read_at q off n)" "preserves (outside S) (sys_seek f q off)"
proof -
  have "preserves (outside S) (syscall (\<lambda>s. (Ok (take j (drop off (content_at s q))), s)))"
    "preserves (outside S) (syscall (\<lambda>s. (Ok j, set_content p (overwritten off (take j d) (content_at s p)) s)))"
    for j
    by (rule outside.syscall; simp add: outside_refl outside_set_content assms)+
  then show "preserves (outside S) (sys_write_at p off d)" "preserves (outside S) (sys_read_at q off n)"
    by (simp_all add: preserves_def sys_write_at_def sys_read_at_def Let_def)
  show "preserves (outside S) (sys_set_len p n)" "preserves (outside S) (sys_ficlone k q p)"
    "preserves (outside S) (sys_copy_all q p)" "preserves (outside S) (sys_seek f q off)"
    unfolding sys_set_len_def sys_ficlone_def sys_copy_all_def sys_seek_def
    by (rule outside.syscall;
        auto simp: outside_refl outside_set_content assms split: option.splits sum.splits)+
qed

lemma outside_open_regular:
  "preserves (outside S) (open_existing_regular p)"
  "p \<in> S \<Longrightarrow> preserves (outside S) (open_new_regular p)"
  unfolding open_existing_regular_def open_new_regular_def
  by (intro outside.combinators outside_reads outside_derived_reads outside_writes; assumption)+

lemma outside_copy:
  assumes "p \<in> S"
  shows "preserves (outside S) (clone_sparse_or_reflink k q p)"
proof -
  have wr: "preserves (outside S) (write_loop n p d off)" for n d off
    by (induction n arbitrary: d off)
      (auto intro!: outside.combinators outside_content_calls assms)
  have extent: "preserves (outside S) (copy_extent n q p off hole)" for n off hole
    by (induction n arbitrary: off)
      (auto intro!: outside.combinators outside_content_calls assms wr simp: write_all_at_def)
  have loop: "preserves (outside S) (copy_loop n k q p len off)" for n len off
    by (induction n arbitrary: off)
      (auto intro!: outside.combinators outside_content_calls assms extent)
  show ?thesis
    unfolding clone_sparse_or_reflink_def sparse_copy_def Let_def
    by (intro outside.combinators outside_content_calls outside_open_regular loop outside_reads
        outside_derived_reads assms)
qed

lemma outside_validate: "preserves (outside S) (validate_ext4_image p)"
  unfolding validate_ext4_image_def Let_def
  by (intro outside.combinators outside_reads outside_open_regular)

lemma outside_commit:
  "p \<in> S \<Longrightarrow> q \<in> S \<Longrightarrow> preserves (outside S) (commit_no_replace p q)"
  unfolding commit_no_replace_def
  by (intro outside.combinators outside_writes outside_sync_parent; assumption)

section \<open>Cloning an image\<close>

definition clone_steps :: "fs_kernel \<Rightarrow> path \<Rightarrow> path \<Rightarrow> path \<Rightarrow> unit io" where
  "clone_steps k src tmp dest =
     thn (clone_sparse_or_reflink k src tmp) (thn (validate_ext4_image tmp) (commit_no_replace tmp dest))"

lemma triple_clone_steps:
  assumes "extents_ok k c" and "dest \<noteq> tmp" and "dest \<noteq> []"
  shows "triple (\<lambda>s. clonable src tmp c s \<and> dest \<notin> listening s \<and> fs_get (files s) dest = None)
    (on_error (clone_steps k src tmp dest) (sys_unlink tmp))
    (\<lambda>_ s. replaced dest tmp c s \<and> is_ext4 c) (committed dest c)"
proof -
  have absent: "dest \<notin> listening t \<and> fs_get (files t) dest = None"
    if "outside {tmp} s t" "dest \<notin> listening s" "fs_get (files s) dest = None" for s t
    using that assms(2) by (auto simp: outside_def)
  have frame: "triple (\<lambda>s. P s \<and> dest \<notin> listening s \<and> fs_get (files s) dest = None) m
      (\<lambda>x s. Q x s \<and> dest \<notin> listening s \<and> fs_get (files s) dest = None) (committed dest c)"
    if "triple P m Q E" "preserves (outside {tmp}) m" "\<And>e s. E e s \<Longrightarrow> e \<noteq> Hangs"
    for P Q E and m :: "unit io"
    unfolding triple_def
  proof (intro allI impI)
    fix s assume s: "P s \<and> dest \<notin> listening s \<and> fs_get (files s) dest = None"
    obtain r t where run: "m s = (r, t)" by fastforce
    from absent [OF preservesD [OF that(2) run]] s have "dest \<notin> listening t \<and> fs_get (files t) dest = None"
      by simp
    with that(1,3) s run show "case m s of (Inl e, t) \<Rightarrow> committed dest c e t
      | (Inr x, t) \<Rightarrow> Q x t \<and> dest \<notin> listening t \<and> fs_get (files t) dest = None"
      by (cases r) (fastforce simp: triple_def committed_def)+
  qed
  let ?A = "\<lambda>s. dest \<notin> listening s \<and> fs_get (files s) dest = None"
  have clone: "triple (\<lambda>s. clonable src tmp c s \<and> ?A s) (clone_sparse_or_reflink k src tmp)
      (\<lambda>_ s. copying src tmp c c s \<and> ?A s) (committed dest c)"
    by (rule frame [OF triple_clone [OF assms(1)] outside_copy]) (simp_all add: unclonable_def)
  have check: "triple (\<lambda>s. copying src tmp c c s \<and> ?A s) (validate_ext4_image tmp)
      (\<lambda>_ s. (copying src tmp c c s \<and> is_ext4 c) \<and> ?A s) (committed dest c)"
    by (rule frame [OF triple_validate_copy outside_validate]) (simp add: stopped_def)
  have commit: "triple (\<lambda>s. (copying src tmp c c s \<and> is_ext4 c) \<and> ?A s) (commit_no_replace tmp dest)
      (\<lambda>_ s. replaced dest tmp c s \<and> is_ext4 c) (committed dest c)"
  proof (cases "is_ext4 c")
    case True
    show ?thesis
      by (rule triple_conseq [OF triple_commit_no_replace [OF True]])
        (use assms True in \<open>auto simp: copying_def staged_def\<close>)
  next
    case False
    then show ?thesis by (simp add: triple_def)
  qed
  show ?thesis
    unfolding clone_steps_def
    by (intro triple_cleanup triple_thn [OF clone] triple_thn [OF check] commit)
qed

lemma clone_image_result:
  assumes "extents_ok k c" and "clone_image_atomic k src dest s = (r, t)"
    and "fs_get (files s) src = Some (File c)" and "src \<noteq> []" and "dest \<noteq> []"
    and "src \<notin> listening s" and "dest \<notin> listening s"
    and "\<forall>u. temporary_sibling dest u \<notin> insert src (listening s)"
  shows "r \<noteq> Inl Hangs
    \<and> (fs_get (files t) dest = fs_get (files s) dest
       \<or> fs_get (files s) dest = None \<and> fs_get (files t) dest = Some (File c) \<and> is_ext4 c)
    \<and> (r = Ok () \<longrightarrow> fs_get (files s) dest = None \<and> fs_get (files t) dest = Some (File c) \<and> is_ext4 c)
    \<and> (\<exists>u. outside {dest, temporary_sibling dest u} s t)"
  using assms(2) unfolding clone_image_atomic_def thn_def
proof (cases rule: bnd_cases)
  case (err e)
  have "outside {} s t" using err(1) by (rule preservesD [OF outside_ensure_absent])
  moreover have "e \<noteq> Hangs"
    using err(1) by (auto simp: ensure_absent_def sys_lstat_def bnd_def attempt_def syscall_def
        ret_def fail_def split: option.splits if_splits)
  ultimately show ?thesis
    using err(2) assms(7) outside_mono [of "{}"] by (auto simp: outside_def)
next
  case (ok x v)
  have none: "fs_get (files s) dest = None"
    using ensure_absent_Ok [OF _ assms(7)] ok(1) by simp
  have "outside {} s v" using ok(1) by (rule preservesD [OF outside_ensure_absent])
  then have v: "fs_get (files v) dest = None" "fs_get (files v) src = Some (File c)"
    "listening v = listening s" "\<And>S. outside S s v"
    using none assms(3,6,7) outside_mono [of "{}" s v] by (auto simp: outside_def)
  let ?tmp = "temporary_sibling dest (uuid_src v (uuid_next v))"
  let ?v = "v\<lparr>uuid_next := Suc (uuid_next v)\<rparr>"
  let ?m = "on_error (clone_steps k src ?tmp dest) (sys_unlink ?tmp)"
  have run: "?m ?v = (r, t)"
    using ok(2) by (simp add: bnd_def new_uuid_def Let_def clone_steps_def thn_def)
  have neq: "dest \<noteq> ?tmp" "?tmp \<noteq> []" using temporary_sibling_neq [OF assms(5)] by metis+
  have "clonable src ?tmp c ?v \<and> dest \<notin> listening ?v \<and> fs_get (files ?v) dest = None"
    using assms(4,6,7,8) neq v by (auto simp: clonable_def)
  with triple_clone_steps [OF assms(1) neq(1) assms(5), of src] run
  have "case r of Inr x \<Rightarrow> replaced dest ?tmp c t \<and> is_ext4 c | Inl e \<Rightarrow> committed dest c e t"
    unfolding triple_def by (fastforce split: sum.splits)
  moreover have "preserves (outside {dest, ?tmp}) ?m"
    unfolding clone_steps_def
    by (intro outside.combinators outside_writes outside_copy outside_validate outside_commit) simp_all
  then have "outside {dest, ?tmp} ?v t" using run by (rule preservesD)
  then have "outside {dest, ?tmp} v t" by (simp add: outside_def)
  then have "\<exists>u. outside {dest, temporary_sibling dest u} s t" using v(4) outside_trans by blast
  ultimately show ?thesis
    using none by (auto simp: replaced_def committed_def split: sum.splits)
qed

text \<open>C8: Cloning an image is exact and all or nothing, however the kernel reports holes and however short
  its reads and writes are: the loops end; the destination is what it was or, where nothing was, the
  whole content of the source, which then is an ext4 image; success means the latter; the source and
  every path other than the destination and its temporary sibling keep what they have.\<close>

theorem clone_image_exact:
  assumes "extents_ok k c" and "clone_image_atomic k src dest s = (r, t)"
    and "fs_get (files s) src = Some (File c)" and "src \<noteq> []" and "dest \<noteq> []"
    and "src \<notin> listening s" and "dest \<notin> listening s"
    and "\<forall>u. temporary_sibling dest u \<notin> insert src (listening s)"
  shows "r \<noteq> Inl Hangs
    \<and> (fs_get (files t) dest = fs_get (files s) dest
       \<or> fs_get (files s) dest = None \<and> fs_get (files t) dest = Some (File c) \<and> is_ext4 c)
    \<and> (r = Ok () \<longrightarrow> fs_get (files s) dest = None \<and> fs_get (files t) dest = Some (File c) \<and> is_ext4 c)
    \<and> fs_get (files t) src = Some (File c)
    \<and> (\<exists>u. outside {dest, temporary_sibling dest u} s t)"
proof -
  note result = clone_image_result [OF assms]
  moreover have "fs_get (files t) src = Some (File c)"
  proof (cases "src = dest")
    case True
    with result assms(3) show ?thesis by auto
  next
    case False
    with result assms(3,6,8) show ?thesis by (fastforce simp: outside_def)
  qed
  ultimately show ?thesis by simp
qed

definition demo_kernel :: fs_kernel where
  "demo_kernel = \<lparr>fk_reflink = None, fk_seek_data = (\<lambda>_. Inr), fk_seek_hole = (\<lambda>c _. Inr (length c))\<rparr>"

definition demo_image :: string where
  "demo_image = replicate 1080 zero @ [CHR 0x53, CHR 0xEF]"

definition demo_disks :: os where
  "demo_disks = demo_os (\<lambda>p. if p = [''d''] then Some private_dir
     else if p = [''d'', ''base''] then Some (private_dir\<lparr>e_node := File demo_image\<rparr>) else None)"

lemma demo_extents: "extents_ok demo_kernel demo_image"
  by (simp add: extents_ok_def demo_kernel_def zeros_between_def)

lemma demo_magic: "take 2 (drop 1080 demo_image) = [CHR 0x53, CHR 0xEF]" "length demo_image = 1082"
  by (simp_all add: demo_image_def)

lemma demo_sibling: "temporary_sibling [''d'', ''disk''] u \<noteq> [''d'', ''base'']"
  by (simp add: temporary_sibling_def with_file_name_def file_name_def)

lemma demo_clone:
  "fst (clone_image_atomic demo_kernel [''d'', ''base''] [''d'', ''disk''] demo_disks) = Ok ()"
  using temporary_sibling_neq [of "[''d'', ''disk'']"] demo_sibling demo_magic
  by (simp add: clone_image_atomic_def clone_sparse_or_reflink_def validate_ext4_image_def
      commit_no_replace_def ensure_absent_def sync_parent_def parent_def open_existing_regular_def
      open_new_regular_def sys_ficlone_def set_content_def content_at_def
      io_run Let_def demo_disks_def demo_kernel_def demo_os_def private_dir_def temporary_sibling_def
      with_file_name_def file_name_def)

theorem clone_image_exact_witness:
  "\<exists>t. clone_image_atomic demo_kernel [''d'', ''base''] [''d'', ''disk''] demo_disks = (Ok (), t)
     \<and> fs_get (files t) [''d'', ''disk''] = Some (File demo_image)
     \<and> fs_get (files t) [''d'', ''base''] = Some (File demo_image)"
proof -
  let ?r = "clone_image_atomic demo_kernel [''d'', ''base''] [''d'', ''disk''] demo_disks"
  have run: "?r = (Ok (), snd ?r)" using demo_clone by (metis prod.collapse)
  have "fs_get (files demo_disks) [''d'', ''base''] = Some (File demo_image)"
    by (simp add: demo_disks_def demo_os_def fs_get_def)
  moreover have "q \<notin> listening demo_disks" for q by (simp add: demo_disks_def demo_os_def)
  ultimately have "fs_get (files (snd ?r)) [''d'', ''disk''] = Some (File demo_image)
      \<and> fs_get (files (snd ?r)) [''d'', ''base''] = Some (File demo_image)"
    using clone_image_exact [OF demo_extents run] demo_sibling by auto
  with run show ?thesis by blast
qed

end
