(* ===== verification/StorageFacts.thy ===== *)
theory StorageFacts
  imports ImageCopy
begin

text \<open>
  What \<open>assert_owned\<close>, \<open>remove\<close> and \<open>clear_session\<close> of \<open>MachinePaths\<close> guarantee: they change the
  tree of a machine only after its marker has named this machine, and only the part they are about.
\<close>

section \<open>Reading a marker\<close>

lemma outside_unlistened:
  "outside {} s t \<Longrightarrow> p \<notin> listening s \<Longrightarrow> fs_get (files t) p = fs_get (files s) p \<and> p \<notin> listening t"
  by (auto simp: outside_def)

lemma sys_read_seen:
  assumes "sys_read p s = (Ok v, t)" and "p \<notin> listening s"
  shows "fs_get (files s) p = Some (File v)"
proof -
  have "fs_get (files (before_call s)) p = Some (File v)"
    using assms(1)
    by (auto simp: sys_read_def syscall_Ok entry_at_def fs_get_def root_entry_def
        split: option.splits node.splits if_splits)
  with assms(2) show ?thesis by simp
qed

lemma outside_read_json: "preserves (outside S) (read_json_regular c p)"
  unfolding read_json_regular_def
  by (intro outside.combinators outside_open_regular outside_reads outside_derived_reads)

lemma outside_private: "preserves (outside S) (assert_private_directory p)"
  unfolding assert_private_directory_def by (intro outside.combinators outside_reads)

lemma outside_owned: "preserves (outside S) (assert_owned cs mp r)"
  unfolding assert_owned_def by (intro outside.combinators outside_private outside_read_json)

lemma outside_domain_layout: "preserves (outside S) (assert_domain_layout cs mp r)"
  unfolding assert_domain_layout_def
  by (intro outside.combinators outside_owned) (auto intro!: outside.combinators outside_private outside_read_json
      split: prod.splits)

lemma read_json_Ok:
  assumes "read_json_regular c p s = (Ok x, t)" and "p \<notin> listening s"
  shows "\<exists>d. fs_get (files s) p = Some (File d) \<and> dec c d = Some x"
proof -
  from assms(1) obtain md0 u md v d where run: "open_existing_regular p s = (Ok md0, u)"
      "sys_fstat p u = (Ok md, v)" "sys_read p v = (Ok d, t)" "dec c d = Some x"
    by (auto simp: read_json_regular_def io_Ok)
  have "outside {} s u" using run(1) by (rule preservesD [OF outside_open_regular(1)])
  moreover have "outside {} u v" using run(2) by (rule preservesD [OF outside_derived_reads(4)])
  ultimately have "outside {} s v" by (rule outside_trans)
  with assms(2) sys_read_seen [OF run(3)] outside_unlistened [of s v p] run(4) show ?thesis by auto
qed

text \<open>The owner marker of a tree names exactly this machine.\<close>

definition owned :: "machine_codecs \<Rightarrow> machine_paths \<Rightarrow> machine_record \<Rightarrow> os \<Rightarrow> bool" where
  "owned cs mp r s =
     (case fs_get (files s) (mp_owner_marker mp) of
        Some (File d) \<Rightarrow>
          (case dec (mc_owner cs) d of
             Some mk \<Rightarrow> marker_owner mk = SPAWNR_OWNER \<and> marker_machine_id mk = m_id r
               \<and> marker_machine_name mk = m_name r
           | None \<Rightarrow> False)
      | _ \<Rightarrow> False)"

lemma assert_owned_Ok:
  assumes "assert_owned cs mp r s = (Ok (), t)" and "mp_owner_marker mp \<notin> listening s"
  shows "owned cs mp r s"
proof -
  from assms(1) obtain u mk where run: "assert_private_directory (mp_root mp) s = (Ok (), u)"
      "read_json_regular (mc_owner cs) (mp_owner_marker mp) u = (Ok mk, t)"
      "marker_owner mk = SPAWNR_OWNER" "marker_machine_id mk = m_id r" "marker_machine_name mk = m_name r"
    by (auto simp: assert_owned_def io_Ok)
  have "outside {} s u" using run(1) by (rule preservesD [OF outside_private])
  with assms(2) read_json_Ok [OF run(2)] outside_unlistened [of s u] run(3-5)
  show ?thesis by (auto simp: owned_def)
qed

section \<open>Removing a tree\<close>

lemma remove_dir_all_Ok:
  assumes "sys_remove_dir_all p s = (Ok (), t)" and "p \<notin> listening s" and "p \<noteq> []"
  shows "fs_get (files t) p = None"
    and "\<lbrakk>fs_get (files s) p = Some Dir; prefix p q; q \<noteq> []\<rbrakk> \<Longrightarrow> fs_get (files t) q = None"
proof -
  obtain e where e: "files (before_call s) p = Some e"
    using assms(1) by (auto simp: sys_remove_dir_all_def Let_def split: option.splits)
  have node: "fs_get (files s) p = Some (e_node e)"
    using e assms(2,3) before_fs_get [OF assms(2)] by (simp add: fs_get_def)
  show "fs_get (files t) p = None"
    using assms(1,3) e
    by (auto simp: sys_remove_dir_all_def Let_def remove_tree_def del_entry_def fs_get_def
        split: option.splits node.splits)
  show "fs_get (files t) q = None" if "fs_get (files s) p = Some Dir" "prefix p q" "q \<noteq> []"
    using assms(1) e that node
    by (auto simp: sys_remove_dir_all_def Let_def remove_tree_def fs_get_def split: option.splits)
qed

lemma machine_remove_result:
  assumes "machine_remove cs mp r s = (res, t)" and "mp_root mp \<noteq> []"
    and "mp_root mp \<notin> listening s" and "mp_owner_marker mp \<notin> listening s"
  shows "(outside {} s t \<or> owned cs mp r s \<and> outside {q. prefix (mp_root mp) q} s t)
    \<and> (res = Ok () \<longrightarrow> owned cs mp r s \<and> fs_get (files t) (mp_root mp) = None)"
  using assms(1) unfolding machine_remove_def thn_def
proof (cases rule: bnd_cases)
  case (err e)
  then show ?thesis using preservesD [OF outside_owned err(1)] by simp
next
  case (ok x u)
  have owned: "owned cs mp r s" using ok(1) assert_owned_Ok [OF _ assms(4)] by simp
  have su: "outside {} s u" using ok(1) by (rule preservesD [OF outside_owned])
  obtain up where up: "parent (mp_root mp) = Some up"
    using assms(2) by (auto simp: parent_def)
  with ok(2) have rest: "bnd (sys_remove_dir_all (mp_root mp)) (\<lambda>_. sync_directory up) u = (res, t)"
    by simp
  have all: "preserves (outside {q. prefix (mp_root mp) q})
      (bnd (sys_remove_dir_all (mp_root mp)) (\<lambda>_. sync_directory up))"
    by (intro outside.combinators outside_remove_dir_all outside_derived_reads) simp
  have ut: "outside {q. prefix (mp_root mp) q} u t" using rest by (rule preservesD [OF all])
  have "fs_get (files t) (mp_root mp) = None" if "res = Ok ()"
  proof -
    from rest that obtain v where v: "sys_remove_dir_all (mp_root mp) u = (Ok (), v)"
      "sync_directory up v = (Ok (), t)" by (auto simp: io_Ok)
    have root: "mp_root mp \<notin> listening u" using su assms(3) by (auto simp: outside_def)
    have "listening v = listening u"
      using v(1) by (auto simp: sys_remove_dir_all_def Let_def remove_tree_def del_entry_def
          split: option.splits node.splits)
    with remove_dir_all_Ok(1) [OF v(1) root assms(2)] preservesD [OF outside_derived_reads(6) v(2), of "{}"] root
    show ?thesis by (auto simp: outside_def)
  qed
  with owned outside_trans [OF outside_mono [OF su] ut] show ?thesis by auto
qed

section \<open>Writing a marker\<close>

lemma write_json_new_Ok:
  assumes "write_json_new b p s = (Ok (), t)" and "p \<notin> listening s" and "p \<noteq> []"
  shows "fs_get (files s) p = None \<and> fs_get (files t) p = Some (File (b @ newline)) \<and> p \<notin> listening t"
proof -
  from assms(1) obtain s1 s2 s3 s4 where run:
    "sys_create_new p 384 s = (Ok (), s1)" "sys_write p b s1 = (Ok (), s2)"
    "sys_write p newline s2 = (Ok (), s3)" "sys_nop s3 = (Ok (), s4)" "sync_parent p s4 = (Ok (), t)"
    by (auto simp: write_json_new_def open_new_regular_def io_Ok)
  have s1: "fs_get (files s) p = None" "fs_get (files s1) p = Some (File [])" "p \<notin> listening s1"
  proof -
    from run(1) assms(3) have new: "files (before_call s) p = None"
        "s1 = put_entry p (new_entry (before_call s) (File []) 384) (before_call s)"
      by (auto simp: sys_create_new_def syscall_Ok split: if_splits)
    from new(1) have "fs_get (files (before_call s)) p = None" using assms(3) by (simp add: fs_get_def)
    with assms(2) show "fs_get (files s) p = None" by simp
    show "fs_get (files s1) p = Some (File [])"
      using new(2) assms(3) by (simp add: fs_get_put new_entry_def)
    show "p \<notin> listening s1" using new(2) assms(2) by simp
  qed
  have wrote: "fs_get (files v) p = Some (File (c @ d)) \<and> p \<notin> listening v"
    if "sys_write p d u = (Ok (), v)" "fs_get (files u) p = Some (File c)" "p \<notin> listening u" for u v c d
    using that assms(3) by (auto simp: sys_write_def Let_def fs_get_append split: option.splits)
  have "fs_get (files s3) p = Some (File (b @ newline))" "p \<notin> listening s3"
    using wrote [OF run(2) s1(2,3)] wrote [OF run(3), of b] by simp_all
  moreover have "outside {} s3 s4" using run(4) by (rule preservesD [OF outside_reads(7)])
  moreover have "outside {} s4 t" using run(5) by (rule preservesD [OF outside_sync_parent])
  ultimately show ?thesis
    using s1(1) outside_unlistened outside_trans by metis
qed

lemma outside_write_json: "p \<in> S \<Longrightarrow> preserves (outside S) (write_json_new b p)"
  unfolding write_json_new_def open_new_regular_def
  by (intro outside.combinators outside_writes outside_reads outside_sync_parent)

lemma outside_private_dir:
  "(\<And>q. prefix q p \<Longrightarrow> q \<in> S) \<Longrightarrow> preserves (outside S) (create_private_dir p)"
  unfolding create_private_dir_def by (intro outside.combinators outside_create_dir_all outside_meta)

section \<open>Clearing a session\<close>

text \<open>What \<open>clear_session\<close> does after the ownership proof.\<close>

definition renew_session :: "machine_codecs \<Rightarrow> machine_paths \<Rightarrow> machine_record \<Rightarrow> unit io" where
  "renew_session cs mp r =
     bnd (attempt (sys_lstat (mp_session_dir mp))) (\<lambda>x.
      thn (case x of
             Inl _ \<Rightarrow> ret ()
           | Inr md \<Rightarrow> io_ensure (e_node md = Dir) ''refusing to clear non-directory session path''
               (sys_remove_dir_all (mp_session_dir mp)))
      (thn (create_private_dir (mp_session_dir mp))
      (thn (write_domain_marker cs r SessionDomain (mp_session_dir mp))
      (sync_directory (mp_root mp)))))"

text \<open>The paths a renewed session may change: its own and those it is below of.\<close>

definition session_line :: "path \<Rightarrow> path set" where
  "session_line p = {q. prefix p q \<or> prefix q p}"

lemma outside_renew: "preserves (outside (session_line (mp_session_dir mp))) (renew_session cs mp r)"
  unfolding renew_session_def write_domain_marker_def
  by (intro outside.combinators outside_reads outside_remove_dir_all outside_private_dir
      outside_write_json outside_derived_reads) (auto simp: session_line_def)

lemma renew_session_Ok:
  assumes "renew_session cs mp r s = (Ok (), t)" and "mp_session_dir mp \<noteq> []"
    and "\<forall>q. prefix (mp_session_dir mp) q \<longrightarrow> q \<notin> listening s"
    and "fs_get (files s) (mp_session_dir mp @ [DOMAIN_FILE]) \<noteq> None"
    and "strict_prefix (mp_session_dir mp) q"
  shows "fs_get (files t) q = (if q = mp_session_dir mp @ [DOMAIN_FILE]
      then Some (File (enc (mc_domain cs) (domain_marker_of r SessionDomain) @ newline)) else None)"
proof -
  let ?p = "mp_session_dir mp" and ?m = "mp_session_dir mp @ [DOMAIN_FILE]"
  let ?c = "enc (mc_domain cs) (domain_marker_of r SessionDomain)"
  have q: "prefix ?p q" "q \<noteq> ?p" "q \<noteq> []" using assms(2,5) by (auto simp: strict_prefix_def)
  from assms(1) obtain x s1 s2 s3 s4 where run: "sys_lstat ?p s = (x, s1)"
      "(case x of Inl _ \<Rightarrow> ret () | Inr md \<Rightarrow> io_ensure (e_node md = Dir)
         ''refusing to clear non-directory session path'' (sys_remove_dir_all ?p)) s1 = (Ok (), s2)"
      "create_private_dir ?p s2 = (Ok (), s3)" "write_json_new ?c ?m s3 = (Ok (), s4)"
      "sync_directory (mp_root mp) s4 = (Ok (), t)"
    unfolding renew_session_def write_domain_marker_def thn_def
    by (auto simp: io_Ok simp del: case_sum_Ok)
  have lis: "listening u = listening s" if "outside {} s u" for u
    using that by (rule outside_empty_listening)
  have s1: "outside {} s s1" using run(1) by (rule preservesD [OF outside_reads(1)])
  have keep3: "outside {q. prefix q ?p} s2 s3"
    using run(3) by (rule preservesD [OF outside_private_dir, rotated]) simp
  have keep4: "outside {?m} s3 s4" using run(4) by (rule preservesD [OF outside_write_json, rotated]) simp
  have keep5: "outside {} s4 t" using run(5) by (rule preservesD [OF outside_derived_reads(6)])
  show ?thesis
  proof (cases x)
    case (Inl e)
    with run(2) have "s2 = s1" by (simp add: ret_def)
    with keep3 s1 have s3: "outside {q. prefix q ?p} s s3"
      using outside_mono [OF s1] outside_trans by blast
    have "?m \<notin> {q. prefix q ?p}" by simp
    with s3 assms(3) have "fs_get (files s3) ?m = fs_get (files s) ?m" "?m \<notin> listening s3"
      by (auto simp: outside_def)
    with write_json_new_Ok [OF run(4)] assms(4) show ?thesis by simp
  next
    case (Inr md)
    with run(2) have remove: "e_node md = Dir" "sys_remove_dir_all ?p s1 = (Ok (), s2)"
      by (simp_all add: io_ensure_Ok)
    have free: "prefix ?p a \<Longrightarrow> a \<notin> listening s1" for a using assms(3) lis [OF s1] by simp
    have "fs_get (files (before_call s)) ?p = Some Dir"
      using run(1) Inr remove(1) assms(2)
      by (auto simp: sys_lstat_def syscall_Ok entry_at_def fs_get_def split: option.splits)
    then have dir: "fs_get (files s1) ?p = Some Dir"
      using s1 assms(3) by (simp add: outside_def)
    have gone: "fs_get (files s2) a = None" if "strict_prefix ?p a" for a
      using remove_dir_all_Ok(2) [OF remove(2) _ assms(2) dir, of a] that free assms(2)
      by (cases a) (auto simp: strict_prefix_def)
    have lis2: "listening s2 = listening s1"
      using remove(2) by (auto simp: sys_remove_dir_all_def Let_def remove_tree_def del_entry_def
          split: option.splits node.splits)
    have s3: "fs_get (files s3) a = None \<and> a \<notin> listening s3" if "strict_prefix ?p a" for a
    proof -
      have "a \<notin> {q. prefix q ?p}" using that by (auto simp: strict_prefix_def)
      moreover have "prefix ?p a" using that by (simp add: strict_prefix_def)
      ultimately show ?thesis
        using keep3 gone [OF that] free [of a] lis2 by (auto simp: outside_def)
    qed
    have "?m \<notin> listening s3" using s3 [of ?m] by (simp add: strict_prefix_def)
    note marker = write_json_new_Ok [OF run(4) this]
    have "fs_get (files s4) q = (if q = ?m then Some (File (?c @ newline)) else None) \<and> q \<notin> listening s4"
      using marker s3 [OF assms(5)] keep4 by (auto simp: outside_def)
    with outside_unlistened [OF keep5] show ?thesis by simp
  qed
qed

section \<open>Properties\<close>

text \<open>C9: A machine's tree is removed only after its owner marker has named exactly this machine: a
  removal, however it ends, changes nothing at all, or the marker in the tree decodes to this
  identifier and name and only paths inside the tree change; after success the tree is gone.\<close>

theorem remove_only_owned:
  assumes "machine_remove cs (for_record data m) m s = (res, t)"
    and "mp_root (for_record data m) \<notin> listening s"
    and "mp_owner_marker (for_record data m) \<notin> listening s"
  shows "(outside {} s t \<or> owned cs (for_record data m) m s
       \<and> outside {q. prefix (machine_dir data (uuid_text (m_id m))) q} s t)
    \<and> (res = Ok () \<longrightarrow> owned cs (for_record data m) m s
       \<and> fs_get (files t) (machine_dir data (uuid_text (m_id m))) = None)"
proof -
  have "mp_root (for_record data m) = machine_dir data (uuid_text (m_id m))"
    by (simp add: for_record_def Let_def)
  moreover have "mp_root (for_record data m) \<noteq> []"
    by (simp add: for_record_def Let_def machine_dir_def)
  ultimately show ?thesis using machine_remove_result [OF assms(1) _ assms(2,3)] by simp
qed

definition demo_record :: machine_record where
  "demo_record = \<lparr>m_id = 7, m_name = ''box'', m_environment = \<lparr>e_reference = ''img'',
     e_manifest_digest = None, e_base_cache_key = None\<rparr>, m_repository = None,
     m_repository_dir = None, m_workspace_id = 9, m_created_at = 0, m_vsock_cid = 3,
     m_mac_address = ''02:00:00:00:00:01''\<rparr>"

definition pc_domain :: "domain_marker pcodec" where
  "pc_domain = pc_map (\<lambda>(a, b, c, d). domain_marker.make a b c
       (if d = (0 :: nat) then EnvironmentDomain else if d = 1 then WorkspaceDomain else SessionDomain))
     (\<lambda>m. (dm_owner m, dm_machine_id m, dm_workspace_id m,
       case dm_domain m of EnvironmentDomain \<Rightarrow> 0 | WorkspaceDomain \<Rightarrow> 1 | SessionDomain \<Rightarrow> 2))
     (pc_pair pc_string (pc_pair pc_word (pc_pair pc_word pc_nat)))"

lemma pc_ok_domain: "pc_ok pc_domain"
  unfolding pc_domain_def
  by (intro pc_ok_rules) (simp add: domain_marker.make_def split: storage_domain.split)

definition demo_codecs :: machine_codecs where
  "demo_codecs = \<lparr>mc_owner = codec_of pc_owner, mc_domain = codec_of pc_domain,
     mc_identity = codec_of pc_identity\<rparr>"

lemma demo_codecs_ok:
  "codec_ok (mc_owner demo_codecs)" "codec_ok (mc_domain demo_codecs)" "codec_ok (mc_identity demo_codecs)"
  by (simp_all add: demo_codecs_def codec_ok_of pc_ok_owner pc_ok_domain pc_ok_identity)

text \<open>The file system of a data directory with one machine in it.\<close>

definition demo_tree :: os where
  "demo_tree =
     (let mp = for_record [''d''] demo_record; cs = demo_codecs;
          text = (\<lambda>c. private_dir\<lparr>e_node := File c, e_mode := 384\<rparr>)
      in demo_os (map_of
        [([''d''], private_dir), (machines_dir [''d''], private_dir), (mp_root mp, private_dir),
         (mp_session_dir mp, private_dir), (mp_environment_dir mp, private_dir),
         (mp_workspace_dir mp, private_dir),
         (mp_environment_disk mp, text demo_image), (mp_workspace_disk mp, text demo_image),
         (mp_owner_marker mp, text (enc (mc_owner cs) \<lparr>marker_owner = SPAWNR_OWNER,
            marker_machine_id = m_id demo_record, marker_machine_name = m_name demo_record\<rparr>)),
         (mp_session_dir mp @ [DOMAIN_FILE], text (enc (mc_domain cs) (domain_marker_of demo_record SessionDomain)))]))"

lemma demo_tree_quiet: "sched demo_tree = []" "listening demo_tree = {}" "euid demo_tree = 1000"
  by (simp_all add: demo_tree_def demo_os_def Let_def)

lemmas demo_tree_layout = for_record_def Let_def machine_dir_def machines_dir_def OWNER_FILE_def
  DOMAIN_FILE_def demo_os_def private_dir_def

lemma demo_tree_files:
  "files demo_tree (mp_root (for_record [''d''] demo_record)) = Some private_dir"
  "files demo_tree (mp_session_dir (for_record [''d''] demo_record)) = Some private_dir"
  "files demo_tree (mp_owner_marker (for_record [''d''] demo_record)) = Some (private_dir\<lparr>e_node :=
     File (enc (mc_owner demo_codecs) \<lparr>marker_owner = SPAWNR_OWNER, marker_machine_id = m_id demo_record,
       marker_machine_name = m_name demo_record\<rparr>), e_mode := 384\<rparr>)"
  by (simp_all add: demo_tree_def demo_tree_layout)

lemma demo_owned: "assert_owned demo_codecs (for_record [''d''] demo_record) demo_record demo_tree = (Ok (), demo_tree)"
proof -
  have "mp_root (for_record [''d''] demo_record) \<noteq> []" "mp_owner_marker (for_record [''d''] demo_record) \<noteq> []"
    by (simp_all add: for_record_def Let_def machine_dir_def)
  then show ?thesis
    using demo_codecs_ok(1) demo_tree_files
    by (simp add: assert_owned_def assert_private_directory_def read_json_regular_def
        open_existing_regular_def io_run demo_tree_quiet codec_ok_def private_dir_def)
qed

lemma demo_remove:
  "fst (machine_remove demo_codecs (for_record [''d''] demo_record) demo_record demo_tree) = Ok ()"
proof -
  have root: "mp_root (for_record [''d''] demo_record) = [''d'', ''machines'', uuid_text (m_id demo_record)]"
    by (simp add: demo_tree_layout)
  have "files demo_tree [''d'', ''machines''] = Some private_dir" "files demo_tree [''d''] = Some private_dir"
    by (simp_all add: demo_tree_def demo_tree_layout)
  then show ?thesis
    using demo_tree_files(1) unfolding root
    by (simp add: machine_remove_def demo_owned io_run demo_tree_quiet private_dir_def root parent_def)
qed

theorem remove_only_owned_witness:
  "\<exists>t. machine_remove demo_codecs (for_record [''d''] demo_record) demo_record demo_tree = (Ok (), t)
     \<and> owned demo_codecs (for_record [''d''] demo_record) demo_record demo_tree
     \<and> fs_get (files t) (machine_dir [''d''] (uuid_text (m_id demo_record))) = None"
proof -
  let ?r = "machine_remove demo_codecs (for_record [''d''] demo_record) demo_record demo_tree"
  have run: "?r = (Ok (), snd ?r)" using demo_remove by (metis prod.collapse)
  have "q \<notin> listening demo_tree" for q by (simp add: demo_tree_quiet)
  with remove_only_owned [OF run] run show ?thesis by blast
qed

lemma clear_session_result:
  assumes "clear_session cs (for_record data m) m s = (res, t)"
    and "mp_owner_marker (for_record data m) \<notin> listening s"
    and "\<forall>q. prefix (mp_session_dir (for_record data m)) q \<longrightarrow> q \<notin> listening s"
  shows "outside (session_line (mp_session_dir (for_record data m))) s t
    \<and> (\<forall>disk \<in> {mp_environment_disk (for_record data m), mp_workspace_disk (for_record data m)}.
         disk \<notin> listening s \<longrightarrow> fs_get (files t) disk = fs_get (files s) disk)
    \<and> (outside {} s t \<or> owned cs (for_record data m) m s)
    \<and> (res = Ok () \<and> fs_get (files s) (mp_session_dir (for_record data m) @ [DOMAIN_FILE]) \<noteq> None
        \<longrightarrow> (\<forall>q. strict_prefix (mp_session_dir (for_record data m)) q \<longrightarrow> fs_get (files t) q =
             (if q = mp_session_dir (for_record data m) @ [DOMAIN_FILE]
              then Some (File (enc (mc_domain cs) (domain_marker_of m SessionDomain) @ newline))
              else None)))"
proof -
  let ?mp = "for_record data m"
  let ?L = "session_line (mp_session_dir ?mp)"
  have disks: "mp_environment_disk ?mp \<notin> ?L" "mp_workspace_disk ?mp \<notin> ?L"
    and some: "mp_session_dir ?mp \<noteq> []"
    by (simp_all add: for_record_def Let_def session_line_def)
  have "clear_session cs ?mp m s = bnd (assert_owned cs ?mp m) (\<lambda>_. renew_session cs ?mp m) s"
    by (simp add: clear_session_def renew_session_def thn_def)
  with assms(1) have "bnd (assert_owned cs ?mp m) (\<lambda>_. renew_session cs ?mp m) s = (res, t)" by simp
  then show ?thesis
  proof (cases rule: bnd_cases)
    case (err e)
    have "outside S s t" for S using preservesD [OF outside_owned err(1)] .
    with disks err(2) show ?thesis by (auto simp: outside_def)
  next
    case (ok x u)
    have su: "outside S s u" for S using preservesD [OF outside_owned ok(1)] .
    have ut: "outside ?L u t" using ok(2) by (rule preservesD [OF outside_renew])
    have "outside ?L s t" using outside_trans [OF su ut] .
    moreover have "owned cs ?mp m s" using ok(1) assert_owned_Ok [OF _ assms(2)] by simp
    moreover have "fs_get (files t) q =
        (if q = mp_session_dir ?mp @ [DOMAIN_FILE]
         then Some (File (enc (mc_domain cs) (domain_marker_of m SessionDomain) @ newline)) else None)"
      if "res = Ok ()" "fs_get (files s) (mp_session_dir ?mp @ [DOMAIN_FILE]) \<noteq> None"
        "strict_prefix (mp_session_dir ?mp) q" for q
    proof -
      have "listening u = listening s" using su by (rule outside_empty_listening)
      moreover have "fs_get (files u) (mp_session_dir ?mp @ [DOMAIN_FILE])
          = fs_get (files s) (mp_session_dir ?mp @ [DOMAIN_FILE])"
        using su [of "{}"] assms(3) by (simp add: outside_def)
      ultimately show ?thesis
        using renew_session_Ok [OF _ some] ok(2) that assms(3) by simp
    qed
    ultimately show ?thesis using disks by (auto simp: outside_def)
  qed
qed

text \<open>C13: Clearing a session discards all of it and never touches a disk: however it ends, both disks and
  every path that is not in the session directory, and not a directory above it, keep what they have;
  nothing changes unless the owner marker names this machine; and success on a session that had its
  domain marker leaves below the session directory its new domain marker and nothing else.\<close>

theorem clear_session_spares_disks:
  assumes "clear_session cs (for_record data m) m s = (res, t)"
    and "mp_owner_marker (for_record data m) \<notin> listening s"
    and "\<forall>q. prefix (mp_session_dir (for_record data m)) q \<longrightarrow> q \<notin> listening s"
  shows "outside (session_line (mp_session_dir (for_record data m))) s t
    \<and> (\<forall>disk \<in> {mp_environment_disk (for_record data m), mp_workspace_disk (for_record data m)}.
         disk \<notin> listening s \<longrightarrow> fs_get (files t) disk = fs_get (files s) disk)
    \<and> (outside {} s t \<or> owned cs (for_record data m) m s)
    \<and> (res = Ok () \<and> fs_get (files s) (mp_session_dir (for_record data m) @ [DOMAIN_FILE]) \<noteq> None
        \<longrightarrow> (\<forall>q. strict_prefix (mp_session_dir (for_record data m)) q \<longrightarrow> fs_get (files t) q =
             (if q = mp_session_dir (for_record data m) @ [DOMAIN_FILE]
              then Some (File (enc (mc_domain cs) (domain_marker_of m SessionDomain) @ newline))
              else None)))"
  using assms by (rule clear_session_result)

lemma demo_clear:
  "fst (clear_session demo_codecs (for_record [''d''] demo_record) demo_record demo_tree) = Ok ()"
proof -
  let ?mp = "for_record [''d''] demo_record"
  have mp: "mp_session_dir ?mp = mp_root ?mp @ [''session'']" "mp_root ?mp = [''d'', ''machines'', uuid_text (m_id demo_record)]"
    by (simp_all add: demo_tree_layout)
  have "files demo_tree [''d'', ''machines''] = Some private_dir" "files demo_tree [''d''] = Some private_dir"
    by (simp_all add: demo_tree_def demo_tree_layout)
  then show ?thesis
    using demo_tree_files(1,2) unfolding mp
    by (simp add: clear_session_def demo_owned io_run demo_tree_quiet private_dir_def mp
        create_private_dir_def write_domain_marker_def write_json_new_def open_new_regular_def
        DOMAIN_FILE_def sync_parent_def parent_def)
qed

theorem clear_session_spares_disks_witness:
  "\<exists>t. clear_session demo_codecs (for_record [''d''] demo_record) demo_record demo_tree = (Ok (), t)
     \<and> fs_get (files t) (mp_environment_disk (for_record [''d''] demo_record)) = Some (File demo_image)
     \<and> fs_get (files t) (mp_session_dir (for_record [''d''] demo_record) @ [''api.sock'']) = None"
proof -
  let ?mp = "for_record [''d''] demo_record"
  let ?r = "clear_session demo_codecs ?mp demo_record demo_tree"
  have run: "?r = (Ok (), snd ?r)" using demo_clear by (metis prod.collapse)
  have free: "q \<notin> listening demo_tree" for q by (simp add: demo_tree_quiet)
  have "fs_get (files demo_tree) (mp_environment_disk ?mp) = Some (File demo_image)"
    "fs_get (files demo_tree) (mp_session_dir ?mp @ [DOMAIN_FILE]) \<noteq> None"
    by (simp_all add: demo_tree_def demo_tree_layout fs_get_def)
  moreover have "strict_prefix (mp_session_dir ?mp) (mp_session_dir ?mp @ [''api.sock''])"
    by (simp add: strict_prefix_def)
  ultimately show ?thesis
    using clear_session_spares_disks [OF run free] free run by (auto simp: DOMAIN_FILE_def)
qed

end
