(* ===== verification/VmmFacts.thy ===== *)
theory VmmFacts
  imports VmmControl PidFiles StorageFacts
begin

text \<open>
  What stopping and starting a machine guarantee: only the helpers its identity files record are ever
  signalled, success means they are gone and the session is fresh, and disks are never touched.
\<close>

section \<open>Calls that signal nobody\<close>

lemma calm_remove_dir_all: "preserves calm (sys_remove_dir_all p)"
proof -
  have c: "calm (before_call s) ((before_call s)\<lparr>files := f\<rparr>)" for s f by (rule calm_files)
  have "calm s (snd (sys_remove_dir_all p s))" for s
    using calm.before [of s] calm.trans [OF calm.before c]
    by (auto simp: sys_remove_dir_all_def Let_def remove_tree_def del_entry_def
        split: option.splits node.splits)
  then show ?thesis by (simp add: preserves_def)
qed

lemma calm_is_dir: "preserves calm (sys_is_dir p)"
  unfolding sys_is_dir_def by (intro calm.combinators calm_reads)

lemma calm_create_dir_all: "preserves calm (sys_create_dir_all p)"
proof -
  have "preserves calm (create_dir_all_rev r)" for r
    by (induction r) (auto simp: mkdir_or_dir_def intro!: calm.combinators calm_writes calm_is_dir)
  then show ?thesis by (simp add: sys_create_dir_all_def)
qed

lemma calm_storage:
  "preserves calm (assert_owned cs mp r)" "preserves calm (clear_session cs mp r)"
  "preserves calm (assert_domain_layout cs mp r)"
proof -
  have open_: "preserves calm (open_existing_regular q)" for q
    unfolding open_existing_regular_def by (intro calm.combinators calm_reads)
  have read: "preserves calm (read_json_regular c q)" for c :: "'x codec" and q
    unfolding read_json_regular_def by (intro calm.combinators calm_reads open_)
  have priv: "preserves calm (assert_private_directory q)" for q
    unfolding assert_private_directory_def by (intro calm.combinators calm_reads)
  show owned: "preserves calm (assert_owned cs mp r)"
    unfolding assert_owned_def by (intro calm.combinators priv read)
  have "preserves calm (write_json_new b q)" for b q
    unfolding write_json_new_def open_new_regular_def
    by (intro calm.combinators calm_writes calm_reads calm_sync_parent)
  then show "preserves calm (clear_session cs mp r)"
    unfolding clear_session_def write_domain_marker_def create_private_dir_def
    by (intro calm.combinators owned calm_reads calm_writes calm_remove_dir_all calm_create_dir_all)
  show "preserves calm (assert_domain_layout cs mp r)"
    unfolding assert_domain_layout_def
    by (intro calm.combinators owned) (auto intro!: calm.combinators priv read split: prod.splits)
qed

lemma calm_request: "preserves calm (cloud_hypervisor_request h p e)"
  unfolding cloud_hypervisor_request_def
  by (intro calm.combinators calm.syscall) (simp add: calm_refl)

lemma outside_request: "preserves (outside S) (cloud_hypervisor_request h p e)"
  unfolding cloud_hypervisor_request_def
  by (intro outside.combinators outside.syscall) (simp add: outside_refl)

section \<open>Calls that start nothing\<close>

definition unstarted :: "os \<Rightarrow> os \<Rightarrow> bool" where
  "unstarted s t = (listening t = listening s \<and> spawned t = spawned s)"

lemma unstarted_before: "unstarted s (before_call s)"
proof -
  have e: "unstarted s (apply_event e s)" for e s
    by (cases e) (auto simp: unstarted_def split: option.splits)
  have "unstarted s (fold apply_event es s)" for es s
    using e by (induction es arbitrary: s) (simp_all add: unstarted_def)
  from this [of "s\<lparr>sched := tl (sched s)\<rparr>"] show ?thesis
    by (simp add: before_call_def unstarted_def)
qed

interpretation unstarted: frame unstarted
  by unfold_locales (simp_all add: unstarted_before, simp_all add: unstarted_def)

lemma unstarted_files: "unstarted s (s\<lparr>files := f\<rparr>)"
  by (simp add: unstarted_def)

lemma unstarted_reads:
  "preserves unstarted (sys_lstat p)" "preserves unstarted (sys_fstat p)" "preserves unstarted (sys_open p)"
  "preserves unstarted (sys_open_nofollow p)" "preserves unstarted (sys_read p)" "preserves unstarted sys_nop"
  "preserves unstarted (sys_metadata p)" "preserves unstarted (sys_canonicalize p)"
  "preserves unstarted new_uuid" "preserves unstarted sys_now" "preserves unstarted (sys_sleep n)"
  "preserves unstarted (sync_directory p)" "preserves unstarted (sys_is_dir p)"
  "preserves unstarted (sys_read_to_string p)"
proof -
  show "preserves unstarted (sys_lstat p)" "preserves unstarted (sys_fstat p)" "preserves unstarted (sys_open p)"
    "preserves unstarted (sys_open_nofollow p)" "preserves unstarted (sys_read p)"
    "preserves unstarted sys_nop"
    "preserves unstarted (sys_metadata p)" "preserves unstarted (sys_canonicalize p)"
    unfolding sys_lstat_def sys_fstat_def sys_open_def sys_open_nofollow_def sys_read_def sys_nop_def
      sys_metadata_def sys_canonicalize_def
    by (rule unstarted.syscall; auto simp: unstarted_def ret_def split: option.splits sum.splits node.splits)+
  have o_: "preserves unstarted (sys_open q)" "preserves unstarted (sys_read q)"
    "preserves unstarted (sys_metadata q)" "preserves unstarted sys_nop" for q
    unfolding sys_open_def sys_read_def sys_metadata_def sys_nop_def
    by (rule unstarted.syscall; auto simp: unstarted_def ret_def split: option.splits sum.splits node.splits)+
  show "preserves unstarted (sync_directory p)" "preserves unstarted (sys_is_dir p)"
    "preserves unstarted (sys_read_to_string p)"
    unfolding sync_directory_def sys_is_dir_def sys_read_to_string_def by (intro unstarted.combinators o_)+
  show "preserves unstarted new_uuid"
    by (simp add: preserves_def new_uuid_def unstarted_def)
  show "preserves unstarted sys_now" "preserves unstarted (sys_sleep n)"
    using unstarted_before by (auto simp: preserves_def sys_now_def sys_sleep_def Let_def unstarted_def)
qed

lemma unstarted_writes:
  "preserves unstarted (sys_create_new p m)" "preserves unstarted (sys_open_create p m b)"
  "preserves unstarted (sys_write p d)" "preserves unstarted (sys_link p q)"
  "preserves unstarted (sys_unlink p)" "preserves unstarted (sys_mkdir p)"
  "preserves unstarted (sys_chmod p m)" "preserves unstarted (sys_symlink x p)"
  "preserves unstarted (sys_remove_dir_all p)"
proof -
  show "preserves unstarted (sys_create_new p m)" "preserves unstarted (sys_open_create p m b)"
    "preserves unstarted (sys_link p q)" "preserves unstarted (sys_unlink p)"
    "preserves unstarted (sys_mkdir p)" "preserves unstarted (sys_chmod p m)" "preserves unstarted (sys_symlink x p)"
    unfolding sys_create_new_def sys_open_create_def sys_link_def sys_unlink_def sys_mkdir_def
      sys_chmod_def sys_symlink_def
    by (rule unstarted.syscall; auto simp: unstarted_def put_entry_def del_entry_def
          split: option.splits sum.splits node.splits)+
  have "unstarted u (append_file p d u)" for u d
    by (auto simp: append_file_def put_entry_def unstarted_def split: option.splits node.splits)
  then show "preserves unstarted (sys_write p d)"
    by (auto simp: preserves_def sys_write_def Let_def unstarted_before split: option.splits
        intro: unstarted.trans [OF unstarted_before])
  show "preserves unstarted (sys_remove_dir_all p)"
    using unstarted_before
    by (auto simp: preserves_def sys_remove_dir_all_def Let_def remove_tree_def del_entry_def unstarted_def
        split: option.splits node.splits)
qed

lemma unstarted_create_dir_all: "preserves unstarted (sys_create_dir_all p)"
proof -
  have "preserves unstarted (create_dir_all_rev r)" for r
    by (induction r) (auto simp: mkdir_or_dir_def
        intro!: unstarted.combinators unstarted_writes unstarted_reads)
  then show ?thesis by (simp add: sys_create_dir_all_def)
qed

lemma unstarted_processes:
  "preserves unstarted (sys_proc_stat pid)" "preserves unstarted (sys_proc_exe pid)"
  "preserves unstarted sys_boot_id" "preserves unstarted (sys_pidfd_open pid)"
  "preserves unstarted (sys_pidfd_send fd sig)" "preserves unstarted (sys_kill pid sig)"
  "preserves unstarted (sys_try_wait ch)" "preserves unstarted (sys_kill_wait ch)"
  unfolding sys_proc_stat_def sys_proc_exe_def sys_boot_id_def sys_pidfd_open_def sys_pidfd_send_def
    sys_kill_def deliver_def sys_try_wait_def sys_kill_wait_def
  by (rule unstarted.syscall; auto simp: unstarted_def split: option.splits)+

lemma unstarted_identities:
  "preserves unstarted (matches_running_process i)" "preserves unstarted (is_current i)"
  "preserves unstarted (wait_for_exit i d)" "preserves unstarted (send_signal_checked i sig)"
  "preserves unstarted (terminate i d)" "preserves unstarted (capture_identity pid)"
proof -
  have "preserves unstarted (matches_executable i)"
    unfolding matches_executable_def
    by (intro unstarted.combinators unstarted_processes) (simp split: prod.splits add: unstarted.combinators)
  then show m: "preserves unstarted (matches_running_process i)"
    unfolding matches_running_process_def matches_stat_def read_boot_id_def
    by (intro unstarted.combinators unstarted_processes)
  then show c: "preserves unstarted (is_current i)" by (simp add: is_current_def)
  then show w: "preserves unstarted (wait_for_exit i d)" for d
    unfolding wait_for_exit_def exited_def
    by (intro unstarted.combinators unstarted.poll unstarted_reads)
  show s: "preserves unstarted (send_signal_checked i sig)" for sig
    unfolding send_signal_checked_def pidfd_open_def signal_outcome_def
    by (intro unstarted.combinators unstarted_processes m c)
  show "preserves unstarted (terminate i d)"
    unfolding terminate_def by (intro unstarted.combinators s w)
  show "preserves unstarted (capture_identity pid)"
    unfolding capture_identity_def read_boot_id_def
    by (intro unstarted.combinators unstarted_processes)
      (auto intro!: unstarted.combinators unstarted_processes split: prod.splits)
qed

lemma unstarted_pid_files:
  "preserves unstarted (read_pid_file c p)" "preserves unstarted (inspect_pid_file c p)"
  "preserves unstarted (remove_pid_file c p e)" "preserves unstarted (write_pid_file c p e)"
  "preserves unstarted (ensure_absent p)" "preserves unstarted (sync_parent p)"
proof -
  have "preserves unstarted (case x of None \<Rightarrow> fail e | Some i \<Rightarrow> io_ensure (f i) m (ret (Some i)))"
    for x :: "process_identity option" and e f m
    by (cases x) (simp_all add: unstarted.combinators)
  then show r: "preserves unstarted (read_pid_file c p)"
    unfolding read_pid_file_def by (intro unstarted.combinators unstarted_reads)
  show "preserves unstarted (inspect_pid_file c p)"
    unfolding inspect_pid_file_def by (intro unstarted.combinators r unstarted_identities)
  show s: "preserves unstarted (sync_parent p)" for p
    unfolding sync_parent_def by (intro unstarted.combinators unstarted_reads)
  show "preserves unstarted (remove_pid_file c p e)"
    unfolding remove_pid_file_def by (intro unstarted.combinators r unstarted_writes s)
  show a: "preserves unstarted (ensure_absent p)"
    unfolding ensure_absent_def by (intro unstarted.combinators unstarted_reads)
  show "preserves unstarted (write_pid_file c p e)"
    unfolding write_pid_file_def pid_file_commit_def Let_def
    by (intro unstarted.combinators a unstarted_reads unstarted_writes s)
qed

lemma unstarted_storage:
  "preserves unstarted (assert_owned cs mp r)" "preserves unstarted (clear_session cs mp r)"
  "preserves unstarted (assert_domain_layout cs mp r)" "preserves unstarted (open_existing_regular p)"
proof -
  show open_: "preserves unstarted (open_existing_regular q)" for q
    unfolding open_existing_regular_def by (intro unstarted.combinators unstarted_reads)
  have read: "preserves unstarted (read_json_regular c q)" for c :: "'x codec" and q
    unfolding read_json_regular_def by (intro unstarted.combinators unstarted_reads open_)
  have priv: "preserves unstarted (assert_private_directory q)" for q
    unfolding assert_private_directory_def by (intro unstarted.combinators unstarted_reads)
  show owned: "preserves unstarted (assert_owned cs mp r)"
    unfolding assert_owned_def by (intro unstarted.combinators priv read)
  have "preserves unstarted (write_json_new b q)" for b q
    unfolding write_json_new_def open_new_regular_def
    by (intro unstarted.combinators unstarted_writes unstarted_reads unstarted_pid_files)
  then show "preserves unstarted (clear_session cs mp r)"
    unfolding clear_session_def write_domain_marker_def create_private_dir_def
    by (intro unstarted.combinators owned unstarted_reads unstarted_writes unstarted_create_dir_all)
  show "preserves unstarted (assert_domain_layout cs mp r)"
    unfolding assert_domain_layout_def
    by (intro unstarted.combinators owned)
      (auto intro!: unstarted.combinators priv read split: prod.splits)
qed

lemma unstarted_request: "preserves unstarted (cloud_hypervisor_request h p e)"
  unfolding cloud_hypervisor_request_def
  by (intro unstarted.combinators unstarted.syscall) (simp add: unstarted_def)

lemma unstarted_stops:
  "preserves unstarted (stop_network c mp)" "preserves unstarted (stop_vmm_process h c mp)"
proof -
  show "preserves unstarted (stop_network c mp)"
    unfolding stop_network_def
    by (intro unstarted.bnd unstarted_pid_files)
      (auto intro!: unstarted.combinators unstarted_pid_files unstarted_identities
        split: managed_process_status.splits)
  show "preserves unstarted (stop_vmm_process h c mp)"
    unfolding stop_vmm_process_def stop_running_vmm_def
    by (intro unstarted.bnd unstarted_pid_files)
      (auto intro!: unstarted.combinators unstarted_pid_files unstarted_request unstarted_identities
        split: managed_process_status.splits)
qed

lemma unstarted_stop: "preserves unstarted (vmm_stop h cs mp m)"
  unfolding vmm_stop_def by (intro unstarted.combinators unstarted_storage unstarted_stops)

section \<open>Stopping one helper\<close>

text \<open>
  From \<open>s\<close> to \<open>t\<close> exactly the signals \<open>gs\<close> were delivered, all to the process that was recorded in the
  file \<open>p\<close>.
\<close>

definition target :: "process_identity codec \<Rightarrow> path \<Rightarrow> os \<Rightarrow> nat \<Rightarrow> bool" where
  "target c p s stamp = (\<exists>i q. recorded c p s = Some i \<and> intended i s q \<and> p_stamp q = stamp)"

definition reached :: "process_identity codec \<Rightarrow> path \<Rightarrow> nat list \<Rightarrow> os \<Rightarrow> os \<Rightarrow> bool" where
  "reached c p gs s t =
     (evolves s t \<and> (\<exists>stamp. signals t = signals s @ map (Pair stamp) gs
        \<and> (gs \<noteq> [] \<longrightarrow> target c p s stamp)))"

definition stop_signals :: "nat list set" where "stop_signals = {[], [15], [15, 9]}"

lemma reached_calm: "calm s t \<Longrightarrow> reached c p [] s t"
  by (simp add: reached_def calm_def no_signal_def)

lemma delivered_calm: "older i s \<Longrightarrow> delivered i gs s t \<Longrightarrow> calm t u \<Longrightarrow> delivered i gs s u"
  using delivered_append [of i s gs t "[]" u] delivered_none [of t u i] by (simp add: calm_def)

lemma calm_delivered: "older i s \<Longrightarrow> calm s t \<Longrightarrow> delivered i gs t u \<Longrightarrow> delivered i gs s u"
  using delivered_append [of i s "[]" t gs u] delivered_none [of s t i] by (simp add: calm_def)

lemma reached_delivered: "recorded c p s = Some i \<Longrightarrow> delivered i gs s t \<Longrightarrow> reached c p gs s t"
  unfolding reached_def delivered_def target_def by blast

lemma not_alive: "older i s \<Longrightarrow> evolves s t \<Longrightarrow> \<not> alive i s \<Longrightarrow> \<not> alive i t"
  using alive_back by blast

lemma calm_steady: "calm s t \<Longrightarrow> has_pidfd s \<Longrightarrow> older i s \<Longrightarrow> has_pidfd t \<and> older i t"
  using older_mono evolvesD(3) unfolding calm_def by metis

text \<open>
  A computation that stops the process with the identity \<open>i\<close>: it signals nothing else, and the result \<open>N\<close>
  means that the process does not run any more.
\<close>

definition stops :: "'a \<Rightarrow> process_identity \<Rightarrow> 'a io \<Rightarrow> bool" where
  "stops N i m = (\<forall>s r t. m s = (r, t) \<longrightarrow> has_pidfd s \<longrightarrow> older i s
     \<longrightarrow> (\<exists>gs \<in> stop_signals. delivered i gs s t) \<and> (r = Ok N \<longrightarrow> \<not> alive i t))"

lemma delivered_calm_none: "calm s t \<Longrightarrow> \<exists>gs \<in> stop_signals. delivered i gs s t"
  using delivered_none by (auto simp: stop_signals_def calm_def)

lemma stops_terminate: "stops () i (terminate i d)"
  using terminate_result by (simp add: stops_def stop_signals_def)

lemma stops_calm_first:
  assumes "preserves calm m" and "\<And>x. stops N i (f x)"
  shows "stops N i (bnd m f)"
  unfolding stops_def
proof (intro allI impI)
  fix s r t assume run: "bnd m f s = (r, t)" and s: "has_pidfd s" "older i s"
  from run show "(\<exists>gs \<in> stop_signals. delivered i gs s t) \<and> (r = Ok N \<longrightarrow> \<not> alive i t)"
  proof (cases rule: bnd_cases)
    case (err e)
    with delivered_calm_none [OF preservesD [OF assms(1) err(1)]] show ?thesis by simp
  next
    case (ok x u)
    have su: "calm s u" using assms(1) ok(1) by (rule preservesD)
    from calm_steady [OF su s] assms(2) ok(2)
    have "(\<exists>gs \<in> stop_signals. delivered i gs u t) \<and> (r = Ok N \<longrightarrow> \<not> alive i t)"
      unfolding stops_def by blast
    with calm_delivered [OF s(2) su] show ?thesis by blast
  qed
qed

lemma stops_then_calm:
  assumes "stops () i m" and "\<And>x. preserves calm (f x)" and "\<And>e s t. f (Inl e) s \<noteq> (Ok N, t)"
  shows "stops N i (bnd (attempt m) f)"
  unfolding stops_def
proof (intro allI impI)
  fix s r t assume run: "bnd (attempt m) f s = (r, t)" and s: "has_pidfd s" "older i s"
  obtain x u where m: "m s = (x, u)" by fastforce
  then have rest: "f x u = (r, t)" using run by (simp add: bnd_def attempt_def)
  have ut: "calm u t" using assms(2) rest by (rule preservesD)
  from assms(1) m s have x: "(\<exists>gs \<in> stop_signals. delivered i gs s u)" "x = Ok () \<longrightarrow> \<not> alive i u"
    unfolding stops_def by blast+
  have "evolves s u" using x(1) by (auto simp: delivered_def)
  then have "older i u" using older_mono [OF s(2)] by simp
  moreover have "r = Ok N \<Longrightarrow> x = Ok ()" using rest assms(3) by (cases x) auto
  ultimately show "(\<exists>gs \<in> stop_signals. delivered i gs s t) \<and> (r = Ok N \<longrightarrow> \<not> alive i t)"
    using x delivered_calm [OF s(2) _ ut] not_alive [of i u t] ut by (auto simp: calm_def)
qed

lemma stops_waited:
  assumes "\<And>x. preserves calm (f x)" and "\<And>e s t. f (Inl e) s \<noteq> (Ok N, t)"
  shows "stops N i (bnd (wait_for_exit i d) (\<lambda>gone.
           bnd (attempt (if gone = Some True then ret () else terminate i d')) f))"
    (is "stops N i (bnd ?wait ?go)")
  unfolding stops_def
proof (intro allI impI)
  fix s r t assume run: "bnd ?wait ?go s = (r, t)" and s: "has_pidfd s" "older i s"
  from run show "(\<exists>gs \<in> stop_signals. delivered i gs s t) \<and> (r = Ok N \<longrightarrow> \<not> alive i t)"
  proof (cases rule: bnd_cases)
    case (err e)
    with delivered_calm_none [OF preservesD [OF calm_wait err(1)]] show ?thesis by simp
  next
    case (ok gone u)
    have su: "calm s u" using calm_wait ok(1) by (rule preservesD)
    note u = calm_steady [OF su s]
    show ?thesis
    proof (cases "gone = Some True")
      case True
      with ok(2) have "f (Inr ()) u = (r, t)" by (simp add: bnd_def attempt_def ret_def)
      then have ut: "calm u t" using assms(1) by (rule preservesD [rotated])
      moreover have "\<not> alive i u" using wait_for_exit_gone [of i d s u] ok(1) True s(2) by simp
      ultimately have "\<not> alive i t" using not_alive u by (auto simp: calm_def)
      with delivered_calm_none [OF calm.trans [OF su ut]] show ?thesis by simp
    next
      case False
      then have "bnd (attempt (terminate i d')) f u = (r, t)" using ok(2) by simp
      moreover have "stops N i (bnd (attempt (terminate i d')) f)"
        by (rule stops_then_calm) (rule stops_terminate assms)+
      ultimately have "(\<exists>gs \<in> stop_signals. delivered i gs u t) \<and> (r = Ok N \<longrightarrow> \<not> alive i t)"
        using u unfolding stops_def by blast
      with calm_delivered [OF s(2) su] show ?thesis by blast
    qed
  qed
qed

lemma stops_running: "stops None i (stop_running_vmm h c mp i)"
  unfolding stop_running_vmm_def thn_def
  by (intro stops_calm_first stops_waited calm.combinators calm_request calm_wait calm_matches calm_remove_pid)
    (auto simp: bnd_def ret_def error_of_def split: prod.splits sum.splits)

lemma stops_then:
  assumes "stops () i m" and "\<And>x. preserves calm (f x)"
  shows "stops N i (bnd m f)"
proof -
  have "bnd m f = bnd (attempt m) (case_sum fail f)"
    by (auto simp: bnd_def attempt_def fail_def fun_eq_iff split: prod.splits sum.splits)
  moreover have "stops N i (bnd (attempt m) (case_sum fail f))"
    by (rule stops_then_calm) (auto intro: assms calm.case_sum calm.fail simp: fail_def)
  ultimately show ?thesis by simp
qed

text \<open>Inspecting a file and dealing with what it records, as both halves of \<open>stop\<close> do.\<close>

lemma helper_result:
  assumes run: "bnd (inspect_pid_file c p) (\<lambda>st. case st of
      Missing \<Rightarrow> ret N | RunningProcess i \<Rightarrow> m i | StaleProcess i \<Rightarrow> k i) s = (r, t)"
    and "p \<notin> listening s" and s: "has_pidfd s" and old: "\<And>i. recorded c p s = Some i \<Longrightarrow> older i s"
    and m: "\<And>i. stops N i (m i)" and k: "\<And>i. preserves calm (k i)"
  shows "\<exists>gs \<in> stop_signals. reached c p gs s t"
    and "r = Ok N \<Longrightarrow> recorded c p s = Some i \<Longrightarrow> \<not> alive i t"
proof -
  have nil: "\<exists>gs \<in> stop_signals. reached c p gs s u" if "calm s u" for u
    using reached_calm [OF that] by (auto simp: stop_signals_def)
  have "(\<exists>gs \<in> stop_signals. reached c p gs s t)
      \<and> (r = Ok N \<longrightarrow> (\<forall>i. recorded c p s = Some i \<longrightarrow> \<not> alive i t))"
    using run
  proof (cases rule: bnd_cases)
    case (err e)
    with nil [OF preservesD [OF calm_inspect err(1)]] show ?thesis by simp
  next
    case (ok st u)
    note seen = inspect_pid_file_Ok [OF ok(1) assms(2)]
    show ?thesis
    proof (cases st)
      case Missing
      with ok(2) seen nil [of t] show ?thesis by (auto simp: ret_def recorded_def)
    next
      case (StaleProcess i)
      with ok(2) have "k i u = (r, t)" by simp
      then have ut: "calm u t" by (rule preservesD [OF k])
      have rec: "recorded c p s = Some i" and dead: "\<not> alive i u" and o: "older i u"
        using seen StaleProcess old calm_steady [OF seen(2) s] by auto
      from nil [OF calm.trans [OF seen(2) ut]] not_alive [OF o _ dead] ut rec show ?thesis
        by (auto simp: calm_def)
    next
      case (RunningProcess i)
      with ok(2) have "m i u = (r, t)" by simp
      moreover have rec: "recorded c p s = Some i" using seen RunningProcess by simp
      moreover note u = calm_steady [OF seen(2) s old [OF rec]]
      ultimately have "(\<exists>gs \<in> stop_signals. delivered i gs u t) \<and> (r = Ok N \<longrightarrow> \<not> alive i t)"
        using m [of i] unfolding stops_def by blast
      with calm_delivered [OF old [OF rec] seen(2)] reached_delivered [OF rec] rec show ?thesis
        by (metis option.inject)
    qed
  qed
  then show "\<exists>gs \<in> stop_signals. reached c p gs s t"
    and "r = Ok N \<Longrightarrow> recorded c p s = Some i \<Longrightarrow> \<not> alive i t" by auto
qed

lemma stop_network_result:
  assumes "stop_network c mp s = (r, t)" and "mp_network_pid_file mp \<notin> listening s" and "has_pidfd s"
    and "\<And>i. recorded c (mp_network_pid_file mp) s = Some i \<Longrightarrow> older i s"
  shows "\<exists>gs \<in> stop_signals. reached c (mp_network_pid_file mp) gs s t"
    and "r = Ok () \<Longrightarrow> recorded c (mp_network_pid_file mp) s = Some i \<Longrightarrow> \<not> alive i t"
proof -
  have "stops () i (thn (terminate i FORCE_TIMEOUT) (remove_pid_file c (mp_network_pid_file mp) i))" for i
    unfolding thn_def by (intro stops_then stops_terminate calm_remove_pid)
  from helper_result [OF assms(1) [unfolded stop_network_def] assms(2-4) this calm_remove_pid]
  show "\<exists>gs \<in> stop_signals. reached c (mp_network_pid_file mp) gs s t"
    and "r = Ok () \<Longrightarrow> recorded c (mp_network_pid_file mp) s = Some i \<Longrightarrow> \<not> alive i t" by blast+
qed

lemma stop_vmm_process_result:
  assumes "stop_vmm_process h c mp s = (r, t)" and "mp_vmm_pid_file mp \<notin> listening s" and "has_pidfd s"
    and "\<And>i. recorded c (mp_vmm_pid_file mp) s = Some i \<Longrightarrow> older i s"
  shows "\<exists>gs \<in> stop_signals. reached c (mp_vmm_pid_file mp) gs s t"
    and "r = Ok None \<Longrightarrow> recorded c (mp_vmm_pid_file mp) s = Some i \<Longrightarrow> \<not> alive i t"
proof -
  have "preserves calm (thn (remove_pid_file c (mp_vmm_pid_file mp) i) (ret None))" for i
    by (intro calm.combinators calm_remove_pid)
  from helper_result [OF assms(1) [unfolded stop_vmm_process_def] assms(2-4) stops_running this]
  show "\<exists>gs \<in> stop_signals. reached c (mp_vmm_pid_file mp) gs s t"
    and "r = Ok None \<Longrightarrow> recorded c (mp_vmm_pid_file mp) s = Some i \<Longrightarrow> \<not> alive i t" by blast+
qed

text \<open>Where the two halves write.\<close>

lemma outside_stops:
  "preserves (outside {mp_network_pid_file mp}) (stop_network c mp)"
  "preserves (outside {mp_vmm_pid_file mp}) (stop_vmm_process h c mp)"
proof -
  have inspect: "preserves (outside S) (inspect_pid_file c p)" for S p
    unfolding inspect_pid_file_def by (intro outside.combinators outside_read_pid outside_matches)
  show "preserves (outside {mp_network_pid_file mp}) (stop_network c mp)"
    unfolding stop_network_def
    by (intro outside.bnd inspect)
      (auto intro!: outside.combinators outside_remove_pid outside_signals split: managed_process_status.splits)
  show "preserves (outside {mp_vmm_pid_file mp}) (stop_vmm_process h c mp)"
    unfolding stop_vmm_process_def stop_running_vmm_def
    by (intro outside.bnd inspect)
      (auto intro!: outside.combinators outside_remove_pid outside_signals outside_request outside_matches
        split: managed_process_status.splits)
qed

section \<open>Stopping a machine\<close>

lemma target_back:
  assumes "outside S s t" and "evolves s t" and "p \<notin> S" and "p \<notin> listening s"
    and "\<And>i. recorded c p s = Some i \<Longrightarrow> older i s" and "target c p t stamp"
  shows "target c p s stamp"
proof -
  from assms(6) obtain i q where t: "recorded c p t = Some i" "intended i t q" "p_stamp q = stamp"
    by (auto simp: target_def)
  have rec: "recorded c p s = Some i" using t(1) assms(1,3,4) by (simp add: recorded_def outside_def)
  from intended_back [OF assms(2) assms(5) [OF rec] t(2)] rec t(3) show ?thesis
    by (fastforce simp: target_def)
qed

text \<open>The stages of \<open>vmm_stop\<close>: each was run, or the state did not change.\<close>

lemma vmm_stop_stages:
  assumes "vmm_stop h cs mp m s = (res, t)"
  obtains s1 s2 s3 r1 r2 r3 r4 where
    "assert_owned cs mp m s = (r1, s1)"
    "stop_vmm_process h (mc_identity cs) mp s1 = (r2, s2) \<or> s2 = s1"
    "stop_network (mc_identity cs) mp s2 = (r3, s3) \<or> s3 = s2"
    "clear_session cs mp m s3 = (r4, t) \<or> t = s3"
    "res = Ok () \<Longrightarrow> r1 = Ok () \<and> stop_vmm_process h (mc_identity cs) mp s1 = (Ok None, s2)
       \<and> stop_network (mc_identity cs) mp s2 = (Ok (), s3) \<and> clear_session cs mp m s3 = (Ok (), t)"
proof -
  from assms have "bnd (assert_owned cs mp m) (\<lambda>_. bnd (stop_vmm_process h (mc_identity cs) mp) (\<lambda>e1.
      bnd (attempt (stop_network (mc_identity cs) mp)) (\<lambda>net.
        case first_error e1 net of None \<Rightarrow> clear_session cs mp m | Some e \<Rightarrow> fail e))) s = (res, t)"
    by (simp add: vmm_stop_def thn_def)
  then show thesis
  proof (cases rule: bnd_cases)
    case (err e)
    show thesis by (rule that [of "Inl e" t undefined t undefined t]) (use err in simp_all)
  next
    case (ok x s1)
    note first = ok(1)
    from ok(2) show thesis
    proof (cases rule: bnd_cases)
      case (err e)
      show thesis by (rule that [of "Ok x" s1 "Inl e" t undefined t]) (use err first in simp_all)
    next
      case (ok e1 s2)
      obtain net s3 where net: "stop_network (mc_identity cs) mp s2 = (net, s3)" by fastforce
      with ok(2) have rest: "(case first_error e1 net of None \<Rightarrow> clear_session cs mp m | Some e \<Rightarrow> fail e) s3
          = (res, t)" by (simp add: bnd_def attempt_def)
      show thesis
      proof (cases "first_error e1 net")
        case None
        then have "e1 = None" "net = Ok ()"
          by (auto simp: first_error_def error_of_def split: option.splits sum.splits)
        with None rest net ok(1) first show thesis by (intro that [of "Ok x" s1 "Ok e1" s2 net s3 res]) simp_all
      next
        case (Some e)
        with rest net ok(1) first show thesis
          by (intro that [of "Ok x" s1 "Ok e1" s2 net s3 res]) (simp_all add: fail_def)
      qed
    qed
  qed
qed

lemma vmm_stop_result:
  assumes run: "vmm_stop h cs mp m s = (res, t)" and mp: "mp = for_record data m"
    and quiet: "listening s = {}" and pidfd: "has_pidfd s"
    and old: "\<And>p i. \<lbrakk>p \<in> {mp_vmm_pid_file mp, mp_network_pid_file mp}; recorded (mc_identity cs) p s = Some i\<rbrakk>
      \<Longrightarrow> older i s"
  shows "\<exists>g1 \<in> stop_signals. \<exists>g2 \<in> stop_signals. \<exists>a b.
      signals t = signals s @ map (Pair a) g1 @ map (Pair b) g2
      \<and> (g1 \<noteq> [] \<longrightarrow> target (mc_identity cs) (mp_vmm_pid_file mp) s a)
      \<and> (g2 \<noteq> [] \<longrightarrow> target (mc_identity cs) (mp_network_pid_file mp) s b)"
    and "outside (session_line (mp_session_dir mp)) s t"
    and "\<lbrakk>res = Ok (); p \<in> {mp_vmm_pid_file mp, mp_network_pid_file mp}; recorded (mc_identity cs) p s = Some i\<rbrakk>
      \<Longrightarrow> \<not> alive i t"
    and "\<lbrakk>res = Ok (); fs_get (files s) (mp_session_dir mp @ [DOMAIN_FILE]) \<noteq> None;
      strict_prefix (mp_session_dir mp) q\<rbrakk> \<Longrightarrow> fs_get (files t) q =
        (if q = mp_session_dir mp @ [DOMAIN_FILE]
         then Some (File (enc (mc_domain cs) (domain_marker_of m SessionDomain) @ newline)) else None)"
proof -
  let ?c = "mc_identity cs" and ?v = "mp_vmm_pid_file mp" and ?n = "mp_network_pid_file mp"
  have paths: "?v \<noteq> ?n" "?v \<in> session_line (mp_session_dir mp)" "?n \<in> session_line (mp_session_dir mp)"
    "mp_session_dir mp @ [DOMAIN_FILE] \<notin> {?v, ?n}" "mp_owner_marker mp \<notin> {?v, ?n}"
    by (simp_all add: mp for_record_def Let_def session_line_def DOMAIN_FILE_def OWNER_FILE_def)
  obtain s1 s2 s3 r1 r2 r3 r4 where st:
    "assert_owned cs mp m s = (r1, s1)" "stop_vmm_process h ?c mp s1 = (r2, s2) \<or> s2 = s1"
    "stop_network ?c mp s2 = (r3, s3) \<or> s3 = s2" "clear_session cs mp m s3 = (r4, t) \<or> t = s3"
    and fin: "res = Ok () \<Longrightarrow> r1 = Ok () \<and> stop_vmm_process h ?c mp s1 = (Ok None, s2)
       \<and> stop_network ?c mp s2 = (Ok (), s3) \<and> clear_session cs mp m s3 = (Ok (), t)"
    using run by (rule vmm_stop_stages) blast
  have l: "listening s1 = {}" "listening s2 = {}" "listening s3 = {}"
    using quiet preservesD [OF unstarted_storage(1) st(1)] st(2,3) preservesD [OF unstarted_stops(2), of h ?c mp s1 r2 s2]
      preservesD [OF unstarted_stops(1), of ?c mp s2 r3 s3] by (auto simp: unstarted_def)
  have o1: "outside {} s s1" using preservesD [OF outside_owned st(1)] .
  have o2: "outside {?v} s1 s2" using preservesD [OF outside_stops(2), of h ?c mp s1 r2 s2] st(2)
    by (auto intro: outside_refl)
  have o3: "outside {?n} s2 s3" using preservesD [OF outside_stops(1), of ?c mp s2 r3 s3] st(3)
    by (auto intro: outside_refl)
  have c1: "calm s s1" using preservesD [OF calm_storage(1) st(1)] .
  have c4: "calm s3 t" using preservesD [OF calm_storage(2), of cs mp m s3 r4 t] st(4) by (auto intro: calm_refl)
  have p1: "has_pidfd s1" using c1 pidfd evolvesD(3) by (auto simp: calm_def)
  have rec1: "recorded ?c p s1 = recorded ?c p s" for p
    using o1 quiet by (simp add: recorded_def outside_def)
  have old1: "older i s1" if "p \<in> {?v, ?n}" "recorded ?c p s1 = Some i" for p i
    using that old older_mono c1 unfolding rec1 calm_def by blast
  have v: "\<exists>g \<in> stop_signals. reached ?c ?v g s1 s2"
  proof (cases "s2 = s1")
    case True
    then show ?thesis using reached_calm [OF calm_refl, of ?c ?v] by (auto simp: stop_signals_def)
  next
    case False
    with st(2) have "stop_vmm_process h ?c mp s1 = (r2, s2)" by simp
    from stop_vmm_process_result(1) [OF this _ p1 old1 [of ?v]] l show ?thesis by simp
  qed
  then obtain g1 a where g1: "g1 \<in> stop_signals" "signals s2 = signals s1 @ map (Pair a) g1"
    "g1 \<noteq> [] \<longrightarrow> target ?c ?v s1 a" and e12: "evolves s1 s2" by (auto simp: reached_def)
  have p2: "has_pidfd s2" using p1 evolvesD(3) [OF e12] by simp
  have rec2: "recorded ?c ?n s2 = recorded ?c ?n s1" using o2 paths l by (simp add: recorded_def outside_def)
  have old2: "older i s2" if "recorded ?c ?n s2 = Some i" for i
    using that old1 [of ?n] older_mono [OF _ e12] unfolding rec2 by simp
  have "\<exists>g \<in> stop_signals. reached ?c ?n g s2 s3"
  proof (cases "s3 = s2")
    case True
    then show ?thesis using reached_calm [OF calm_refl, of ?c ?n] by (auto simp: stop_signals_def)
  next
    case False
    with st(3) have "stop_network ?c mp s2 = (r3, s3)" by simp
    from stop_network_result(1) [OF this _ p2 old2] l show ?thesis by simp
  qed
  then obtain g2 b where g2: "g2 \<in> stop_signals" "signals s3 = signals s2 @ map (Pair b) g2"
    "g2 \<noteq> [] \<longrightarrow> target ?c ?n s2 b" and e23: "evolves s2 s3" by (auto simp: reached_def)
  have e1: "evolves s s1" using c1 by (simp add: calm_def)
  have t1: "target ?c ?v s1 a \<Longrightarrow> target ?c ?v s a"
    by (rule target_back [OF o1 e1]) (use quiet old in auto)
  have "target ?c ?n s1 b \<Longrightarrow> target ?c ?n s b"
    by (rule target_back [OF o1 e1]) (use quiet old in auto)
  moreover have "target ?c ?n s2 b \<Longrightarrow> target ?c ?n s1 b"
    by (rule target_back [OF o2 e12]) (use l old1 [of ?n] paths in auto)
  ultimately have t2: "target ?c ?n s2 b \<Longrightarrow> target ?c ?n s b" by blast
  show "\<exists>g1 \<in> stop_signals. \<exists>g2 \<in> stop_signals. \<exists>a b.
      signals t = signals s @ map (Pair a) g1 @ map (Pair b) g2
      \<and> (g1 \<noteq> [] \<longrightarrow> target ?c ?v s a) \<and> (g2 \<noteq> [] \<longrightarrow> target ?c ?n s b)"
    using g1 g2 t1 t2 c1 c4 by (intro bexI [of _ g1] bexI [of _ g2] exI [of _ a] exI [of _ b])
      (auto simp: calm_def no_signal_def)
  have o4: "outside (session_line (mp_session_dir mp)) s3 t"
    using st(4) clear_session_result [of cs data m s3 r4 t] l by (auto simp: mp intro: outside_refl)
  let ?L = "session_line (mp_session_dir mp)"
  show "outside ?L s t"
    using outside_trans [OF outside_mono [OF o1, of ?L] outside_trans [OF outside_mono [OF o2, of ?L]
          outside_trans [OF outside_mono [OF o3, of ?L] o4]]] paths by simp
  show "\<not> alive i t" if r: "res = Ok ()" and p: "p \<in> {?v, ?n}" and i: "recorded ?c p s = Some i"
  proof -
    have "older i s1" using old1 p i rec1 by simp
    note o = this older_mono [OF this e12] older_mono [OF older_mono [OF this e12] e23]
    have "\<not> alive i s2 \<or> \<not> alive i s3"
      using p stop_vmm_process_result(2) [of h ?c mp s1 "Ok None" s2 i] fin [OF r] l p1 old1 i rec1
        stop_network_result(2) [of ?c mp s2 "Ok ()" s3 i] p2 old2 rec2 by auto
    then have "\<not> alive i s3" using not_alive [OF o(2) e23] by blast
    then show ?thesis using not_alive [OF o(3)] c4 by (simp add: calm_def)
  qed
  show "fs_get (files t) q = (if q = mp_session_dir mp @ [DOMAIN_FILE]
         then Some (File (enc (mc_domain cs) (domain_marker_of m SessionDomain) @ newline)) else None)"
    if r: "res = Ok ()" and m: "fs_get (files s) (mp_session_dir mp @ [DOMAIN_FILE]) \<noteq> None"
      and q: "strict_prefix (mp_session_dir mp) q"
  proof -
    have "fs_get (files s3) (mp_session_dir mp @ [DOMAIN_FILE]) = fs_get (files s) (mp_session_dir mp @ [DOMAIN_FILE])"
      using o1 o2 o3 paths quiet l by (simp add: outside_def)
    with clear_session_result [of cs data m s3 "Ok ()" t] fin [OF r] l m q show ?thesis by (simp add: mp)
  qed
qed

text \<open>C29: Stopping a machine signals nothing but its recorded helpers and leaves nothing of them. On a kernel
  with process descriptors, with no program of an earlier start left that may still create its socket
  (\<open>listening\<close>), and for identities recorded in an earlier tick of the clock: whatever
  the API answers, whatever fails and however processes come and go, the signals delivered are at most
  \<open>SIGTERM\<close> and \<open>SIGKILL\<close> to the process recorded as its VMM and then to the one recorded as its network,
  each of which had the recorded number and start time in the recorded boot, and the recorded executable
  if the system shows it; nothing outside the session directory changes, no disk in particular; and
  success means that neither recorded process runs any more and that the session is fresh, with no
  identity file left in it. A machine whose record is from before a reboot gets no signal at all.\<close>

theorem stop_only_recorded:
  assumes "vmm_stop h cs mp m s = (res, t)" and "mp = for_record data m"
    and "listening s = {}" and "has_pidfd s"
    and "\<forall>i. recorded (mc_identity cs) (mp_vmm_pid_file mp) s = Some i \<longrightarrow> older i s"
    and "\<forall>i. recorded (mc_identity cs) (mp_network_pid_file mp) s = Some i \<longrightarrow> older i s"
  shows "(\<exists>g1 \<in> stop_signals. \<exists>g2 \<in> stop_signals. \<exists>a b.
        signals t = signals s @ map (Pair a) g1 @ map (Pair b) g2
        \<and> (g1 \<noteq> [] \<longrightarrow> target (mc_identity cs) (mp_vmm_pid_file mp) s a)
        \<and> (g2 \<noteq> [] \<longrightarrow> target (mc_identity cs) (mp_network_pid_file mp) s b))
    \<and> ((\<forall>p \<in> {mp_vmm_pid_file mp, mp_network_pid_file mp}. \<forall>i. recorded (mc_identity cs) p s = Some i
           \<longrightarrow> pi_boot_id i \<noteq> str_trim (boot_id s)) \<longrightarrow> signals t = signals s)
    \<and> outside (session_line (mp_session_dir mp)) s t
    \<and> fs_get (files t) (mp_environment_disk mp) = fs_get (files s) (mp_environment_disk mp)
    \<and> fs_get (files t) (mp_workspace_disk mp) = fs_get (files s) (mp_workspace_disk mp)
    \<and> (res = Ok () \<longrightarrow>
         (\<forall>i. recorded (mc_identity cs) (mp_vmm_pid_file mp) s = Some i \<longrightarrow> \<not> alive i t)
         \<and> (\<forall>i. recorded (mc_identity cs) (mp_network_pid_file mp) s = Some i \<longrightarrow> \<not> alive i t)
         \<and> (fs_get (files s) (mp_session_dir mp @ [DOMAIN_FILE]) \<noteq> None \<longrightarrow>
              fs_get (files t) (mp_vmm_pid_file mp) = None \<and> fs_get (files t) (mp_network_pid_file mp) = None
              \<and> fs_get (files t) (mp_api_socket mp) = None))"
proof -
  have old: "p \<in> {mp_vmm_pid_file mp, mp_network_pid_file mp} \<Longrightarrow> recorded (mc_identity cs) p s = Some i
      \<Longrightarrow> older i s" for p i using assms(5,6) by auto
  have below: "strict_prefix (mp_session_dir mp) q \<and> q \<noteq> mp_session_dir mp @ [DOMAIN_FILE]"
    if "q \<in> {mp_vmm_pid_file mp, mp_network_pid_file mp, mp_api_socket mp}" for q
    using that by (auto simp: assms(2) for_record_def Let_def DOMAIN_FILE_def strict_prefix_def)
  have o_: "outside (session_line (mp_session_dir mp)) s t"
    by (rule vmm_stop_result(2) [OF assms(1-4)]) (rule old)
  moreover have "mp_environment_disk mp \<notin> session_line (mp_session_dir mp)"
    "mp_workspace_disk mp \<notin> session_line (mp_session_dir mp)"
    by (simp_all add: assms(2) for_record_def Let_def session_line_def)
  moreover have "\<exists>g1 \<in> stop_signals. \<exists>g2 \<in> stop_signals. \<exists>a b.
      signals t = signals s @ map (Pair a) g1 @ map (Pair b) g2
      \<and> (g1 \<noteq> [] \<longrightarrow> target (mc_identity cs) (mp_vmm_pid_file mp) s a)
      \<and> (g2 \<noteq> [] \<longrightarrow> target (mc_identity cs) (mp_network_pid_file mp) s b)"
    by (rule vmm_stop_result(1) [OF assms(1-4)]) (rule old)
  moreover from this have "signals t = signals s"
    if "\<forall>p \<in> {mp_vmm_pid_file mp, mp_network_pid_file mp}. \<forall>i. recorded (mc_identity cs) p s = Some i
           \<longrightarrow> pi_boot_id i \<noteq> str_trim (boot_id s)"
    using that by (fastforce simp: target_def intended_def names_def)
  moreover have "\<not> alive i t" if "res = Ok ()" "recorded (mc_identity cs) p s = Some i"
    "p \<in> {mp_vmm_pid_file mp, mp_network_pid_file mp}" for p i
    by (rule vmm_stop_result(3) [OF assms(1-4) _ that(1,3,2)]) (rule old)
  moreover have "fs_get (files t) q = None"
    if "res = Ok ()" "fs_get (files s) (mp_session_dir mp @ [DOMAIN_FILE]) \<noteq> None"
      "q \<in> {mp_vmm_pid_file mp, mp_network_pid_file mp, mp_api_socket mp}" for q
  proof -
    have "strict_prefix (mp_session_dir mp) q" using below [OF that(3)] by simp
    from vmm_stop_result(4) [OF assms(1-4) _ that(1,2) this] old below [OF that(3)] show ?thesis by simp
  qed
  ultimately show ?thesis using assms(3) by (simp add: outside_def)
qed

text \<open>A host whose API does not answer, and a machine whose network helper runs.\<close>

definition demo_host :: vmm_host where
  "demo_host = \<lparr>vh_platform = (''linux'', ''x86_64''), vh_is_char_device = (\<lambda>_. True),
     vh_kvm_api = (\<lambda>_ _. Inr 12), vh_answer = (\<lambda>_ _ _. Inl (Io ECONNREFUSED)),
     vh_full_text = (\<lambda>_. []), vh_short_text = (\<lambda>_. [])\<rparr>"

definition demo_box :: os where
  "demo_box = demo_tree\<lparr>procs := [7 \<mapsto> demo_process], next_stamp := 4, clock := 10000,
     files := (files demo_tree)(mp_network_pid_file (for_record [''d''] demo_record) \<mapsto>
       private_dir\<lparr>e_node := File (enc (mc_identity demo_codecs) demo_identity), e_mode := 384\<rparr>)\<rparr>"

lemma demo_box_recorded:
  "recorded (mc_identity demo_codecs) (mp_network_pid_file (for_record [''d''] demo_record)) demo_box
     = Some demo_identity"
  "recorded (mc_identity demo_codecs) (mp_vmm_pid_file (for_record [''d''] demo_record)) demo_box = None"
  using demo_codecs_ok(3)
  by (simp_all add: recorded_def demo_box_def fs_get_def codec_ok_def demo_tree_def demo_tree_layout)

theorem stop_only_recorded_witness:
  "\<exists>res t n. vmm_stop demo_host demo_codecs (for_record [''d''] demo_record) demo_record demo_box = (res, t)
     \<and> n \<le> 2 \<and> map fst (signals t) = replicate n 3
     \<and> fs_get (files t) (mp_environment_disk (for_record [''d''] demo_record)) = Some (File demo_image)"
proof -
  let ?mp = "for_record [''d''] demo_record" and ?s = "demo_box" and ?c = "mc_identity demo_codecs"
  obtain res t where run: "vmm_stop demo_host demo_codecs ?mp demo_record ?s = (res, t)" by fastforce
  have s: "listening ?s = {}" "has_pidfd ?s" "signals ?s = []"
    by (simp_all add: demo_box_def demo_tree_def demo_tree_layout)
  have old: "older demo_identity ?s" by (simp add: older_def demo_identity_def demo_box_def)
  have "fs_get (files ?s) (mp_environment_disk ?mp) = Some (File demo_image)"
    by (simp add: demo_box_def demo_tree_def demo_tree_layout fs_get_def)
  moreover have "target ?c (mp_network_pid_file ?mp) ?s b \<Longrightarrow> b = 3" "\<not> target ?c (mp_vmm_pid_file ?mp) ?s b" for b
    using demo_box_recorded
    by (auto simp: target_def intended_def names_def demo_identity_def demo_box_def demo_process_def)
  moreover have "\<forall>i. recorded ?c (mp_vmm_pid_file ?mp) ?s = Some i \<longrightarrow> older i ?s"
    "\<forall>i. recorded ?c (mp_network_pid_file ?mp) ?s = Some i \<longrightarrow> older i ?s"
    using old demo_box_recorded by simp_all
  note stop_only_recorded [OF run refl s(1,2) this]
  ultimately obtain g1 g2 a b where "signals t = map (Pair a) g1 @ map (Pair b) g2" "g2 \<in> stop_signals"
    "g1 = []" "g2 \<noteq> [] \<longrightarrow> b = 3" "fs_get (files t) (mp_environment_disk ?mp) = Some (File demo_image)"
    using s(3) by (metis append_Nil)
  then show ?thesis
    by (intro exI [of _ res] exI [of _ t] exI [of _ "length g2"])
      (auto simp: run stop_signals_def numeral_2_eq_2)
qed

end
