(* ===== verification/RuntimeFacts.thy ===== *)
theory RuntimeFacts
  imports RuntimeInstall StorageFacts
begin

text \<open>
  What the managed runtime promises: a component is handed out only after its file, the manifest and
  \<open>active.json\<close> have been checked against each other; a verified installation holds exactly the files of
  its manifest; unpacking writes below its staging directory only; and \<open>active.json\<close> names a verified
  installation or what it named before.
\<close>

section \<open>Reading\<close>

lemma still_open_regular: "preserves still (open_regular p)"
  unfolding open_regular_def by (intro still.combinators still_reads)

lemma still_read_limited: "preserves still (read_limited p n)"
  unfolding read_limited_def
  by (intro still.combinators still_reads) (auto split: node.split intro!: still.combinators still_reads)

lemma still_verify_file: "preserves still (verify_runtime_file i p f)"
  unfolding verify_runtime_file_def by (intro still.combinators still_reads still_open_regular)

lemma still_load: "preserves still (load_installation i p)"
  unfolding load_installation_def by (intro still.combinators still_reads still_read_limited)

text \<open>The file at \<open>p\<close> is the one the manifest describes.\<close>

definition file_matches :: "'v installer \<Rightarrow> files \<Rightarrow> path \<Rightarrow> runtime_file \<Rightarrow> bool" where
  "file_matches i fs p f =
     (case fs p of None \<Rightarrow> False
      | Some e \<Rightarrow> (case e_node e of
          File c \<Rightarrow> length c = rf_size_bytes f \<and> hex_digest (in_sha256 i c) = rf_sha256 f
            \<and> e_nlink e = 1 \<and> e_mode e = (if rf_executable f then 365 else 292)
        | _ \<Rightarrow> False))"

lemma verify_file_Ok:
  assumes "verify_runtime_file i p f s = (Ok (), t)" and "listening s = {}" and "p \<noteq> []"
  shows "file_matches i (files s) p f"
proof -
  from assms(1) obtain md s1 s2 c s3 where run:
    "sys_lstat p s = (Ok md, s1)" "is_regular md" "e_nlink md = 1" "node_len md = rf_size_bytes f"
    "e_mode md = (if rf_executable f then 365 else 292)"
    "open_regular p s1 = (Ok (), s2)" "sys_read p s2 = (Ok c, s3)"
    "hex_digest (in_sha256 i c) = rf_sha256 f"
    unfolding verify_runtime_file_def by (auto simp: io_Ok hash_reader_def)
  have md: "files s p = Some md" by (rule lstat_seen [OF run(1) assms(2,3)])
  have s1: "files s1 = files s" "listening s1 = {}"
    using still_files [OF still_reads(1) run(1) assms(2)] by simp_all
  have s2: "files s2 = files s" "listening s2 = {}"
    using still_files [OF still_open_regular run(6) s1(2)] s1 by simp_all
  from read_seen [OF run(7) s2(2) assms(3)] s2 md have "e_node md = File c" by simp
  with run md show ?thesis by (simp add: file_matches_def node_len_def)
qed

lemma read_limited_Ok:
  assumes "read_limited p n s = (Ok c, t)" and "listening s = {}" and "p \<noteq> []"
  shows "fs_get (files s) p = Some (File c) \<and> length c \<le> n"
proof -
  from assms(1) obtain e s1 md s2 where opened: "sys_open_nofollow p s = (Ok e, s1)"
      "sys_fstat p s1 = (Ok md, s2)" and "(case e_node md of
         File c \<Rightarrow> if length c > n then fail (Io EINVAL) else sys_read p
       | _ \<Rightarrow> fail (Io EINVAL)) s2 = (Ok c, t)"
    unfolding read_limited_def bnd_Ok thn_Ok by blast
  then obtain d where run: "sys_open_nofollow p s = (Ok e, s1)" "sys_fstat p s1 = (Ok md, s2)"
      "e_node md = File d" "length d \<le> n" "sys_read p s2 = (Ok c, t)"
    by (cases "e_node md") (auto simp: fail_def split: if_splits)
  have s1: "files s1 = files s" "listening s1 = {}"
    using still_files [OF still_reads(5) run(1) assms(2)] by simp_all
  have s2: "files s2 = files s" "listening s2 = {}"
    using still_files [OF still_reads(9) run(2) s1(2)] s1 by simp_all
  have "files s p = Some md" using lstat_seen [of p s1 md s2] run(2) s1 assms(3) by (simp add: sys_fstat_def)
  with read_seen [OF run(5) s2(2) assms(3)] s2 run(3,4) assms(3) show ?thesis by (auto simp: fs_get_def)
qed

text \<open>An installation as it was loaded from \<open>root\<close>.\<close>

definition loaded :: "'v installer \<Rightarrow> files \<Rightarrow> path \<Rightarrow> installed_runtime \<Rightarrow> bool" where
  "loaded i fs root inst =
     (ir_root inst = root
      \<and> (case fs_get fs (root @ [''manifest.json'']) of
           Some (File b) \<Rightarrow> manifest_from_json (in_semver i) (in_manifest i) b = Ok (ir_manifest inst)
             \<and> ir_manifest_sha256 inst = hex_digest (in_sha256 i b)
         | _ \<Rightarrow> False))"

lemma load_installation_Ok:
  assumes "load_installation i root s = (Ok inst, t)" and "listening s = {}"
  shows "loaded i (files s) root inst"
proof -
  from assms(1) obtain md s1 b s2 m where run: "sys_lstat root s = (Ok md, s1)"
      "read_limited (root @ [''manifest.json'']) MAX_MANIFEST_BYTES s1 = (Ok b, s2)"
      "manifest_from_json (in_semver i) (in_manifest i) b = Ok m"
      "inst = \<lparr>ir_root = root, ir_manifest = m, ir_manifest_sha256 = hex_digest (in_sha256 i b)\<rparr>"
    unfolding load_installation_def by (auto simp: io_Ok)
  have s1: "files s1 = files s" "listening s1 = {}"
    using still_files [OF still_reads(1) run(1) assms(2)] by simp_all
  from read_limited_Ok [OF run(2) s1(2)] s1 run(3,4) show ?thesis by (simp add: loaded_def)
qed

text \<open>What \<open>discover\<close> found: \<open>active.json\<close> and the manifest it names.\<close>

definition active_installation :: "'v installer \<Rightarrow> files \<Rightarrow> path \<Rightarrow> installed_runtime \<Rightarrow> bool" where
  "active_installation i fs data inst =
     (case fs_get fs (runtime_active_file data) of
        Some (File b) \<Rightarrow>
          (case dec (in_active i) b of
             Some act \<Rightarrow> act_manifest_sha256 act = ir_manifest_sha256 inst
               \<and> act_runtime_version act = mf_runtime_version (ir_manifest inst)
               \<and> loaded i fs (runtime_version_dir data (act_runtime_version act)) inst
               \<and> ensure_contains (in_semver i) (mf_cli_compatibility (ir_manifest inst)) (in_cli_version i) = Ok ()
           | None \<Rightarrow> False)
      | _ \<Rightarrow> False)"

lemma discover_Ok:
  assumes "discover_runtime i data s = (Ok (Some inst), t)" and "listening s = {}"
  shows "active_installation i (files s) data inst \<and> files t = files s \<and> listening t = {}"
proof -
  from assms(1) obtain b s1 act v s2 where run:
    "read_limited (runtime_active_file data) MAX_LOCK_BYTES s = (Ok b, s1)" "dec (in_active i) b = Some act"
    "load_installation i (runtime_version_dir data (act_runtime_version act)) s1 = (Ok inst, s2)"
    "mf_runtime_version (ir_manifest inst) = act_runtime_version act"
    "ir_manifest_sha256 inst = act_manifest_sha256 act"
    "ensure_contains (in_semver i) (mf_cli_compatibility (ir_manifest inst)) (in_cli_version i) = Ok ()"
    "t = s2"
    unfolding discover_runtime_def by (auto simp: io_Ok split: if_splits)
  have s1: "files s1 = files s" "listening s1 = {}"
    using still_files [OF still_read_limited run(1) assms(2)] by simp_all
  have t: "files t = files s" "listening t = {}"
    using still_files [OF still_load run(3) s1(2)] s1 run(7) by simp_all
  have "runtime_active_file data \<noteq> []" by (simp add: runtime_active_file_def)
  with read_limited_Ok [OF run(1) assms(2)] load_installation_Ok [OF run(3) s1(2)] s1 run t
  show ?thesis by (simp add: active_installation_def)
qed

text \<open>C22: A component of the managed runtime is handed out only along an unbroken chain of digests:
  \<open>active.json\<close> names the digest of the manifest that is there, this valid manifest lists the component
  and its file, and the file at the path returned has exactly the size, digest, permissions and single
  link it lists; and the path, with all links followed, stays below the runtime's root.\<close>

theorem component_chain_of_trust:
  assumes "component_path i data name s = (Ok (Some p), t)" and "listening s = {}"
  shows "\<exists>inst c f q r. active_installation i (files s) data inst
    \<and> c \<in> set (mf_components (ir_manifest inst)) \<and> rc_name c = name
    \<and> f \<in> set (mf_files (ir_manifest inst)) \<and> rf_path f = rc_path c
    \<and> p = below (ir_root inst) (rc_path c) \<and> file_matches i (files s) p f
    \<and> resolve (files s) p = Inr q \<and> resolve (files s) (ir_root inst) = Inr r \<and> prefix r q"
proof -
  from assms(1) obtain inst s1 where run: "discover_runtime i data s = (Ok (Some inst), s1)"
      "runtime_component_path i inst name s1 = (Ok p, t)"
    unfolding component_path_def by (auto simp: io_Ok)
  from discover_Ok [OF run(1) assms(2)] have s1: "active_installation i (files s) data inst"
      "files s1 = files s" "listening s1 = {}" by simp_all
  from run(2) obtain c f r s2 q s3 where comp:
    "find (\<lambda>c. rc_name c = name) (mf_components (ir_manifest inst)) = Some c"
    "find_file (mf_files (ir_manifest inst)) (rc_path c) = Some f"
    "p = below (ir_root inst) (rc_path c)" "sys_canonicalize (ir_root inst) s1 = (Ok r, s2)"
    "sys_canonicalize p s2 = (Ok q, s3)" "path_starts_with q r" "verify_runtime_file i p f s3 = (Ok (), t)"
    unfolding runtime_component_path_def by (auto simp: io_Ok Let_def)
  have s2: "files s2 = files s" "listening s2 = {}"
    using still_files [OF still_reads(2) comp(4) s1(3)] s1 by simp_all
  have s3: "files s3 = files s" "listening s3 = {}"
    using still_files [OF still_reads(2) comp(5) s2(2)] s2 by simp_all
  have "resolve (files s) (ir_root inst) = Inr r" "resolve (files s) p = Inr q"
    using comp(4,5) s1 s2 quiet_files by (auto simp: sys_canonicalize_Ok)
  moreover have "p \<noteq> []" by (simp add: comp(3) below_def)
  then have "file_matches i (files s) p f" using verify_file_Ok [OF comp(7) s3(2)] s3 by simp
  moreover have "c \<in> set (mf_components (ir_manifest inst))" "rc_name c = name"
    using comp(1) by (auto simp: find_Some_iff)
  moreover have "f \<in> set (mf_files (ir_manifest inst))" "rf_path f = rc_path c"
    using comp(2) by (auto simp: find_file_def find_Some_iff)
  ultimately show ?thesis using s1(1) comp(3,6) by (auto simp: path_starts_with_def)
qed

section \<open>Walking a tree\<close>

text \<open>What file systems are: what exists is in a directory.\<close>

definition tree_ok :: "files \<Rightarrow> bool" where
  "tree_ok fs = (\<forall>p n. fs (p @ [n]) \<noteq> None \<longrightarrow> fs_get fs p = Some Dir)"

lemma tree_ok_prefix:
  assumes "tree_ok fs" and "fs (d @ n # r) \<noteq> None"
  shows "fs (d @ [n]) \<noteq> None \<and> (r \<noteq> [] \<longrightarrow> fs_get fs (d @ [n]) = Some Dir)"
  using assms(2)
proof (induction r rule: rev_induct)
  case Nil
  then show ?case by simp
next
  case (snoc x r)
  have "fs ((d @ n # r) @ [x]) \<noteq> None" using snoc.prems by simp
  with assms(1) have dir: "fs_get fs (d @ n # r) = Some Dir" unfolding tree_ok_def by blast
  then have "fs (d @ n # r) \<noteq> None" by (auto simp: fs_get_def)
  with snoc.IH dir show ?case by (cases "r = []") simp_all
qed

lemma io_fold_collect:
  assumes "io_fold f xs a s = (Ok b, t)" and "I s"
    and "\<And>x a s b t. x \<in> set xs \<Longrightarrow> I s \<Longrightarrow> f x a s = (Ok b, t)
      \<Longrightarrow> I t \<and> a \<subseteq> b \<and> b \<subseteq> a \<union> Z \<and> W x \<subseteq> b \<and> G x"
  shows "I t \<and> a \<subseteq> b \<and> b \<subseteq> a \<union> Z \<and> (\<forall>x \<in> set xs. W x \<subseteq> b \<and> G x)"
  using assms
proof (induction xs arbitrary: a s)
  case Nil
  then show ?case by (auto simp: ret_def)
next
  case (Cons x xs)
  from Cons.prems(1) obtain c u where x: "f x a s = (Ok c, u)" and rest: "io_fold f xs c u = (Ok b, t)"
    by (auto simp: bnd_Ok)
  from Cons.prems(3) [OF _ Cons.prems(2) x] have c: "I u" "a \<subseteq> c" "c \<subseteq> a \<union> Z" "W x \<subseteq> c" "G x" by simp_all
  have "I t \<and> c \<subseteq> b \<and> b \<subseteq> c \<union> Z \<and> (\<forall>x \<in> set xs. W x \<subseteq> b \<and> G x)"
    by (rule Cons.IH [OF rest c(1)]) (rule Cons.prems(3), simp_all)
  with c show ?case by auto
qed

definition relative :: "path \<Rightarrow> path \<Rightarrow> string" where
  "relative root q = join_with ''/'' (drop (length root) q)"

text \<open>The regular files below \<open>d\<close>, relative to \<open>root\<close>; and that nothing else is there.\<close>

definition files_below :: "files \<Rightarrow> path \<Rightarrow> path \<Rightarrow> string set" where
  "files_below fs root d =
     {relative root q |q. strict_prefix d q \<and> (\<exists>e. fs q = Some e \<and> is_regular e)}"

definition plain_below :: "files \<Rightarrow> path \<Rightarrow> bool" where
  "plain_below fs d =
     (\<forall>q e. strict_prefix d q \<and> fs q = Some e \<longrightarrow> e_node e = Dir \<or> is_regular e)"

lemma not_dir_regular: "is_regular e \<Longrightarrow> e_node e \<noteq> Dir"
  by (auto simp: is_regular_def)

lemma walk_runtime_Ok:
  assumes "walk_runtime_files n ls root d found s = (Ok fnd, t)" and "listening s = {}" and "files s = fs"
    and "lists ls" and "finite (dom fs)" and "tree_ok fs" and "real_dir fs d"
  shows "files t = fs \<and> listening t = {} \<and> fnd = found \<union> files_below fs root d \<and> plain_below fs d"
  using assms(1-3,7)
proof (induction n arbitrary: d found s fnd t)
  case 0
  then show ?case by (simp add: too_long_def fail_def)
next
  case (Suc n)
  let ?step = "\<lambda>nm fnd. bnd (sys_lstat (d @ [nm])) (\<lambda>md.
      if e_node md = Dir then walk_runtime_files n ls root (d @ [nm]) fnd
      else io_ensure (is_regular md) ''managed runtime contains a special file''
        (let relative = join_with ''/'' (drop (length root) (d @ [nm]))
         in io_ensure (valid_utf8 relative) ''managed runtime path is not UTF-8''
           (io_ensure (relative \<notin> fnd) ''duplicate managed runtime path'' (ret (insert relative fnd)))))"
  from Suc.prems(1) obtain ns u where dir: "sys_read_dir ls d s = (Ok ns, u)"
      and fold: "io_fold ?step ns found u = (Ok fnd, t)"
    by (auto simp: bnd_Ok)
  have u: "files u = fs" "listening u = {}"
    using still_files [OF still_reads(8) dir Suc.prems(2)] Suc.prems(3) by simp_all
  have "ns = ls fs d"
    using read_dir_seen [OF dir Suc.prems(2)] resolve_real_dir [OF Suc.prems(4)] Suc.prems(3) by auto
  with assms(4,5) have ns: "set ns = {m. fs (d @ [m]) \<noteq> None}" by (auto simp: lists_def)
  define W where "W m = files_below fs root (d @ [m])
      \<union> {relative root (d @ [m]) |e. fs (d @ [m]) = Some e \<and> is_regular e}" for m
  define G where "G m = (plain_below fs (d @ [m])
      \<and> (\<forall>e. fs (d @ [m]) = Some e \<longrightarrow> e_node e = Dir \<or> is_regular e))" for m
  have Z: "W m \<subseteq> files_below fs root d" for m
    by (auto simp: W_def files_below_def strict_prefix_def prefix_def)
  have step: "(files t = fs \<and> listening t = {}) \<and> a \<subseteq> b \<and> b \<subseteq> a \<union> files_below fs root d \<and> W m \<subseteq> b \<and> G m"
    if m: "m \<in> set ns" and v: "files v = fs \<and> listening v = {}" and run: "?step m a v = (Ok b, t)" for m a v b t
  proof -
    from run obtain md w where md: "sys_lstat (d @ [m]) v = (Ok md, w)"
      and rest: "(if e_node md = Dir then walk_runtime_files n ls root (d @ [m]) a
        else io_ensure (is_regular md) ''managed runtime contains a special file''
          (let relative = join_with ''/'' (drop (length root) (d @ [m]))
           in io_ensure (valid_utf8 relative) ''managed runtime path is not UTF-8''
             (io_ensure (relative \<notin> a) ''duplicate managed runtime path'' (ret (insert relative a))))) w = (Ok b, t)"
      by (auto simp: bnd_Ok)
    have w: "files w = fs" "listening w = {}"
      using still_files [OF still_reads(1) md] v by simp_all
    have entry: "fs (d @ [m]) = Some md" using lstat_seen [OF md] v by simp
    show ?thesis
    proof (cases "e_node md = Dir")
      case True
      have "real_dir fs (d @ [m])"
        using Suc.prems(4) entry True by (intro real_dir_snoc) (simp_all add: fs_get_def)
      with Suc.IH [of "d @ [m]" a w b t] rest True w
      have "files t = fs \<and> listening t = {} \<and> b = a \<union> files_below fs root (d @ [m]) \<and> plain_below fs (d @ [m])"
        by simp
      moreover have "W m = files_below fs root (d @ [m])" "\<forall>e. fs (d @ [m]) = Some e \<longrightarrow> e_node e = Dir"
        using entry True not_dir_regular by (auto simp: W_def)
      ultimately show ?thesis using Z [of m] by (auto simp: G_def)
    next
      case False
      with rest have reg: "is_regular md" "b = insert (relative root (d @ [m])) a" "t = w"
        by (auto simp: io_Ok Let_def relative_def)
      have none: "\<not> (strict_prefix (d @ [m]) q \<and> fs q = Some e)" for q e
      proof
        assume q: "strict_prefix (d @ [m]) q \<and> fs q = Some e"
        then obtain x r where "q = (d @ [m]) @ x # r" by (metis strict_prefixE')
        then have "q = d @ m # x # r" by simp
        with tree_ok_prefix [OF assms(6), of d m "x # r"] q have "fs_get fs (d @ [m]) = Some Dir" by simp
        with entry False show False by (simp add: fs_get_def)
      qed
      then have "files_below fs root (d @ [m]) = {}" "plain_below fs (d @ [m])"
        by (auto simp: files_below_def plain_below_def)
      then have "W m = {relative root (d @ [m])}" "G m"
        using reg(1) entry by (auto simp: W_def G_def)
      then show ?thesis using reg(2,3) w Z [of m] by auto
    qed
  qed
  have "(files t = fs \<and> listening t = {}) \<and> found \<subseteq> fnd \<and> fnd \<subseteq> found \<union> files_below fs root d
      \<and> (\<forall>m \<in> set ns. W m \<subseteq> fnd \<and> G m)"
  proof (rule io_fold_collect [OF fold, where I = "\<lambda>u. files u = fs \<and> listening u = {}"])
    show "files u = fs \<and> listening u = {}" using u by simp
  qed (rule step)
  then have all: "files t = fs" "listening t = {}" "found \<subseteq> fnd" "fnd \<subseteq> found \<union> files_below fs root d"
    "\<forall>m \<in> set ns. W m \<subseteq> fnd \<and> G m" by auto
  have split: "\<exists>m r. q = d @ m # r \<and> m \<in> set ns" if "strict_prefix d q" "fs q = Some e" for q e
  proof -
    from that(1) obtain m r where q: "q = d @ m # r" by (rule strict_prefixE')
    with tree_ok_prefix [OF assms(6), of d m r] that(2) ns show ?thesis by auto
  qed
  have "files_below fs root d \<subseteq> fnd"
  proof
    fix x assume "x \<in> files_below fs root d"
    then obtain q e where q: "x = relative root q" "strict_prefix d q" "fs q = Some e" "is_regular e"
      by (auto simp: files_below_def)
    from split [OF q(2,3)] obtain m r where m: "q = d @ m # r" "m \<in> set ns" by blast
    have "r = [] \<or> strict_prefix (d @ [m]) q"
      using m(1) by (cases r) (auto simp: strict_prefix_def prefix_def)
    then have "x \<in> W m"
      using q m(1) unfolding W_def files_below_def by auto
    with all(5) m(2) show "x \<in> fnd" by blast
  qed
  moreover have "plain_below fs d"
    unfolding plain_below_def
  proof (intro allI impI)
    fix q e assume q: "strict_prefix d q \<and> fs q = Some e"
    with split obtain m r where m: "q = d @ m # r" "m \<in> set ns" by blast
    with all(5) have "G m" by blast
    moreover have "r = [] \<or> strict_prefix (d @ [m]) q"
      using m(1) by (cases r) (auto simp: strict_prefix_def prefix_def)
    ultimately show "e_node e = Dir \<or> is_regular e"
      using q m(1) unfolding G_def plain_below_def by auto
  qed
  ultimately show ?case using all(1-4) by blast
qed

section \<open>A verified installation\<close>

lemma still_walk: "preserves still (walk_runtime_files n ls root d found)"
proof (induction n arbitrary: d found)
  case 0
  then show ?case by (simp add: too_long_def still.fail)
next
  case (Suc n)
  then show ?case
    by (auto intro!: still.combinators still.io_fold still_reads simp: Let_def)
qed

lemma io_each_Ok:
  assumes "io_each xs f s = (Ok (), t)" and "I s"
    and "\<And>x s t. x \<in> set xs \<Longrightarrow> I s \<Longrightarrow> f x s = (Ok (), t) \<Longrightarrow> I t \<and> G x"
  shows "I t \<and> (\<forall>x \<in> set xs. G x)"
  using assms
proof (induction xs arbitrary: s)
  case (Cons x xs)
  from Cons.prems(1) obtain u where x: "f x s = (Ok (), u)" and rest: "io_each xs f u = (Ok (), t)"
    by (auto simp: thn_Ok)
  from Cons.prems(3) [OF _ Cons.prems(2) x] have "I u" "G x" by simp_all
  moreover have "I t \<and> (\<forall>x \<in> set xs. G x)"
    by (rule Cons.IH [OF rest \<open>I u\<close>]) (rule Cons.prems(3), simp_all)
  ultimately show ?case by simp
qed (simp add: ret_def)

text \<open>The tree at \<open>root\<close> is what the manifest in it says, no more and no less.\<close>

definition tree_matches :: "'v installer \<Rightarrow> files \<Rightarrow> path \<Rightarrow> installed_runtime \<Rightarrow> bool" where
  "tree_matches i fs root inst =
     (loaded i fs root inst \<and> plain_below fs root
      \<and> files_below fs root root - {''manifest.json''} = set (map rf_path (mf_files (ir_manifest inst)))
      \<and> list_all (\<lambda>f. file_matches i fs (below root (rf_path f)) f) (mf_files (ir_manifest inst)))"

definition lock_matches :: "installed_runtime \<Rightarrow> runtime_lock \<Rightarrow> bool" where
  "lock_matches inst l =
     (ir_manifest_sha256 inst = ar_manifest_sha256 (lk_archive l)
      \<and> mf_runtime_version (ir_manifest inst) = lk_runtime_version l)"

lemma verify_installation_Ok:
  assumes "verify_installation_at i root lock s = (Ok inst, t)" and "listening s = {}"
    and "lists (in_ls i)" and "finite (dom (files s))" and "tree_ok (files s)" and "real_dir (files s) root"
  shows "tree_matches i (files s) root inst \<and> (\<forall>l. lock = Some l \<longrightarrow> lock_matches inst l)"
proof -
  from assms(1) obtain s1 s2 md s3 found s4 where run: "load_installation i root s = (Ok inst, s1)"
      "(case lock of None \<Rightarrow> ret ()
        | Some l \<Rightarrow> io_ensure (ir_manifest_sha256 inst = ar_manifest_sha256 (lk_archive l))
            ''installed runtime manifest digest does not match its lock''
            (lift_r (validate_against_lock (in_semver i) (ir_manifest inst) l))) s1 = (Ok (), s2)"
      "sys_lstat (root @ [''manifest.json'']) s2 = (Ok md, s3)"
      "walk_runtime_files MAX_DEPTH (in_ls i) root root {} s3 = (Ok found, s4)"
      "found - {''manifest.json''} = set (map rf_path (mf_files (ir_manifest inst)))"
      "io_each (mf_files (ir_manifest inst)) (\<lambda>f. verify_runtime_file i (below root (rf_path f)) f) s4 = (Ok (), t)"
    unfolding verify_installation_at_def by (auto simp: bnd_Ok thn_Ok io_ensure_Ok ret_Ok)
  have s1: "files s1 = files s" "listening s1 = {}"
    using still_files [OF still_load run(1) assms(2)] by simp_all
  have s2: "s2 = s1" "\<forall>l. lock = Some l \<longrightarrow> lock_matches inst l"
    using run(2)
    by (auto simp: ret_def io_ensure_Ok lift_r_Ok lock_matches_def validate_against_lock_def split: option.splits)
  have s3: "files s3 = files s" "listening s3 = {}"
    using still_files [OF still_reads(1) run(3)] s1 s2 by simp_all
  from walk_runtime_Ok [OF run(4) s3(2,1) assms(3-6)]
  have s4: "files s4 = files s" "listening s4 = {}" "found = files_below (files s) root root"
    "plain_below (files s) root" by simp_all
  have "below root t \<noteq> []" for t by (simp add: below_def)
  then have "\<forall>f \<in> set (mf_files (ir_manifest inst)). file_matches i (files s) (below root (rf_path f)) f"
    using io_each_Ok [OF run(6), of "\<lambda>u. files u = files s \<and> listening u = {}"
        "\<lambda>f. file_matches i (files s) (below root (rf_path f)) f"]
      s4(1,2) verify_file_Ok still_files [OF still_verify_file] by (metis (no_types, lifting))
  with load_installation_Ok [OF run(1) assms(2)] s2(2) s4 run(5) show ?thesis
    by (simp add: tree_matches_def list_all_iff)
qed

text \<open>C23: An installation passes verification only if its tree is exactly its manifest: the manifest in
  the tree is valid and has the digest and version of the lock, if one is given; every file the manifest
  lists is there with its size, digest, permissions and no second link; and below the root there is no
  other file and nothing that is not a file or directory.\<close>

theorem verified_tree_exact:
  assumes "verify_installation_at i root lock s = (Ok inst, t)" and "listening s = {}"
    and "lists (in_ls i)" and "finite (dom (files s))" and "tree_ok (files s)" and "real_dir (files s) root"
  shows "loaded i (files s) root inst
    \<and> (\<forall>f \<in> set (mf_files (ir_manifest inst)). file_matches i (files s) (below root (rf_path f)) f)
    \<and> (\<forall>q e. strict_prefix root q \<and> files s q = Some e \<longrightarrow> e_node e = Dir
        \<or> (is_regular e \<and> relative root q \<in> insert ''manifest.json'' (rf_path ` set (mf_files (ir_manifest inst)))))
    \<and> (\<forall>l. lock = Some l \<longrightarrow> lock_matches inst l)"
proof -
  note v = verify_installation_Ok [OF assms]
  have "relative root q \<in> insert ''manifest.json'' (rf_path ` set (mf_files (ir_manifest inst)))"
    if "strict_prefix root q" "files s q = Some e" "is_regular e" for q e
  proof -
    have "relative root q \<in> files_below (files s) root root"
      using that unfolding files_below_def by blast
    with v show ?thesis by (auto simp: tree_matches_def)
  qed
  with v show ?thesis by (auto simp: tree_matches_def plain_below_def list_all_iff)
qed

section \<open>A concrete installation\<close>

text \<open>A file system given by its entries, and a listing of it: first its own entries, else in order.\<close>

definition entries_listing :: "(path \<times> entry) list \<Rightarrow> listing" where
  "entries_listing es fs d =
     (if fs = map_of es then remdups (map (last \<circ> fst) (filter (\<lambda>(p, _). p \<noteq> [] \<and> butlast p = d) es))
      else sorted_list_of_set {n. fs (d @ [n]) \<noteq> None})"

lemma entries_listing_lists: "lists (entries_listing es)"
  unfolding lists_def
proof (intro allI impI)
  fix fs :: files and d assume fin: "finite (dom fs)"
  show "distinct (entries_listing es fs d) \<and> set (entries_listing es fs d) = {n. fs (d @ [n]) \<noteq> None}"
  proof (cases "fs = map_of es")
    case True
    have "n \<in> last ` fst ` {x \<in> set es. fst x \<noteq> [] \<and> butlast (fst x) = d} \<longleftrightarrow> map_of es (d @ [n]) \<noteq> None" for n
      by (auto simp: map_of_eq_None_iff image_iff) (metis append_butlast_last_id fst_conv, metis append_is_Nil_conv
        butlast_snoc fst_conv last_snoc not_Cons_self2)
    with True show ?thesis
      by (auto simp: entries_listing_def image_comp split_def)
  next
    case False
    have "{n. fs (d @ [n]) \<noteq> None} \<subseteq> last ` dom fs" by (force simp: dom_def image_iff)
    with fin have "finite {n. fs (d @ [n]) \<noteq> None}" by (metis finite_imageI finite_subset)
    with False show ?thesis by (simp add: entries_listing_def)
  qed
qed

definition demo_version :: path where
  "demo_version = runtime_version_dir [''d''] ''1.2.3''"

definition demo_plain :: "string \<Rightarrow> nat \<Rightarrow> entry" where
  "demo_plain c m = private_dir\<lparr>e_node := File c, e_mode := m\<rparr>"

definition demo_entries :: "(path \<times> entry) list" where
  "demo_entries =
     [([''d''], private_dir), (runtime_dir [''d''], private_dir),
      (runtime_active_file [''d''], demo_plain ''A'' 384), (demo_version, private_dir),
      (demo_version @ [''manifest.json''], demo_plain ''M'' 292), (demo_version @ [''bin''], private_dir)]
     @ map (\<lambda>n. (demo_version @ [''bin'', n], demo_plain ''x'' 365)) REQUIRED_COMPONENTS"

definition demo_active :: active_runtime where
  "demo_active = \<lparr>act_schema_version = 1, act_runtime_version = ''1.2.3'', act_manifest_sha256 = demo_digest\<rparr>"

definition demo_installer :: "(nat \<times> nat \<times> nat) installer" where
  "demo_installer =
     \<lparr>in_semver = triple_semver, in_lock = (\<lambda>_. Some demo_lock),
      in_manifest = (\<lambda>b. if b = ''M'' then Some demo_manifest else None),
      in_active = \<lparr>enc = (\<lambda>_. ''A''), dec = (\<lambda>_. Some demo_active)\<rparr>,
      in_sha256 = (\<lambda>_. replicate 31 CHR 0x00 @ [CHR 0x01]), in_untar = (\<lambda>_. Ok []),
      in_http = (\<lambda>_. bail ''no network''), in_ls = entries_listing demo_entries,
      in_cli_version = (0, 1, 5), in_embedded_lock = None\<rparr>"

definition demo_installed :: os where
  "demo_installed = demo_os (map_of demo_entries)"

lemma demo_installed_quiet: "sched demo_installed = []" "listening demo_installed = {}"
  "files demo_installed = map_of demo_entries" "finite (dom (files demo_installed))"
  by (simp_all add: demo_installed_def demo_os_def finite_dom_map_of)

lemma demo_lookup:
  "map_of demo_entries [''d''] = Some private_dir"
  "map_of demo_entries [''d'', ''runtime''] = Some private_dir"
  "map_of demo_entries (runtime_active_file [''d'']) = Some (demo_plain ''A'' 384)"
  "map_of demo_entries demo_version = Some private_dir"
  "map_of demo_entries (demo_version @ [''manifest.json'']) = Some (demo_plain ''M'' 292)"
  "map_of demo_entries (demo_version @ [''bin'']) = Some private_dir"
  "list_all (\<lambda>n. map_of demo_entries (demo_version @ [''bin'', n]) = Some (demo_plain ''x'' 365)) REQUIRED_COMPONENTS"
  by (simp_all add: demo_entries_def runtime_active_file_def runtime_dir_def demo_version_def
      runtime_version_dir_def REQUIRED_COMPONENTS_def)

lemma demo_paths:
  "demo_version = [''d'', ''runtime'', ''1.2.3'']" "runtime_version_dir [''d''] ''1.2.3'' = demo_version"
  "runtime_active_file [''d''] = [''d'', ''runtime'', ''active.json'']"
  by (simp_all add: demo_version_def runtime_version_dir_def runtime_dir_def runtime_active_file_def)

lemma demo_digest_hex: "hex_digest (in_sha256 demo_installer c) = demo_digest"
proof -
  have "hex2 0 = ''00''" "hex2 1 = ''01''" by code_simp+
  then have "hex_digest (replicate 31 CHR 0x00 @ [CHR 0x01]) = demo_digest"
    by (simp add: hex_digest_def demo_digest_def numeral_eq_Suc)
  then show ?thesis by (simp add: demo_installer_def)
qed

lemma demo_find:
  "find (\<lambda>c. rc_name c = ''passt'') (mf_components demo_manifest) = Some (demo_component ''passt'')"
  "find_file (mf_files demo_manifest) ''bin/passt'' = Some \<lparr>rf_path = ''bin/passt'', rf_size_bytes = 1,
     rf_sha256 = demo_digest, rf_executable = True\<rparr>"
  "rc_path (demo_component ''passt'') = ''bin/passt''" "split_on is_slash ''bin/passt'' = [''bin'', ''passt'']"
  by (simp_all add: demo_manifest_def REQUIRED_COMPONENTS_def demo_component_def find_file_def Let_def)


lemma demo_fs:
  "files demo_installed [''d''] = Some private_dir"
  "files demo_installed [''d'', ''runtime''] = Some private_dir"
  "files demo_installed [''d'', ''runtime'', ''active.json''] = Some (demo_plain ''A'' 384)"
  "files demo_installed [''d'', ''runtime'', ''1.2.3''] = Some private_dir"
  "files demo_installed [''d'', ''runtime'', ''1.2.3'', ''manifest.json''] = Some (demo_plain ''M'' 292)"
  "files demo_installed [''d'', ''runtime'', ''1.2.3'', ''bin''] = Some private_dir"
  "files demo_installed [''d'', ''runtime'', ''1.2.3'', ''bin'', ''passt''] = Some (demo_plain ''x'' 365)"
  using demo_lookup by (simp_all add: demo_installed_quiet demo_paths REQUIRED_COMPONENTS_def)

lemma demo_load:
  "load_installation demo_installer demo_version demo_installed
     = (Ok \<lparr>ir_root = demo_version, ir_manifest = demo_manifest, ir_manifest_sha256 = demo_digest\<rparr>, demo_installed)"
proof -
  have "manifest_from_json (in_semver demo_installer) (in_manifest demo_installer) ''M'' = Ok demo_manifest"
    by (simp add: manifest_from_json_def demo_installer_def demo_manifest_valid some_or_def)
  then show ?thesis
    by (simp add: load_installation_def read_limited_def io_run demo_installed_quiet(1,2) demo_paths demo_fs
        demo_plain_def private_dir_def demo_digest_hex MAX_MANIFEST_BYTES_def)
qed

lemma demo_discover:
  "discover_runtime demo_installer [''d''] demo_installed
     = (Ok (Some \<lparr>ir_root = demo_version, ir_manifest = demo_manifest, ir_manifest_sha256 = demo_digest\<rparr>), demo_installed)"
proof -
  have act: "read_limited (runtime_active_file [''d'']) MAX_LOCK_BYTES demo_installed = (Ok ''A'', demo_installed)"
    by (simp add: read_limited_def io_run demo_installed_quiet(1,2) demo_paths demo_fs
        demo_plain_def private_dir_def MAX_LOCK_BYTES_def)
  have sv: "sv_parse triple_semver ''1.2.3'' = Some (1, 2, 3)" "sv_no_build triple_semver (1, 2, 3)"
    "sv_display triple_semver (1, 2, 3) = ''1.2.3''" "length demo_digest = 64"
    "list_all (\<lambda>b. is_ascii_hexdigit b \<and> \<not> is_ascii_uppercase b) demo_digest"
    "ensure_contains triple_semver (mf_cli_compatibility demo_manifest) (0, 1, 5) = Ok ()"
    "mf_runtime_version demo_manifest = ''1.2.3''"
    by code_simp+
  have inst: "in_semver demo_installer = triple_semver" "dec (in_active demo_installer) ''A'' = Some demo_active"
    "in_cli_version demo_installer = (0, 1, 5)"
    by (simp_all add: demo_installer_def)
  show ?thesis
    by (simp add: discover_runtime_def bnd_def attempt_def act inst sv demo_active_def
        ACTIVE_SCHEMA_VERSION_def io_ensure_def thn_def lift_r_def ret_def demo_paths(2) demo_load
        del: One_nat_def)
qed

lemma demo_component_run:
  "component_path demo_installer [''d''] ''passt'' demo_installed
     = (Ok (Some (demo_version @ [''bin'', ''passt''])), demo_installed)"
  by (simp add: component_path_def bnd_def demo_discover runtime_component_path_def demo_find
      verify_runtime_file_def open_regular_def below_def path_starts_with_def hash_reader_def
      io_run demo_installed_quiet(1,2) demo_paths demo_fs demo_plain_def private_dir_def demo_digest_hex
      node_len_def Let_def)


theorem component_chain_of_trust_witness:
  "\<exists>inst f. component_path demo_installer [''d''] ''passt'' demo_installed
      = (Ok (Some (demo_version @ [''bin'', ''passt''])), demo_installed)
    \<and> active_installation demo_installer (files demo_installed) [''d''] inst
    \<and> f \<in> set (mf_files (ir_manifest inst))
    \<and> file_matches demo_installer (files demo_installed) (demo_version @ [''bin'', ''passt'']) f"
  using component_chain_of_trust [OF demo_component_run demo_installed_quiet(2)] demo_component_run by blast

lemma demo_ls:
  "in_ls demo_installer (files demo_installed) demo_version = [''manifest.json'', ''bin'']"
  "in_ls demo_installer (files demo_installed) (demo_version @ [''bin'']) = REQUIRED_COMPONENTS"
  by (simp_all add: demo_installer_def demo_installed_quiet(3) entries_listing_def demo_paths
      demo_entries_def runtime_dir_def REQUIRED_COMPONENTS_def)

lemma demo_utf8: "list_all (\<lambda>n. valid_utf8 (''bin/'' @ n)) REQUIRED_COMPONENTS"
proof -
  have "list_all (\<lambda>n. is_ascii (''bin/'' @ n)) REQUIRED_COMPONENTS"
    by (simp add: REQUIRED_COMPONENTS_def is_ascii_def)
  then show ?thesis by (auto simp: list_all_iff intro: valid_utf8_ascii)
qed

lemma demo_walk_bin:
  assumes "list_all (\<lambda>n. n \<in> set REQUIRED_COMPONENTS) ns" and "distinct ns"
    and "found \<inter> (\<lambda>n. ''bin/'' @ n) ` set ns = {}"
  shows "io_fold (\<lambda>nm fnd.
         bnd (sys_lstat ((demo_version @ [''bin'']) @ [nm])) (\<lambda>md.
           if e_node md = Dir then walk_runtime_files n ls demo_version ((demo_version @ [''bin'']) @ [nm]) fnd
           else io_ensure (is_regular md) ''managed runtime contains a special file''
             (let relative = join_with ''/'' (drop (length demo_version) ((demo_version @ [''bin'']) @ [nm]))
              in io_ensure (valid_utf8 relative) ''managed runtime path is not UTF-8''
                (io_ensure (relative \<notin> fnd) ''duplicate managed runtime path''
                  (ret (insert relative fnd)))))) ns found demo_installed
     = (Ok (found \<union> (\<lambda>n. ''bin/'' @ n) ` set ns), demo_installed)"
  using assms
proof (induction ns arbitrary: found)
  case Nil
  then show ?case by (simp add: ret_def)
next
  case (Cons x ns)
  have x: "x \<in> set REQUIRED_COMPONENTS" using Cons.prems(1) by simp
  then have "files demo_installed (demo_version @ [''bin'', x]) = Some (demo_plain ''x'' 365)"
    using demo_lookup(7) by (simp add: demo_installed_quiet(3) list_all_iff)
  moreover have "valid_utf8 (''bin/'' @ x)" using demo_utf8 x by (simp add: list_all_iff)
  moreover have "io_fold f ns (insert (''bin/'' @ x) found) demo_installed
      = (Ok (insert (''bin/'' @ x) found \<union> (\<lambda>n. ''bin/'' @ n) ` set ns), demo_installed)"
    if "\<And>found. list_all (\<lambda>n. n \<in> set REQUIRED_COMPONENTS) ns \<Longrightarrow> distinct ns
      \<Longrightarrow> found \<inter> (\<lambda>n. ''bin/'' @ n) ` set ns = {}
      \<Longrightarrow> io_fold f ns found demo_installed = (Ok (found \<union> (\<lambda>n. ''bin/'' @ n) ` set ns), demo_installed)" for f
    using Cons.prems by (intro that) auto
  note rest = this [OF Cons.IH]
  ultimately show ?case
    using Cons.prems rest
    by (simp add: bnd_def sys_lstat_def demo_installed_quiet(1) entry_at_def demo_plain_def is_regular_def
        io_ensure_def ret_def Let_def)
qed


lemma demo_valid_manifest_name: "valid_utf8 ''manifest.json''"
  by (rule valid_utf8_ascii) (simp add: is_ascii_def)

lemma demo_read_dir:
  "sys_read_dir ls demo_version demo_installed = (Ok (ls (files demo_installed) demo_version), demo_installed)"
  "sys_read_dir ls (demo_version @ [''bin'']) demo_installed
     = (Ok (ls (files demo_installed) (demo_version @ [''bin''])), demo_installed)"
  by (simp_all add: sys_read_dir_def demo_installed_quiet(1) is_dir_at_def entry_at_def resolve_def
      fs_get_def demo_paths demo_fs private_dir_def)

lemma demo_walk:
  "walk_runtime_files MAX_DEPTH (in_ls demo_installer) demo_version demo_version {} demo_installed
     = (Ok (insert ''manifest.json'' ((\<lambda>n. ''bin/'' @ n) ` set REQUIRED_COMPONENTS)), demo_installed)"
proof -
  have depth: "MAX_DEPTH = Suc (Suc 2046)" by (simp add: MAX_DEPTH_def)
  have bin: "walk_runtime_files (Suc n) (in_ls demo_installer) demo_version (demo_version @ [''bin'']) fnd demo_installed
      = (Ok (fnd \<union> (\<lambda>n. ''bin/'' @ n) ` set REQUIRED_COMPONENTS), demo_installed)"
    if "fnd = {''manifest.json''}" for n fnd
  proof -
    have "distinct REQUIRED_COMPONENTS" "fnd \<inter> (\<lambda>n. ''bin/'' @ n) ` set REQUIRED_COMPONENTS = {}"
      using that by (auto simp: REQUIRED_COMPONENTS_def)
    moreover have "list_all (\<lambda>n. n \<in> set REQUIRED_COMPONENTS) REQUIRED_COMPONENTS"
      by (simp add: list_all_iff)
    ultimately show ?thesis
      unfolding walk_runtime_files.simps
      using demo_walk_bin [of REQUIRED_COMPONENTS fnd n "in_ls demo_installer"]
      by (simp add: bnd_def demo_read_dir demo_ls)
  qed
  have entries: "files demo_installed (demo_version @ [''manifest.json'']) = Some (demo_plain ''M'' 292)"
    "files demo_installed (demo_version @ [''bin'']) = Some private_dir"
    using demo_lookup by (simp_all add: demo_installed_quiet(3))
  show ?thesis
    unfolding depth walk_runtime_files.simps(2) [of "Suc 2046"]
    using bin [OF refl, of 2046]
    by (simp add: bnd_def demo_read_dir demo_ls sys_lstat_def demo_installed_quiet(1) entry_at_def entries
        demo_plain_def is_regular_def io_ensure_def ret_def Let_def private_dir_def demo_valid_manifest_name
        del: walk_runtime_files.simps)
qed

lemma demo_verify_file:
  assumes "n \<in> set REQUIRED_COMPONENTS"
  shows "verify_runtime_file demo_installer (demo_version @ [''bin'', n]) \<lparr>rf_path = ''bin/'' @ n,
    rf_size_bytes = 1, rf_sha256 = demo_digest, rf_executable = True\<rparr> demo_installed = (Ok (), demo_installed)"
proof -
  have "files demo_installed (demo_version @ [''bin'', n]) = Some (demo_plain ''x'' 365)"
    using demo_lookup(7) assms by (simp add: demo_installed_quiet(3) list_all_iff)
  then show ?thesis
    by (simp add: verify_runtime_file_def open_regular_def hash_reader_def io_run demo_installed_quiet(1)
        demo_plain_def private_dir_def demo_digest_hex node_len_def)
qed

lemma demo_verify_files:
  assumes "set ns \<subseteq> set REQUIRED_COMPONENTS"
  shows "io_each (map (\<lambda>n. \<lparr>rf_path = ''bin/'' @ n, rf_size_bytes = 1, rf_sha256 = demo_digest,
      rf_executable = True\<rparr>) ns)
    (\<lambda>f. verify_runtime_file demo_installer (below demo_version (rf_path f)) f) demo_installed = (Ok (), demo_installed)"
  using assms
proof (induction ns)
  case Nil
  then show ?case by (simp add: ret_def)
next
  case (Cons n ns)
  have "split_on is_slash (''bin/'' @ n) = [''bin'', n]"
    using Cons.prems by (auto simp: REQUIRED_COMPONENTS_def)
  with Cons demo_verify_file show ?case by (simp add: thn_def bnd_def below_def)
qed

lemma demo_verify:
  "verify_installation_at demo_installer demo_version None demo_installed
     = (Ok \<lparr>ir_root = demo_version, ir_manifest = demo_manifest, ir_manifest_sha256 = demo_digest\<rparr>, demo_installed)"
proof -
  have files: "mf_files demo_manifest = map (\<lambda>n. \<lparr>rf_path = ''bin/'' @ n, rf_size_bytes = 1,
      rf_sha256 = demo_digest, rf_executable = True\<rparr>) REQUIRED_COMPONENTS"
    by (simp add: demo_manifest_def)
  have "insert ''manifest.json'' ((\<lambda>n. ''bin/'' @ n) ` set REQUIRED_COMPONENTS) - {''manifest.json''}
      = set (map rf_path (mf_files demo_manifest))"
    by (auto simp: files image_image)
  moreover have "files demo_installed (demo_version @ [''manifest.json'']) = Some (demo_plain ''M'' 292)"
    using demo_lookup by (simp_all add: demo_installed_quiet(3))
  ultimately show ?thesis
    using demo_verify_files [OF subset_refl] demo_load demo_walk
    by (simp add: verify_installation_at_def bnd_def thn_def ret_def io_ensure_def sys_lstat_def
        demo_installed_quiet(1) entry_at_def demo_plain_def is_regular_def private_dir_def files image_image)
qed

lemma demo_tree_ok: "tree_ok (files demo_installed)"
proof -
  have "p = [] \<or> (\<exists>e. map_of demo_entries p = Some e \<and> e_node e = Dir)"
    if "map_of demo_entries (p @ [n]) = Some e" for p n e
  proof -
    from that have "(p @ [n], e) \<in> set demo_entries" by (rule map_of_SomeD)
    then have "p \<in> {[], [''d''], [''d'', ''runtime''], demo_version, demo_version @ [''bin'']}"
      by (auto simp: demo_entries_def runtime_dir_def runtime_active_file_def demo_paths)
    then show ?thesis using demo_lookup by (auto simp: private_dir_def)
  qed
  then show ?thesis by (auto simp: tree_ok_def fs_get_def demo_installed_quiet(3))
qed

theorem verified_tree_exact_witness:
  "\<exists>inst. verify_installation_at demo_installer demo_version None demo_installed = (Ok inst, demo_installed)
     \<and> loaded demo_installer (files demo_installed) demo_version inst
     \<and> list_all (\<lambda>f. file_matches demo_installer (files demo_installed) (below demo_version (rf_path f)) f)
         (mf_files (ir_manifest inst))"
proof -
  have "real_dir (files demo_installed) demo_version"
    by (auto simp: real_dir_def demo_paths fs_get_def demo_fs private_dir_def prefix_Cons)
  moreover have "lists (in_ls demo_installer)" by (simp add: demo_installer_def entries_listing_lists)
  ultimately show ?thesis
    using verified_tree_exact [OF demo_verify demo_installed_quiet(2) _ demo_installed_quiet(4) demo_tree_ok]
      demo_verify by (auto simp: list_all_iff)
qed

end
