(* ===== verification/VmmDoctor.thy ===== *)
theory VmmDoctor
  imports VmmFacts RuntimeFacts
begin

text \<open>
  The report of \<open>spawnr doctor\<close> (\<open>DoctorReport\<close> of \<open>crates/spawnr/src/vmm.rs\<close>): one check per thing a start
  needs, its text, and what the report says of a start that follows. The printed form of an error and the
  JSON text of a report are parameters.
\<close>

datatype doctor_section = HostSection | RuntimeSection

record doctor_check =
  dc_section :: doctor_section
  dc_name :: string
  dc_ok :: bool
  dc_detail :: string
  dc_remedy :: "string option"

record doctor_report =
  dr_ready :: bool
  dr_checks :: "doctor_check list"

definition passed :: "doctor_section \<Rightarrow> string \<Rightarrow> string \<Rightarrow> doctor_check" where
  "passed sec nm detail = \<lparr>dc_section = sec, dc_name = nm, dc_ok = True, dc_detail = detail, dc_remedy = None\<rparr>"

definition failed_check :: "doctor_section \<Rightarrow> string \<Rightarrow> string \<Rightarrow> string \<Rightarrow> doctor_check" where
  "failed_check sec nm detail remedy =
     \<lparr>dc_section = sec, dc_name = nm, dc_ok = False, dc_detail = detail, dc_remedy = Some remedy\<rparr>"

section \<open>The checks\<close>

definition architecture_check :: "vmm_host \<Rightarrow> doctor_check" where
  "architecture_check h =
     (let detail = fst (vh_platform h) @ '' '' @ snd (vh_platform h)
      in if supported h then passed HostSection ''platform'' detail
         else failed_check HostSection ''platform'' detail ''Spawnr V1 requires Linux on x86_64'')"

definition kvm_check :: "vmm_host \<Rightarrow> doctor_check io" where
  "kvm_check h =
     bnd (attempt (verify_kvm h)) (\<lambda>r.
       ret (case r of
              Inr _ \<Rightarrow> passed HostSection ''KVM'' ''/dev/kvm is accessible (API 12)''
            | Inl e \<Rightarrow> failed_check HostSection ''KVM'' (vh_full_text h e)
                ''inspect /dev/kvm, enable virtualization in firmware, and grant user access''))"

definition verify_and_repair :: string where
  "verify_and_repair = ''run `spawnr setup` to verify and repair the runtime''"

definition managed_runtime_check :: "vmm_host \<Rightarrow> 'v installer \<Rightarrow> path option \<Rightarrow> doctor_check io" where
  "managed_runtime_check h i data =
     bnd (attempt (case data of
            None \<Rightarrow> fail (Bail ''no Spawnr data directory'') | Some d \<Rightarrow> verify_active i d)) (\<lambda>r.
       ret (case r of
              Inr (Some inst) \<Rightarrow> passed RuntimeSection ''managed runtime''
                (mf_runtime_version (ir_manifest inst) @ '' '' @ utf8_encode 183 @ '' '' @ display (ir_root inst)
                 @ '' '' @ utf8_encode 183 @ '' sha256:'' @ take 12 (ir_manifest_sha256 inst))
            | Inr None \<Rightarrow>
                if in_embedded_lock i = None
                then passed RuntimeSection ''managed runtime'' ''not active (Nix/development components allowed)''
                else failed_check RuntimeSection ''managed runtime'' ''not installed'' ''run `spawnr setup`''
            | Inl e \<Rightarrow> failed_check RuntimeSection ''managed runtime'' (vh_full_text h e) verify_and_repair))"

definition tool_check ::
    "vmm_host \<Rightarrow> string \<Rightarrow> string \<Rightarrow> path \<Rightarrow> string \<Rightarrow> string \<Rightarrow> doctor_check io" where
  "tool_check h nm variable bundled cmd remedy =
     bnd (attempt (resolve_executable variable bundled cmd)) (\<lambda>r.
       ret (case r of
              Inr p \<Rightarrow> passed RuntimeSection nm (display p)
            | Inl e \<Rightarrow> failed_check RuntimeSection nm (vh_short_text h e) remedy))"

definition asset_check ::
    "vmm_host \<Rightarrow> string \<Rightarrow> string \<Rightarrow> path \<Rightarrow> bool \<Rightarrow> string \<Rightarrow> doctor_check io" where
  "asset_check h nm variable bundled required remedy =
     bnd (attempt (resolve_asset variable bundled)) (\<lambda>r.
       ret (case r of
              Inr (Some p) \<Rightarrow> passed RuntimeSection nm (display p)
            | Inr None \<Rightarrow>
                if \<not> required then passed RuntimeSection nm ''not installed (optional)''
                else failed_check RuntimeSection nm ''not found'' remedy
            | Inl e \<Rightarrow> failed_check RuntimeSection nm (vh_short_text h e) remedy))"

definition setup_or_set :: "string \<Rightarrow> string" where
  "setup_or_set variable = ''run `spawnr setup` or set '' @ variable"

definition runtime_tool_check ::
    "vmm_host \<Rightarrow> string \<Rightarrow> string \<Rightarrow> path result \<Rightarrow> string \<Rightarrow> doctor_check io" where
  "runtime_tool_check h nm variable bundled cmd =
     (case bundled of
        Inr p \<Rightarrow> tool_check h nm variable p cmd (setup_or_set variable)
      | Inl e \<Rightarrow> ret (failed_check RuntimeSection nm (vh_full_text h e) verify_and_repair))"

definition runtime_asset_check ::
    "vmm_host \<Rightarrow> string \<Rightarrow> string \<Rightarrow> path result \<Rightarrow> bool \<Rightarrow> doctor_check io" where
  "runtime_asset_check h nm variable bundled required =
     (case bundled of
        Inr p \<Rightarrow> asset_check h nm variable p required (setup_or_set variable)
      | Inl e \<Rightarrow> ret (failed_check RuntimeSection nm (vh_full_text h e) verify_and_repair))"

text \<open>\<open>bundled\<close>: without a data directory the bare name, relative to the directory the model starts from.\<close>

definition bundled_path :: "'v installer \<Rightarrow> path option \<Rightarrow> string \<Rightarrow> string \<Rightarrow> string \<Rightarrow> path result io" where
  "bundled_path i data variable component nm =
     (case data of
        Some d \<Rightarrow> attempt (preferred_component i d variable component (bin_dir d @ [nm]))
      | None \<Rightarrow> ret (Ok [nm]))"

definition collect_tool :: "vmm_host \<Rightarrow> 'v installer \<Rightarrow> path option \<Rightarrow> string \<Rightarrow> string \<Rightarrow> string \<Rightarrow> doctor_check io" where
  "collect_tool h i data variable component nm =
     bnd (bundled_path i data variable component nm) (\<lambda>b. runtime_tool_check h nm variable b nm)"

definition collect_asset ::
    "vmm_host \<Rightarrow> 'v installer \<Rightarrow> path option \<Rightarrow> string \<Rightarrow> string \<Rightarrow> string \<Rightarrow> string \<Rightarrow> doctor_check io" where
  "collect_asset h i data title variable component nm =
     bnd (bundled_path i data variable component nm) (\<lambda>b. runtime_asset_check h title variable b True)"

definition doctor_collect :: "vmm_host \<Rightarrow> 'v installer \<Rightarrow> path option \<Rightarrow> doctor_report io" where
  "doctor_collect h i data =
     bnd (kvm_check h) (\<lambda>kvm.
     bnd (managed_runtime_check h i data) (\<lambda>managed.
     bnd (collect_tool h i data ''SPAWNR_CLOUD_HYPERVISOR'' ''cloud-hypervisor'' ''cloud-hypervisor'') (\<lambda>ch.
     bnd (collect_tool h i data ''SPAWNR_PASST'' ''passt'' ''passt'') (\<lambda>passt.
     bnd (collect_tool h i data ''SPAWNR_MKFS_EXT4'' ''mkfs-ext4'' ''mkfs.ext4'') (\<lambda>mkfs.
     bnd (collect_asset h i data ''guest kernel'' ''SPAWNR_KERNEL'' ''guest-kernel'' ''vmlinux'') (\<lambda>krnl.
     bnd (collect_asset h i data ''guest initramfs'' ''SPAWNR_INITRAMFS'' ''guest-initramfs'' ''initramfs'')
       (\<lambda>initramfs.
       let checks = [architecture_check h, kvm, managed, ch, passt, mkfs, krnl, initramfs]
       in ret \<lparr>dr_ready = list_all dc_ok checks, dr_checks = checks\<rparr>)))))))"

section \<open>Its text\<close>

definition pad_right :: "nat \<Rightarrow> string \<Rightarrow> string" where
  "pad_right n s = s @ replicate (n - length (str_chars s)) CHR '' ''"

fun section_title :: "doctor_section \<Rightarrow> string" where
  "section_title HostSection = ''Host'' @ newline"
| "section_title RuntimeSection = ''Runtime'' @ newline"

definition check_text :: "doctor_check \<Rightarrow> string" where
  "check_text c =
     ''  '' @ utf8_encode (if dc_ok c then 10003 else 10007) @ '' '' @ pad_right 20 (dc_name c) @ '' '' @ dc_detail c
     @ newline
     @ (if dc_ok c then [] else case dc_remedy c of None \<Rightarrow> [] | Some r \<Rightarrow> ''  fix: '' @ r @ newline)"

fun checks_text :: "doctor_section option \<Rightarrow> doctor_check list \<Rightarrow> string" where
  "checks_text current [] = []"
| "checks_text current (c # cs) =
     (if current \<noteq> Some (dc_section c)
      then (if current \<noteq> None then newline else []) @ section_title (dc_section c) else [])
     @ check_text c @ checks_text (Some (dc_section c)) cs"

definition render_text :: "doctor_report \<Rightarrow> string" where
  "render_text r =
     checks_text None (dr_checks r)
     @ (if dr_ready r then newline @ ''Spawnr can start KVM development computers.'' @ newline
        else newline @ ''Spawnr cannot start a development computer until the failed checks are fixed.'' @ newline)"

text \<open>The command: what it prints, and whether it succeeds.\<close>

definition doctor ::
    "vmm_host \<Rightarrow> 'v installer \<Rightarrow> (doctor_report \<Rightarrow> string) \<Rightarrow> path \<Rightarrow> bool \<Rightarrow> (string \<times> unit result) io" where
  "doctor h i to_json data json =
     bnd (doctor_collect h i (Some data)) (\<lambda>report.
       ret (if json then to_json report @ newline else render_text report,
            ensure (dr_ready report) ''host requirements are incomplete; see the failed checks above'' (Ok ())))"

section \<open>Reading on a quiet system\<close>

text \<open>Where nothing else happens, a computation that only reads leaves the state as it is.\<close>

definition idle :: "os \<Rightarrow> os \<Rightarrow> bool" where
  "idle s t = (sched s = [] \<longrightarrow> t = s)"

lemma before_call_quiet: "sched s = [] \<Longrightarrow> before_call s = s"
  by (simp add: before_call_def next_slot_def idle_slot_def)

interpretation idle: frame idle
  by unfold_locales (auto simp: idle_def before_call_quiet)

lemma idle_reads:
  "preserves idle (sys_lstat p)" "preserves idle (sys_canonicalize p)" "preserves idle (sys_metadata p)"
  "preserves idle (sys_open p)" "preserves idle (sys_open_nofollow p)" "preserves idle (sys_read p)"
  "preserves idle (sys_read_dir ls p)" "preserves idle (sys_fstat p)" "preserves idle (sys_metadata_text x)"
  "preserves idle (sys_canonicalize_text x)" "preserves idle (sys_kvm_api h)"
  unfolding sys_lstat_def sys_canonicalize_def sys_metadata_def sys_open_def sys_open_nofollow_def
    sys_read_def sys_read_dir_def sys_fstat_def sys_metadata_text_def sys_canonicalize_text_def sys_kvm_api_def
  by (rule idle.syscall; auto simp: ret_def idle.refl split: option.splits sum.splits node.splits)+

lemma idle_derived: "preserves idle (sys_exists p)" "preserves idle (env_var n)"
  unfolding sys_exists_def env_var_def by (intro idle.combinators idle_reads)+

lemma idle_runtime:
  "preserves idle (discover_runtime i data)" "preserves idle (verify_active i data)"
  "preserves idle (preferred_component i data variable component legacy)"
proof -
  have open_: "preserves idle (open_regular p)" for p
    unfolding open_regular_def by (intro idle.combinators idle_reads)
  have limited: "preserves idle (read_limited p n)" for p n
  proof -
    have "preserves idle (case e_node md of File c \<Rightarrow> if n < length c then fail (Io EINVAL) else sys_read p
        | _ \<Rightarrow> fail (Io EINVAL))" for md
      by (cases "e_node md") (simp_all add: idle.fail idle_reads)
    then show ?thesis unfolding read_limited_def by (intro idle.combinators idle_reads)
  qed
  have load: "preserves idle (load_installation i p)" for i :: "'x installer" and p
    unfolding load_installation_def by (intro idle.combinators idle_reads limited)
  have one: "preserves idle (verify_runtime_file i p f)" for i :: "'x installer" and p f
    unfolding verify_runtime_file_def by (intro idle.combinators idle_reads open_)
  have walk: "preserves idle (walk_runtime_files n ls root d found)" for n ls root d found
  proof (induction n arbitrary: d found)
    case 0
    then show ?case by (simp add: too_long_def idle.fail)
  next
    case (Suc n)
    then show ?case by (auto intro!: idle.combinators idle.io_fold idle_reads simp: Let_def)
  qed
  show d: "preserves idle (discover_runtime i data)"
    unfolding discover_runtime_def by (intro idle.combinators limited load)
  show "preserves idle (verify_active i data)"
    unfolding verify_active_def verify_installation_at_def
    by (intro idle.combinators idle_reads d load walk one)
  show "preserves idle (preferred_component i data variable component legacy)"
    unfolding preferred_component_def component_path_def runtime_component_path_def Let_def
    by (intro idle.combinators idle_reads idle_derived d one)
qed

lemma idle_resolve:
  "preserves idle (resolve_executable variable bundled cmd)" "preserves idle (resolve_asset variable bundled)"
  "preserves idle (verify_kvm h)"
proof -
  have v: "preserves idle (validate_executable x)" for x
    unfolding validate_executable_def by (intro idle.combinators idle_reads)
  have f: "preserves idle (first_executable xs)" for xs
    by (induction xs) (auto intro!: idle.combinators v)
  show "preserves idle (resolve_executable variable bundled cmd)"
    unfolding resolve_executable_def find_executable_def
    by (intro idle.combinators idle_derived v f)
  show "preserves idle (resolve_asset variable bundled)"
    unfolding resolve_asset_def by (intro idle.combinators idle_derived idle_reads)
  show "preserves idle (verify_kvm h)"
    unfolding verify_kvm_def by (intro idle.combinators idle_reads)
qed

lemma idle_run:
  assumes "preserves idle m" and "sched s = []"
  shows "bnd m f s = (case fst (m s) of Inl e \<Rightarrow> (Inl e, s) | Inr x \<Rightarrow> f x s)"
    and "attempt m s = (Ok (fst (m s)), s)"
proof -
  have "m s = (fst (m s), s)"
    using preservesD [OF assms(1), of s] assms(2) by (metis idle_def prod.collapse)
  then show "bnd m f s = (case fst (m s) of Inl e \<Rightarrow> (Inl e, s) | Inr x \<Rightarrow> f x s)"
    and "attempt m s = (Ok (fst (m s)), s)"
    by (simp_all add: bnd_def attempt_def split: prod.splits) (metis fst_conv snd_conv)+
qed

section \<open>The report and a start\<close>

text \<open>What a check of the report, run on \<open>s\<close>, says of its program or asset.\<close>

definition component_found ::
    "'v installer \<Rightarrow> path \<Rightarrow> string \<Rightarrow> string \<Rightarrow> string \<Rightarrow> (path \<Rightarrow> 'b io) \<Rightarrow> ('b \<Rightarrow> bool) \<Rightarrow> os \<Rightarrow> bool" where
  "component_found i data variable component nm resolve_it good s =
     (case fst (preferred_component i data variable component (bin_dir data @ [nm]) s) of
        Inl _ \<Rightarrow> False
      | Inr b \<Rightarrow> (case fst (resolve_it b s) of Inl _ \<Rightarrow> False | Inr x \<Rightarrow> good x))"

lemma passed_ok [simp]: "dc_ok (passed sec nm d)" "\<not> dc_ok (failed_check sec nm d r)"
  by (simp_all add: passed_def failed_check_def)

lemma attempt_idle: "preserves idle m \<Longrightarrow> preserves idle (attempt m)"
  by (rule idle.attempt)

lemmas quiet_run = idle_run idle_resolve idle_runtime attempt_idle

lemma collect_tool_run:
  assumes "sched s = []"
  shows "\<exists>c. collect_tool h i (Some data) variable component nm s = (Ok c, s)
    \<and> (dc_ok c \<longleftrightarrow> component_found i data variable component nm
         (\<lambda>b. resolve_executable variable b nm) (\<lambda>_. True) s)"
  using assms
  by (cases "fst (preferred_component i data variable component (bin_dir data @ [nm]) s)")
    (auto simp: collect_tool_def bundled_path_def runtime_tool_check_def tool_check_def component_found_def
      quiet_run ret_def split: sum.split)

lemma collect_asset_run:
  assumes "sched s = []"
  shows "\<exists>c. collect_asset h i (Some data) title variable component nm s = (Ok c, s)
    \<and> (dc_ok c \<longleftrightarrow> component_found i data variable component nm (resolve_asset variable) (\<lambda>x. x \<noteq> None) s)"
  using assms
  by (cases "fst (preferred_component i data variable component (bin_dir data @ [nm]) s)")
    (auto simp: collect_asset_def bundled_path_def runtime_asset_check_def asset_check_def component_found_def
      quiet_run ret_def split: sum.split option.split)

lemma kvm_run: "sched s = [] \<Longrightarrow> \<exists>c. kvm_check h s = (Ok c, s) \<and> (dc_ok c \<longleftrightarrow> is_ok (fst (verify_kvm h s)))"
  by (auto simp: kvm_check_def quiet_run ret_def is_ok_def split: sum.split)

lemma managed_run: "sched s = [] \<Longrightarrow> \<exists>c. managed_runtime_check h i (Some data) s = (Ok c, s)"
  by (simp add: managed_runtime_check_def quiet_run ret_def)

lemma supported_check: "dc_ok (architecture_check h) \<longleftrightarrow> supported h"
  by (simp add: architecture_check_def Let_def)

lemma required_asset_run:
  assumes "sched s = []"
  shows "bnd (required_asset msg variable b) f s = (case fst (resolve_asset variable b s) of
      Inl e \<Rightarrow> (Inl e, s) | Inr None \<Rightarrow> (Inl (Bail msg), s) | Inr (Some p) \<Rightarrow> f p s)"
proof -
  have "bnd (resolve_asset variable b) g s = (case fst (resolve_asset variable b s) of
      Inl e \<Rightarrow> (Inl e, s) | Inr x \<Rightarrow> g x s)" for g :: "path option \<Rightarrow> path io"
    using assms by (simp add: quiet_run)
  then show ?thesis
    by (simp add: required_asset_def bnd_def [of "bnd (resolve_asset variable b) _"] ret_def fail_def
        split: sum.split option.split)
qed

lemma tool_step:
  assumes "sched s = []" and "\<And>x. is_ok (fst (f x s)) \<longleftrightarrow> Q"
  shows "is_ok (fst (bnd (preferred_component i data variable component (bin_dir data @ [nm]))
      (\<lambda>b. bnd (resolve_executable variable b cmd) f) s)) \<longleftrightarrow>
    component_found i data variable component nm (\<lambda>b. resolve_executable variable b cmd) (\<lambda>_. True) s \<and> Q"
  using assms
  by (cases "fst (preferred_component i data variable component (bin_dir data @ [nm]) s)")
    (simp_all add: component_found_def quiet_run split: sum.split)

lemma asset_step:
  assumes "sched s = []" and "\<And>x. is_ok (fst (f x s)) \<longleftrightarrow> Q"
  shows "is_ok (fst (bnd (preferred_component i data variable component (bin_dir data @ [nm]))
      (\<lambda>b. bnd (required_asset msg variable b) f) s)) \<longleftrightarrow>
    component_found i data variable component nm (resolve_asset variable) (\<lambda>x. x \<noteq> None) s \<and> Q"
proof (cases "fst (preferred_component i data variable component (bin_dir data @ [nm]) s)")
  case (Inl e)
  with assms(1) show ?thesis by (simp add: component_found_def quiet_run)
next
  case (Inr b)
  with assms show ?thesis
    by (cases "fst (resolve_asset variable b s)")
      (simp_all add: component_found_def quiet_run required_asset_run split: option.split)
qed

lemma discover_iff:
  assumes "sched s = []"
  shows "is_ok (fst (vmm_discover h i data s)) \<longleftrightarrow> supported h \<and> is_ok (fst (verify_kvm h s))
    \<and> component_found i data ''SPAWNR_CLOUD_HYPERVISOR'' ''cloud-hypervisor'' ''cloud-hypervisor''
        (\<lambda>b. resolve_executable ''SPAWNR_CLOUD_HYPERVISOR'' b ''cloud-hypervisor'') (\<lambda>_. True) s
    \<and> component_found i data ''SPAWNR_PASST'' ''passt'' ''passt''
        (\<lambda>b. resolve_executable ''SPAWNR_PASST'' b ''passt'') (\<lambda>_. True) s
    \<and> component_found i data ''SPAWNR_KERNEL'' ''guest-kernel'' ''vmlinux'' (resolve_asset ''SPAWNR_KERNEL'')
        (\<lambda>x. x \<noteq> None) s
    \<and> component_found i data ''SPAWNR_INITRAMFS'' ''guest-initramfs'' ''initramfs''
        (resolve_asset ''SPAWNR_INITRAMFS'') (\<lambda>x. x \<noteq> None) s"
proof -
  have "is_ok (fst (bnd (verify_kvm h) f s)) \<longleftrightarrow> is_ok (fst (verify_kvm h s)) \<and> Q"
    if "is_ok (fst (f () s)) \<longleftrightarrow> Q" for f :: "unit \<Rightarrow> vmm io" and Q
    using assms that by (simp add: quiet_run split: sum.split)
  note kvm = this
  have final: "is_ok (fst (ret x s)) \<longleftrightarrow> True" for x :: vmm
    by (simp add: ret_def)
  show ?thesis
  proof (cases "supported h")
    case True
    let ?tool = "\<lambda>v c n. component_found i data v c n (\<lambda>b. resolve_executable v b n) (\<lambda>_. True) s"
    let ?asset = "\<lambda>v c n. component_found i data v c n (resolve_asset v) (\<lambda>x. x \<noteq> None) s"
    have "is_ok (fst (vmm_discover h i data s)) \<longleftrightarrow> is_ok (fst (verify_kvm h s))
      \<and> ?tool ''SPAWNR_CLOUD_HYPERVISOR'' ''cloud-hypervisor'' ''cloud-hypervisor''
      \<and> ?tool ''SPAWNR_PASST'' ''passt'' ''passt'' \<and> ?asset ''SPAWNR_KERNEL'' ''guest-kernel'' ''vmlinux''
      \<and> ?asset ''SPAWNR_INITRAMFS'' ''guest-initramfs'' ''initramfs'' \<and> True"
      unfolding vmm_discover_def thn_def io_ensure_def if_P [OF True]
      by (rule kvm tool_step asset_step final assms)+
    with True show ?thesis by simp
  next
    case False
    then show ?thesis by (simp add: vmm_discover_def io_ensure_def fail_def)
  qed
qed

lemma doctor_collect_result:
  assumes "sched s = []"
  shows "\<exists>rep. doctor_collect h i (Some data) s = (Ok rep, s)
    \<and> (is_ok (fst (vmm_discover h i data s))
      \<longleftrightarrow> list_all (\<lambda>k. dc_ok (dr_checks rep ! k)) [0, 1, 3, 4, 6, 7])
    \<and> (dr_ready rep \<longrightarrow> is_ok (fst (vmm_discover h i data s))) \<and> length (dr_checks rep) = 8"
proof -
  let ?tool = "\<lambda>v c n. collect_tool h i (Some data) v c n" and ?asset = "\<lambda>m v c n. collect_asset h i (Some data) m v c n"
  obtain kvm where kvm: "kvm_check h s = (Ok kvm, s)" "dc_ok kvm \<longleftrightarrow> is_ok (fst (verify_kvm h s))"
    using kvm_run [OF assms] by blast
  obtain managed where managed: "managed_runtime_check h i (Some data) s = (Ok managed, s)"
    using managed_run [OF assms] by blast
  obtain ch where ch: "?tool ''SPAWNR_CLOUD_HYPERVISOR'' ''cloud-hypervisor'' ''cloud-hypervisor'' s = (Ok ch, s)"
    "dc_ok ch \<longleftrightarrow> component_found i data ''SPAWNR_CLOUD_HYPERVISOR'' ''cloud-hypervisor'' ''cloud-hypervisor''
        (\<lambda>b. resolve_executable ''SPAWNR_CLOUD_HYPERVISOR'' b ''cloud-hypervisor'') (\<lambda>_. True) s"
    using collect_tool_run [OF assms] by blast
  obtain passt where passt: "?tool ''SPAWNR_PASST'' ''passt'' ''passt'' s = (Ok passt, s)"
    "dc_ok passt \<longleftrightarrow> component_found i data ''SPAWNR_PASST'' ''passt'' ''passt''
        (\<lambda>b. resolve_executable ''SPAWNR_PASST'' b ''passt'') (\<lambda>_. True) s"
    using collect_tool_run [OF assms] by blast
  obtain mkfs where mkfs: "?tool ''SPAWNR_MKFS_EXT4'' ''mkfs-ext4'' ''mkfs.ext4'' s = (Ok mkfs, s)"
    using collect_tool_run [OF assms] by blast
  obtain krnl where krnl: "?asset ''guest kernel'' ''SPAWNR_KERNEL'' ''guest-kernel'' ''vmlinux'' s = (Ok krnl, s)"
    "dc_ok krnl \<longleftrightarrow> component_found i data ''SPAWNR_KERNEL'' ''guest-kernel'' ''vmlinux''
        (resolve_asset ''SPAWNR_KERNEL'') (\<lambda>x. x \<noteq> None) s"
    using collect_asset_run [OF assms] by blast
  obtain initramfs where initramfs:
    "?asset ''guest initramfs'' ''SPAWNR_INITRAMFS'' ''guest-initramfs'' ''initramfs'' s = (Ok initramfs, s)"
    "dc_ok initramfs \<longleftrightarrow> component_found i data ''SPAWNR_INITRAMFS'' ''guest-initramfs'' ''initramfs''
        (resolve_asset ''SPAWNR_INITRAMFS'') (\<lambda>x. x \<noteq> None) s"
    using collect_asset_run [OF assms] by blast
  let ?rep = "\<lparr>dr_ready = list_all dc_ok [architecture_check h, kvm, managed, ch, passt, mkfs, krnl, initramfs],
      dr_checks = [architecture_check h, kvm, managed, ch, passt, mkfs, krnl, initramfs]\<rparr>"
  have "doctor_collect h i (Some data) s = (Ok ?rep, s)"
    using kvm(1) managed ch(1) passt(1) mkfs krnl(1) initramfs(1)
    by (simp add: doctor_collect_def bnd_def Let_def ret_def)
  with discover_iff [OF assms, of h i data] kvm(2) ch(2) passt(2) krnl(2) initramfs(2) supported_check [of h]
  show ?thesis by (intro exI [of _ ?rep]) auto
qed

text \<open>C33: \<open>spawnr doctor\<close> tells the truth about a start: on a system where nothing changes in between, the
  programs and assets of a start are found exactly when the platform, KVM, Cloud Hypervisor, passt,
  kernel and initramfs checks of the report are good; in particular a report that says ready means that
  they are.\<close>

theorem doctor_predicts_start:
  assumes "sched s = []" and "doctor_collect h i (Some data) s = (Ok rep, t)"
  shows "(is_ok (fst (vmm_discover h i data s))
      \<longleftrightarrow> list_all (\<lambda>k. dc_ok (dr_checks rep ! k)) [0, 1, 3, 4, 6, 7])
    \<and> (dr_ready rep \<longrightarrow> is_ok (fst (vmm_discover h i data s))) \<and> length (dr_checks rep) = 8 \<and> t = s"
  using doctor_collect_result [OF assms(1), of h i data] assms(2) by auto

theorem doctor_predicts_start_witness:
  "\<exists>rep. doctor_collect demo_host demo_installer (Some [''d'']) demo_tree = (Ok rep, demo_tree)
     \<and> length (dr_checks rep) = 8"
proof -
  obtain rep where run: "doctor_collect demo_host demo_installer (Some [''d'']) demo_tree = (Ok rep, demo_tree)"
    using doctor_collect_result [OF demo_tree_quiet(1)] by blast
  from doctor_predicts_start [OF demo_tree_quiet(1) run] run show ?thesis by blast
qed

end
