(* ===== verification/CommandLine.thy ===== *)
theory CommandLine
  imports Application VmmDoctor
begin

text \<open>
  The commands of \<open>crates/spawnr/src/cli.rs\<close>, what \<open>ls\<close> and \<open>setup\<close> print, and the dispatch of
  \<open>Application::run\<close>. \<open>clap\<close>, which parses the words of the command line into a \<open>command\<close>, is left out, as are
  the lines the other commands print when they succeed; the JSON texts are parameters.
\<close>

datatype command =
    SetupCommand "path option" "path option"
  | InitCommand string string
  | CloneCommand string string "string option" "16 word"
  | StartCommand string
  | StopCommand string
  | OpenCommand string
  | PublishCommand string string
  | LsCommand bool
  | RmCommand string bool
  | DoctorCommand bool

section \<open>What is printed\<close>

definition column_width :: "nat \<Rightarrow> string list \<Rightarrow> nat" where
  "column_width least column = foldr max (map length column) least"

definition table_line :: "nat \<Rightarrow> nat \<Rightarrow> nat \<Rightarrow> string \<Rightarrow> string \<Rightarrow> string \<Rightarrow> string \<Rightarrow> string" where
  "table_line name_width env_width repo_width a b c d =
     pad_right name_width a @ ''  '' @ pad_right env_width b @ ''  '' @ pad_right repo_width c @ ''  '' @ d @ newline"

definition list_text :: "list_row list \<Rightarrow> string" where
  "list_text rows =
     (if rows = [] then ''No Spawnr machines.'' @ newline
      else
        let shown = (\<lambda>r. repository_display (lr_repository r));
            line = table_line (column_width 4 (map lr_name rows)) (column_width 11 (map lr_environment rows))
              (column_width 10 (map shown rows))
        in line ''NAME'' ''ENVIRONMENT'' ''REPOSITORY'' ''STATUS''
           @ concat (map (\<lambda>r. line (lr_name r) (lr_environment r) (shown r) (lr_status r)) rows))"

definition app_list :: "(list_row list \<Rightarrow> string) \<Rightarrow> 'v application \<Rightarrow> bool \<Rightarrow> string io" where
  "app_list to_json a json =
     bnd (list_rows a) (\<lambda>rows. ret (if json then to_json rows @ newline else list_text rows))"

definition app_setup :: "'v application \<Rightarrow> path option \<Rightarrow> path option \<Rightarrow> string io" where
  "app_setup a runtime_lock runtime_archive =
     bnd (setup_runtime (oh_installer (ap_oci a)) (ap_data a) runtime_lock runtime_archive) (\<lambda>(inst, installed).
       ret (utf8_encode 10003 @ '' Spawnr runtime '' @ mf_runtime_version (ir_manifest inst) @ '' ''
         @ (if installed then ''installed'' else ''already installed and verified'') @ newline
         @ ''  '' @ display (ir_root inst) @ newline
         @ newline @ ''Next:'' @ newline @ ''  spawnr doctor'' @ newline))"

definition app_doctor :: "(doctor_report \<Rightarrow> string) \<Rightarrow> 'v application \<Rightarrow> bool \<Rightarrow> string io" where
  "app_doctor to_json a json =
     bnd (doctor (ap_vmm a) (oh_installer (ap_oci a)) to_json (ap_data a) json) (\<lambda>(shown, res).
       bnd (lift_r res) (\<lambda>_. ret shown))"

section \<open>The dispatch\<close>

definition silent :: "unit io \<Rightarrow> string io" where
  "silent m = thn m (ret [])"

fun app_run ::
    "(list_row list \<Rightarrow> string) \<Rightarrow> (doctor_report \<Rightarrow> string) \<Rightarrow> 'v application \<Rightarrow> command \<Rightarrow> string io" where
  "app_run rows_json report_json a (SetupCommand runtime_lock runtime_archive) =
     app_setup a runtime_lock runtime_archive"
| "app_run rows_json report_json a (InitCommand nm environment) = silent (app_init a nm environment)"
| "app_run rows_json report_json a (CloneCommand environment repository nm count) =
     silent (clone_machines a environment repository nm count)"
| "app_run rows_json report_json a (StartCommand nm) = silent (app_start a nm)"
| "app_run rows_json report_json a (StopCommand nm) = silent (app_stop a nm)"
| "app_run rows_json report_json a (OpenCommand nm) = silent (app_open a nm)"
| "app_run rows_json report_json a (PublishCommand nm reference) = silent (app_publish a nm reference)"
| "app_run rows_json report_json a (LsCommand json) = app_list rows_json a json"
| "app_run rows_json report_json a (RmCommand nm force) = silent (app_remove a nm force)"
| "app_run rows_json report_json a (DoctorCommand json) = app_doctor report_json a json"

end
