(* ===== verification/VmmCommandFacts.thy ===== *)
theory VmmCommandFacts
  imports VmmCommand StorageFacts
begin

text \<open>
  What the command lines guarantee: every machine that can be created can be started when the data
  directory's path is short enough, no value adds an option to Cloud Hypervisor's, and passt is given a
  resolver that is written in the host's configuration.
\<close>

section \<open>UTF-8\<close>

lemma utf8_step_append: "utf8_step bs = Some (c, r) \<Longrightarrow> utf8_step (bs @ xs) = Some (c, r @ xs)"
  by (cases bs; cases "tl bs"; cases "tl (tl bs)"; cases "tl (tl (tl bs))")
    (auto simp: utf8_step_def split: if_splits)

lemma utf8_decode_append:
  "utf8_decode bs = Some cs \<Longrightarrow> utf8_decode (bs @ xs) = map_option ((@) cs) (utf8_decode xs)"
proof (induction bs arbitrary: cs rule: utf8_decode.induct)
  case (1 bs)
  show ?case
  proof (cases "bs = []")
    case True
    with 1 show ?thesis by (cases "utf8_decode xs") auto
  next
    case False
    with "1.prems" obtain c r ds where step: "utf8_step bs = Some (c, r)" and r: "utf8_decode r = Some ds"
      and cs: "cs = c # ds"
      by (subst (asm) utf8_decode.simps) (auto split: option.splits)
    have "utf8_decode (bs @ xs) = map_option ((#) c) (utf8_decode (r @ xs))"
      using False utf8_step_append [OF step, of xs] by (subst utf8_decode.simps) simp
    with "1.IH" [OF False step refl r] step cs show ?thesis
      by (cases "utf8_decode xs") (auto simp: option.map_comp)
  qed
qed

lemma valid_utf8_append_ascii: "is_ascii b \<Longrightarrow> valid_utf8 a \<Longrightarrow> valid_utf8 (a @ b)"
  by (auto simp: valid_utf8_def from_utf8_def utf8_decode_append is_ascii_def utf8_decode_ascii)

section \<open>Names, addresses and paths\<close>

lemma hostname_of_name: "is_label 63 nm \<Longrightarrow> validate_machine_hostname nm = Ok ()"
proof -
  assume nm: "is_label 63 nm"
  then have "nm \<noteq> []" "hd nm \<noteq> CHR ''-''" "last nm \<noteq> CHR ''-''"
    by (auto simp: is_label_def ascii_class_defs)
  then have "\<not> starts_with ''-'' nm" "\<not> ends_with ''-'' nm"
    by (auto simp: ends_with_def prefix_def last_rev)
  with nm \<open>nm \<noteq> []\<close> show ?thesis
    by (simp add: validate_machine_hostname_def ensure_def is_label_def name_byte_def list_all_iff)
qed

lemma hex2_parse: "b < 256 \<Longrightarrow> from_str_radix 256 16 (hex2 b) = Some b"
proof -
  assume b: "b < 256"
  then have d: "b div 16 < 16" "b mod 16 < 16" by auto
  then have "digit_char (b div 16) \<noteq> CHR ''+''"
    using byte_digit_char [OF d(1)] by (auto split: if_splits)
  with b d show ?thesis by (simp add: from_str_radix_def hex2_def)
qed

lemma hex2_colon: "b < 256 \<Longrightarrow> CHR '':'' \<notin> set (hex2 b)"
proof
  assume "b < 256" "CHR '':'' \<in> set (hex2 b)"
  with set_hex2 obtain d where d: "d < 16" "CHR '':'' = digit_char d" by blast
  then have "byte (digit_char d) = 58" by (simp flip: d(2))
  then show False using byte_digit_char [OF d(1)] by (simp split: if_splits)
qed

lemma mac_accepted: "validate_mac_address (mac_of_uuid u) = Ok (mac_of_uuid u)"
proof -
  let ?b = "uuid_bytes u"
  let ?xs = "''02'' # map hex2 (take 5 ?b)"
  have len: "length ?b = 16" by simp
  then have take: "take 5 ?b = [?b ! 0, ?b ! 1, ?b ! 2, ?b ! 3, ?b ! 4]"
    by (simp add: take_Suc_conv_app_nth numeral_eq_Suc)
  have less: "\<forall>x \<in> set (take 5 ?b). x < 256" using uuid_bytes_less by (blast dest: in_set_takeD)
  have "mac_of_uuid u = join_with '':'' ?xs" by (simp add: mac_of_uuid_def Let_def take)
  moreover have "\<forall>x \<in> set ?xs. CHR '':'' \<notin> set x" using less hex2_colon by auto
  ultimately have split: "split_on (\<lambda>c. c = CHR '':'') (mac_of_uuid u) = ?xs"
    using split_on_join [of ?xs "CHR '':''"] by simp
  have two: "mac_octet ''02'' = Ok 2" by code_simp
  have oct: "mac_octet (hex2 b) = Ok b" if "b < 256" for b
    using hex2_parse [OF that] by (simp add: mac_octet_def ensure_def some_or_def hex2_def)
  have "collect_results (map mac_octet ?xs) = Ok (2 # take 5 ?b)"
    using less by (simp add: take two oct rbind_def)
  then show ?thesis
    unfolding validate_mac_address_def split using len by (simp add: rbind_def ensure_def)
qed

text \<open>A machine that can be created can be started: whatever name \<open>validate_name\<close> accepts is a host name
  the command line accepts, and the hardware address a new record gets passes its check.\<close>

theorem new_record_startable:
  assumes "validate_name nm = Ok ()" and "new_record u w now nm environment repository dir existing = Some r"
  shows "validate_machine_hostname (m_name r) = Ok ()
    \<and> validate_mac_address (m_mac_address r) = Ok (m_mac_address r)"
proof -
  from assms(2) have "m_name r = nm" "m_mac_address r = mac_of_uuid u"
    by (auto simp: new_record_def split: option.splits)
  moreover have "is_label 63 nm" using assms(1) by (simp add: validate_name_Ok)
  ultimately show ?thesis using hostname_of_name mac_accepted by simp
qed

theorem new_record_startable_witness:
  "\<exists>r. new_record 7 8 0 ''demo-1'' ''debian:13'' None None [] = Some r
     \<and> validate_machine_hostname (m_name r) = Ok ()"
proof -
  have "validate_name ''demo-1'' = Ok ()" by code_simp
  moreover obtain r where "new_record 7 8 0 ''demo-1'' ''debian:13'' None None [] = Some r"
  proof -
    have "next_cid (Suc 0) {} (first_cid 7) \<noteq> None" by simp
    then show thesis using that by (auto simp: new_record_def bt_values_def)
  qed
  ultimately show ?thesis using new_record_startable [of "''demo-1''" 7 8 0 "''debian:13''" None None "[]" r] by blast
qed

section \<open>Paths\<close>

text \<open>The characters that would end or extend an option.\<close>

definition option_char :: "char \<Rightarrow> bool" where
  "option_char c = (c \<notin> {CHR '','', CHR 0x22, CHR 0x0A, CHR 0x0D, CHR 0x00})"

lemma option_text_Ok: "option_text p = Ok q \<longleftrightarrow> q = p \<and> valid_utf8 p \<and> list_all option_char p"
  by (auto simp: option_text_def ensure_def option_char_def list_ex_iff list_all_iff)

definition plain_part :: "string \<Rightarrow> bool" where
  "plain_part p = list_all (\<lambda>c. byte c < 128 \<and> option_char c) p"

lemma display_append: "data \<noteq> [] \<Longrightarrow> display (data @ xs) = display data @ concat (map ((#) CHR ''/'') xs)"
  by (cases xs) (simp_all add: display_def)

lemma option_path_below:
  assumes "data \<noteq> []" and "list_all plain_part xs" and "option_text (display data) = Ok (display data)"
  shows "option_path (data @ xs) = Ok (display (data @ xs))"
proof -
  let ?x = "concat (map ((#) CHR ''/'') xs)"
  have "list_all (\<lambda>c. byte c < 128 \<and> option_char c) ?x"
    using assms(2) by (induction xs) (auto simp: plain_part_def option_char_def)
  then have "is_ascii ?x" "list_all option_char ?x" by (auto simp: is_ascii_def list_all_iff)
  then show ?thesis
    using valid_utf8_append_ascii [of ?x "display data"] assms(3)
    by (auto simp: option_path_def option_text_Ok display_append [OF assms(1)])
qed

lemma uuid_plain: "plain_part (uuid_text u)"
proof -
  have "byte c < 128 \<and> option_char c" if c: "c \<in> set (uuid_text u)" for c
  proof -
    consider (dash) "c = CHR ''-''" | (digit) d where "d < 16" "c = digit_char d"
      using uuid_text_chars [OF c] by blast
    then show ?thesis
    proof cases
      case digit
      then have "byte c \<in> {48..<103}" using byte_digit_char [of d] by (auto split: if_splits)
      then show ?thesis by (auto simp: option_char_def)
    qed (simp add: option_char_def)
  qed
  then show ?thesis by (simp add: plain_part_def list_all_iff)
qed

lemma check_paths_below:
  assumes "data \<noteq> []" and "option_text (display data) = Ok (display data)"
  shows "check_command_paths (for_record data m) = Ok () \<longleftrightarrow> length (display data) \<le> 36"
proof -
  let ?mp = "for_record data m" and ?u = "uuid_text (m_id m)"
  have plain: "plain_part ''machines''" "plain_part ''session''" "plain_part ''environment''"
    "plain_part ''workspace''" "plain_part ''environment.raw''" "plain_part ''workspace.raw''"
    "plain_part ''api.sock''" "plain_part ''vsock.sock''" "plain_part ''net.sock''" "plain_part ''serial.log''"
    by (simp_all add: plain_part_def option_char_def)
  have path: "option_path (data @ xs) = Ok (display (data @ xs))" if "list_all plain_part xs" for xs
    by (rule option_path_below [OF assms(1) that assms(2)])
  have root: "mp_root ?mp = data @ [''machines'', ?u]"
    by (simp add: for_record_def Let_def machine_dir_def machines_dir_def)
  have shape: "mp_api_socket ?mp = data @ [''machines'', ?u, ''session'', ''api.sock'']"
    "mp_vsock_socket ?mp = data @ [''machines'', ?u, ''session'', ''vsock.sock'']"
    "mp_network_socket ?mp = data @ [''machines'', ?u, ''session'', ''net.sock'']"
    "mp_serial_log ?mp = data @ [''machines'', ?u, ''session'', ''serial.log'']"
    "mp_environment_disk ?mp = data @ [''machines'', ?u, ''environment'', ''environment.raw'']"
    "mp_workspace_disk ?mp = data @ [''machines'', ?u, ''workspace'', ''workspace.raw'']"
    by (simp_all add: for_record_def Let_def machine_dir_def machines_dir_def)
  have port: "decimal SSH_AGENT_VSOCK_PORT = ''19871''"
    by (simp add: SSH_AGENT_VSOCK_PORT_def decimal.simps digit_char_def) (simp add: char_of_def bit_Suc_0_iff)
  have ends: "length (display (data @ [''machines'', ?u, ''session'', nm])) = length (display data) + 55 + length nm" for nm
    by (simp add: display_append [OF assms(1)] length_uuid_text)
  show ?thesis
    unfolding check_command_paths_def root shape agent_endpoint_def port
    using path plain uuid_plain ends
    by (auto simp: validate_unix_socket_path_def MAX_UNIX_SOCKET_PATH_BYTES_def ensure_def rbind_def)
qed

text \<open>C40: The data directory decides alone whether a machine's paths fit: when its path is text without the
  characters the options reserve, the checks on the sockets and disks of a machine, whatever its
  identifier, succeed exactly when that path has at most 36 bytes.\<close>

theorem socket_paths_fit:
  assumes "data \<noteq> []" and "option_text (display data) = Ok (display data)"
  shows "check_command_paths (for_record data m) = Ok () \<longleftrightarrow> length (display data) \<le> 36"
  using assms by (rule check_paths_below)

theorem socket_paths_fit_witness:
  "check_command_paths (for_record [''home'', ''user'', ''.local'', ''share'', ''spawnr''] demo_record) = Ok ()
   \<and> check_command_paths (for_record [''home'', ''a-longer-user-name'', ''.local'', ''share'', ''spawnr''] demo_record)
       \<noteq> Ok ()"
proof -
  have "option_text p = Ok p" if "plain_part p" for p
    using that valid_utf8_ascii [of p] by (auto simp: option_text_Ok plain_part_def list_all_iff is_ascii_def)
  then have paths: "option_text (display [''home'', ''user'', ''.local'', ''share'', ''spawnr''])
      = Ok (display [''home'', ''user'', ''.local'', ''share'', ''spawnr''])"
    "option_text (display [''home'', ''a-longer-user-name'', ''.local'', ''share'', ''spawnr''])
      = Ok (display [''home'', ''a-longer-user-name'', ''.local'', ''share'', ''spawnr''])"
    by (simp_all add: display_def plain_part_def option_char_def)
  from socket_paths_fit [OF _ paths(1)] socket_paths_fit [OF _ paths(2)] show ?thesis
    by (simp add: display_def)
qed

section \<open>Options\<close>

lemma digits_val_chars: "digits_val 16 acc t = Some n \<Longrightarrow> CHR '','' \<notin> set t"
proof (induction t arbitrary: acc)
  case (Cons c t)
  have "digit_val 16 (CHR '','') = None" by (simp add: digit_val_def ascii_class_defs)
  with Cons show ?case by (auto split: option.splits)
qed simp

lemma mac_no_comma:
  assumes "validate_mac_address mac = Ok x"
  shows "x = mac \<and> CHR '','' \<notin> set mac"
proof -
  let ?ps = "split_on (\<lambda>c. c = CHR '':'') mac"
  have piece: "CHR '','' \<notin> set t" if "mac_octet t = Ok n" for t n
  proof -
    from that obtain ds m where "digits_val 16 0 ds = Some m" "ds = t \<or> t = CHR ''+'' # ds"
      by (cases t) (auto simp: mac_octet_def ensure_def some_or_def from_str_radix_def Let_def
          simp del: digits_val.simps split: if_splits option.splits)
    with digits_val_chars [of 0 ds m] show ?thesis by auto
  qed
  have all: "collect_results (map mac_octet ps) = Ok os \<Longrightarrow> \<forall>t \<in> set ps. CHR '','' \<notin> set t" for ps os
  proof (induction ps arbitrary: os)
    case (Cons t ps)
    then show ?case using piece by (fastforce simp: rbind_def split: sum.splits)
  qed simp
  have joined: "(\<forall>t \<in> set ps. c \<notin> set t) \<Longrightarrow> c \<noteq> d \<Longrightarrow> c \<notin> set (join_with [d] ps)" for c d and ps :: "string list"
    by (induction "[d]" ps rule: join_with.induct) auto
  from assms obtain os where "collect_results (map mac_octet ?ps) = Ok os" "x = mac"
    by (auto simp: validate_mac_address_def rbind_def ensure_def split: sum.splits if_splits)
  with joined [OF all, of ?ps os "CHR '':''"] show ?thesis by (simp add: join_split_on)
qed

definition fields_of :: "string \<Rightarrow> string list" where
  "fields_of = split_on (\<lambda>c. c = CHR '','')"

lemma fields_of_join:
  "xs \<noteq> [] \<Longrightarrow> list_all (\<lambda>x. CHR '','' \<notin> set x) xs \<Longrightarrow> fields_of (join_with '','' xs) = xs"
  unfolding fields_of_def by (rule split_on_join) (simp_all add: list_all_iff)

lemma option_fields:
  assumes "CHR '','' \<notin> set p"
  shows "CHR '','' \<notin> set i \<Longrightarrow> CHR '','' \<notin> set n \<Longrightarrow> fields_of (disk_option p i n) =
      [''path='' @ p, ''id='' @ i, ''image_type=raw'', ''direct=off'', ''sparse=on'', ''serial='' @ n]"
    and "CHR '','' \<notin> set mac \<Longrightarrow> fields_of (net_option p mac) =
      [''vhost_user=on'', ''vhost_mode=client'', ''socket='' @ p, ''mac='' @ mac, ''id=network'']"
    and "fields_of (vsock_option cid p) = [''cid='' @ decimal (unat cid), ''socket='' @ p, ''id=control'']"
    and "fields_of (landlock_option p) = [''path='' @ p, ''access=rw'']"
    and "fields_of (''path='' @ p) = [''path='' @ p]" and "fields_of (''file='' @ p) = [''file='' @ p]"
proof -
  have "CHR '','' \<notin> set (decimal n)" for n
    using decimal_digits [of "CHR '',''" n] by (auto simp: is_ascii_digit_def)
  then show "fields_of (vsock_option cid p) = [''cid='' @ decimal (unat cid), ''socket='' @ p, ''id=control'']"
    using assms fields_of_join [of "[''cid='' @ decimal (unat cid), ''socket='' @ p, ''id=control'']"]
    by (simp add: vsock_option_def)
  show "CHR '','' \<notin> set i \<Longrightarrow> CHR '','' \<notin> set n \<Longrightarrow> fields_of (disk_option p i n) =
      [''path='' @ p, ''id='' @ i, ''image_type=raw'', ''direct=off'', ''sparse=on'', ''serial='' @ n]"
    using assms fields_of_join [of "[''path='' @ p, ''id='' @ i, ''image_type=raw'', ''direct=off'', ''sparse=on'',
      ''serial='' @ n]"]
    by (simp add: disk_option_def)
  show "CHR '','' \<notin> set mac \<Longrightarrow> fields_of (net_option p mac) =
      [''vhost_user=on'', ''vhost_mode=client'', ''socket='' @ p, ''mac='' @ mac, ''id=network'']"
    using assms fields_of_join [of "[''vhost_user=on'', ''vhost_mode=client'', ''socket='' @ p, ''mac='' @ mac,
      ''id=network'']"]
    by (simp add: net_option_def)
  show "fields_of (landlock_option p) = [''path='' @ p, ''access=rw'']"
    using assms fields_of_join [of "[''path='' @ p, ''access=rw'']"] by (simp add: landlock_option_def)
  show "fields_of (''path='' @ p) = [''path='' @ p]" "fields_of (''file='' @ p) = [''file='' @ p]"
    using assms fields_of_join [of "[''path='' @ p]"] fields_of_join [of "[''file='' @ p]"] by simp_all
qed

lemma option_path_Ok: "option_path p = Ok q \<Longrightarrow> q = display p \<and> CHR '','' \<notin> set (display p)"
  by (auto simp: option_path_def option_text_Ok option_char_def list_all_iff)

lemma option_path_bind:
  "rbind (option_path p) f = Ok x \<longleftrightarrow> option_path p = Ok (display p) \<and> f (display p) = Ok x"
  using option_path_Ok [of p] by (cases "option_path p") (auto simp: rbind_def)

lemma command_Ok:
  assumes "command_with_agent v mp r verbose agent s = (Ok (prog, args), t)"
  obtains mac where "prog = vm_cloud_hypervisor v" "validate_machine_hostname (m_name r) = Ok ()"
    "validate_mac_address (m_mac_address r) = Ok mac" "vmm_arguments v mp r verbose agent mac = Ok args"
  using assms by (auto simp: command_with_agent_def io_Ok)

text \<open>C32: No value can add an option to Cloud Hypervisor's command line: whatever the data directory, the
  record and the agent's socket are, each structured argument of a command that is built has exactly the
  fields the code writes, and the guest gets exactly the machine's name.\<close>

theorem no_option_injection:
  assumes "command_with_agent v mp r verbose agent s = (Ok (prog, args), t)"
  shows "prog = vm_cloud_hypervisor v \<and> args ! 3 = kernel_cmdline (m_name r)
    \<and> fields_of (args ! 9) = [''path='' @ display (mp_environment_disk mp), ''id=environment'',
        ''image_type=raw'', ''direct=off'', ''sparse=on'', ''serial=SPAWNR_ENV'']
    \<and> fields_of (args ! 10) = [''path='' @ display (mp_workspace_disk mp), ''id=workspace'',
        ''image_type=raw'', ''direct=off'', ''sparse=on'', ''serial=SPAWNR_WORKSPACE'']
    \<and> fields_of (args ! 12) = [''vhost_user=on'', ''vhost_mode=client'',
        ''socket='' @ display (mp_network_socket mp), ''mac='' @ m_mac_address r, ''id=network'']
    \<and> fields_of (args ! 14) = [''cid='' @ decimal (unat (m_vsock_cid r)),
        ''socket='' @ display (mp_vsock_socket mp), ''id=control'']
    \<and> fields_of (args ! 16) = [''path='' @ display (mp_api_socket mp)]
    \<and> fields_of (args ! 18) = [''file='' @ display (mp_serial_log mp)]
    \<and> fields_of (args ! 25) = [''path='' @ display (mp_root mp), ''access=rw'']
    \<and> (case agent of None \<Rightarrow> True | Some a \<Rightarrow> fields_of (args ! 26) = [''path='' @ a, ''access=rw''])"
proof -
  obtain mac where cmd: "prog = vm_cloud_hypervisor v" "validate_mac_address (m_mac_address r) = Ok mac"
    "vmm_arguments v mp r verbose agent mac = Ok args"
    using assms by (rule command_Ok) blast
  note mac = mac_no_comma [OF cmd(2)]
  have agent: "CHR '','' \<notin> set a" if "option_text a = Ok b" for a b
    using that by (auto simp: option_text_Ok option_char_def list_all_iff)
  let ?agent = "case agent of None \<Rightarrow> Ok [] | Some a \<Rightarrow> rbind (option_text a) (\<lambda>a. Ok [landlock_option a])"
  let ?tail = "(case vm_initramfs v of None \<Rightarrow> [] | Some p \<Rightarrow> [''--initramfs'', display p])
    @ replicate (min (unat verbose) 3) ''-v''"
  obtain rule where rule: "?agent = Ok rule" and args0: "args =
      [''--kernel'', display (vm_kernel v), ''--cmdline'', kernel_cmdline (m_name r),
       ''--cpus'', ''boot=4'', ''--memory'', ''size=4G,shared=on'',
       ''--disk'', disk_option (display (mp_environment_disk mp)) ''environment'' ''SPAWNR_ENV'',
       disk_option (display (mp_workspace_disk mp)) ''workspace'' ''SPAWNR_WORKSPACE'',
       ''--net'', net_option (display (mp_network_socket mp)) mac,
       ''--vsock'', vsock_option (m_vsock_cid r) (display (mp_vsock_socket mp)),
       ''--api-socket'', ''path='' @ display (mp_api_socket mp),
       ''--console'', ''file='' @ display (mp_serial_log mp),
       ''--serial'', ''null'', ''--rng'', ''src=/dev/urandom'',
       ''--landlock'', ''--landlock-rules'', landlock_option (display (mp_root mp))] @ rule @ ?tail"
    using cmd(3) unfolding vmm_arguments_def option_path_bind rbind_eq_Inr [of ?agent]
    by (elim conjE exE) (rule that, assumption, drule sum.inject(2) [THEN iffD1], simp only: append.simps)
  define rest where "rest = rule @ ?tail"
  note args = args0 [folded rest_def]
  have ok: "case agent of None \<Rightarrow> True | Some a \<Rightarrow> CHR '','' \<notin> set a \<and> rest \<noteq> [] \<and> rest ! 0 = landlock_option a"
    using rule agent by (auto simp: rest_def rbind_def option_text_Ok split: option.splits sum.splits)
  have paths: "list_all (\<lambda>p. CHR '','' \<notin> set (display p)) [mp_environment_disk mp, mp_workspace_disk mp,
      mp_network_socket mp, mp_vsock_socket mp, mp_api_socket mp, mp_serial_log mp, mp_root mp]"
    using cmd(3) option_path_Ok by (auto simp: vmm_arguments_def option_path_bind)
  from ok have "case agent of None \<Rightarrow> True | Some a \<Rightarrow> fields_of (args ! 26) = [''path='' @ a, ''access=rw'']"
    unfolding args by (auto simp: option_fields split: option.splits)
  with paths mac cmd(1) show ?thesis
    unfolding args by (simp add: option_fields option_fields(5,6) [simplified])
qed

text \<open>The command line of a machine in a data directory.\<close>

definition demo_vmm :: vmm where
  "demo_vmm = with_components [''bin'', ''ch''] [''bin'', ''passt''] [''bin'', ''vmlinux''] (Some [''bin'', ''initrd''])"

lemma plain_option: "plain_part p \<Longrightarrow> option_text p = Ok p"
  using valid_utf8_ascii [of p] by (auto simp: option_text_Ok plain_part_def list_all_iff is_ascii_def)

lemma demo_ext4:
  "validate_ext4_image (mp_environment_disk (for_record [''d''] demo_record)) demo_tree = (Ok (), demo_tree)"
  "validate_ext4_image (mp_workspace_disk (for_record [''d''] demo_record)) demo_tree = (Ok (), demo_tree)"
proof -
  have "files demo_tree (mp_environment_disk (for_record [''d''] demo_record))
      = Some (private_dir\<lparr>e_node := File demo_image, e_mode := 384\<rparr>)"
    "files demo_tree (mp_workspace_disk (for_record [''d''] demo_record))
      = Some (private_dir\<lparr>e_node := File demo_image, e_mode := 384\<rparr>)"
    "mp_environment_disk (for_record [''d''] demo_record) \<noteq> []"
    "mp_workspace_disk (for_record [''d''] demo_record) \<noteq> []"
    by (simp_all add: demo_tree_def demo_tree_layout)
  then show "validate_ext4_image (mp_environment_disk (for_record [''d''] demo_record)) demo_tree = (Ok (), demo_tree)"
    "validate_ext4_image (mp_workspace_disk (for_record [''d''] demo_record)) demo_tree = (Ok (), demo_tree)"
    using demo_magic
    by (simp_all add: validate_ext4_image_def open_existing_regular_def io_run demo_tree_quiet Let_def is_regular_def)
qed

theorem no_option_injection_witness:
  "\<exists>prog args t. command_with_agent demo_vmm (for_record [''d''] demo_record) demo_record 1 (Some ''/run/agent'') demo_tree
      = (Ok (prog, args), t)
     \<and> fields_of (args ! 12) = [''vhost_user=on'', ''vhost_mode=client'',
        ''socket='' @ display (mp_network_socket (for_record [''d''] demo_record)), ''mac=02:00:00:00:00:01'', ''id=network'']"
proof -
  let ?mp = "for_record [''d''] demo_record"
  have d: "option_text (display [''d'']) = Ok (display [''d''])"
    by (rule plain_option) (simp add: display_def plain_part_def option_char_def)
  have check: "check_command_paths ?mp = Ok ()"
    using check_paths_below [OF _ d] by (simp add: display_def)
  then have paths: "option_path q = Ok (display q)" if "q \<in> {mp_environment_disk ?mp, mp_workspace_disk ?mp,
      mp_api_socket ?mp, mp_vsock_socket ?mp, mp_network_socket ?mp, mp_serial_log ?mp, mp_root ?mp}" for q
    using that option_path_Ok by (fastforce simp: check_command_paths_def)
  have agent: "option_text ''/run/agent'' = Ok ''/run/agent''"
    by (rule plain_option) (simp add: plain_part_def option_char_def)
  have "validate_machine_hostname (m_name demo_record) = Ok ()"
    by (rule hostname_of_name) (simp add: demo_record_def is_label_def name_byte_def ascii_class_defs)
  moreover have "validate_mac_address (m_mac_address demo_record) = Ok (m_mac_address demo_record)"
    unfolding demo_record_def by code_simp
  ultimately obtain args where run: "command_with_agent demo_vmm ?mp demo_record 1 (Some ''/run/agent'') demo_tree
      = (Ok (vm_cloud_hypervisor demo_vmm, args), demo_tree)"
    by (simp add: command_with_agent_def thn_def bnd_def lift_r_def demo_ext4 check vmm_arguments_def paths agent ret_def)
  from no_option_injection [OF this] run show ?thesis
    by (auto simp: demo_record_def)
qed

section \<open>The resolver\<close>

lemma digit_char_val: "is_ascii_digit c \<Longrightarrow> digit_val 10 c = Some d \<Longrightarrow> digit_char d = c \<and> d < 10"
  by (auto simp: digit_val_def digit_char_def ascii_class_defs Let_def split: if_splits)

lemma decimal_0: "decimal 0 = ''0''"
  by (simp add: decimal.simps [of 0] digit_char_def) (simp add: char_of_def bit_Suc_0_iff)

text \<open>A number without a leading zero is its decimal text.\<close>

lemma decimal_digits_val:
  "\<lbrakk>t \<noteq> []; list_all is_ascii_digit t; length t = 1 \<or> hd t \<noteq> CHR ''0''; digits_val 10 0 t = Some n\<rbrakk>
     \<Longrightarrow> decimal n = t"
proof (induction t arbitrary: n rule: rev_induct)
  case (snoc c t)
  from snoc.prems(4) obtain m d where m: "digits_val 10 0 t = Some m" "digit_val 10 c = Some d" "n = m * 10 + d"
    by (auto simp: digits_val_append split: option.splits)
  have d: "digit_char d = c" "d < 10" using digit_char_val [OF _ m(2)] snoc.prems(2) by auto
  show ?case
  proof (cases "t = []")
    case True
    with m d show ?thesis by (simp add: decimal.simps)
  next
    case False
    then have "hd t \<noteq> CHR ''0''" using snoc.prems(3) by (cases t) auto
    with snoc False m have t: "decimal m = t" by simp
    with \<open>hd t \<noteq> CHR ''0''\<close> have "m \<noteq> 0" using t decimal_0 by (metis list.sel(1))
    with t m d show ?thesis by (subst decimal.simps) (simp add: div_mult_self3 mult.commute)
  qed
qed simp

lemma hd_decimal_nonzero: "n \<noteq> 0 \<Longrightarrow> hd (decimal n) \<noteq> CHR ''0''"
proof (induction n rule: decimal.induct)
  case (1 n)
  show ?case
  proof (cases "n < 10")
    case True
    with "1.prems" have "byte (digit_char n) \<noteq> 48" by (simp add: byte_digit_char)
    then have "digit_char n \<noteq> CHR ''0''" by auto
    with True show ?thesis by (simp add: decimal.simps)
  next
    case False
    with 1 show ?thesis by (subst decimal.simps) simp
  qed
qed

lemma ipv4_octet_Some: "ipv4_octet t = Some b \<longleftrightarrow> t = decimal (unat b)"
proof
  assume a: "ipv4_octet t = Some b"
  then have t: "t \<noteq> []" "list_all is_ascii_digit t" "length t = 1 \<or> hd t \<noteq> CHR ''0''"
    by (auto simp: ipv4_octet_def le_Suc_eq not_less split: if_splits)
  then have "is_ascii_digit (hd t)" by (cases t) auto
  then have "t = hd t # tl t" "hd t \<noteq> CHR ''+''" using t(1) by (auto simp: is_ascii_digit_def)
  with a obtain n where "digits_val 10 0 t = Some n" "n < 256" "b = of_nat n"
    by (cases t) (auto simp: ipv4_octet_def from_str_radix_def split: if_splits option.splits)
  with decimal_digits_val [OF t] show "t = decimal (unat b)" by (simp add: unat_of_nat)
next
  have b: "unat b < 256" using unsigned_less [of b] by simp
  then have "length (decimal (unat b)) \<le> 3" by (intro length_decimal) simp_all
  moreover have "\<not> (1 < length (decimal (unat b)) \<and> hd (decimal (unat b)) = CHR ''0'')"
    using hd_decimal_nonzero [of "unat b"] by (cases "unat b = 0") (auto simp: decimal.simps)
  moreover assume "t = decimal (unat b)"
  ultimately show "ipv4_octet t = Some b"
    using parse_decimal [OF b] decimal_digits by (auto simp: ipv4_octet_def list_all_iff)
qed

lemma parse_ipv4_Some: "parse_ipv4 t = Some a \<longleftrightarrow> length a = 4 \<and> t = show_ipv4 a"
proof
  assume p: "parse_ipv4 t = Some a"
  let ?ps = "split_on (\<lambda>c. c = CHR ''.'') t"
  from p have len: "length ?ps = 4" and os: "None \<notin> ipv4_octet ` set ?ps" and a: "a = map (the \<circ> ipv4_octet) ?ps"
    by (auto simp: parse_ipv4_def Let_def split: if_splits)
  have "map (\<lambda>b. decimal (unat b)) a = ?ps"
  proof -
    have "decimal (unat (the (ipv4_octet x))) = x" if x: "x \<in> set ?ps" for x
    proof -
      obtain b where "ipv4_octet x = Some b" using os x by (cases "ipv4_octet x") force+
      then show ?thesis using ipv4_octet_Some [of x b] by simp
    qed
    then show ?thesis by (simp add: a map_idI)
  qed
  with len a show "length a = 4 \<and> t = show_ipv4 a" by (simp add: show_ipv4_def join_split_on)
next
  assume a: "length a = 4 \<and> t = show_ipv4 a"
  have "CHR ''.'' \<notin> set (decimal n)" for n
    using decimal_digits [of "CHR ''.''" n] by (auto simp: is_ascii_digit_def)
  moreover have "a \<noteq> []" using a by auto
  ultimately have "split_on (\<lambda>c. c = CHR ''.'') t = map (\<lambda>b. decimal (unat b)) a"
    using a split_on_join [of "map (\<lambda>b. decimal (unat b)) a" "CHR ''.''"] by (simp add: show_ipv4_def)
  moreover have "ipv4_octet (decimal (unat b)) = Some b" for b using ipv4_octet_Some by blast
  ultimately show "parse_ipv4 t = Some a" using a by (auto simp: parse_ipv4_def Let_def comp_def)
qed

text \<open>A line of the configuration that names an IPv4 resolver, whatever follows the address.\<close>

definition names_resolver :: "ipv4 \<Rightarrow> string \<Rightarrow> bool" where
  "names_resolver a l = (length a = 4 \<and> (\<exists>rest.
     split_ascii_whitespace (str_trim (hd (split_on (\<lambda>c. c = CHR ''#'') l))) = ''nameserver'' # show_ipv4 a # rest))"

definition line_resolver :: "string \<Rightarrow> ipv4 option" where
  "line_resolver l = (case split_ascii_whitespace (str_trim (hd (split_on (\<lambda>c. c = CHR ''#'') l))) of
     k # t # _ \<Rightarrow> if k = ''nameserver'' then parse_ipv4 t else None | _ \<Rightarrow> None)"

lemma line_resolver_Some: "line_resolver l = Some a \<longleftrightarrow> names_resolver a l"
  unfolding line_resolver_def names_resolver_def
  by (auto simp: parse_ipv4_Some split: list.splits)

lemma first_resolver_Cons:
  "first_resolver (l # ls) = (case line_resolver l of Some a \<Rightarrow> Some a | None \<Rightarrow> first_resolver ls)"
  by (simp add: line_resolver_def split: list.split option.split)

lemma first_resolver_Some:
  "first_resolver ls = Some a \<longleftrightarrow> (\<exists>before l rest. ls = before @ l # rest \<and> names_resolver a l
     \<and> list_all (\<lambda>k. \<nexists>b. names_resolver b k) before)"
proof (induction ls)
  case (Cons l ls)
  show ?case
  proof (cases "line_resolver l")
    case None
    then have none: "\<nexists>b. names_resolver b l" using line_resolver_Some [of l] by simp
    have "(\<exists>before k rest. l # ls = before @ k # rest \<and> names_resolver a k
        \<and> list_all (\<lambda>k. \<nexists>b. names_resolver b k) before) \<longleftrightarrow>
      (\<exists>before k rest. ls = before @ k # rest \<and> names_resolver a k
        \<and> list_all (\<lambda>k. \<nexists>b. names_resolver b k) before)"
      (is "?A \<longleftrightarrow> ?B")
    proof
      assume ?A
      then show ?B using none by (auto simp: Cons_eq_append_conv) blast
    next
      assume ?B
      then obtain before k rest where "ls = before @ k # rest" "names_resolver a k"
        "list_all (\<lambda>k. \<nexists>b. names_resolver b k) before" by blast
      then show ?A using none by (intro exI [of _ "l # before"] exI [of _ k] exI [of _ rest]) simp
    qed
    with Cons None show ?thesis by (simp add: first_resolver_Cons del: first_resolver.simps(2))
  next
    case (Some b)
    then have b: "names_resolver b l" using line_resolver_Some by blast
    then have "names_resolver c l \<longleftrightarrow> c = b" for c
      using line_resolver_Some [of l b] line_resolver_Some [of l c] by auto
    note only = this
    show ?thesis
    proof
      assume "first_resolver (l # ls) = Some a"
      with Some have "a = b" by (simp add: first_resolver_Cons del: first_resolver.simps(2))
      with b show "\<exists>before k rest. l # ls = before @ k # rest \<and> names_resolver a k
          \<and> list_all (\<lambda>k. \<nexists>b. names_resolver b k) before"
        by (intro exI [of _ "[]"] exI [of _ l] exI [of _ ls]) simp
    next
      assume "\<exists>before k rest. l # ls = before @ k # rest \<and> names_resolver a k
          \<and> list_all (\<lambda>k. \<nexists>b. names_resolver b k) before"
      then obtain before k rest where "l # ls = before @ k # rest" "names_resolver a k"
        "list_all (\<lambda>k. \<nexists>b. names_resolver b k) before" by blast
      with b have "names_resolver a l" by (cases before) auto
      with Some only show "first_resolver (l # ls) = Some a"
        by (simp add: first_resolver_Cons del: first_resolver.simps(2))
    qed
  qed
qed simp

text \<open>passt forwards the guest's name resolution to a resolver of the host's configuration and to nothing
  else: the address it is given is, octet by octet, the text after \<open>nameserver\<close> on the first line of the
  file that names an IPv4 address there, and there is one exactly when starting goes on.\<close>

theorem resolver_from_host:
  "parse_ipv4_resolver contents = Ok a \<longleftrightarrow>
     (\<exists>before l rest. str_lines contents = before @ l # rest \<and> names_resolver a l
        \<and> list_all (\<lambda>k. \<nexists>b. names_resolver b k) before)"
  unfolding parse_ipv4_resolver_def some_or_eq_Inr first_resolver_Some by simp

end
