(* ===== verification/FileFrames.thy ===== *)
theory FileFrames
  imports Storage
begin

text \<open>
  What calls leave alone: nothing that happens outside the program removes what is at a path, and a call
  that works on another path keeps it as it is.
\<close>

section \<open>What is there stays\<close>

lemma existing_before: "fs_get (files s) p = Some n \<Longrightarrow> fs_get (files (before_call s)) p = Some n"
proof -
  have "fs_get (files s) p = Some n \<Longrightarrow> fs_get (files (fold apply_event es s)) p = Some n" for es s
  proof (induction es arbitrary: s)
    case (Cons e es)
    have "fs_get (files (apply_event e s)) p = Some n"
      using Cons.prems by (cases e) (auto simp: fs_get_def split: option.splits)
    from Cons.IH [OF this] show ?case by simp
  qed simp
  from this [of "s\<lparr>sched := tl (sched s)\<rparr>"] show
    "fs_get (files s) p = Some n \<Longrightarrow> fs_get (files (before_call s)) p = Some n"
    by (simp add: before_call_def)
qed

text \<open>What is at a path stays as it is.\<close>

definition keeps :: "path \<Rightarrow> node \<Rightarrow> os \<Rightarrow> os \<Rightarrow> bool" where
  "keeps p n s t = (fs_get (files s) p = Some n \<longrightarrow> fs_get (files t) p = Some n)"

interpretation keeps: frame "keeps p n" for p n
  by unfold_locales (auto simp: keeps_def existing_before)

lemma keeps_other: "q \<noteq> p \<Longrightarrow> keeps p n s (put_entry q e s)" "q \<noteq> p \<Longrightarrow> keeps p n s (del_entry q s)"
  by (auto simp: keeps_def put_entry_def del_entry_def fs_get_def)

lemma keeps_content: "q \<noteq> p \<Longrightarrow> keeps p n s (set_content q c s)" "q \<noteq> p \<Longrightarrow> keeps p n s (append_file q c s)"
  unfolding set_content_def append_file_def
  by (auto intro!: keeps_other simp: keeps.refl split: option.splits node.splits)

lemma keeps_mode: "files s q = Some e \<Longrightarrow> e_node e' = e_node e \<Longrightarrow> keeps p n s (put_entry q e' s)"
  by (auto simp: keeps_def put_entry_def fs_get_def)

lemma keeps_reads:
  "preserves (keeps p n) (sys_lstat q)" "preserves (keeps p n) (sys_open_nofollow q)"
  "preserves (keeps p n) (sys_metadata q)" "preserves (keeps p n) (sys_open q)" "preserves (keeps p n) (sys_read q)"
  "preserves (keeps p n) sys_nop" "preserves (keeps p n) (sys_canonicalize q)"
  unfolding sys_lstat_def sys_open_nofollow_def sys_nop_def sys_metadata_def sys_open_def sys_read_def
    sys_canonicalize_def
  by (rule keeps.syscall; auto simp: ret_def keeps.refl split: option.splits node.splits sum.splits)+

lemma keeps_chmod: "preserves (keeps p n) (sys_chmod q m)"
  unfolding sys_chmod_def
  by (rule keeps.syscall) (auto simp: keeps.refl split: sum.splits option.splits intro!: keeps_mode)

lemma keeps_new:
  "preserves (keeps p n) (sys_create_new q m)" "preserves (keeps p n) (sys_mkdir q)"
  "preserves (keeps p n) (sys_symlink x q)"
  unfolding sys_create_new_def sys_mkdir_def sys_symlink_def
  by (rule keeps.syscall; auto simp: keeps_def put_entry_def fs_get_def)+

lemma keeps_changes:
  assumes "q \<noteq> p"
  shows "preserves (keeps p n) (sys_unlink q)" "preserves (keeps p n) (sys_copy_all r q)"
    "preserves (keeps p n) (sys_write q d)"
proof -
  show "preserves (keeps p n) (sys_unlink q)" "preserves (keeps p n) (sys_copy_all r q)"
    unfolding sys_unlink_def sys_copy_all_def
    by (rule keeps.syscall; use assms in \<open>auto simp: keeps.refl split: option.splits intro!: keeps_other keeps_content\<close>)+
  show "preserves (keeps p n) (sys_write q d)"
    using assms by (auto simp: preserves_def sys_write_def Let_def split: option.splits
        intro: keeps.trans keeps.before keeps_content)
qed

lemmas keeps_calls = keeps_reads keeps_chmod keeps_new

lemma keepsD: "preserves (keeps p n) m \<Longrightarrow> m s = (r, t) \<Longrightarrow> fs_get (files s) p = Some n \<Longrightarrow> fs_get (files t) p = Some n"
  using preservesD [of "keeps p n" m s r t] by (simp add: keeps_def)

lemma created: "sys_create_new p m s = (Ok u, t) \<Longrightarrow> fs_get (files t) p = Some (File [])"
  by (auto simp: sys_create_new_def syscall_Ok put_entry_def fs_get_def new_entry_def split: if_splits)

lemma written:
  "sys_write p d s = (Ok u, t) \<Longrightarrow> fs_get (files s) p = Some (File c) \<Longrightarrow> fs_get (files t) p = Some (File (c @ d))"
  using existing_before [of s p "File c"]
  by (auto simp: sys_write_def Let_def append_file_def put_entry_def fs_get_def split: option.splits if_splits)

end
