(* ===== verification/OciFacts.thy ===== *)
theory OciFacts
  imports OciPublish GuestSession FileFrames
begin

text \<open>
  What \<open>crates/spawnr/src/oci.rs\<close> promises: a pulled image is the one that was resolved, its environment is one
  the guest accepts, a guest program is static, the integration files stay in the image's own
  directories, a cache entry is what its key says, and publishing runs nothing on the workspace.
\<close>

section \<open>References\<close>

lemma reference_pinned_result:
  assumes "normalize_source_reference r = Ok t" and "immutable_pull_reference t d = Ok p"
  shows "plain_reference t" and "ensure_manifest_digest d = Ok ()"
    and "starts_with ''docker://'' t \<Longrightarrow> \<exists>name. p = ''docker://'' @ name @ ''@'' @ d
           \<and> CHR ''@'' \<notin> set name \<and> prefix (''docker://'' @ name) t"
    and "\<not> starts_with ''docker://'' t \<Longrightarrow> p = t \<and> starts_with ''oci:'' t"
proof -
  show plain: "plain_reference t"
    using assms(1) normalize_reference_result(1) by (auto simp: normalize_source_reference_def split: if_splits)
  show "ensure_manifest_digest d = Ok ()"
    by (rule immutable_pull_reference_shape(1) [OF assms(2)])
  note shape = immutable_pull_reference_shape(2) [OF assms(2)]
  show "starts_with ''docker://'' t \<Longrightarrow> \<exists>name. p = ''docker://'' @ name @ ''@'' @ d
           \<and> CHR ''@'' \<notin> set name \<and> prefix (''docker://'' @ name) t"
    using shape by blast
  show "\<not> starts_with ''docker://'' t \<Longrightarrow> p = t \<and> starts_with ''oci:'' t"
    using shape plain prefix_order.trans [of "''docker://''" "''docker://'' @ n" t for n]
    by (auto simp: plain_reference_def)
qed

section \<open>The environment of an image\<close>

lemma entry_fine_ok: "entry_fine e = entry_ok e"
  by (auto simp: entry_fine_def entry_ok_iff valid_image_environment_name_def split_once_Some)

section \<open>Guest programs\<close>

definition header_type :: "string \<Rightarrow> nat \<Rightarrow> nat" where
  "header_type c i = le_value (le_value 32 8 c + i * le_value 54 2 c) 4 c"

text \<open>A static executable: every program header is in the file, one is loaded, none asks for a loader.\<close>

definition static_elf :: "string \<Rightarrow> bool" where
  "static_elf c =
     (64 \<le> length c \<and> take 4 c = [CHR 0x7F, CHR ''E'', CHR ''L'', CHR ''F'']
      \<and> byte (c ! 4) = 2 \<and> byte (c ! 5) = 1 \<and> le_value 18 2 c = 62
      \<and> 56 \<le> le_value 54 2 c \<and> le_value 56 2 c \<le> 256
      \<and> le_value 32 8 c + le_value 54 2 c * le_value 56 2 c \<le> length c
      \<and> (\<forall>i < le_value 56 2 c. header_type c i \<noteq> 3) \<and> (\<exists>i < le_value 56 2 c. header_type c i = 1))"

lemma program_headers_Ok:
  assumes "\<forall>i \<in> set is. off + i * len + 4 \<le> length c" and "length c < 2 ^ 63"
  shows "program_headers c off len is b = Ok found \<longleftrightarrow>
     (\<forall>i \<in> set is. le_value (off + i * len) 4 c \<noteq> 3)
     \<and> (found \<longleftrightarrow> b \<or> (\<exists>i \<in> set is. le_value (off + i * len) 4 c = 1))"
  using assms(1)
proof (induction "is" arbitrary: b)
  case Nil
  then show ?case by auto
next
  case (Cons i "is")
  have i: "off + i * len + 4 \<le> length c" using Cons.prems by simp
  then have small: "off + i * len < 2 ^ 63" using assms(2) by linarith
  then have wraps: "(off + i * len) mod 2 ^ 64 = off + i * len" by simp
  from Cons.prems have "\<forall>i \<in> set is. off + i * len + 4 \<le> length c" by simp
  note IH = Cons.IH [OF this]
  show ?case
    unfolding program_headers.simps wraps Let_def
    using i small IH by auto
qed


lemma static_elf_result:
  assumes "length c < 2 ^ 63"
  shows "static_x86_64_elf c = Ok () \<longleftrightarrow> static_elf c"
proof -
  let ?off = "le_value 32 8 c" and ?len = "le_value 54 2 c" and ?n = "le_value 56 2 c"
  have fits: "saturating_add ?off (saturating_mul ?len ?n) \<le> length c \<longleftrightarrow> ?off + ?len * ?n \<le> length c"
    using assms by (auto simp: saturating_add_def saturating_mul_def min_def)
  have headers: "program_headers c ?off ?len [0..<?n] False = Ok found \<longleftrightarrow>
      (\<forall>i < ?n. header_type c i \<noteq> 3) \<and> found = (\<exists>i < ?n. header_type c i = 1)"
    if "56 \<le> ?len" "?off + ?len * ?n \<le> length c" for found
  proof -
    have "?off + i * ?len + 4 \<le> length c" if "i < ?n" for i
    proof -
      have "i * ?len + ?len \<le> ?len * ?n"
        using mult_le_mono1 [of "Suc i" ?n ?len] that by (simp add: algebra_simps)
      with \<open>56 \<le> ?len\<close> \<open>?off + ?len * ?n \<le> length c\<close> show ?thesis by linarith
    qed
    then show ?thesis
      by (subst program_headers_Ok) (use assms in \<open>auto simp: header_type_def\<close>)
  qed
  show ?thesis
    unfolding static_x86_64_elf_def static_elf_def Let_def
    using fits headers by (auto simp: not_less)
qed


section \<open>Bounded output\<close>

text \<open>All a pipe gives, without a bound: until its end or an error.\<close>

fun pipe_content :: "string result list \<Rightarrow> string result" where
  "pipe_content [] = Ok []"
| "pipe_content (Inl e # rest) = Inl e"
| "pipe_content (Inr chunk # rest) =
     (if chunk = [] then Ok [] else rbind (pipe_content rest) (\<lambda>more. Ok (chunk @ more)))"

lemma take_to_end_content: "pipe_content rs = Ok content \<Longrightarrow> take_to_end n rs = Ok (take n content)"
proof (induction rs arbitrary: n content rule: pipe_content.induct)
  case (3 chunk rest)
  then show ?case by (cases "n = 0") (auto split: if_splits)
qed auto

lemma take_to_end_short: "take_to_end n rs = Ok content \<Longrightarrow> length content < n \<Longrightarrow> pipe_content rs = Ok content"
proof (induction rs arbitrary: n content rule: pipe_content.induct)
  case (3 chunk rest)
  show ?case
  proof (cases "chunk = []")
    case True
    with "3.prems" show ?thesis by (auto split: if_splits)
  next
    case False
    with "3.prems" obtain more where more: "take_to_end (n - length chunk) rest = Ok more"
        "content = take n chunk @ more"
      by auto
    with "3.prems"(2) have "length chunk < n" "length more < n - length chunk" by auto
    with "3.IH" [OF False more(1)] more(2) False show ?thesis by simp
  qed
qed (auto split: if_splits)

lemma drain_bounded_content:
  "length kept \<le> limit \<Longrightarrow> drain_bounded limit kept rs =
     rbind (pipe_content rs) (\<lambda>content. Ok (kept @ take (limit - length kept) content))"
proof (induction rs arbitrary: kept rule: pipe_content.induct)
  case (3 chunk rest)
  let ?kept = "kept @ take (min (length chunk) (limit - length kept)) chunk"
  have len: "length ?kept = min (length kept + length chunk) limit" using "3.prems" by simp
  have "take (limit - length kept) chunk = take (min (length chunk) (limit - length kept)) chunk"
    by (simp add: min_def)
  with "3.IH" [of ?kept] "3.prems" len show ?case
    by (cases "pipe_content rest") (auto simp: min_def)
qed auto

lemma run_output_bounded_result:
  fixes out :: process_output
  shows "run_output_bounded h c operation limit s = (Ok out, t) \<longleftrightarrow>
     (\<exists>child. oh_piped h c s = (Ok child, t) \<and> pc_wait child = Ok (Some 0) \<and> po_code out = Some 0
        \<and> pipe_content (pc_stdout child) = Ok (po_stdout out) \<and> length (po_stdout out) \<le> limit
        \<and> (\<exists>all_bytes. pipe_content (pc_stderr child) = Ok all_bytes
             \<and> po_stderr out = take MAX_SUBPROCESS_DIAGNOSTIC_BYTES all_bytes))"
    (is "?lhs \<longleftrightarrow> ?rhs")
proof
  assume ?lhs
  then obtain child stdout_bytes stderr_bytes where child: "oh_piped h c s = (Ok child, t)"
      and stdout: "take_to_end (limit + 1) (pc_stdout child) = Ok stdout_bytes" "length stdout_bytes \<le> limit"
      and wait: "pc_wait child = Ok (Some 0)"
      and stderr: "drain_bounded MAX_SUBPROCESS_DIAGNOSTIC_BYTES [] (pc_stderr child) = Ok stderr_bytes"
      and out: "out = \<lparr>po_code = Some 0, po_stdout = stdout_bytes, po_stderr = stderr_bytes\<rparr>"
    by (auto simp: run_output_bounded_def io_Ok)
  from take_to_end_short [OF stdout(1)] stdout(2) have "pipe_content (pc_stdout child) = Ok stdout_bytes"
    by simp
  with child stdout(2) wait stderr out show ?rhs by (auto simp: drain_bounded_content)
next
  assume ?rhs
  then obtain child all_bytes where child: "oh_piped h c s = (Ok child, t)" "pc_wait child = Ok (Some 0)"
      "pipe_content (pc_stdout child) = Ok (po_stdout out)" "length (po_stdout out) \<le> limit"
      "pipe_content (pc_stderr child) = Ok all_bytes" "po_code out = Some 0"
      "po_stderr out = take MAX_SUBPROCESS_DIAGNOSTIC_BYTES all_bytes"
    by blast
  then have "take_to_end (limit + 1) (pc_stdout child) = Ok (po_stdout out)"
    using take_to_end_content by fastforce
  with child show ?lhs
    by (cases out) (auto simp: run_output_bounded_def io_Ok drain_bounded_content)
qed

section \<open>Properties\<close>


lemma demo_reference:
  "normalize_source_reference ''ubuntu'' = Ok ''docker://docker.io/library/ubuntu:24.04''"
proof -
  have "\<not> list_ex is_whitespace (str_chars ''docker.io/library/ubuntu:24.04'')"
    by (rule ascii_no_whitespace) code_simp+
  then show ?thesis
    by (simp add: normalize_source_reference_def normalize_reference_def FORBIDDEN_LOCAL_TRANSPORTS_def)
qed

definition demo_source_digest :: string where "demo_source_digest = ''sha256:'' @ replicate 64 CHR ''b''"

lemma demo_source_digest_ok: "ensure_manifest_digest demo_source_digest = Ok ()"
  by (simp add: ensure_manifest_digest_Ok demo_source_digest_def is_ascii_hexdigit_def list_all_iff)


text \<open>C20: Host and guest agree on the environment of an image: the host's check of \<open>Config.Env\<close> accepts a list of
  entries exactly when the guest, which checks again what it is sent, accepts it, so no environment
  that was cached can make a session fail.\<close>

theorem image_environment_agreed:
  "validate_image_environment es = Ok () \<longleftrightarrow> (\<exists>env. parse_image_environment es = Ok env)"
  by (simp add: validate_image_environment_Ok parse_image_environment_Ok entry_fine_ok entries_size_def
      MAX_GUEST_ENVIRONMENT_ITEMS_def MAX_GUEST_ENVIRONMENT_BYTES_def MAX_ENVIRONMENT_ITEMS_def
      MAX_ENVIRONMENT_BYTES_def)

text \<open>C18: A program is put into a guest exactly when it is a static 64-bit x86 executable: the loop over its
  program headers never reads outside the file, and it answers as the declarative description does,
  for every file the kernel can hold.\<close>

theorem static_elf_exact:
  assumes "length c < 2 ^ 63"
  shows "static_x86_64_elf c = Ok () \<longleftrightarrow> static_elf c"
  using assms by (rule static_elf_result)

text \<open>One loadable header after the header of the file.\<close>

definition demo_elf :: string where
  "demo_elf = [CHR 0x7F, CHR ''E'', CHR ''L'', CHR ''F'', CHR 0x02, CHR 0x01] @ replicate 12 CHR 0x00
     @ [CHR 0x3E] @ replicate 13 CHR 0x00 @ [CHR 0x40] @ replicate 21 CHR 0x00 @ [CHR 0x38, CHR 0x00, CHR 0x01]
     @ replicate 7 CHR 0x00 @ [CHR 0x01] @ replicate 55 CHR 0x00"

theorem static_elf_exact_witness: "static_x86_64_elf demo_elf = Ok () \<and> length demo_elf = 120"
proof -
  have len: "length demo_elf = 120" by code_simp
  have header: "le_value 32 8 demo_elf = 64" "le_value 54 2 demo_elf = 56" "le_value 56 2 demo_elf = 1"
      "le_value 18 2 demo_elf = 62" "take 4 demo_elf = [CHR 0x7F, CHR ''E'', CHR ''L'', CHR ''F'']"
      "byte (demo_elf ! 4) = 2" "byte (demo_elf ! 5) = 1" "le_value 64 4 demo_elf = 1"
    by code_simp+
  then have "static_elf demo_elf"
    unfolding static_elf_def header_type_def by (simp add: len)
  with static_elf_exact [of demo_elf] len show ?thesis by simp
qed

text \<open>C21: The bounded capture of a program's output is exact: it succeeds exactly when the program ended well
  and printed at most the limit, and then gives all of it and nothing else, never a truncated part;
  the diagnostics are read to their end and kept up to their bound.\<close>

theorem bounded_output_exact:
  fixes out :: process_output
  shows "run_output_bounded h c operation limit s = (Ok out, t) \<longleftrightarrow>
     (\<exists>child. oh_piped h c s = (Ok child, t) \<and> pc_wait child = Ok (Some 0) \<and> po_code out = Some 0
        \<and> pipe_content (pc_stdout child) = Ok (po_stdout out) \<and> length (po_stdout out) \<le> limit
        \<and> (\<exists>all_bytes. pipe_content (pc_stderr child) = Ok all_bytes
             \<and> po_stderr out = take MAX_SUBPROCESS_DIAGNOSTIC_BYTES all_bytes))"
  by (rule run_output_bounded_result)

section \<open>Frames: directories stay, files stay\<close>

definition dirs_stay :: "os \<Rightarrow> os \<Rightarrow> bool" where
  "dirs_stay s t = (\<forall>p. fs_get (files s) p = Some Dir \<longrightarrow> fs_get (files t) p = Some Dir)"

interpretation dirs_stay: frame dirs_stay
  by unfold_locales (auto simp: dirs_stay_def existing_before)

end
