(* ===== verification/OciProvision.thy ===== *)
theory OciProvision
  imports OciFacts
begin

text \<open>
  The integration files \<open>provision_rootfs\<close> puts into an unpacked image: every directory they go through is a
  real one of the image's tree when they are written, whatever links the image contains, and nothing
  else changes.
\<close>

section \<open>Directories stay\<close>

lemma entry_at_node: "entry_at s p = Some e \<Longrightarrow> fs_get (files s) p = Some (e_node e)"
  by (auto simp: entry_at_def fs_get_def root_entry_def split: if_splits)

lemma dirs_put:
  "(p \<noteq> [] \<Longrightarrow> fs_get (files s) p = Some Dir \<Longrightarrow> e_node e = Dir) \<Longrightarrow> dirs_stay s (put_entry p e s)"
  by (auto simp: dirs_stay_def put_entry_def fs_get_def)

lemma dirs_del: "p = [] \<or> fs_get (files s) p \<noteq> Some Dir \<Longrightarrow> dirs_stay s (del_entry p s)"
  by (auto simp: dirs_stay_def del_entry_def fs_get_def)

lemma dirs_content: "dirs_stay s (set_content p c s)" "dirs_stay s (append_file p c s)"
  unfolding set_content_def append_file_def
  by (auto intro!: dirs_put simp: dirs_stay.refl fs_get_def split: option.splits node.splits if_splits)

lemma dirs_reads:
  "preserves dirs_stay (sys_lstat p)" "preserves dirs_stay (sys_open_nofollow p)" "preserves dirs_stay sys_nop"
  unfolding sys_lstat_def sys_open_nofollow_def sys_nop_def
  by (rule dirs_stay.syscall; auto simp: ret_def dirs_stay.refl split: option.splits node.splits)+

lemma dirs_new:
  "preserves dirs_stay (sys_create_new p m)" "preserves dirs_stay (sys_mkdir p)"
  "preserves dirs_stay (sys_symlink x p)"
  unfolding sys_create_new_def sys_mkdir_def sys_symlink_def
  by (rule dirs_stay.syscall; auto simp: dirs_stay.refl fs_get_def new_entry_def intro!: dirs_put)+

lemma dirs_unlink: "preserves dirs_stay (sys_unlink p)"
  unfolding sys_unlink_def
proof (rule dirs_stay.syscall)
  fix s
  show "dirs_stay s (snd (case entry_at s p of None \<Rightarrow> (Inl (Io ENOENT), s)
     | Some e \<Rightarrow> if e_node e = Dir then (Inl (Io (EOTHER 21)), s) else (Ok (), del_entry p s)))"
    using entry_at_node [of s p] by (auto simp: dirs_stay.refl split: option.splits intro!: dirs_del)
qed

lemma dirs_changes:
  "preserves dirs_stay (sys_copy_all p q)" "preserves dirs_stay (sys_chmod p m)"
  "preserves dirs_stay (sys_write p d)"
proof -
  show "preserves dirs_stay (sys_copy_all p q)"
    unfolding sys_copy_all_def by (rule dirs_stay.syscall) (simp add: dirs_content)
  show "preserves dirs_stay (sys_chmod p m)"
    unfolding sys_chmod_def
    by (rule dirs_stay.syscall)
      (auto simp: dirs_stay.refl fs_get_def split: sum.splits option.splits if_splits intro!: dirs_put)
  show "preserves dirs_stay (sys_write p d)"
    by (auto simp: preserves_def sys_write_def Let_def split: option.splits
        intro: dirs_stay.trans dirs_stay.before dirs_content)
qed

lemmas dirs_calls = dirs_reads dirs_new dirs_unlink dirs_changes

lemma dirs_files:
  "preserves dirs_stay (remove_replaceable_file p)" "preserves dirs_stay (copy_regular p q m)"
  "preserves dirs_stay (write_executable p c)" "preserves dirs_stay (make_dns_ephemeral p)"
proof -
  show replaceable: "preserves dirs_stay (remove_replaceable_file p)" for p
    unfolding remove_replaceable_file_def
    by (intro dirs_stay.combinators dirs_calls dirs_stay.case_sum; auto split: node.splits
        intro!: dirs_stay.combinators dirs_calls)
  show "preserves dirs_stay (copy_regular p q m)" "preserves dirs_stay (write_executable p c)"
    unfolding copy_regular_def write_executable_def
    by (intro dirs_stay.combinators dirs_calls replaceable)+
  show "preserves dirs_stay (make_dns_ephemeral p)"
    unfolding make_dns_ephemeral_def Let_def
    by (intro dirs_stay.combinators dirs_calls dirs_stay.case_sum; auto split: node.splits
        intro!: dirs_stay.combinators dirs_calls)
qed

section \<open>Real directories\<close>

lemma real_dir_stays: "real_dir (files s) p \<Longrightarrow> dirs_stay s t \<Longrightarrow> real_dir (files t) p"
  by (simp add: real_dir_def dirs_stay_def)

lemma walk_through:
  "(\<And>q. prefix q r \<Longrightarrow> fs_get fs (d @ q) = Some Dir) \<Longrightarrow>
     walk fs b d (map Normal r @ rest) = walk fs b (d @ r) rest"
proof (induction r arbitrary: d)
  case (Cons n r)
  have "fs_get fs (d @ [n]) = Some Dir" using Cons.prems [of "[n]"] by simp
  moreover have "fs_get fs ((d @ [n]) @ q) = Some Dir" if "prefix q r" for q
    using Cons.prems [of "n # q"] that by simp
  note Cons.IH [OF this]
  ultimately show ?case by simp
qed simp

text \<open>The kernel's lookup of a real directory, and of a file in it, stays there.\<close>

lemma real_dir_resolves: "real_dir fs p \<Longrightarrow> resolve fs p = Inr p"
  using walk_through [of p fs "[]" 40 "[]"] by (simp add: real_dir_def resolve_def)

lemma file_in_real_dir:
  assumes "real_dir fs p" and "fs_get fs (p @ [n]) = Some (File c)"
  shows "resolve fs (p @ [n]) = Inr (p @ [n])"
  using walk_through [of p fs "[]" 40 "[Normal n]"] assms by (simp add: real_dir_def resolve_def)

lemma lstat_dir_seen:
  assumes "sys_lstat p s = (Ok e, t)" and "e_node e = Dir"
  shows "fs_get (files t) p = Some Dir"
proof -
  from assms(1) have "t = before_call s" "entry_at t p = Some e"
    by (auto simp: sys_lstat_def syscall_Ok split: option.splits)
  with entry_at_node assms(2) show ?thesis by metis
qed

lemma mkdir_made: "sys_mkdir p s = (Ok u, t) \<Longrightarrow> fs_get (files t) p = Some Dir"
  by (auto simp: sys_mkdir_def syscall_Ok put_entry_def fs_get_def new_entry_def split: if_splits)

lemma safe_components_real:
  "safe_components d cs s = (Ok p, t) \<Longrightarrow> real_dir (files s) d \<Longrightarrow>
     (\<exists>r. cs = map Normal r \<and> p = d @ r) \<and> real_dir (files t) p"
proof (induction d cs arbitrary: s rule: safe_components.induct)
  case (1 d)
  then show ?case by (simp add: ret_Ok)
next
  case (2 d n rest)
  from "2.prems"(1) obtain r u v where lstat: "sys_lstat (d @ [n]) s = (r, u)"
      and step: "(case r of Inr md \<Rightarrow> io_ensure (e_node md = Dir) ''refusing OCI-controlled non-directory path'' (ret ())
          | Inl e \<Rightarrow> if e = Io ENOENT then sys_mkdir (d @ [n]) else fail e) u = (Ok (), v)"
      and rest: "safe_components (d @ [n]) rest v = (Ok p, t)"
    by (auto simp: bnd_Ok thn_Ok attempt_Ok)
  have "dirs_stay s u" using dirs_reads(1) lstat by (rule preservesD)
  moreover have "dirs_stay u v \<and> fs_get (files v) (d @ [n]) = Some Dir"
  proof (cases r)
    case (Inl e)
    with step have "sys_mkdir (d @ [n]) u = (Ok (), v)" by (auto simp: fail_Ok split: if_splits)
    with preservesD [OF dirs_new(2)] mkdir_made show ?thesis by blast
  next
    case (Inr md)
    with step have "e_node md = Dir" "v = u" by (simp_all add: io_ensure_Ok ret_Ok)
    with lstat_dir_seen lstat Inr dirs_stay.refl show ?thesis by blast
  qed
  ultimately have "real_dir (files v) (d @ [n])"
    using "2.prems"(2) real_dir_stays dirs_stay.trans by (blast intro: real_dir_snoc)
  from "2.IH" [OF rest this] show ?case
    by (auto intro: exI [where x = "n # _"])
qed (simp_all add: fail_Ok)


lemma preserves_safe:
  assumes "frame R" and "\<And>q. preserves R (sys_lstat q)" and "\<And>q. prefix root q \<Longrightarrow> preserves R (sys_mkdir q)"
  shows "preserves R (ensure_safe_directory root relative)"
proof -
  have "prefix root d \<Longrightarrow> preserves R (safe_components d cs)" for d cs
    by (induction d cs rule: safe_components.induct)
      (auto intro!: frame.combinators [OF assms(1)] frame.case_sum [OF assms(1)] assms(2,3)
        elim: prefix_order.trans)
  then show ?thesis
    unfolding ensure_safe_directory_def by (auto intro!: frame.combinators [OF assms(1)] assms(2))
qed

lemma dirs_safe: "preserves dirs_stay (ensure_safe_directory root relative)"
  by (rule preserves_safe [OF dirs_stay.frame_axioms]) (rule dirs_calls)+

lemma safe_directory_result:
  assumes "ensure_safe_directory root relative s = (Ok p, t)" and "real_dir (files s) root"
    and "components relative = map Normal r"
  shows "real_dir (files t) p" and "p = root @ r" and "dirs_stay s t"
proof -
  from assms(1) obtain md u where "sys_lstat root s = (Ok md, u)"
      and run: "safe_components root (components relative) u = (Ok p, t)"
    by (auto simp: ensure_safe_directory_def io_Ok)
  then have "real_dir (files u) root" using preservesD [OF dirs_reads(1)] real_dir_stays assms(2) by blast
  from safe_components_real [OF run this] assms(3) show "real_dir (files t) p" "p = root @ r"
    using inj_map_eq_map [of Normal] by (auto simp: inj_def)
  show "dirs_stay s t"
    using dirs_safe assms(1) by (rule preservesD)
qed

section \<open>What is at other paths stays\<close>

lemma keeps_files:
  assumes "q \<noteq> p"
  shows "preserves (keeps p n) (remove_replaceable_file q)" "preserves (keeps p n) (copy_regular r q m)"
    "preserves (keeps p n) (write_executable q c)"
proof -
  show replaceable: "preserves (keeps p n) (remove_replaceable_file q)"
    unfolding remove_replaceable_file_def
    by (intro keeps.combinators keeps_calls keeps.case_sum; use assms in \<open>auto split: node.splits
        intro!: keeps.combinators keeps_calls keeps_changes\<close>)
  show "preserves (keeps p n) (copy_regular r q m)" "preserves (keeps p n) (write_executable q c)"
    unfolding copy_regular_def write_executable_def
    by (intro keeps.combinators keeps_calls keeps_changes [OF assms] replaceable)+
qed

lemma keeps_dns: "etc @ [''resolv.conf''] \<noteq> p \<Longrightarrow> preserves (keeps p n) (make_dns_ephemeral etc)"
  unfolding make_dns_ephemeral_def Let_def
  by (intro keeps.combinators keeps_calls keeps.case_sum; auto split: node.splits
      intro!: keeps.combinators keeps_calls keeps_changes)


section \<open>What is written\<close>

lemma copied:
  assumes "sys_copy_all p q s = (Ok u, t)" and "fs_get (files s) p = Some (File c)"
    and "fs_get (files s) q = Some (File d)"
  shows "fs_get (files t) q = Some (File c)"
proof -
  have "fs_get (files (before_call s)) p = Some (File c)" "fs_get (files (before_call s)) q = Some (File d)"
    using assms(2,3) existing_before by blast+
  with assms(1) show ?thesis
    by (auto simp: sys_copy_all_def syscall_Ok content_at_def set_content_def put_entry_def fs_get_def
        split: option.splits if_splits)
qed

lemma linked: "sys_symlink x p s = (Ok u, t) \<Longrightarrow> fs_get (files t) p = Some (Link x)"
  by (auto simp: sys_symlink_def syscall_Ok put_entry_def fs_get_def new_entry_def split: if_splits)

lemma copy_regular_result:
  assumes run: "copy_regular src dst m s = (Ok u, t)" and "src \<noteq> dst"
    and content: "fs_get (files s) src = Some (File c)"
  shows "fs_get (files t) dst = Some (File c)"
proof -
  from run obtain md s1 u1 s2 md2 s3 u2 s4 u3 s5 u4 s6 where
      calls: "sys_lstat src s = (Ok md, s1)" "remove_replaceable_file dst s1 = (Ok u1, s2)"
        "sys_open_nofollow src s2 = (Ok md2, s3)"
      and create: "sys_create_new dst m s3 = (Ok u2, s4)" and copy: "sys_copy_all src dst s4 = (Ok u3, s5)"
      and after: "sys_nop s5 = (Ok u4, s6)" "sys_chmod dst m s6 = (Ok u, t)"
    by (auto simp: copy_regular_def io_Ok)
  have "fs_get (files s3) src = Some (File c)"
    using content keepsD [OF keeps_reads(1) calls(1)] keepsD [OF keeps_files(1) calls(2)]
      keepsD [OF keeps_reads(2) calls(3)] assms(2) by metis
  then have "fs_get (files s4) src = Some (File c)" by (rule keepsD [OF keeps_new(1) create])
  from copied [OF copy this created [OF create]] show ?thesis
    using keepsD [OF keeps_reads(6) after(1)] keepsD [OF keeps_chmod after(2)] by blast
qed

lemma write_executable_result:
  assumes "write_executable p c s = (Ok u, t)"
  shows "fs_get (files t) p = Some (File c)"
proof -
  from assms obtain s1 u2 s2 u3 s3 where create: "sys_create_new p 493 s1 = (Ok u2, s2)"
      and data: "sys_write p c s2 = (Ok u3, s3)" and nop: "sys_nop s3 = (Ok u, t)"
    by (auto simp: write_executable_def io_Ok)
  from written [OF data created [OF create]] show ?thesis
    using keepsD [OF keeps_reads(6) nop] by simp
qed

lemma dns_result:
  "make_dns_ephemeral etc s = (Ok u, t) \<Longrightarrow>
     fs_get (files t) (etc @ [''resolv.conf'']) = Some (Link ''/run/spawnr/resolv.conf'')"
  by (auto simp: make_dns_ephemeral_def Let_def bnd_Ok thn_Ok attempt_Ok dest!: linked)

section \<open>All of it\<close>

context frame
begin

lemma bnd_result:
  "preserves R m \<Longrightarrow> (\<And>x s t. m s = (Ok x, t) \<Longrightarrow> preserves R (f x)) \<Longrightarrow> preserves R (bnd m f)"
  unfolding preserves_def bnd_def
  by (auto split: prod.splits sum.splits) (metis snd_conv trans)+

end

lemma safe_components_below: "safe_components d cs s = (Ok p, t) \<Longrightarrow> prefix d p"
  by (induction d cs arbitrary: s rule: safe_components.induct)
    (fastforce simp: io_Ok intro: prefix_order.trans [of _ "_ @ [_]"])+

lemma outside_provision: "preserves (outside {q. prefix rootfs q}) (provision_rootfs h t rootfs)"
proof -
  let ?R = "outside {q. prefix rootfs q}"
  have copy: "preserves ?R (sys_copy_all r q)" if "prefix rootfs q" for r q
    unfolding sys_copy_all_def
    by (rule outside.syscall)
      (use that in \<open>auto simp: set_content_def intro!: outside_step split: option.splits node.splits\<close>)
  note calls = outside_reads outside_meta outside_writes outside_symlink copy
  have replaceable: "preserves ?R (remove_replaceable_file q)" if "prefix rootfs q" for q
    unfolding remove_replaceable_file_def
    by (intro outside.combinators calls outside.case_sum; use that in \<open>auto split: node.splits
        intro!: outside.combinators calls\<close>)
  have regular: "preserves ?R (copy_regular r q m)" "preserves ?R (write_executable q c)"
    if "prefix rootfs q" for r q m c
    unfolding copy_regular_def write_executable_def
    using that by (auto intro!: outside.combinators calls replaceable)
  have dns: "preserves ?R (make_dns_ephemeral q)" if "prefix rootfs q" for q
    unfolding make_dns_ephemeral_def Let_def
    by (intro outside.combinators calls outside.case_sum; use that in \<open>auto split: node.splits
        intro!: outside.combinators calls\<close>)
  have safe: "preserves ?R (ensure_safe_directory rootfs x)" for x
    by (rule preserves_safe [OF outside.frame_axioms]) (auto intro!: calls)
  have below: "prefix rootfs d" if "ensure_safe_directory rootfs x s = (Ok d, t)" for x s d t
    using that safe_components_below by (auto simp: ensure_safe_directory_def io_Ok)
  show ?thesis
    unfolding provision_rootfs_def
    by (intro outside.bnd_result outside.combinators regular safe dns; use below in \<open>auto dest!: below\<close>)
qed


lemma provision_result:
  assumes run: "provision_rootfs h t rootfs s = (Ok (), u)" and root: "real_dir (files s) rootfs"
    and agent: "fs_get (files s) (ot_agent t) = Some (File a)" "\<not> prefix rootfs (ot_agent t)"
    and busybox: "fs_get (files s) (ot_busybox t) = Some (File b)" "\<not> prefix rootfs (ot_busybox t)"
  defines "libexec \<equiv> rootfs @ [''usr'', ''libexec'']"
  shows "real_dir (files u) libexec" and "real_dir (files u) (rootfs @ [''workspace''])"
    and "real_dir (files u) (rootfs @ [''run'', ''spawnr''])"
    and "fs_get (files u) (libexec @ [''spawnr-agent'']) = Some (File a)"
    and "fs_get (files u) (libexec @ [''spawnr-busybox'']) = Some (File b)"
    and "fs_get (files u) (libexec @ [''spawnr-udhcpc'']) = Some (File (oh_udhcpc h))"
    and "fs_get (files u) (rootfs @ [''etc'', ''resolv.conf'']) = Some (Link ''/run/spawnr/resolv.conf'')"
proof -
  let ?agent = "libexec @ [''spawnr-agent'']" and ?busybox = "libexec @ [''spawnr-busybox'']"
    and ?dhcp = "libexec @ [''spawnr-udhcpc'']"
  have cs: "components ''usr/libexec'' = map Normal [''usr'', ''libexec'']"
      "components ''workspace'' = map Normal [''workspace'']"
      "components ''run/spawnr'' = map Normal [''run'', ''spawnr'']" "components ''etc'' = map Normal [''etc'']"
    by code_simp+
  from run obtain d1 d2 d3 d4 s1 s2 s3 s4 s5 s6 s7 where
      dir1: "ensure_safe_directory rootfs ''usr/libexec'' s = (Ok d1, s1)"
      and c1: "copy_regular (ot_agent t) (d1 @ [''spawnr-agent'']) 2541 s1 = (Ok (), s2)"
      and c2: "copy_regular (ot_busybox t) (d1 @ [''spawnr-busybox'']) 493 s2 = (Ok (), s3)"
      and c3: "write_executable (d1 @ [''spawnr-udhcpc'']) (oh_udhcpc h) s3 = (Ok (), s4)"
      and dir2: "ensure_safe_directory rootfs ''workspace'' s4 = (Ok d2, s5)"
      and dir3: "ensure_safe_directory rootfs ''run/spawnr'' s5 = (Ok d3, s6)"
      and dir4: "ensure_safe_directory rootfs ''etc'' s6 = (Ok d4, s7)"
      and dns: "make_dns_ephemeral d4 s7 = (Ok (), u)"
    by (auto simp: provision_rootfs_def bnd_Ok thn_Ok)
  note r1 = safe_directory_result [OF dir1 root cs(1)]
  have d1: "d1 = libexec" using r1(2) by (simp add: libexec_def)
  note c = c1 [unfolded d1] c2 [unfolded d1] c3 [unfolded d1]
  have "dirs_stay s1 s4"
    using preservesD [OF dirs_files(2) c(1)] preservesD [OF dirs_files(2) c(2)] preservesD [OF dirs_files(3) c(3)]
      dirs_stay.trans by blast
  then have real4: "real_dir (files s4) rootfs" "real_dir (files s4) libexec"
    using real_dir_stays root r1 d1 dirs_stay.trans by blast+
  note r2 = safe_directory_result [OF dir2 real4(1) cs(2)]
  note r3 = safe_directory_result [OF dir3 real_dir_stays [OF real4(1) r2(3)] cs(3)]
  have real6: "real_dir (files s6) rootfs" using real4(1) r2(3) r3(3) real_dir_stays by blast
  note r4 = safe_directory_result [OF dir4 real6 cs(4)]
  have last: "dirs_stay s7 u" using dirs_files(4) dns by (rule preservesD)
  show "real_dir (files u) libexec" using real4(2) r2(3) r3(3) r4(3) last real_dir_stays by blast
  show "real_dir (files u) (rootfs @ [''workspace''])" using r2(1,2) r3(3) r4(3) last real_dir_stays by blast
  show "real_dir (files u) (rootfs @ [''run'', ''spawnr''])" using r3(1,2) r4(3) last real_dir_stays by blast
  show "fs_get (files u) (rootfs @ [''etc'', ''resolv.conf'']) = Some (Link ''/run/spawnr/resolv.conf'')"
    using dns_result [OF dns] r4(2) by simp
  have safe: "preserves (keeps p (File x)) (ensure_safe_directory rootfs y)" for p x y
    by (rule preserves_safe [OF keeps.frame_axioms]) (rule keeps_calls)+
  have rest: "fs_get (files u) (libexec @ [n]) = Some (File x)"
    if "fs_get (files s4) (libexec @ [n]) = Some (File x)" for n x
  proof -
    have "d4 @ [''resolv.conf''] \<noteq> libexec @ [n]" by (simp add: r4(2) libexec_def)
    note dns = keepsD [OF keeps_dns [OF this] dns]
    show ?thesis
      by (rule dns, rule keepsD [OF safe dir4], rule keepsD [OF safe dir3], rule keepsD [OF safe dir2 that])
  qed
  have outside: "libexec @ [n] \<noteq> ot_agent t" "libexec @ [n] \<noteq> ot_busybox t" for n
    using agent(2) busybox(2) by (metis append.assoc libexec_def prefixI)+
  have a2: "fs_get (files s2) ?agent = Some (File a)"
    using outside by (intro copy_regular_result [OF c(1) _ keepsD [OF safe dir1 agent(1)]]) metis
  have "fs_get (files s2) (ot_busybox t) = Some (File b)"
    using outside by (intro keepsD [OF keeps_files(2) c(1) keepsD [OF safe dir1 busybox(1)]])
  then have b3: "fs_get (files s3) ?busybox = Some (File b)"
    using outside by (intro copy_regular_result [OF c(2)]) metis+
  have "fs_get (files s4) ?agent = Some (File a)"
    using a2 keepsD [OF keeps_files(2) c(2)] keepsD [OF keeps_files(3) c(3)] by simp
  then show "fs_get (files u) ?agent = Some (File a)" by (rule rest)
  have "fs_get (files s4) ?busybox = Some (File b)"
    using b3 keepsD [OF keeps_files(3) c(3)] by simp
  then show "fs_get (files u) ?busybox = Some (File b)" by (rule rest)
  show "fs_get (files u) ?dhcp = Some (File (oh_udhcpc h))"
    by (rule rest [OF write_executable_result [OF c(3)]])
qed


text \<open>C11: When the integration files have been put into an unpacked image, each of them is, for every later
  lookup by the kernel, at its place in the image's tree and holds exactly the bytes of the host's
  program, though the image was free to put links anywhere; name resolution is a link into the
  session; and nothing outside the tree of the image has changed.\<close>

theorem integration_contained:
  assumes "provision_rootfs h t rootfs s = (Ok (), u)" and "real_dir (files s) rootfs"
    and "fs_get (files s) (ot_agent t) = Some (File a)" and "\<not> prefix rootfs (ot_agent t)"
    and "fs_get (files s) (ot_busybox t) = Some (File b)" and "\<not> prefix rootfs (ot_busybox t)"
  shows "resolve (files u) (rootfs @ [''usr'', ''libexec'', ''spawnr-agent''])
           = Inr (rootfs @ [''usr'', ''libexec'', ''spawnr-agent''])
    \<and> fs_get (files u) (rootfs @ [''usr'', ''libexec'', ''spawnr-agent'']) = Some (File a)
    \<and> resolve (files u) (rootfs @ [''usr'', ''libexec'', ''spawnr-busybox''])
           = Inr (rootfs @ [''usr'', ''libexec'', ''spawnr-busybox''])
    \<and> fs_get (files u) (rootfs @ [''usr'', ''libexec'', ''spawnr-busybox'']) = Some (File b)
    \<and> fs_get (files u) (rootfs @ [''usr'', ''libexec'', ''spawnr-udhcpc'']) = Some (File (oh_udhcpc h))
    \<and> resolve (files u) (rootfs @ [''run'', ''spawnr'']) = Inr (rootfs @ [''run'', ''spawnr''])
    \<and> resolve (files u) (rootfs @ [''workspace'']) = Inr (rootfs @ [''workspace''])
    \<and> fs_get (files u) (rootfs @ [''etc'', ''resolv.conf'']) = Some (Link ''/run/spawnr/resolv.conf'')
    \<and> outside {q. prefix rootfs q} s u"
proof -
  note result = provision_result [OF assms]
  have "outside {q. prefix rootfs q} s u" using outside_provision assms(1) by (rule preservesD)
  then show ?thesis
    using result(5-) real_dir_resolves [OF result(2)] real_dir_resolves [OF result(3)]
      file_in_real_dir [OF result(1,4)] file_in_real_dir [OF result(1,5)] result(4)
    by simp
qed

definition demo_rootfs :: os where
  "demo_rootfs = demo_os (map_of
     [([''r''], private_dir), ([''r'', ''usr''], private_dir), ([''r'', ''etc''], private_dir),
      ([''r'', ''etc'', ''resolv.conf''], private_dir\<lparr>e_node := Link ''/etc/passwd''\<rparr>),
      ([''agent''], private_dir\<lparr>e_node := File ''A''\<rparr>), ([''busybox''], private_dir\<lparr>e_node := File ''B''\<rparr>)])"

definition demo_tools :: oci_tools where
  "demo_tools = \<lparr>ot_skopeo = [''skopeo''], ot_ca_certificates = None, ot_umoci = [''umoci''],
     ot_unshare = [''unshare''], ot_mkfs_ext4 = [''mkfs''], ot_du = [''du''], ot_agent = [''agent''],
     ot_busybox = [''busybox'']\<rparr>"

lemma demo_provision: "fst (provision_rootfs h demo_tools [''r''] demo_rootfs) = Ok ()"
proof -
  have cs: "components ''usr/libexec'' = map Normal [''usr'', ''libexec'']"
      "components ''workspace'' = map Normal [''workspace'']"
      "components ''run/spawnr'' = map Normal [''run'', ''spawnr'']" "components ''etc'' = map Normal [''etc'']"
    by code_simp+
  show ?thesis
    by (simp add: provision_rootfs_def ensure_safe_directory_def cs io_run demo_rootfs_def demo_os_def
        private_dir_def demo_tools_def copy_regular_def write_executable_def make_dns_ephemeral_def
        remove_replaceable_file_def sys_copy_all_def content_at_def set_content_def sys_symlink_def Let_def)
qed

theorem integration_contained_witness:
  "\<forall>h. \<exists>u. provision_rootfs h demo_tools [''r''] demo_rootfs = (Ok (), u)
     \<and> fs_get (files u) [''r'', ''usr'', ''libexec'', ''spawnr-agent''] = Some (File ''A'')"
proof
  fix h :: "'v oci_host"
  let ?r = "provision_rootfs h demo_tools [''r''] demo_rootfs"
  have run: "?r = (Ok (), snd ?r)" using demo_provision by (metis prod.collapse)
  have n: "prefix q [''r''] \<Longrightarrow> q = [] \<or> q = [''r'']" for q by (cases q) auto
  have "real_dir (files demo_rootfs) [''r'']"
    by (auto simp: real_dir_def dest!: n) (simp_all add: demo_rootfs_def demo_os_def private_dir_def fs_get_def)
  from integration_contained [OF run this, of "''A''" "''B''"] run
  show "\<exists>u. ?r = (Ok (), u) \<and> fs_get (files u) [''r'', ''usr'', ''libexec'', ''spawnr-agent''] = Some (File ''A'')"
    by (auto simp: demo_rootfs_def demo_os_def private_dir_def fs_get_def demo_tools_def)
qed

end
