(* ===== verification/OciCache.thy ===== *)
theory OciCache
  imports OciProvision ImageCopy RuntimeFacts
begin

text \<open>
  The cache of environments: whatever \<open>prepare_environment\<close> hands out, from the cache or newly built, is a
  disk image beside metadata that name the digest that was asked for.
\<close>

text \<open>What the program relies on for \<open>rm -rf --\<close>: it changes nothing outside the tree it is given.\<close>

definition rm_stays_below :: "'v oci_host \<Rightarrow> bool" where
  "rm_stays_below h = (\<forall>unshare rm p q n. \<not> prefix p q \<longrightarrow>
     preserves (keeps q n) (oh_output h (mapped_command unshare rm [''-rf'', ''--'', display p])))"

definition cache_entry :: "prepared_metadata codec \<Rightarrow> path \<Rightarrow> string \<Rightarrow> string \<Rightarrow> os \<Rightarrow> bool" where
  "cache_entry c cache digest cache_key s =
     (\<exists>d b m. fs_get (files s) (cache @ [CACHE_DISK]) = Some (File d) \<and> is_ext4 d
        \<and> fs_get (files s) (cache @ [CACHE_METADATA]) = Some (File b) \<and> dec c b = Some m
        \<and> validate_prepared_metadata m True = Ok () \<and> pm_source_digest m = digest \<and> pm_cache_key m = cache_key)"

section \<open>What a read has seen\<close>

lemma read_now: "sys_read p s = (Ok c, t) \<Longrightarrow> fs_get (files t) p = Some (File c)"
  by (auto simp: sys_read_def syscall_Ok entry_at_def fs_get_def root_entry_def
      split: option.splits node.splits if_splits)

lemma validate_ext4_seen:
  "validate_ext4_image p s = (Ok u, t) \<Longrightarrow> \<exists>d. fs_get (files t) p = Some (File d) \<and> is_ext4 d"
  by (auto simp: validate_ext4_image_def io_Ok Let_def dest!: read_now intro!: ext4_magic split: if_splits)

lemma read_metadata_seen:
  "read_prepared_metadata c p s = (Ok m, t) \<Longrightarrow> \<exists>b. fs_get (files t) p = Some (File b) \<and> dec c b = Some m"
  by (auto simp: read_prepared_metadata_def io_Ok Let_def dest!: read_now)

section \<open>Calls that keep a file\<close>

lemma keeps_texts: "preserves (keeps p n) (sys_metadata_text x)" "preserves (keeps p n) (sys_canonicalize_text x)"
  unfolding sys_metadata_text_def sys_canonicalize_text_def
  by (rule keeps.syscall; auto simp: keeps.refl split: option.splits sum.splits)+

lemma keeps_find: "preserves (keeps p n) (find_executable x)"
proof -
  have "preserves (keeps p n) (first_executable ts)" for ts
    by (induction ts)
      (auto simp: validate_executable_def intro!: keeps.combinators keeps.case_sum keeps_texts)
  then show ?thesis
    unfolding find_executable_def env_var_def by (intro keeps.combinators keeps.case_option)
qed

lemma keeps_exists: "preserves (keeps p n) (sys_exists x)" and keeps_sync: "preserves (keeps p n) (sync_directory x)"
  unfolding sys_exists_def sync_directory_def by (intro keeps.combinators keeps_reads)+

lemma keeps_remove_mapped:
  assumes "rm_stays_below h" and "\<not> prefix q p"
  shows "preserves (keeps p n) (remove_tree_mapped h t q)"
  unfolding remove_tree_mapped_def
  using assms(1) [unfolded rm_stays_below_def, rule_format, OF assms(2)]
  by (intro keeps.combinators keeps_exists keeps_find keeps.case_option)

lemma keeps_read_metadata: "preserves (keeps p n) (read_prepared_metadata c q)"
  unfolding read_prepared_metadata_def Let_def sys_fstat_def
  by (intro keeps.combinators keeps_reads keeps.case_option)

lemma keeps_write_json: "q \<noteq> p \<Longrightarrow> preserves (keeps p n) (write_json_file b q)"
  unfolding write_json_file_def by (intro keeps.combinators keeps_calls keeps_changes)

lemma write_json_result:
  assumes "write_json_file b p s = (Ok u, t)"
  shows "fs_get (files t) p = Some (File (b @ newline))"
proof -
  from assms obtain s1 u1 u2 s2 u3 s3 where create: "sys_create_new p 384 s = (Ok u1, s1)"
      and data: "sys_write p b s1 = (Ok u2, s2)" and line: "sys_write p newline s2 = (Ok u3, s3)"
      and nop: "sys_nop s3 = (Ok u, t)"
    by (auto simp: write_json_file_def io_Ok)
  from written [OF line written [OF data created [OF create]]] show ?thesis
    using keepsD [OF keeps_reads(6) nop] by simp
qed

section \<open>An entry that is there\<close>

lemma valid_cache_entry:
  assumes "valid_cache c cache (cache @ [CACHE_DISK]) digest cache_key s = (Ok True, t)"
  shows "cache_entry c cache digest cache_key t"
proof -
  from assms obtain s1 s2 u m where ext4: "validate_ext4_image (cache @ [CACHE_DISK]) s1 = (Ok u, s2)"
      and read: "read_prepared_metadata c (cache @ [CACHE_METADATA]) s2 = (Ok m, t)"
      and m: "is_ok (validate_prepared_metadata m True)" "pm_source_digest m = digest" "pm_cache_key m = cache_key"
    by (auto simp: valid_cache_def bnd_Ok ret_Ok attempt_Ok is_ok_iff case_sum_Ok split: if_splits)
  from validate_ext4_seen [OF ext4] obtain d where "fs_get (files s2) (cache @ [CACHE_DISK]) = Some (File d)"
      "is_ext4 d"
    by blast
  with keepsD [OF keeps_read_metadata read] read_metadata_seen [OF read] m show ?thesis
    by (auto simp: cache_entry_def is_ok_iff)
qed

section \<open>A new entry\<close>

lemma inspected_environment:
  "inspect_image_environment h t x s = (Ok es, u) \<Longrightarrow> validate_image_environment es = Ok ()"
  by (auto simp: inspect_image_environment_def io_Ok parse_image_environment_json_def Let_def)

lemma make_disk_result:
  "make_disk h t rootfs disk s = (Ok u, v) \<Longrightarrow> \<exists>d. fs_get (files v) disk = Some (File d) \<and> is_ext4 d"
  by (auto simp: make_disk_def bnd_Ok thn_Ok dest!: validate_ext4_seen)

lemma build_cache_entry:
  assumes run: "build_cache h t tmp reference user digest key s = (Ok u, v)"
    and codec: "codec_ok (oh_metadata h)" and rm: "rm_stays_below h"
    and ok: "normalize_source_reference user = Ok reference" "ensure_manifest_digest digest = Ok ()"
      "ensure_hex_digest key = Ok ()"
  shows "cache_entry (oh_metadata h) tmp digest key v"
proof -
  let ?disk = "tmp @ [CACHE_DISK]" and ?meta = "tmp @ [CACHE_METADATA]" and ?unpacked = "tmp @ [''bundle'']"
  let ?m = "\<lambda>es. \<lparr>pm_source_reference = user, pm_source_digest = digest, pm_cache_key = key,
     pm_architecture = ''amd64'', pm_os = ''linux'', pm_config_env = Some es\<rparr>"
  from run obtain es s1 s2 s3 s4 s5 s6 where
      env: "inspect_image_environment h t (''oci:'' @ base_image (tmp @ [''layout''])) s1 = (Ok es, s2)"
      and disk: "make_disk h t (?unpacked @ [''rootfs'']) ?disk s3 = (Ok (), s4)"
      and meta: "write_json_file (enc (oh_metadata h) (?m es)) ?meta s4 = (Ok (), s5)"
      and clean: "remove_tree_mapped h t ?unpacked s5 = (Ok (), s6)" and sync: "sync_directory tmp s6 = (Ok u, v)"
    by (auto simp: build_cache_def Let_def bnd_Ok thn_Ok)
  have below: "\<not> prefix ?unpacked ?disk" "\<not> prefix ?unpacked ?meta" and other: "?meta \<noteq> ?disk"
    by (simp_all add: CACHE_DISK_def CACHE_METADATA_def)
  from make_disk_result [OF disk] obtain d where d: "fs_get (files s4) ?disk = Some (File d)" "is_ext4 d"
    by blast
  have "fs_get (files v) ?disk = Some (File d)"
    by (rule keepsD [OF keeps_sync sync], rule keepsD [OF keeps_remove_mapped [OF rm below(1)] clean],
        rule keepsD [OF keeps_write_json [OF other] meta d(1)])
  moreover have "fs_get (files v) ?meta = Some (File (enc (oh_metadata h) (?m es) @ newline))"
    by (rule keepsD [OF keeps_sync sync], rule keepsD [OF keeps_remove_mapped [OF rm below(2)] clean],
        rule write_json_result [OF meta])
  moreover have "dec (oh_metadata h) (enc (oh_metadata h) (?m es) @ newline) = Some (?m es)"
    using codec by (simp add: codec_ok_def)
  moreover have "validate_prepared_metadata (?m es) True = Ok ()"
    using ok inspected_environment [OF env] by (simp add: validate_prepared_metadata_def)
  ultimately show ?thesis using d(2) unfolding cache_entry_def by fastforce
qed

lemma rename_dir_moves:
  assumes "sys_rename_dir ls a b s = (Ok u, t)" and "fs_get (files s) (a @ [n]) = Some x"
  shows "fs_get (files t) (b @ [n]) = Some x"
  using assms(1) existing_before [OF assms(2)]
  by (auto simp: sys_rename_dir_def syscall_Ok move_tree_def fs_get_def split: option.splits if_splits)

lemma cache_entry_move:
  assumes "cache_entry c a digest key s" and "sys_rename_dir ls a b s = (Ok u, t)"
  shows "cache_entry c b digest key t"
  using assms(1) rename_dir_moves [OF assms(2)] unfolding cache_entry_def by blast

lemma cache_entry_keeps:
  assumes "cache_entry c a digest key s" and "m s = (r, t)" and "\<And>p n. preserves (keeps p n) m"
  shows "cache_entry c a digest key t"
  using assms(1) keepsD [OF assms(3,2)] unfolding cache_entry_def by blast

lemma prepare_cached_result:
  assumes run: "prepare_cached h t data reference user digest key s = (Ok disk, u)"
    and "codec_ok (oh_metadata h)" and "rm_stays_below h"
    and "normalize_source_reference user = Ok reference" and "ensure_manifest_digest digest = Ok ()"
    and "ensure_hex_digest key = Ok ()"
  shows "disk = images_dir data @ [key, CACHE_DISK]
    \<and> cache_entry (oh_metadata h) (images_dir data @ [key]) digest key u"
proof -
  let ?cache = "images_dir data @ [key]"
  have hit: "cache_entry (oh_metadata h) ?cache digest key u"
    if "valid_cache (oh_metadata h) ?cache (images_dir data @ [key, CACHE_DISK]) digest key v = (Ok True, u)" for v
    using valid_cache_entry [of _ ?cache] that by simp
  have fill: "disk = images_dir data @ [key, CACHE_DISK] \<and> cache_entry (oh_metadata h) ?cache digest key u"
    if "fill_cache h t data reference user digest key v = (Ok disk, u)" for v
  proof -
    from that obtain tmp v1 v2 v3 w1 w2 w3 where
        build: "build_cache h t tmp reference user digest key v1 = (Ok w1, v2)"
        and rename: "sys_rename_dir (in_ls (oh_installer h)) tmp ?cache v2 = (Ok w2, v3)"
        and sync: "sync_directory (images_dir data) v3 = (Ok w3, u)" and "disk = images_dir data @ [key, CACHE_DISK]"
      by (auto simp: fill_cache_def Let_def bnd_Ok thn_Ok on_error_Ok ret_Ok)
    with cache_entry_keeps [OF cache_entry_move [OF build_cache_entry [OF build assms(2-)] rename] sync keeps_sync]
    show ?thesis by blast
  qed
  from run hit fill show ?thesis
    by (auto simp: prepare_cached_def Let_def bnd_Ok thn_Ok io_ensure_Ok ret_Ok split: if_splits)
qed


section \<open>A concrete cache\<close>

definition pc_prepared :: "prepared_metadata pcodec" where
  "pc_prepared =
     pc_map (\<lambda>(a, b, c, d, e, f). prepared_metadata.make a b c d e f)
       (\<lambda>m. (pm_source_reference m, pm_source_digest m, pm_cache_key m, pm_architecture m, pm_os m,
             pm_config_env m))
       (pc_pair pc_string (pc_pair pc_string (pc_pair pc_string (pc_pair pc_string
         (pc_pair pc_string (pc_option (pc_list pc_string)))))))"

lemma pc_ok_prepared: "pc_ok pc_prepared"
  unfolding pc_prepared_def by (intro pc_ok_rules pc_ok_option) (simp add: prepared_metadata.make_def)

definition demo_key :: string where "demo_key = replicate 64 CHR ''a''"
definition demo_prepared :: prepared_metadata where
  "demo_prepared = \<lparr>pm_source_reference = ''ubuntu'', pm_source_digest = demo_source_digest,
     pm_cache_key = demo_key, pm_architecture = ''amd64'', pm_os = ''linux'',
     pm_config_env = Some [''PATH=/bin'']\<rparr>"

definition demo_oci_host :: "(nat \<times> nat \<times> nat) oci_host" where
  "demo_oci_host =
     \<lparr>oh_installer = demo_installer, oh_output = (\<lambda>_. ret \<lparr>po_code = Some 0, po_stdout = [], po_stderr = []\<rparr>),
      oh_piped = (\<lambda>_. ret \<lparr>pc_stdout = [], pc_stderr = [], pc_wait = Ok (Some 0)\<rparr>),
      oh_metadata = codec_of pc_prepared, oh_env_json = (\<lambda>_. Some None), oh_exe = None,
      oh_version = ''0.1.5'', oh_udhcpc = ''#!/bin/sh'', oh_platform = (''linux'', ''x86_64'')\<rparr>"

definition demo_cache :: os where
  "demo_cache =
     (let cache = [''d'', ''images'', demo_key]
      in demo_os (map_of
        [([''d''], private_dir), ([''d'', ''images''], private_dir), (cache, private_dir),
         (cache @ [CACHE_DISK], private_dir\<lparr>e_node := File demo_image\<rparr>),
         (cache @ [CACHE_METADATA], private_dir\<lparr>e_node := File (penc pc_prepared demo_prepared)\<rparr>)]))"

lemma demo_cache_quiet: "sched demo_cache = []" "listening demo_cache = {}"
  by (simp_all add: demo_cache_def demo_os_def Let_def)

lemma demo_cache_files:
  "files demo_cache [''d''] = Some private_dir" "files demo_cache [''d'', ''images''] = Some private_dir"
  "files demo_cache [''d'', ''images'', demo_key] = Some private_dir"
  "files demo_cache [''d'', ''images'', demo_key, CACHE_DISK] = Some (private_dir\<lparr>e_node := File demo_image\<rparr>)"
  "files demo_cache [''d'', ''images'', demo_key, CACHE_METADATA]
     = Some (private_dir\<lparr>e_node := File (penc pc_prepared demo_prepared)\<rparr>)"
  by (simp_all add: demo_cache_def demo_os_def Let_def CACHE_DISK_def CACHE_METADATA_def)

lemma penc_short:
  "n < 1000 \<Longrightarrow> length (penc pc_nat n) \<le> 4"
  "length x < 1000 \<Longrightarrow> length (penc pc_string x) \<le> length x + 4"
proof -
  show nat: "n < 1000 \<Longrightarrow> length (penc pc_nat n) \<le> 4" for n
    using length_decimal [of n 3] by (simp add: pc_nat_def)
  have "concat (map (penc pc_char) x) = x" by (induction x) (simp_all add: pc_char_def)
  with nat [of "length x"] show "length x < 1000 \<Longrightarrow> length (penc pc_string x) \<le> length x + 4"
    by (simp add: pc_string_def pc_list_def)
qed

lemma demo_prepared_short: "length (penc pc_prepared demo_prepared) \<le> MAX_GUEST_ENVIRONMENT_JSON_BYTES"
proof -
  have "length (penc pc_prepared demo_prepared) \<le> 300"
    using penc_short(1) [of 1] penc_short(2) [of demo_source_digest] penc_short(2) [of demo_key]
      penc_short(2) [of "''ubuntu''"] penc_short(2) [of "''amd64''"] penc_short(2) [of "''linux''"]
      penc_short(2) [of "''PATH=/bin''"]
    by (simp add: pc_prepared_def pc_map_def pc_pair_def pc_option_def pc_list_def demo_prepared_def
        demo_source_digest_def demo_key_def)
  then show ?thesis by (simp add: MAX_GUEST_ENVIRONMENT_JSON_BYTES_def)
qed

lemma demo_key_ok: "ensure_hex_digest demo_key = Ok ()"
  by (simp add: demo_key_def is_ascii_hexdigit_def list_all_iff)

lemmas demo_digests = demo_source_digest_ok demo_key_ok

lemma demo_prepared_valid: "validate_prepared_metadata demo_prepared True = Ok ()"
proof -
  have "validate_image_environment [''PATH=/bin''] = Ok ()"
    by (simp add: validate_image_environment_Ok MAX_GUEST_ENVIRONMENT_ITEMS_def MAX_GUEST_ENVIRONMENT_BYTES_def
        entry_fine_def)
  with demo_reference demo_digests show ?thesis
    by (simp add: validate_prepared_metadata_def demo_prepared_def)
qed

lemma demo_read_metadata:
  "read_prepared_metadata (codec_of pc_prepared) [''d'', ''images'', demo_key, CACHE_METADATA] demo_cache
     = (Ok demo_prepared, demo_cache)"
proof -
  have "dec (codec_of pc_prepared) (penc pc_prepared demo_prepared) = Some demo_prepared"
    using codec_ok_of [OF pc_ok_prepared] by (simp add: codec_ok_def) (simp add: codec_of_def)
  with demo_prepared_short show ?thesis
    by (simp add: read_prepared_metadata_def io_run demo_cache_quiet demo_cache_files node_len_def Let_def)
qed

lemma demo_hit:
  "prepare_cached demo_oci_host demo_tools [''d''] ''docker://docker.io/library/ubuntu:24.04'' ''ubuntu''
     demo_source_digest demo_key demo_cache = (Ok [''d'', ''images'', demo_key, CACHE_DISK], demo_cache)"
proof -
  have "validate_ext4_image [''d'', ''images'', demo_key, CACHE_DISK] demo_cache = (Ok (), demo_cache)"
    by (simp add: validate_ext4_image_def open_existing_regular_def io_run demo_cache_quiet demo_cache_files
        Let_def demo_image_def)
  moreover have "sys_exists [''d'', ''images'', demo_key] demo_cache = (Ok True, demo_cache)"
  proof -
    have cases: "prefix q [''d'', ''images'', demo_key] \<Longrightarrow>
        q = [] \<or> q = [''d''] \<or> q = [''d'', ''images''] \<or> q = [''d'', ''images'', demo_key]" for q
      by (auto simp: prefix_Cons)
    have "real_dir (files demo_cache) [''d'', ''images'', demo_key]"
      unfolding real_dir_def
    proof (intro allI impI)
      fix q assume "prefix q [''d'', ''images'', demo_key]"
      with cases [OF this] show "fs_get (files demo_cache) q = Some Dir"
        by (auto simp: fs_get_def demo_cache_files private_dir_def)
    qed
    from real_dir_resolves [OF this] show ?thesis
      by (simp add: sys_exists_def sys_metadata_def bnd_def attempt_def ret_def entry_at_def demo_cache_quiet
          demo_cache_files)
  qed
  ultimately have "valid_cache (codec_of pc_prepared) [''d'', ''images'', demo_key]
      [''d'', ''images'', demo_key, CACHE_DISK] demo_source_digest demo_key demo_cache = (Ok True, demo_cache)"
    using demo_read_metadata
    by (simp add: valid_cache_def bnd_def attempt_def ret_def demo_prepared_valid) (simp add: demo_prepared_def)
  then show ?thesis
    by (simp add: prepare_cached_def demo_oci_host_def images_dir_def bnd_def ret_def Let_def)
qed

lemma demo_rm: "rm_stays_below demo_oci_host"
  by (simp add: rm_stays_below_def demo_oci_host_def keeps.ret)




end
