(* ===== verification/HostCredsFacts.thy ===== *)
theory HostCredsFacts
  imports HostCreds
begin

text \<open>
  What the host collects is within the guest's bounds, up to one byte of the known hosts; the collection
  ends, also when \<open>gh\<close> does not, and signals nothing but the \<open>gh\<close> it started.
\<close>

section \<open>Values\<close>

lemma one_safe_line_Some:
  "one_safe_line b = Some v \<Longrightarrow> v \<noteq> [] \<and> single_line v \<and> length v \<le> length b"
  using length_str_trim [of b] by (auto simp: one_safe_line_def Let_def split: if_splits)

section \<open>Known hosts\<close>

definition hosts_ok :: "string \<Rightarrow> bool" where
  "hosts_ok v =
     (NUL \<notin> set v \<and> CHR 0x0D \<notin> set v \<and> (\<forall>l \<in> set (str_lines v). length l \<le> 64 * 1024)
      \<and> (v \<noteq> [] \<longrightarrow> last v = CHR 0x0A) \<and> length v \<le> MAX_KNOWN_HOSTS_BYTES + 1)"

lemma split_on_sep: "p d \<Longrightarrow> split_on p (a @ d # b) = split_on p a @ split_on p b"
proof (induction a)
  case (Cons c a)
  then show ?case
    using split_on_not_Nil [of p a] by (auto split: list.splits)
qed simp

lemma str_lines_join:
  assumes "a \<noteq> [] \<longrightarrow> last a = CHR 0x0A"
  shows "str_lines (a @ b) = str_lines a @ str_lines b"
proof (cases "a = []")
  case True
  then show ?thesis by (simp add: str_lines_def)
next
  case False
  with assms obtain a' where a: "a = a' @ [CHR 0x0A]" by (metis append_butlast_last_id)
  show ?thesis
    using split_on_sep [of "\<lambda>c. c = CHR 0x0A" "CHR 0x0A" a' b]
      split_on_sep [of "\<lambda>c. c = CHR 0x0A" "CHR 0x0A" a' "[]"]
    by (simp add: a str_lines_def Let_def butlast_append)
qed

lemma str_lines_no_cr:
  assumes "CHR 0x0D \<notin> set a"
  shows "str_lines a = (let ps = split_on (\<lambda>c. c = CHR 0x0A) a in if last ps = [] then butlast ps else ps)"
proof -
  have "strip_cr x = x" if "x \<in> set (split_on (\<lambda>c. c = CHR 0x0A) a)" for x
    using split_on_subset [OF that] assms last_in_set [of x] by (fastforce simp: strip_cr_def)
  then have "map strip_cr (butlast (split_on (\<lambda>c. c = CHR 0x0A) a)) = butlast (split_on (\<lambda>c. c = CHR 0x0A) a)"
    by (auto intro!: map_idI dest: in_set_butlastD)
  then show ?thesis
    by (simp add: str_lines_def Let_def)
qed

lemma str_lines_newline:
  assumes "CHR 0x0D \<notin> set a"
  shows "set (str_lines (a @ newline)) \<subseteq> insert [] (set (str_lines a))"
proof -
  have "split_on (\<lambda>c. c = CHR 0x0A) (a @ newline) = split_on (\<lambda>c. c = CHR 0x0A) a @ [[]]"
    using split_on_sep [of "\<lambda>c. c = CHR 0x0A" "CHR 0x0A" a "[]"] by (simp add: newline_def)
  moreover have "set ps \<subseteq> insert [] (set (butlast ps))" if "last ps = []" for ps :: "string list"
    using that by (cases ps rule: rev_cases) auto
  moreover have "CHR 0x0D \<notin> set (a @ newline)" using assms by (simp add: newline_def)
  ultimately show ?thesis
    using assms by (auto simp: str_lines_no_cr Let_def)
qed

lemma hosts_ok_Nil: "hosts_ok []"
  by (simp add: hosts_ok_def str_lines_def)

lemma hosts_ok_add:
  assumes "hosts_ok h" and "NUL \<notin> set c" and "CHR 0x0D \<notin> set c"
    and "\<forall>l \<in> set (str_lines c). length l \<le> 64 * 1024"
    and "length h + length c \<le> MAX_KNOWN_HOSTS_BYTES"
  shows "h @ c \<noteq> [] \<Longrightarrow> last (h @ c) = CHR 0x0A \<Longrightarrow> hosts_ok (h @ c)"
    and "hosts_ok ((h @ c) @ newline)"
proof -
  have lines: "str_lines (h @ c) = str_lines h @ str_lines c"
    using assms(1) by (intro str_lines_join) (simp add: hosts_ok_def)
  show "hosts_ok (h @ c)" if "h @ c \<noteq> []" "last (h @ c) = CHR 0x0A"
    using assms that lines by (auto simp: hosts_ok_def)
  have "CHR 0x0D \<notin> set (h @ c)" using assms(1,3) by (simp add: hosts_ok_def)
  from str_lines_newline [OF this] lines assms show "hosts_ok ((h @ c) @ newline)"
    by (auto simp: hosts_ok_def newline_def)
qed

text \<open>Reading the files never fails, whatever fails inside.\<close>

lemma add_known_hosts_ok:
  assumes "hosts_ok h" and "add_known_hosts ts h s = (r, t)"
  shows "\<exists>v. r = Ok v \<and> hosts_ok v \<and> (h \<noteq> [] \<longrightarrow> v \<noteq> [])"
  using assms
proof (induction ts arbitrary: h s)
  case Nil
  then show ?case by (auto simp: ret_def)
next
  case (Cons x ts)
  obtain m u where m: "sys_metadata_text x s = (m, u)" by fastforce
  show ?case
  proof (cases m)
    case (Inl e)
    with Cons m show ?thesis by (simp add: bnd_def attempt_def)
  next
    case (Inr md)
    show ?thesis
    proof (cases "\<not> is_regular md \<or> node_len md > MAX_KNOWN_HOSTS_BYTES - length h")
      case True
      with Cons m Inr show ?thesis by (simp add: bnd_def attempt_def)
    next
      case False
      obtain c v where c: "read_text x u = (c, v)" by fastforce
      show ?thesis
      proof (cases c)
        case (Inl e)
        with Cons m Inr False c show ?thesis by (simp add: bnd_def attempt_def)
      next
        case (Inr contents)
        let ?bad = "NUL \<in> set contents \<or> CHR 0x0D \<in> set contents
            \<or> list_ex (\<lambda>l. length l > 64 * 1024) (str_lines contents)
            \<or> length h + length contents > MAX_KNOWN_HOSTS_BYTES"
        let ?joined = "h @ contents"
        let ?next = "if ?joined \<noteq> [] \<and> last ?joined = CHR 0x0A then ?joined else ?joined @ newline"
        show ?thesis
        proof (cases ?bad)
          case True
          with Cons m \<open>m = Inr md\<close> False c Inr show ?thesis by (simp add: bnd_def attempt_def)
        next
          case ok: False
          then have "hosts_ok ?next"
            using hosts_ok_add [OF Cons.prems(1), of contents] by (simp add: list_ex_iff not_less)
          moreover have "?next \<noteq> []" by (simp add: newline_def)
          moreover have "add_known_hosts ts ?next v = (r, t)"
            using Cons.prems(2) m \<open>m = Inr md\<close> False c Inr ok
            by (simp add: bnd_def attempt_def Let_def)
          ultimately show ?thesis using Cons.IH by blast
        qed
      qed
    qed
  qed
qed

lemma known_hosts_result:
  assumes "host_known_hosts s = (r, t)"
  shows "\<exists>v. r = Ok v \<and> (\<forall>h. v = Some h \<longrightarrow> h \<noteq> [] \<and> hosts_ok h)"
proof -
  obtain home u where "env_var ''HOME'' s = (Ok home, u)"
    by (auto simp: env_var_def get_os_def)
  moreover define ts where
    "ts = ''/etc/ssh/ssh_known_hosts'' # (case home of None \<Rightarrow> [] | Some h \<Rightarrow> [join_text h ''.ssh/known_hosts''])"
  moreover obtain r2 w where run: "add_known_hosts ts [] u = (r2, w)" by fastforce
  moreover note add_known_hosts_ok [OF hosts_ok_Nil run]
  ultimately show ?thesis
    using assms by (auto simp: host_known_hosts_def bnd_def ret_def)
qed

section \<open>The GitHub token\<close>

text \<open>A token that may be used: one non-empty line of at most 64 KiB.\<close>

definition token_ok :: "string \<Rightarrow> bool" where
  "token_ok v = (v \<noteq> [] \<and> single_line v \<and> length v \<le> MAX_GITHUB_TOKEN_BYTES)"

lemma environment_token:
  "\<exists>v t. token_from_environment ns s = (Ok v, t) \<and> t = s \<and> (\<forall>x. v = Some x \<longrightarrow> token_ok x)"
proof (induction ns)
  case Nil
  then show ?case by (simp add: ret_def)
next
  case (Cons n ns)
  then show ?case
    by (cases "env_vars s n") (auto simp: bnd_def env_var_def get_os_def ret_def token_ok_def)
qed

lemma first_executable_ok: "\<exists>v t. first_executable ts s = (Ok v, t)"
proof (induction ts arbitrary: s)
  case Nil
  then show ?case by (simp add: ret_def)
next
  case (Cons x ts)
  obtain r u where "validate_executable x s = (r, u)" by fastforce
  with Cons show ?case by (cases r) (auto simp: bnd_def attempt_def ret_def)
qed

lemma find_executable_ok: "\<exists>v t. find_executable n s = (Ok v, t)"
  using first_executable_ok
  by (cases "env_vars s ''PATH''") (auto simp: find_executable_def bnd_def env_var_def get_os_def ret_def)

lemma poll_ok:
  assumes "\<And>s. \<exists>x t. step s = (Ok x, t)"
  shows "\<exists>x t. poll w n step d s = (Ok x, t)"
proof (induction n arbitrary: s)
  case 0
  then show ?case by (simp add: ret_def)
next
  case (Suc n)
  obtain x u where step: "step s = (Ok x, u)" using assms by blast
  obtain v k z where "sys_now u = (Ok k, v)" "sys_sleep w v = (Ok (), z)"
    by (auto simp: sys_now_def sys_sleep_def Let_def)
  with Suc step show ?case
    by (cases x) (auto simp: bnd_def thn_def ret_def split: if_splits)
qed

lemma gh_token_result:
  assumes "gh_token_from_command h gh timeout s = (r, t)"
  shows "\<exists>v. r = Ok v \<and> (\<forall>x. v = Some x \<longrightarrow> token_ok x)"
proof -
  have token: "token_ok x" if "one_safe_line b = Some x" "\<not> MAX_GITHUB_TOKEN_BYTES < length b" for b x
    using one_safe_line_Some [OF that(1)] that(2) by (simp add: token_ok_def)
  obtain q u where spawn: "sys_spawn gh [''auth'', ''token'', ''--hostname'', ''github.com''] {} s = (q, u)"
    by fastforce
  show ?thesis
  proof (cases q)
    case (Inl e)
    with assms spawn show ?thesis by (auto simp: gh_token_from_command_def bnd_def attempt_def ret_def)
  next
    case (Inr ch)
    have step: "\<exists>x t. gh_step ch s = (Ok x, t)" for s
      by (auto simp: gh_step_def bnd_def attempt_def ret_def split: prod.splits)
    obtain k v where now: "sys_now u = (Ok k, v)" by (simp add: sys_now_def Let_def)
    have "\<exists>x t. poll 10 (timeout div 10 + 2) (gh_step ch) (k + timeout) v = (Ok x, t)"
      by (rule poll_ok) (rule step)
    then have "\<exists>x t. poll_every 10 (gh_step ch) timeout u = (Ok x, t)"
      by (simp add: poll_every_def bnd_def now)
    then obtain st v where poll: "poll_every 10 (gh_step ch) timeout u = (Ok st, v)" by blast
    obtain k w where kill: "sys_kill_wait ch v = (k, w)" by fastforce
    show ?thesis
    proof (cases "st = Some (Some True)")
      case False
      with assms spawn Inr poll kill show ?thesis
        by (auto simp: gh_token_from_command_def bnd_def thn_def attempt_def ret_def)
    next
      case True
      define b where "b = take (MAX_GITHUB_TOKEN_BYTES + 1) (snd (hp_gh h))"
      have "r = Ok (if \<not> fst (hp_gh h) then None else if length b > MAX_GITHUB_TOKEN_BYTES then None
          else one_safe_line b)"
        using assms spawn Inr poll True
        by (auto simp: gh_token_from_command_def bnd_def attempt_def ret_def b_def Let_def)
      then show ?thesis using token [of b] by simp
    qed
  qed
qed

lemma github_token_result:
  assumes "github_token h s = (r, t)"
  shows "\<exists>v. r = Ok v \<and> (\<forall>x. v = Some x \<longrightarrow> token_ok x)"
proof -
  obtain v where v: "token_from_environment [''GH_TOKEN'', ''GITHUB_TOKEN''] s = (Ok v, s)"
      "\<forall>x. v = Some x \<longrightarrow> token_ok x"
    using environment_token by blast
  show ?thesis
  proof (cases v)
    case (Some x)
    with v assms show ?thesis by (auto simp: github_token_def bnd_def ret_def)
  next
    case None
    obtain g u where g: "find_executable ''gh'' s = (Ok g, u)" using find_executable_ok by blast
    show ?thesis
    proof (cases g)
      case None
      with v \<open>v = None\<close> g assms show ?thesis by (auto simp: github_token_def bnd_def ret_def)
    next
      case (Some p)
      with v None g assms have "gh_token_from_command h p GH_AUTH_TIMEOUT u = (r, t)"
        by (simp add: github_token_def bnd_def)
      then show ?thesis by (rule gh_token_result)
    qed
  qed
qed

section \<open>Collecting\<close>

lemma agent_socket_ok: "\<exists>v t. valid_agent_socket s = (Ok v, t)"
proof (cases "env_vars s ''SSH_AUTH_SOCK''")
  case None
  then show ?thesis by (simp add: valid_agent_socket_def env_var_def get_os_def bnd_def ret_def)
next
  case (Some x)
  obtain r u where "sys_metadata_text x s = (r, u)" by fastforce
  with Some show ?thesis
    by (simp add: valid_agent_socket_def env_var_def get_os_def bnd_def ret_def attempt_def)
qed

lemma git_value_line: "git_value h k = Some v \<Longrightarrow> v \<noteq> [] \<and> single_line v"
  by (auto simp: git_value_def dest: one_safe_line_Some split: option.splits if_splits)


definition demo_programs :: host_programs where
  "demo_programs = \<lparr>hp_git = (\<lambda>_. None), hp_gh = (False, [])\<rparr>"

definition demo_host :: os where
  "demo_host = (demo_os (\<lambda>_. None))\<lparr>env_vars := [''GITHUB_TOKEN'' \<mapsto> ''ghp'', ''GH_TOKEN'' \<mapsto> []]\<rparr>"

lemma demo_token: "github_token demo_programs demo_host = (Ok (Some ''ghp''), demo_host)"
proof -
  have "valid_utf8 ''ghp''" by (rule valid_utf8_ascii) (simp add: is_ascii_def)
  then show ?thesis
    by (simp add: github_token_def bnd_def env_var_def get_os_def ret_def demo_host_def
        demo_os_def MAX_GITHUB_TOKEN_BYTES_def single_line_def)
qed


text \<open>
  A value the host collects need not pass the guest's check: only line breaks are excluded here, every
  control character there.
\<close>

lemma collected_value_refused:
  "one_safe_line [CHR ''A'', CHR 0x09, CHR ''b''] = Some [CHR ''A'', CHR 0x09, CHR ''b'']
   \<and> validate_optional (Some [CHR ''A'', CHR 0x09, CHR ''b'']) 1024
     = bail ''contains a control character''"
proof -
  let ?v = "[CHR ''A'', CHR 0x09, CHR ''b'']"
  have ascii: "is_ascii ?v" by (simp add: is_ascii_def)
  have chars: "str_chars ?v = [65, 9, 98]" using str_chars_ascii [OF ascii] by simp
  have "of_chars [65, 9, 98] = ?v" by code_simp
  then have "str_trim ?v = ?v"
    by (simp add: str_trim_def chars is_whitespace_def)
  then show ?thesis
    using valid_utf8_ascii [OF ascii] chars
    by (simp add: one_safe_line_def single_line_def validate_optional_def is_control_def)
qed

section \<open>Exposing the agent\<close>

lemma outside_expose: "preserves (outside {agent_link p}) (expose_ssh_agent h p)"
  unfolding expose_ssh_agent_def Let_def
  by (intro outside.combinators outside_reads outside_writes outside_symlink)
    (auto split: node.split intro: outside.fail outside_writes)

text \<open>Exposing the SSH agent changes one path and copies no key: it creates or replaces only a
  symbolic link beside the virtual socket, never anything else that is there, and on success that link
  points at the user's agent; without an agent nothing changes at all.\<close>

theorem expose_agent_only_link:
  assumes "expose_ssh_agent h p s = (r, t)" and "agent_link p \<notin> listening s"
  shows "outside {agent_link p} s t
    \<and> (fs_get (files s) (agent_link p) \<noteq> None
         \<and> (\<forall>x. fs_get (files s) (agent_link p) \<noteq> Some (Link x))
       \<longrightarrow> fs_get (files t) (agent_link p) = fs_get (files s) (agent_link p) \<and> r \<noteq> Ok (Some (agent_link p)))
    \<and> (\<forall>l. r = Ok (Some l) \<longrightarrow> l = agent_link p
         \<and> fs_get (files t) l = map_option Link (hc_ssh_auth_sock h))
    \<and> (hc_ssh_auth_sock h = None \<longrightarrow> r = Ok None \<and> t = s)"
proof (cases "hc_ssh_auth_sock h")
  case None
  with assms(1) show ?thesis by (auto simp: expose_ssh_agent_def ret_def outside_refl)
next
  case (Some agent)
  let ?l = "agent_link p"
  have some: "?l \<noteq> []" by (simp add: agent_link_def with_file_name_def)
  have frame: "outside {?l} s t" using assms(1) by (rule preservesD [OF outside_expose])
  obtain q u where q: "sys_lstat ?l s = (q, u)" by fastforce
  have u: "fs_get (files u) ?l = fs_get (files s) ?l" "?l \<notin> listening u"
    using preservesD [OF outside_reads(1) q, of "{}"] assms(2) by (auto simp: outside_def)
  have lnk: "fs_get (files t) ?l = Some (Link agent)" if "sys_symlink agent ?l v = (Ok (), t)" for v
    using that some
    by (auto simp: sys_symlink_def syscall_Ok fs_get_put new_entry_def split: if_splits)
  show ?thesis
  proof (cases "\<exists>x. fs_get (files s) ?l = Some (Link x) \<or> fs_get (files s) ?l = None")
    case True
    moreover have "l = ?l \<and> fs_get (files t) l = Some (Link agent)" if "r = Ok (Some l)" for l
      using assms(1) that Some lnk by (auto simp: expose_ssh_agent_def io_Ok Let_def)
    ultimately show ?thesis using frame Some by auto
  next
    case False
    have "\<exists>e. r = Inl e \<and> t = u"
    proof (cases q)
      case (Inl e)
      have "e \<noteq> Io ENOENT"
        using q Inl False u some
        by (auto simp: sys_lstat_def syscall_def entry_at_def fs_get_def split: option.splits)
      with Inl q assms(1) Some show ?thesis
        by (auto simp: expose_ssh_agent_def Let_def thn_def bnd_def attempt_def fail_def)
    next
      case (Inr md)
      then have "fs_get (files u) ?l = Some (e_node md)"
        using q some by (auto simp: sys_lstat_def syscall_def entry_at_def fs_get_def split: option.splits)
      then have "\<forall>x. e_node md \<noteq> Link x" using False u by auto
      with Inr q assms(1) Some show ?thesis
        by (cases "e_node md") (auto simp: expose_ssh_agent_def Let_def thn_def bnd_def attempt_def fail_def)
    qed
    with u frame Some show ?thesis by auto
  qed
qed

definition demo_credentials :: host_credentials where
  "demo_credentials = \<lparr>hc_session = \<lparr>git_user_name = None, git_user_email = None, git_signing_key = None,
     gh_token = None, ssh_known_hosts = None, ssh_agent = True, image_env = []\<rparr>,
     hc_ssh_auth_sock = Some ''/run/agent''\<rparr>"

theorem expose_agent_only_link_witness:
  "\<exists>t. expose_ssh_agent demo_credentials [''d'', ''vsock.sock''] demo_store
       = (Ok (Some (agent_link [''d'', ''vsock.sock''])), t)
     \<and> fs_get (files t) (agent_link [''d'', ''vsock.sock'']) = Some (Link ''/run/agent'')"
proof -
  let ?r = "expose_ssh_agent demo_credentials [''d'', ''vsock.sock''] demo_store"
  have "fst ?r = Ok (Some (agent_link [''d'', ''vsock.sock'']))"
    by (simp add: expose_ssh_agent_def demo_credentials_def agent_link_def with_file_name_def
        file_name_def io_run Let_def sys_symlink_def demo_store_def demo_os_def private_dir_def)
  then have run: "?r = (Ok (Some (agent_link [''d'', ''vsock.sock''])), snd ?r)"
    by (metis prod.collapse)
  have "q \<notin> listening demo_store" for q by (simp add: demo_store_def demo_os_def)
  with expose_agent_only_link [OF run] run show ?thesis by (auto simp: demo_credentials_def)
qed

end
