(* ===== verification/LifecycleFacts.thy ===== *)
theory LifecycleFacts
  imports Application VmmCommandFacts OciCache VmmFacts HostCredsFacts
begin

text \<open>
  The life cycle of machines as a transition system on the state: a machine is created under a free,
  valid name with fresh identifiers, or forgotten. Every reachable state is sound. The commands
  follow a finer system, in which a machine is remembered only once it was made and forgotten only once
  its storage was removed.
\<close>

section \<open>The transition system\<close>

text \<open>
  \<open>forgotten\<close> lets any machine go at any time: it is wide on purpose, to carry the invariant. When a command
  may forget a machine is said by \<open>life\<close> below.
\<close>

inductive step :: "app_state \<Rightarrow> app_state \<Rightarrow> bool" where
  created: "bt_get (machines st) nm = None \<Longrightarrow> validate_name nm = Ok () \<Longrightarrow>
    new_record uid workspace now nm environment repository repository_dir (machines st) = Some r0 \<Longrightarrow>
    step st (remember (r0\<lparr>m_environment := e\<rparr>) st)"
| forgotten: "step st (forget nm st)"

inductive reachable :: "app_state \<Rightarrow> app_state \<Rightarrow> bool" for st0 where
  here: "reachable st0 st0"
| later: "reachable st0 st \<Longrightarrow> step st st' \<Longrightarrow> reachable st0 st'"

text \<open>
  What every command may rely on: records under their own names, in order; names the guest can have,
  addresses the VMM accepts, context identifiers above the reserved ones, no two machines with one.
\<close>

definition startable :: "machine_record \<Rightarrow> bool" where
  "startable r = (validate_machine_hostname (m_name r) = Ok ()
     \<and> validate_mac_address (m_mac_address r) = Ok (m_mac_address r) \<and> 4096 \<le> unat (m_vsock_cid r))"

definition sound_state :: "app_state \<Rightarrow> bool" where
  "sound_state st = (state_wf st \<and> schema_version st = SCHEMA_VERSION
     \<and> list_all startable (bt_values (machines st)) \<and> distinct (map m_vsock_cid (bt_values (machines st))))"

lemma sound_default: "sound_state default_state"
  by (simp add: sound_state_def default_state_def state_wf_def bt_values_def)

lemma sound_step:
  assumes "step st st'" and "sound_state st"
  shows "sound_state st'"
  using assms
proof cases
  case (created nm uid ws now env repo dir r0 e)
  let ?r = "r0\<lparr>m_environment := e\<rparr>"
  from created(4) obtain cid where cid: "next_cid (Suc (length (machines st)))
        (m_vsock_cid ` set (bt_values (machines st))) (first_cid uid) = Some cid"
      and r: "m_name ?r = nm" "m_vsock_cid ?r = cid" "m_mac_address ?r = mac_of_uuid uid"
    by (auto simp: new_record_def simp del: next_cid.simps)
  from next_cid_Some [OF cid first_cid_range] have fresh: "4096 \<le> unat cid"
      "cid \<notin> m_vsock_cid ` set (bt_values (machines st))"
    by auto
  have "startable ?r"
    unfolding startable_def r using fresh(1) mac_accepted hostname_of_name created(3) by (simp add: validate_name_Ok)
  moreover have "state_wf (remember ?r st)"
    using assms(2) state_wf_insert [of st ?r] by (simp add: remember_def sound_state_def)
  moreover have free: "bt_get (machines st) (m_name ?r) = None" using created(2) r(1) by simp
  moreover have "distinct (map (m_vsock_cid \<circ> snd) (bt_insert (m_name ?r) ?r (machines st)))"
    unfolding distinct_bt_insert_new [OF free]
    using assms(2) fresh(2) r(2) by (auto simp: sound_state_def bt_values_def image_image)
  ultimately show ?thesis
    using assms(2) set_bt_insert_new [OF free, of ?r] created(1)
    by (simp add: sound_state_def bt_values_def remember_def list_all_iff image_image)
next
  case (forgotten nm)
  have "distinct (map (m_vsock_cid \<circ> snd) (bt_remove nm (machines st)))"
    using assms(2) by (intro distinct_bt_remove) (simp add: sound_state_def bt_values_def)
  moreover have "state_wf (forget nm st)"
    using assms(2) by (simp add: forget_def state_wf_remove sound_state_def)
  ultimately show ?thesis
    using assms(2) set_bt_remove_subset [of nm "machines st"] forgotten
    by (auto simp: sound_state_def bt_values_def forget_def list_all_iff)
qed

lemma reachable_sound: "reachable st0 st \<Longrightarrow> sound_state st0 \<Longrightarrow> sound_state st"
  by (induction rule: reachable.induct) (blast intro: sound_step)+

text \<open>C5: Every state of the life cycle that starts without machines is sound: the records stand in order
  under their own names and the schema is the current one; each machine has a name the guest takes
  for its host name, a hardware address the VMM accepts, a context identifier above the reserved ones;
  and no two machines share a context identifier.\<close>

theorem lifecycle_sound:
  assumes "reachable default_state st"
  shows "sound_state st"
  using reachable_sound [OF assms sound_default] .

theorem lifecycle_sound_witness:
  "\<exists>r. new_record 7 8 0 ''demo-1'' ''debian:13'' None None [] = Some r
    \<and> sound_state (remember r default_state) \<and> bt_get (machines (remember r default_state)) ''demo-1'' = Some r"
proof -
  have valid: "validate_name ''demo-1'' = Ok ()" by code_simp
  have "next_cid (Suc 0) {} (first_cid 7) \<noteq> None" by simp
  then obtain r where r: "new_record 7 8 0 ''demo-1'' ''debian:13'' None None [] = Some r"
    by (auto simp: new_record_def bt_values_def)
  then have "reachable default_state (remember (r\<lparr>m_environment := m_environment r\<rparr>) default_state)"
    by (intro later [OF here] created [OF _ valid]) (simp_all add: default_state_def)
  from lifecycle_sound [OF this] r show ?thesis
    by (auto simp: remember_def new_record_def default_state_def bt_values_def split: option.splits)
qed

section \<open>What the commands do to the state\<close>

text \<open>
  Making a machine: a fresh record, its environment, and its storage. The commands do this in steps;
  every step of it must have succeeded in this run before the record may be remembered.
\<close>

definition make_machine ::
    "'v application \<Rightarrow> string \<Rightarrow> string \<Rightarrow> string option \<Rightarrow> string option \<Rightarrow> app_state \<Rightarrow> machine_record io" where
  "make_machine a nm environment repository repository_dir st =
     bnd (make_record a nm environment repository repository_dir st) (\<lambda>r0.
     bnd (prepare_storage a r0) (\<lambda>(base, r).
     thn protected_commit (thn (commit_storage a r base) (ret r))))"

text \<open>
  A step of a command, with the state it has in memory, the state it saved last, and the system: a machine
  is remembered when it was made, under a free and valid name; forgotten when its storage was removed;
  a failed making or removal changes neither state; saving writes exactly the state in memory; and the
  other calls save nothing.
\<close>

type_synonym stage = "app_state \<times> app_state \<times> os"

inductive life :: "'v application \<Rightarrow> stage \<Rightarrow> stage \<Rightarrow> bool" for a where
  made: "bt_get (machines st) nm = None \<Longrightarrow> validate_name nm = Ok () \<Longrightarrow>
    make_machine a nm environment repository repository_dir st s = (Ok r, t) \<Longrightarrow> life a (st, w, s) (remember r st, w, t)"
| not_made: "make_machine a nm environment repository repository_dir st s = (Inl e, t) \<Longrightarrow> life a (st, w, s) (st, w, t)"
| removed: "remove_storage a r s = (Ok (), t) \<Longrightarrow> life a (st, w, s) (forget (m_name r) st, w, t)"
| not_removed: "remove_storage a r s = (Inl e, t) \<Longrightarrow> life a (st, w, s) (st, w, t)"
| saved: "store_save (ap_state a) (ap_data a) st s = (Ok (), t) \<Longrightarrow> life a (st, w, s) (st, st, t)"
| not_saved: "store_save (ap_state a) (ap_data a) st s = (Inl e, t) \<Longrightarrow> life a (st, w, s) (st, w, t)"
| started: "clone_start a r repo dir s = (res, t) \<Longrightarrow> life a (st, w, s) (st, w, t)"
| stopped: "stop_record a r s = (res, t) \<Longrightarrow> life a (st, w, s) (st, w, t)"
| asked: "app_machine_status a r s = (status, t) \<Longrightarrow> life a (st, w, s) (st, w, t)"
| checked: "ensure_clean a r running s = (res, t) \<Longrightarrow> life a (st, w, s) (st, w, t)"

abbreviation lives :: "'v application \<Rightarrow> stage \<Rightarrow> stage \<Rightarrow> bool" where
  "lives a \<equiv> rtranclp (life a)"

lemma make_record_result:
  assumes "make_record a nm environment repository repository_dir st s = (Ok r, t)"
  shows "\<exists>uid workspace now.
    new_record uid workspace now nm environment repository repository_dir (machines st) = Some r"
  using assms by (auto simp: make_record_def bnd_Ok ret_Ok fail_Ok split: option.splits)

lemma prepare_storage_result:
  assumes "prepare_storage a r0 s = (Ok (base, r), t)"
  shows "\<exists>e. r = r0\<lparr>m_environment := e\<rparr>"
  using assms by (auto simp: prepare_storage_def prepare_machine_environment_def thn_Ok bnd_Ok ret_Ok)

lemma make_machine_result:
  assumes "make_machine a nm environment repository repository_dir st s = (Ok r, t)"
  shows "\<exists>uid workspace now r0 e. r = r0\<lparr>m_environment := e\<rparr>
    \<and> new_record uid workspace now nm environment repository repository_dir (machines st) = Some r0"
proof -
  from assms obtain r0 u base v where "make_record a nm environment repository repository_dir st s = (Ok r0, u)"
    and "prepare_storage a r0 u = (Ok (base, r), v)"
    by (auto simp: make_machine_def bnd_Ok thn_Ok ret_Ok split: prod.splits)
  from make_record_result [OF this(1)] prepare_storage_result [OF this(2)] show ?thesis by blast
qed

lemma make_machine_name: "make_machine a nm e repo dir st s = (Ok r, t) \<Longrightarrow> m_name r = nm"
  using make_machine_result by (fastforce simp: new_record_def split: option.splits)

lemma life_reachable:
  assumes "life a (st, w, s) (st', w', t)" and "reachable st0 st" and "reachable st0 w"
  shows "reachable st0 st' \<and> reachable st0 w'"
  using assms
proof cases
  case (made nm environment repository repository_dir r)
  from make_machine_result [OF made(5)] obtain uid workspace now r0 e where
    r: "r = r0\<lparr>m_environment := e\<rparr>"
      "new_record uid workspace now nm environment repository repository_dir (machines st) = Some r0"
    by blast
  have "step st st'" unfolding made(1) r(1) by (rule step.created [OF made(3,4) r(2)])
  with made(2) assms(2,3) show ?thesis by (blast intro: reachable.later)
qed (use reachable.later [OF _ step.forgotten] assms(2,3) in simp_all)

lemma lives_reachable:
  assumes "lives a (st, st, s) (st', w', t)"
  shows "reachable st st' \<and> reachable st w'"
proof -
  have "reachable st (fst y) \<and> reachable st (fst (snd y))" if "lives a (st, st, s) y" for y
    using that
  proof (induction rule: rtranclp_induct)
    case (step y z)
    then show ?case using life_reachable [of a "fst y" "fst (snd y)" "snd (snd y)"] by (cases z) auto
  qed (simp add: here)
  from this [OF assms] show ?thesis by simp
qed

section \<open>Commands follow the life cycle\<close>

text \<open>
  \<open>tracks a st w m Q\<close>: every run of \<open>m\<close> that begins with the state \<open>st\<close> in memory and \<open>w\<close> saved is a run of the
  life cycle, and its result and the states at its end satisfy \<open>Q\<close>.
\<close>

definition tracks :: "'v application \<Rightarrow> app_state \<Rightarrow> app_state \<Rightarrow> 'x io \<Rightarrow> ('x result \<Rightarrow> app_state \<Rightarrow> app_state \<Rightarrow> bool) \<Rightarrow> bool" where
  "tracks a st w m Q = (\<forall>s r t. m s = (r, t) \<longrightarrow> (\<exists>st' w'. lives a (st, w, s) (st', w', t) \<and> Q r st' w'))"

lemma tracksD:
  assumes "tracks a st w m Q" and "m s = (r, t)"
  obtains st' w' where "lives a (st, w, s) (st', w', t)" "Q r st' w'"
  using assms unfolding tracks_def by blast

lemma tracks_ret: "Q (Ok x) st w \<Longrightarrow> tracks a st w (ret x) Q"
  and tracks_fail: "Q (Inl e) st w \<Longrightarrow> tracks a st w (fail e) Q"
  and tracks_lift: "Q r st w \<Longrightarrow> tracks a st w (lift_r r) Q"
  unfolding tracks_def ret_def fail_def lift_r_def by blast+

lemma tracks_bnd:
  assumes "tracks a st w m P" and "\<And>e st' w'. P (Inl e) st' w' \<Longrightarrow> Q (Inl e) st' w'"
    and "\<And>x st' w'. P (Ok x) st' w' \<Longrightarrow> tracks a st' w' (f x) Q"
  shows "tracks a st w (bnd m f) Q"
  unfolding tracks_def
proof (intro allI impI)
  fix s r t assume "bnd m f s = (r, t)"
  then show "\<exists>st' w'. lives a (st, w, s) (st', w', t) \<and> Q r st' w'"
  proof (cases rule: bnd_cases)
    case (err e)
    from tracksD [OF assms(1) err(1)] assms(2) err(2) show ?thesis by metis
  next
    case (ok x u)
    from tracksD [OF assms(1) ok(1)] obtain st1 w1 where 1: "lives a (st, w, s) (st1, w1, u)" "P (Ok x) st1 w1" .
    from tracksD [OF assms(3) [OF 1(2)] ok(2)] 1(1) rtranclp_trans show ?thesis by metis
  qed
qed

lemma tracks_after:
  assumes "tracks a st w m P" and "\<And>x st' w'. P x st' w' \<Longrightarrow> tracks a st' w' (f x) Q"
  shows "tracks a st w (bnd (attempt m) f) Q"
  unfolding tracks_def
proof (intro allI impI)
  fix s r t assume run: "bnd (attempt m) f s = (r, t)"
  obtain x u where m: "m s = (x, u)" by fastforce
  with run have f: "f x u = (r, t)" by (simp add: bnd_def attempt_def)
  from tracksD [OF assms(1) m] obtain st1 w1 where 1: "lives a (st, w, s) (st1, w1, u)" "P x st1 w1" .
  from tracksD [OF assms(2) [OF 1(2)] f] 1(1) rtranclp_trans show "\<exists>st' w'. lives a (st, w, s) (st', w', t) \<and> Q r st' w'"
    by metis
qed

lemma tracks_weaken:
  "tracks a st w m P \<Longrightarrow> (\<And>r st' w'. P r st' w' \<Longrightarrow> Q r st' w') \<Longrightarrow> tracks a st w m Q"
  unfolding tracks_def by blast

lemma tracks_step:
  assumes "\<And>s r t. m s = (r, t) \<Longrightarrow> \<exists>st' w'. life a (st, w, s) (st', w', t) \<and> Q r st' w'"
  shows "tracks a st w m Q"
  using assms unfolding tracks_def by blast

abbreviation same :: "app_state \<Rightarrow> app_state \<Rightarrow> 'x result \<Rightarrow> app_state \<Rightarrow> app_state \<Rightarrow> bool" where
  "same st w \<equiv> (\<lambda>r st' w'. st' = st \<and> w' = w)"

lemma tracks_quiet:
  "tracks a st w (clone_start a r repo dir) (same st w)" "tracks a st w (stop_record a r) (same st w)"
  "tracks a st w (app_machine_status a r) (same st w)" "tracks a st w (ensure_clean a r b) (same st w)"
  by (rule tracks_step, blast intro: life.intros)+

lemma tracks_quietly:
  "tracks a st w m (same st w) \<Longrightarrow> (\<And>e. Q (Inl e) st w) \<Longrightarrow> (\<And>x. tracks a st w (f x) Q) \<Longrightarrow> tracks a st w (bnd m f) Q"
  by (rule tracks_bnd [where P = "same st w"]) auto

lemma tracks_save:
  "tracks a st w (store_save (ap_state a) (ap_data a) st) (\<lambda>r st' w'. st' = st \<and> w' = (if is_ok r then st else w))"
  by (rule tracks_step) (use life.saved life.not_saved in \<open>force simp: is_ok_def split: sum.splits\<close>)

lemma tracks_remove:
  "tracks a st w (remove_storage a r) (\<lambda>res st' w'. st' = (if is_ok res then forget (m_name r) st else st) \<and> w' = w)"
  by (rule tracks_step) (use life.removed life.not_removed in \<open>force simp: is_ok_def split: sum.splits\<close>)
section \<open>The names of clones\<close>

lemma clone_loop_names:
  assumes "clone_loop base count occupied sfx nms = Ok out"
    and "distinct nms" and "set nms \<subseteq> occupied" and "\<forall>n \<in> set nms. n \<notin> E \<and> validate_name n = Ok ()" and "E \<subseteq> occupied"
  shows "distinct out \<and> (\<forall>n \<in> set out. n \<notin> E \<and> validate_name n = Ok ())"
  using assms
proof (induction "2 ^ 32 - sfx" arbitrary: occupied sfx nms rule: less_induct)
  case less
  let ?c = "clone_candidate base sfx"
  have unfolded: "clone_loop base count occupied sfx nms = Ok out" by (rule less.prems(1))
  show ?case
  proof (cases "length nms < count")
    case False
    with unfolded less.prems show ?thesis by (subst (asm) clone_loop.simps) simp
  next
    case True
    with unfolded have over: "sfx + 1 < 2 ^ 32"
      by (subst (asm) clone_loop.simps) (auto simp: Let_def split: if_splits)
    then have shrink: "(2::nat) ^ 32 - (sfx + 1) < 2 ^ 32 - sfx" by linarith
    show ?thesis
    proof (cases "?c \<in> occupied")
      case occ: True
      with True over unfolded have "clone_loop base count occupied (sfx + 1) nms = Ok out"
        by (subst (asm) clone_loop.simps) (simp add: Let_def)
      from less.hyps [OF shrink this less.prems(2-)] show ?thesis .
    next
      case free: False
      with True over unfolded have "validate_name ?c = Ok ()"
          and rest: "clone_loop base count (insert ?c occupied) (sfx + 1) (nms @ [?c]) = Ok out"
        by (subst (asm) clone_loop.simps; auto simp: Let_def)+
      with free less.prems(2-) show ?thesis
        by (intro less.hyps [OF shrink rest]) auto
    qed
  qed
qed

lemma allocate_clone_names_sound:
  assumes "allocate_clone_names requested repository count existing = Ok nms"
    and "\<forall>r. requested = Some r \<longrightarrow> validate_name r = Ok ()"
  shows "distinct nms \<and> (\<forall>n \<in> set nms. n \<notin> set existing \<and> validate_name n = Ok ())"
  using assms clone_loop_names [of _ "unat count" "set existing" 1 "[]" nms "set existing"]
  by (auto simp: allocate_clone_names_def split: option.splits if_splits)

lemma tracks_remove_then:
  assumes "tracks a (forget (m_name r) st) w (f (Ok ())) Q" and "\<And>e. tracks a st w (f (Inl e)) Q"
  shows "tracks a st w (bnd (attempt (remove_storage a r)) f) Q"
proof (rule tracks_after [OF tracks_remove])
  fix x :: "unit result" and st' w'
  assume "st' = (if is_ok x then forget (m_name r) st else st) \<and> w' = w"
  with assms show "tracks a st' w' (f x) Q" by (cases x) auto
qed

lemma tracks_made:
  assumes "bt_get (machines st) nm = None" and "validate_name nm = Ok ()"
    and "\<And>r. m_name r = nm \<Longrightarrow> tracks a (remember r st) w (k (Ok r)) Q" and "\<And>e. tracks a st w (k (Inl e)) Q"
  shows "tracks a st w (bnd (attempt (make_machine a nm environment repository repository_dir st)) k) Q"
  unfolding tracks_def
proof (intro allI impI)
  fix s r t assume run: "bnd (attempt (make_machine a nm environment repository repository_dir st)) k s = (r, t)"
  obtain x u where make: "make_machine a nm environment repository repository_dir st s = (x, u)" by fastforce
  with run have rest: "k x u = (r, t)" by (simp add: bnd_def attempt_def)
  show "\<exists>st' w'. lives a (st, w, s) (st', w', t) \<and> Q r st' w'"
  proof (cases x)
    case (Inl e)
    with make have "lives a (st, w, s) (st, w, u)" by (blast intro: life.not_made)
    moreover obtain st' w' where "lives a (st, w, u) (st', w', t)" "Q r st' w'"
      using tracksD [OF assms(4) rest [unfolded Inl]] .
    ultimately show ?thesis using rtranclp_trans by metis
  next
    case (Inr y)
    with make have "lives a (st, w, s) (remember y st, w, u)" and nm: "m_name y = nm"
      using life.made [OF assms(1,2)] make_machine_name by blast+
    moreover obtain st' w' where "lives a (remember y st, w, u) (st', w', t)" "Q r st' w'"
      using tracksD [OF assms(3) [OF nm] rest [unfolded Inr]] .
    ultimately show ?thesis using rtranclp_trans by metis
  qed
qed

text \<open>How the commands make a machine, in terms of \<open>make_machine\<close>.\<close>

lemma make_then:
  "bnd (make_record a nm e repo dir st) (\<lambda>r0. bnd (prepare_storage a r0) (\<lambda>(base, r).
     thn protected_commit (thn (commit_storage a r base) (k r))))
   = bnd (attempt (make_machine a nm e repo dir st)) (case_sum fail k)"
  by (auto simp: fun_eq_iff make_machine_def bnd_def thn_def attempt_def ret_def fail_def split: prod.splits sum.splits)

lemma thn_assoc: "thn m (thn k l) = thn (thn m k) l"
  by (simp add: thn_def bnd_def fun_eq_iff split: prod.splits sum.splits)

lemma thn_run: "m s = (r, t) \<Longrightarrow> thn m k s = (case r of Inl e \<Rightarrow> (Inl e, t) | Inr _ \<Rightarrow> k t)"
  and attempt_run: "m s = (r, t) \<Longrightarrow> bnd (attempt m) f s = f r t"
  by (simp_all add: thn_def bnd_def attempt_def)

lemma tracks_make_or:
  assumes "bt_get (machines st) nm = None" and "validate_name nm = Ok ()"
    and k: "\<And>r. m_name r = nm \<Longrightarrow> tracks a (remember r st) w (k r) Q"
    and f: "\<And>e. tracks a st w (f e) Q" and e: "\<And>e. Q (Inl e) st w"
  shows "tracks a st w (bnd (make_record a nm environment repo dir st) (\<lambda>r0. bnd (attempt (prepare_storage a r0)) (\<lambda>prepared.
       case prepared of Inl e \<Rightarrow> f e
       | Inr (base, r) \<Rightarrow> bnd (attempt (thn protected_commit (commit_storage a r base))) (\<lambda>committed.
           case committed of Inl e \<Rightarrow> f e | Inr _ \<Rightarrow> k r)))) Q" (is "tracks a st w ?m Q")
  unfolding tracks_def
proof (intro allI impI)
  fix s r t assume run: "?m s = (r, t)"
  let ?made = "make_machine a nm environment repo dir st"
  have "\<exists>x u. ?made s = (x, u) \<and> (case x of Inl e \<Rightarrow> (r = Inl e \<and> t = u) \<or> f e u = (r, t) | Inr y \<Rightarrow> k y u = (r, t))"
    using run
  proof (cases rule: bnd_cases)
    case (err e)
    then show ?thesis by (simp add: make_machine_def bnd_def)
  next
    case (ok r0 v)
    note made_r = ok(1)
    obtain x u where prep: "prepare_storage a r0 v = (x, u)" by fastforce
    show ?thesis
    proof (cases x)
      case (Inl e)
      with ok(2) made_r prep show ?thesis by (simp add: make_machine_def bnd_def attempt_def)
    next
      case (Inr p)
      obtain base q where p: "p = (base, q)" by (cases p)
      obtain y z where commit: "thn protected_commit (commit_storage a q base) u = (y, z)" by fastforce
      have "?made s = thn (thn protected_commit (commit_storage a q base)) (ret q) u"
        using made_r prep Inr p by (simp add: make_machine_def bnd_def thn_assoc)
      then have "?made s = (case y of Inl e \<Rightarrow> (Inl e, z) | Inr _ \<Rightarrow> (Ok q, z))"
        using thn_run [where m = "thn protected_commit (commit_storage a q base)", OF commit, of "ret q"] by (simp add: ret_def cong: sum.case_cong)
      moreover have "(case y of Inl e \<Rightarrow> f e z | Inr _ \<Rightarrow> k q z) = (r, t)"
        using ok(2) unfolding attempt_run [where m = "prepare_storage a r0", OF prep] Inr p sum.case prod.case
          attempt_run [where m = "thn protected_commit (commit_storage a q base)", OF commit] by (cases y) simp_all
      ultimately show ?thesis by (cases y) auto
    qed
  qed
  then obtain x u where x: "?made s = (x, u)"
      "case x of Inl e \<Rightarrow> (r = Inl e \<and> t = u) \<or> f e u = (r, t) | Inr y \<Rightarrow> k y u = (r, t)" by blast
  let ?k = "\<lambda>x. case x of Inl e \<Rightarrow> (if r = Inl e \<and> t = u then fail e else f e) | Inr y \<Rightarrow> k y"
  have tracked: "tracks a st w (bnd (attempt ?made) ?k) Q"
    using k f e by (intro tracks_made assms(1,2)) (auto intro: tracks_fail)
  have "bnd (attempt ?made) ?k s = (r, t)"
    using x by (auto simp: bnd_def attempt_def fail_def split: sum.splits)
  with tracked show "\<exists>st' w'. lives a (st, w, s) (st', w', t) \<and> Q r st' w'"
    unfolding tracks_def by blast
qed

section \<open>The commands\<close>

text \<open>Every roll-back ends with an error, so nothing is claimed of the states at its end but that they follow.\<close>

lemma tracks_rollback_each:
  "tracks a st w (rollback_each a rs (st, n)) (\<lambda>r st' w'. \<forall>y. r = Ok y \<longrightarrow> fst y = st')"
proof (induction rs arbitrary: st n)
  case (Cons r rs)
  have "st\<lparr>machines := bt_remove (m_name r) (machines st)\<rparr> = forget (m_name r) st" by (simp add: forget_def)
  with Cons.IH show ?case
    by (simp only: rollback_each.simps) (rule tracks_remove_then; simp)
qed (simp add: tracks_ret)

lemma tracks_rollback: "tracks a st w (rollback_created a st created) (\<lambda>_ _ _. True)"
  unfolding rollback_created_def
proof (rule tracks_bnd [OF tracks_rollback_each])
  fix y :: "app_state \<times> nat" and st' w' assume "\<forall>z. Ok y = Ok z \<longrightarrow> fst z = st'"
  then obtain n where y: "y = (st', n)" by (cases y) simp
  show "tracks a st' w' (case y of (st', failures) \<Rightarrow> thn (store_save (ap_state a) (ap_data a) st')
      (io_ensure (failures = 0) ''could not remove machines; their state records were preserved'' (ret ())))
      (\<lambda>_ _ _. True)"
    unfolding y prod.case thn_def io_ensure_def
    by (rule tracks_bnd [OF tracks_save]) (auto intro: tracks_ret tracks_fail)
qed simp

lemma tracks_rolled_back:
  assumes "\<And>e st' w'. Q (Inl e) st' w'"
  shows "tracks a st w (fail_rolled_back a st created e) Q"
  unfolding fail_rolled_back_def
  by (rule tracks_after [OF tracks_rollback]) (simp_all add: tracks_fail assms)

lemma tracks_init:
  assumes "validate_name nm = Ok ()"
  shows "tracks a st st (init_locked a nm environment st)
    (\<lambda>res st' w'. res = Ok () \<longrightarrow> w' = st' \<and> (\<exists>r. m_name r = nm \<and> st' = remember r st))" (is "tracks a st st _ ?Q")
proof (cases "bt_get (machines st) nm")
  case None
  have eq: "init_locked a nm environment st = bnd (attempt (make_machine a nm environment None None st)) (case_sum fail
      (\<lambda>r. bnd (attempt (store_save (ap_state a) (ap_data a) (remember r st)))
        (\<lambda>saved. case saved of Inl e \<Rightarrow> fail_rolled_back a (remember r st) [r] e | Inr x \<Rightarrow> ret ())))"
    unfolding make_then [symmetric] using None by (simp add: init_locked_def io_ensure_def)
  show ?thesis
    unfolding eq
  proof (rule tracks_made [OF None assms])
    fix r :: machine_record assume nm: "m_name r = nm"
    show "tracks a (remember r st) st (case_sum fail (\<lambda>r. bnd (attempt (store_save (ap_state a) (ap_data a) (remember r st)))
        (\<lambda>saved. case saved of Inl e \<Rightarrow> fail_rolled_back a (remember r st) [r] e | Inr x \<Rightarrow> ret ())) (Ok r)) ?Q"
      unfolding sum.case
    proof (rule tracks_after [OF tracks_save])
      fix x :: "unit result" and st' w'
      assume "st' = remember r st \<and> w' = (if is_ok x then remember r st else st)"
      with nm show "tracks a st' w' (case x of Inl e \<Rightarrow> fail_rolled_back a (remember r st) [r] e | Inr x \<Rightarrow> ret ()) ?Q"
        by (cases x) (auto intro!: tracks_rolled_back tracks_ret)
    qed
  qed (simp add: tracks_fail)
qed (simp add: init_locked_def io_ensure_def tracks_fail)

lemma tracks_unsaved:
  assumes "\<And>e st' w'. Q (Inl e) st' w'"
  shows "tracks a st w (clone_unsaved a st created r e) Q"
proof -
  have "tracks a st' w' (bnd (attempt (rollback_created a st' created)) (\<lambda>prior. fail (f prior))) Q" for st' w' f
    by (rule tracks_after [OF tracks_rollback]) (simp_all add: tracks_fail assms)
  then show ?thesis
    unfolding clone_unsaved_def by (intro tracks_remove_then) simp_all
qed

definition recorded_names :: "app_state \<Rightarrow> string set" where
  "recorded_names st = set (bt_keys (machines st))"

lemma recorded_names_remember: "recorded_names (remember r st) = insert (m_name r) (recorded_names st)"
  by (auto simp: recorded_names_def remember_def bt_keys_def fst_bt_insert)

lemma tracks_clone_each:
  assumes "distinct nms" and "\<forall>n \<in> set nms. bt_get (machines st) n = None \<and> validate_name n = Ok ()"
  shows "tracks a st st (clone_each a environment repository repository_dir nms st created)
    (\<lambda>res st' w'. res = Ok () \<longrightarrow> w' = st' \<and> recorded_names st' = recorded_names st \<union> set nms)"
  using assms
proof (induction nms arbitrary: st created)
  case (Cons nm nms)
  let ?Q = "\<lambda>res st' w'. res = Ok () \<longrightarrow> w' = st' \<and> recorded_names st' = recorded_names st \<union> set (nm # nms)"
  have rolled: "tracks a st' w' (fail_rolled_back a st' cr e) ?Q" for st' w' cr e
    by (rule tracks_rolled_back) simp
  show ?case
    unfolding clone_each.simps
  proof (rule tracks_make_or)
    fix r :: machine_record assume nm: "m_name r = nm"
    let ?st = "remember r st"
    have "tracks a ?st ?st (clone_each a environment repository repository_dir nms ?st (created @ [r])) ?Q"
      using Cons.prems nm by (intro tracks_weaken [OF Cons.IH]) (auto simp: remember_def recorded_names_remember [unfolded remember_def])
    then have started: "tracks a ?st ?st (bnd (attempt (clone_start a r repository repository_dir)) (\<lambda>started.
        case started of Inl e \<Rightarrow> fail_rolled_back a ?st (created @ [r]) e
        | Inr _ \<Rightarrow> clone_each a environment repository repository_dir nms ?st (created @ [r]))) ?Q"
      using rolled by (intro tracks_after [OF tracks_quiet(1)]) (auto split: sum.splits)
    show "tracks a ?st st (bnd (attempt (store_save (ap_state a) (ap_data a) ?st)) (\<lambda>saved.
        case saved of Inl e \<Rightarrow> clone_unsaved a ?st created r e
        | Inr _ \<Rightarrow> bnd (attempt (clone_start a r repository repository_dir)) (\<lambda>started.
            case started of Inl e \<Rightarrow> fail_rolled_back a ?st (created @ [r]) e
            | Inr _ \<Rightarrow> clone_each a environment repository repository_dir nms ?st (created @ [r])))) ?Q"
    proof (rule tracks_after [OF tracks_save])
      fix x :: "unit result" and st' w'
      assume "st' = ?st \<and> w' = (if is_ok x then ?st else st)"
      with started show "tracks a st' w' (case x of Inl e \<Rightarrow> clone_unsaved a ?st created r e
        | Inr _ \<Rightarrow> bnd (attempt (clone_start a r repository repository_dir)) (\<lambda>started.
            case started of Inl e \<Rightarrow> fail_rolled_back a ?st (created @ [r]) e
            | Inr _ \<Rightarrow> clone_each a environment repository repository_dir nms ?st (created @ [r]))) ?Q"
        by (cases x) (auto intro!: tracks_unsaved)
    qed
  next
    show "bt_get (machines st) nm = None" "validate_name nm = Ok ()" using Cons.prems(2) by auto
  qed (use rolled in auto)
qed (simp add: tracks_ret)

lemma tracks_clone:
  assumes "\<forall>r. requested = Some r \<longrightarrow> validate_name r = Ok ()"
  shows "tracks a st st (clone_locked a environment repository requested count st)
    (\<lambda>res st' w'. res = Ok () \<longrightarrow> w' = st' \<and> (\<exists>nms.
        allocate_clone_names requested repository count (bt_keys (machines st)) = Ok nms
        \<and> recorded_names st' = recorded_names st \<union> set nms))" (is "tracks a st st _ ?Q")
  unfolding clone_locked_def
proof (rule tracks_bnd [where P = "\<lambda>x st' w'. x = allocate_clone_names requested repository count (bt_keys (machines st))
    \<and> st' = st \<and> w' = st"])
  let ?names = "allocate_clone_names requested repository count (bt_keys (machines st))"
  show "tracks a st st (lift_r ?names) (\<lambda>x st' w'. x = ?names \<and> st' = st \<and> w' = st)" by (rule tracks_lift) simp
  fix nms st' w' assume n: "Ok nms = ?names \<and> st' = st \<and> w' = st"
  from allocate_clone_names_sound [OF conjunct1 [OF n, symmetric] assms]
  have "tracks a st st (clone_each a environment repository d nms st []) ?Q" for d
    using n by (intro tracks_weaken [OF tracks_clone_each]) (auto simp: bt_keys_def map_of_eq_None_iff intro: sym)
  then show "tracks a st' w' (bnd (lift_r (repository_directory repository))
      (\<lambda>d. clone_each a environment repository d nms st [])) ?Q"
    using n by (intro tracks_bnd [OF tracks_lift, of "\<lambda>_ st' w'. st' = st \<and> w' = st"]) auto
qed auto

lemma tracks_removing:
  assumes "m_name r = nm"
  shows "tracks a st st (remove_locked a nm force st r)
    (\<lambda>res st' w'. (st' = st \<or> st' = forget nm st) \<and> w' = (if is_ok res then forget nm st else st)
       \<and> (is_ok res \<longrightarrow> st' = w'))"
    (is "tracks a st st _ ?Q")
proof -
  have last: "tracks a st st (thn (remove_storage a r) (store_save (ap_state a) (ap_data a) (forget nm st))) ?Q"
    unfolding thn_def
    using assms by (intro tracks_bnd [OF tracks_remove]) (auto intro!: tracks_weaken [OF tracks_save])
  have whenever: "tracks a st st (if b then m else ret ()) (same st st)" if "tracks a st st m (same st st)" for b and m :: "unit io"
    using that by (simp add: tracks_ret)
  show ?thesis
    unfolding remove_locked_def thn_def [of "if _ then _ else _"]
    by (rule tracks_quietly [OF tracks_quiet(3)], simp, rule tracks_quietly [OF whenever [OF tracks_quiet(4)]], simp,
        rule tracks_quietly [OF tracks_quiet(3)], simp, rule tracks_quietly [OF whenever [OF tracks_quiet(2)]], simp,
        rule last)
qed

text \<open>C3: The machine commands follow the life cycle, on every error path, in every roll-back and whatever
  fails or interferes: a run of \<open>init\<close>, \<open>clone\<close> or \<open>remove\<close> is a sequence of steps in which a machine
  enters the state in memory only after this run made its record and its storage, under a free and valid
  name, leaves it only after this run removed its storage, and what is written is the state in memory. So
  no record is lost while its storage is there: a machine whose removal fails keeps its record, in a
  roll-back too. Both the last state and the one saved last are states of the life cycle; a
  command that succeeds has saved its last state, with exactly the new machines, or without exactly the
  removed one, and a removal that fails has saved nothing.\<close>

theorem commands_save_reachable:
  assumes "validate_name nm = Ok ()" and "\<forall>n. requested = Some n \<longrightarrow> validate_name n = Ok ()" and "m_name r = nm"
  shows "(init_locked a nm environment st s = (res, t) \<longrightarrow> (\<exists>st' w.
          lives a (st, st, s) (st', w, t) \<and> reachable st st' \<and> reachable st w
          \<and> (res = Ok () \<longrightarrow> w = st' \<and> (\<exists>q. m_name q = nm \<and> st' = remember q st))))
    \<and> (clone_locked a environment repository requested count st s = (res, t) \<longrightarrow> (\<exists>st' w.
          lives a (st, st, s) (st', w, t) \<and> reachable st st' \<and> reachable st w
          \<and> (res = Ok () \<longrightarrow> w = st' \<and> (\<exists>nms.
                allocate_clone_names requested repository count (bt_keys (machines st)) = Ok nms
                \<and> recorded_names st' = recorded_names st \<union> set nms))))
    \<and> (remove_locked a nm force st r s = (res, t) \<longrightarrow> (\<exists>st' w.
          lives a (st, st, s) (st', w, t) \<and> reachable st st' \<and> reachable st w
          \<and> (st' = st \<or> st' = forget nm st) \<and> w = (if is_ok res then forget nm st else st)
          \<and> (is_ok res \<longrightarrow> st' = w)))"
proof (intro conjI impI)
  assume "init_locked a nm environment st s = (res, t)"
  from tracksD [OF tracks_init [OF assms(1)] this] lives_reachable
  show "\<exists>st' w. lives a (st, st, s) (st', w, t) \<and> reachable st st' \<and> reachable st w
      \<and> (res = Ok () \<longrightarrow> w = st' \<and> (\<exists>q. m_name q = nm \<and> st' = remember q st))" by metis
next
  assume "clone_locked a environment repository requested count st s = (res, t)"
  from tracksD [OF tracks_clone [OF assms(2)] this] lives_reachable
  show "\<exists>st' w. lives a (st, st, s) (st', w, t) \<and> reachable st st' \<and> reachable st w
      \<and> (res = Ok () \<longrightarrow> w = st' \<and> (\<exists>nms.
            allocate_clone_names requested repository count (bt_keys (machines st)) = Ok nms
            \<and> recorded_names st' = recorded_names st \<union> set nms))" by metis
next
  assume "remove_locked a nm force st r s = (res, t)"
  from tracksD [OF tracks_removing [OF assms(3)] this] lives_reachable
  show "\<exists>st' w. lives a (st, st, s) (st', w, t) \<and> reachable st st' \<and> reachable st w
      \<and> (st' = st \<or> st' = forget nm st) \<and> w = (if is_ok res then forget nm st else st)
      \<and> (is_ok res \<longrightarrow> st' = w)" by metis
qed

definition demo_application :: "(nat \<times> nat \<times> nat) application" where
  "demo_application =
     \<lparr>ap_data = [''d''], ap_verbose = 0, ap_vmm = VmmFacts.demo_host, ap_oci = demo_oci_host,
      ap_state = codec_of pc_state, ap_codecs = demo_codecs, ap_programs = demo_programs,
      ap_guest = \<lparr>gp_answer = (\<lambda>_ _ _. Inl (Io ECONNREFUSED)), gp_request = (\<lambda>_. []), gp_response = (\<lambda>_. None)\<rparr>,
      ap_kernel = demo_kernel, ap_run = (\<lambda>_ _. ret True), ap_now = (\<lambda>_. 0), ap_terminal = (24, 80)\<rparr>"

text \<open>A machine is recorded, but its storage is nowhere: removing it fails, and its record stays saved.\<close>

lemma demo_remove_fails:
  "remove_locked demo_application ''box'' False st demo_record (demo_os (\<lambda>_. None))
     = (Inl (Io ENOENT), demo_os (\<lambda>_. None))"
proof -
  have "mp_vmm_pid_file (for_record [''d''] demo_record) \<noteq> []" "mp_network_pid_file (for_record [''d''] demo_record) \<noteq> []"
    "mp_root (for_record [''d''] demo_record) \<noteq> []"
    by (simp_all add: for_record_def Let_def machine_dir_def)
  then show ?thesis
    by (simp add: remove_locked_def app_machine_status_def machine_status_of_def vmm_status_of_def inspect_pid_file_def
        read_pid_file_def status_is_running_def remove_storage_def remove_machine_def vm_stop_def machine_stop_def
        vmm_stop_def assert_owned_def assert_private_directory_def io_run demo_application_def demo_os_def)
      (simp add: demo_record_def)
qed

theorem commands_save_reachable_witness:
  "remove_locked demo_application ''box'' False (remember demo_record default_state) demo_record (demo_os (\<lambda>_. None))
     = (Inl (Io ENOENT), demo_os (\<lambda>_. None))
   \<and> (\<exists>st'. lives demo_application (remember demo_record default_state, remember demo_record default_state, demo_os (\<lambda>_. None))
        (st', remember demo_record default_state, demo_os (\<lambda>_. None)))"
proof -
  have "validate_name ''box'' = Ok ()" by code_simp
  moreover have "m_name demo_record = ''box''" by (simp add: demo_record_def)
  moreover note demo_remove_fails
  ultimately show ?thesis
    using commands_save_reachable [of "''box''" None demo_record demo_application "[]" "remember demo_record default_state"
        "demo_os (\<lambda>_. None)" "Inl (Io ENOENT)" "demo_os (\<lambda>_. None)" "[]" 0 False]
    by auto
qed

text \<open>Two computations that agree on everything the first part can give.\<close>

lemma bnd_cong_result: "(\<And>x s t. m s = (Ok x, t) \<Longrightarrow> f x = g x) \<Longrightarrow> bnd m f = bnd m g"
  by (auto simp: bnd_def fun_eq_iff split: prod.splits sum.splits)

section \<open>Removing\<close>

abbreviation workspace_query :: "machine_record \<Rightarrow> request" where
  "workspace_query r \<equiv>
     WorkspaceStatus (''/workspace/'' @ (case m_repository_dir r of Some d \<Rightarrow> d | None \<Rightarrow> []))"

lemma clean_answer_Ok: "clean_answer resp = Ok u \<longleftrightarrow> (\<exists>porcelain. resp = WorkspaceStatusReply True porcelain)"
  by (auto simp: clean_answer_def split: response.splits)

lemma ensure_clean_asked:
  assumes "ensure_clean a r was_running s = (Ok u, t)"
  shows "\<exists>s' t' porcelain. guest_request a r (workspace_query r) s' = (Ok (WorkspaceStatusReply True porcelain), t')"
  using assms unfolding ensure_clean_def by (auto simp: thn_Ok bnd_Ok lift_r_Ok attempt_Ok clean_answer_Ok)

lemma thn_stops: "(\<And>s x t. m s \<noteq> (Ok x, t)) \<Longrightarrow> thn m k = thn m k'"
  unfolding thn_def by (rule bnd_cong_result) blast

text \<open>C4: Without \<open>--force\<close>, no work is lost: unless the guest answers in this very command that the workspace of
  the machine has no uncommitted changes, \<open>rm\<close> ends with its question. Whatever came after it, the
  command would be the same: neither the disks nor the record are ever touched. A guest that cannot be
  asked, that fails to answer or that answers anything else counts as not clean.\<close>

theorem remove_respects_workspace:
  assumes "m_repository r \<noteq> None"
    and "\<forall>s t porcelain. guest_request a r (workspace_query r) s \<noteq> (Ok (WorkspaceStatusReply True porcelain), t)"
  shows "remove_locked a nm False st r
    = bnd (app_machine_status a r) (\<lambda>before. thn (ensure_clean a r (before = Running)) rest)"
proof -
  have stops: "thn (ensure_clean a r b) k = thn (ensure_clean a r b) rest" for b k
    using assms(2) ensure_clean_asked by (intro thn_stops) blast
  then show ?thesis
    using assms(1) unfolding remove_locked_def by (auto intro!: bnd_cong_result stops)
qed

theorem remove_respects_workspace_witness:
  "remove_locked demo_application ''box'' False default_state (demo_record\<lparr>m_repository := Some ''https://host/r''\<rparr>)
     = bnd (app_machine_status demo_application (demo_record\<lparr>m_repository := Some ''https://host/r''\<rparr>))
         (\<lambda>before. thn (ensure_clean demo_application (demo_record\<lparr>m_repository := Some ''https://host/r''\<rparr>)
           (before = Running)) (fail Hangs))"
  by (rule remove_respects_workspace)
    (auto simp: guest_request_def request_timeout_def exchange_def demo_application_def syscall_def Let_def
      split: prod.splits option.splits if_splits sum.splits)

end
