(* ===== verification/OciPublishFacts.thy ===== *)
theory OciPublishFacts
  imports OciCache
begin

text \<open>
  Publishing a machine's environment cannot expose its workspace or session: no program that is run is
  ever given a path in them.
\<close>

text \<open>The arguments a program gets: those of \<open>unshare\<close> and the program it starts are not among them.\<close>

definition passed :: "shell_command \<Rightarrow> string list" where
  "passed c = (if take 6 (sc_args c) = MAPPED then drop 7 (sc_args c) else sc_args c)"

definition private_text :: "machine_paths \<Rightarrow> string \<Rightarrow> bool" where
  "private_text mp x =
     (starts_with (display (mp_workspace_dir mp)) x \<or> starts_with (display (mp_session_dir mp)) x)"

text \<open>The same host, on which a program that is given a private path does not run at all.\<close>

definition forbidding :: "'v oci_host \<Rightarrow> machine_paths \<Rightarrow> 'v oci_host" where
  "forbidding h mp = h\<lparr>oh_output := (\<lambda>c.
     if list_ex (private_text mp) (passed c) then fail (Panic ''given a private path'') else oh_output h c)\<rparr>"

lemma forbidding_output:
  "\<not> list_ex (private_text mp) (passed c) \<Longrightarrow> oh_output (forbidding h mp) c = oh_output h c"
  by (simp add: forbidding_def)

lemma forbidding_fields [simp]:
  "oh_metadata (forbidding h mp) = oh_metadata h" "oh_installer (forbidding h mp) = oh_installer h"
  by (simp_all add: forbidding_def)

lemma length_MAPPED: "length MAPPED = 6"
  by (simp add: MAPPED_def)

lemma passed_mapped: "passed (mapped_command u p args) = args"
  by (simp add: passed_def mapped_command_def shell_def MAPPED_def)

lemma hd_display: "display p \<noteq> [] \<and> hd (display p) = CHR ''/''"
  by (cases p) (simp_all add: display_def)

lemma relative_not_private: "x = [] \<or> hd x \<noteq> CHR ''/'' \<Longrightarrow> \<not> private_text mp x"
  using hd_display [of "mp_workspace_dir mp"] hd_display [of "mp_session_dir mp"]
  by (auto simp: private_text_def prefix_def)

lemma environment_not_private:
  "\<not> private_text (for_record data r) (display (mp_environment_disk (for_record data r)))"
  by (simp add: private_text_def for_record_def Let_def display_def machine_dir_def)

lemma publish_temporary_not_private:
  "\<not> private_text (for_record data r) (display (oci_dir data @ p))"
  by (simp add: private_text_def for_record_def Let_def display_def machine_dir_def machines_dir_def oci_dir_def)

section \<open>The programs that are run\<close>

lemma run_e2fsck_forbidding:
  "run_e2fsck (forbidding h (for_record data r)) p (mp_environment_disk (for_record data r))
     = run_e2fsck h p (mp_environment_disk (for_record data r))"
  using environment_not_private [of data r]
  by (simp add: run_e2fsck_def forbidding_output passed_def shell_def MAPPED_def relative_not_private)

lemma remove_tree_forbidding:
  "remove_tree_mapped (forbidding h (for_record data r)) t (oci_dir data @ p)
     = remove_tree_mapped h t (oci_dir data @ p)"
proof -
  have "\<not> list_ex (private_text (for_record data r))
      (passed (mapped_command u rm [''-rf'', ''--'', display (oci_dir data @ p)]))" for u rm
    using publish_temporary_not_private [of data r p] by (simp add: passed_mapped relative_not_private)
  then show ?thesis by (simp only: remove_tree_mapped_def forbidding_output not_False_eq_True)
qed

lemma target_not_private:
  assumes "normalize_destination_reference reference = Ok target"
  shows "\<not> private_text (for_record data r) target"
proof -
  have "plain_reference target"
    using assms normalize_reference_result(1) by (simp add: normalize_destination_reference_def)
  then show ?thesis
    by (intro relative_not_private) (auto simp: plain_reference_def prefix_def)
qed

lemma publish_layer_forbidding:
  assumes "list_all (\<lambda>p. \<not> private_text (for_record data r) (display p))
      [ot_umoci (pt_common t), pt_fuse2fs t, pt_fusermount t]"
    and "\<not> private_text (for_record data r) target"
  shows "publish_layer (forbidding h (for_record data r)) t cache (oci_dir data @ p)
      (mp_environment_disk (for_record data r)) target
    = publish_layer h t cache (oci_dir data @ p) (mp_environment_disk (for_record data r)) target"
proof -
  let ?mp = "for_record data r" and ?tmp = "oci_dir data @ p"
  have below: "\<not> private_text ?mp (display (?tmp @ q))" for q
    using publish_temporary_not_private [of data r "p @ q"] by simp
  have "\<not> list_ex (private_text ?mp) (passed (repack_command t ?tmp (mp_environment_disk ?mp)))"
    using assms(1) below environment_not_private [of data r]
    by (simp add: repack_command_def passed_def shell_def MAPPED_def)
  moreover have "\<not> list_ex (private_text ?mp) (passed (push_command t ?tmp target))"
    using assms(2) by (simp add: push_command_def skopeo_command_def passed_def MAPPED_def relative_not_private)
  ultimately show ?thesis
    by (simp add: publish_layer_def run_checked_def run_output_def forbidding_output)
qed

lemma bnd_lift_cong: "(\<And>x. r = Ok x \<Longrightarrow> f x = g x) \<Longrightarrow> bnd (lift_r r) f = bnd (lift_r r) g"
  by (cases r) (simp_all add: bnd_def lift_r_def fun_eq_iff)

text \<open>C12: Publishing the environment of a machine gives no program a path in the machine's workspace or
  session: on a host where every such program refuses to run, it does and returns exactly the same,
  whatever it publishes to, and in every state and under every failure.\<close>

theorem publish_excludes_workspace:
  assumes "list_all (\<lambda>p. \<not> private_text (for_record data r) (display p))
      [ot_umoci (pt_common t), pt_fuse2fs t, pt_fusermount t]"
  shows "publish_with (forbidding h (for_record data r)) cs t data r reference = publish_with h cs t data r reference"
proof -
  have layer: "and_then_clean
      (publish_layer (forbidding h (for_record data r)) t cache (oci_dir data @ [n])
        (mp_environment_disk (for_record data r)) target)
      (remove_tree_mapped (forbidding h (for_record data r)) (pt_common t) (oci_dir data @ [n]))
    = and_then_clean (publish_layer h t cache (oci_dir data @ [n]) (mp_environment_disk (for_record data r)) target)
      (remove_tree_mapped h (pt_common t) (oci_dir data @ [n]))"
    if "normalize_destination_reference reference = Ok target" for target cache n
    by (simp only: publish_layer_forbidding [OF assms target_not_private [OF that]] remove_tree_forbidding)
  show ?thesis
    unfolding publish_with_def Let_def
    by (simp only: run_e2fsck_forbidding forbidding_fields layer cong: bnd_lift_cong)
qed

theorem publish_excludes_workspace_witness:
  "publish_with (forbidding demo_oci_host (for_record [''d''] demo_record)) demo_codecs
     \<lparr>pt_common = demo_tools, pt_e2fsck = [''e2fsck''], pt_fuse2fs = [''fuse2fs''], pt_fusermount = [''fusermount'']\<rparr>
     [''d''] demo_record ''ghcr.io/acme/dev:v1''
   = publish_with demo_oci_host demo_codecs
     \<lparr>pt_common = demo_tools, pt_e2fsck = [''e2fsck''], pt_fuse2fs = [''fuse2fs''], pt_fusermount = [''fusermount'']\<rparr>
     [''d''] demo_record ''ghcr.io/acme/dev:v1''"
  by (rule publish_excludes_workspace)
    (simp add: private_text_def for_record_def Let_def display_def machine_dir_def machines_dir_def demo_tools_def)

end
