(* ===== verification/VmmStart.thy ===== *)
theory VmmStart
  imports VmmFacts VmmCommandFacts FileFrames
begin

text \<open>
  Starting a machine: which programs are started, in which order, with which arguments and on which
  files, however the start ends. Every program a run starts is recorded in \<open>spawned\<close> with the files as they
  were at that moment.
\<close>

section \<open>What a computation has started\<close>

type_synonym start = "path \<times> string list \<times> files"

definition starts :: "start list \<Rightarrow> os \<Rightarrow> os \<Rightarrow> bool" where
  "starts as s t = (\<exists>l. spawned t = spawned s @ l \<and> map snd l = as)"

lemma starts_none: "unstarted s t \<Longrightarrow> starts [] s t"
  by (simp add: starts_def unstarted_def)

lemma starts_trans: "starts as s t \<Longrightarrow> starts bs t u \<Longrightarrow> starts (as @ bs) s u"
  by (fastforce simp: starts_def)

lemma starts_then_none: "starts as s t \<Longrightarrow> unstarted t u \<Longrightarrow> starts as s u"
  using starts_trans [OF _ starts_none] by fastforce

lemma none_then_starts: "unstarted s t \<Longrightarrow> starts as t u \<Longrightarrow> starts as s u"
  using starts_trans [OF starts_none] by fastforce

text \<open>A program started from a path, on files that hold at least what there was.\<close>

definition grown :: "files \<Rightarrow> files \<Rightarrow> bool" where
  "grown fs fs' = (\<forall>p n. fs_get fs p = Some n \<longrightarrow> fs_get fs' p = Some n)"

lemma grown_refl: "grown fs fs"
  and grown_trans: "grown fs fs' \<Longrightarrow> grown fs' fs'' \<Longrightarrow> grown fs fs''"
  by (simp_all add: grown_def)

lemma grown_keeps: "(\<And>p n. preserves (keeps p n) m) \<Longrightarrow> m s = (r, t) \<Longrightarrow> grown (files s) (files t)"
  using keepsD unfolding grown_def by blast

lemma walk_grown: "walk fs b d cs = Inr q \<Longrightarrow> grown fs fs' \<Longrightarrow> walk fs' b d cs = Inr q"
proof (induction fs b d cs rule: walk.induct)
  case (5 fs b d n r)
  from "5.prems" obtain nd where nd: "fs_get fs (d @ [n]) = Some nd" by (auto split: option.splits)
  with "5.prems" have "fs_get fs' (d @ [n]) = Some nd" by (simp add: grown_def)
  with "5.IH" "5.prems" nd show ?case by (cases nd) (auto split: nat.splits)
qed auto

lemma resolve_grown: "resolve fs p = Inr q \<Longrightarrow> grown fs fs' \<Longrightarrow> resolve fs' p = Inr q"
  unfolding resolve_def by (rule walk_grown)

definition begun :: "path \<Rightarrow> string list \<Rightarrow> files \<Rightarrow> start \<Rightarrow> bool" where
  "begun prog args fs st = (case st of (q, as, fs') \<Rightarrow> resolve fs' prog = Inr q \<and> as = args \<and> grown fs fs')"

lemma sys_spawn_starts:
  assumes "sys_spawn prog args socks s = (r, t)"
  shows "(\<exists>e. r = Inl e) \<and> unstarted s t
    \<or> (\<exists>ch. r = Ok ch) \<and> (\<exists>st. begun prog args (files s) st \<and> starts [st] s t)"
proof -
  have "unstarted s (before_call s)" by (rule unstarted_before)
  moreover have "grown (files s) (files (before_call s))"
    using existing_before by (simp add: grown_def)
  ultimately show ?thesis
    using assms by (auto simp: sys_spawn_def Let_def start_process_def starts_def unstarted_def begun_def
        split: option.splits sum.splits if_splits)
qed

lemma unstarted_log: "preserves unstarted (open_private_log p)"
  unfolding open_private_log_def
  by (intro unstarted.combinators unstarted_writes unstarted_reads)

lemma keeps_first: "preserves (keeps p n) (ensure_absent q)" "preserves (keeps p n) (open_private_log q)"
proof -
  have "preserves (keeps p n) (sys_open_create q m b)" for m b
    unfolding sys_open_create_def
    by (rule keeps.syscall)
      (auto simp: keeps_def entry_at_def put_entry_def fs_get_def split: option.splits node.splits sum.splits if_splits)
  then show "preserves (keeps p n) (ensure_absent q)" "preserves (keeps p n) (open_private_log q)"
    unfolding ensure_absent_def open_private_log_def sys_fstat_def by (intro keeps.combinators keeps_calls)+
qed

lemma spawn_managed_starts:
  assumes "spawn_managed c prog args socks pid_file log_file s = (r, t)"
  shows "starts [] s t \<and> \<not> is_ok r \<or> (\<exists>st. begun prog args (files s) st \<and> starts [st] s t)"
proof -
  let ?after = "\<lambda>ch. bnd (on_error (capture_identity (fst ch)) (sys_kill_wait ch)) (\<lambda>i.
      thn (on_error (write_pid_file c pid_file i) (sys_kill_wait ch))
        (ret \<lparr>sp_child = ch, sp_identity = i\<rparr>))"
  let ?first = "thn (ensure_absent pid_file) (open_private_log log_file)"
  have after: "preserves unstarted (?after ch)" for ch
    by (intro unstarted.combinators unstarted_identities unstarted_pid_files unstarted_processes)
  have first: "preserves unstarted ?first"
    by (intro unstarted.combinators unstarted_pid_files unstarted_log)
  have kept: "preserves (keeps p n) ?first" for p n
    by (intro keeps.combinators keeps_first)
  have "spawn_managed c prog args socks pid_file log_file s = bnd ?first (\<lambda>_. bnd (sys_spawn prog args socks) ?after) s"
    by (simp add: spawn_managed_def bnd_def thn_def split: prod.split sum.split)
  with assms have "bnd ?first (\<lambda>_. bnd (sys_spawn prog args socks) ?after) s = (r, t)" by simp
  then show ?thesis
  proof (cases rule: bnd_cases)
    case (err e)
    have "unstarted s t" using first err(1) by (rule preservesD)
    with err(2) starts_none show ?thesis by (auto simp: is_ok_def)
  next
    case (ok x u)
    have su: "unstarted s u" using first ok(1) by (rule preservesD)
    have grown: "grown (files s) (files u)" by (rule grown_keeps [OF kept ok(1)])
    from ok(2) show ?thesis
    proof (cases rule: bnd_cases)
      case (err e)
      with sys_spawn_starts [OF err(1)] su starts_none unstarted.trans show ?thesis by (auto simp: is_ok_def)
    next
      case (ok ch w)
      have wt: "unstarted w t" using after ok(2) by (rule preservesD)
      from sys_spawn_starts [OF ok(1)] obtain st where "begun prog args (files u) st" "starts [st] u w" by auto
      moreover have "begun prog args (files s) st"
        using calculation(1) grown_trans [OF grown] by (auto simp: begun_def)
      ultimately show ?thesis
        using starts_then_none [OF none_then_starts [OF su] wt] by blast
    qed
  qed
qed

section \<open>Everything else starts nothing\<close>

lemma unstarted_command: "preserves unstarted (command_with_agent v mp r verbose agent)"
  unfolding command_with_agent_def validate_ext4_image_def Let_def
  by (intro unstarted.combinators unstarted_reads unstarted_storage)

lemma unstarted_network_command: "preserves unstarted (network_command v mp verbose)"
  unfolding network_command_def host_ipv4_resolver_def
  by (intro unstarted.combinators unstarted_reads)

lemma unstarted_expose: "preserves unstarted (expose_ssh_agent creds p)"
proof -
  have "preserves unstarted (case e_node md of Link _ \<Rightarrow> sys_unlink q | _ \<Rightarrow> fail e)" for md q e
    by (cases "e_node md") (simp_all add: unstarted.combinators unstarted_writes)
  then show ?thesis
    unfolding expose_ssh_agent_def Let_def
    by (intro unstarted.combinators unstarted_reads unstarted_writes)
qed

lemma unstarted_wait: "preserves unstarted (socket_ready p ch)" "preserves unstarted (wait_for_socket p ch d)"
proof -
  show "preserves unstarted (socket_ready p ch)"
    unfolding socket_ready_def by (intro unstarted.combinators unstarted_reads unstarted_processes)
  then show "preserves unstarted (wait_for_socket p ch d)"
    unfolding wait_for_socket_def
    by (intro unstarted.combinators unstarted.poll unstarted_reads)
qed

lemma unstarted_cleanup: "preserves unstarted (cleanup_failed_start cs mp r started network)"
proof -
  have wait: "preserves unstarted (wait_for_child ch d)" for ch d
    unfolding wait_for_child_def child_ended_def
    by (intro unstarted.combinators unstarted.poll unstarted_reads unstarted_processes)
  have "preserves unstarted (clean_spawned c p x)" for c p x
    unfolding clean_spawned_def terminate_spawned_def
    by (intro unstarted.combinators unstarted_processes unstarted_identities unstarted_pid_files wait)
  then show ?thesis
    unfolding cleanup_failed_start_def by (intro unstarted.combinators unstarted_storage)
qed

lemma or_clean_up_cases:
  assumes "or_clean_up m c s = (r, t)"
  obtains (ok) x where "m s = (Ok x, t)" "r = Ok x" | (failed) e u e' where "m s = (Inl e, u)" "r = Inl e'"
    "t = snd (c u)"
proof (cases "m s")
  case (Pair x u)
  show thesis
  proof (cases x)
    case (Inl e)
    obtain y w where "c u = (y, w)" by fastforce
    with Pair Inl assms show thesis
      by (intro failed [of e u "with_cleanup e y"]) (auto simp: or_clean_up_def bnd_def attempt_def fail_def)
  next
    case (Inr y)
    with Pair assms show thesis by (intro ok) (auto simp: or_clean_up_def bnd_def attempt_def ret_def)
  qed
qed

text \<open>The socket a program listens on exists.\<close>

definition socket_at :: "path \<Rightarrow> os \<Rightarrow> bool" where
  "socket_at p s = (p \<noteq> [] \<and> fs_get (files s) p = Some Sock)"

lemma wait_for_socket_seen:
  assumes "wait_for_socket p ch d s = (Ok x, t)"
  shows "socket_at p t"
proof -
  from assms have "poll_until (socket_ready p ch) d s = (Ok (Some (Some ())), t)"
    by (auto simp: wait_for_socket_def io_Ok)
  from unstarted.poll_until_last [OF unstarted_wait(1) unstarted_reads(10,11) this]
  obtain u where "socket_ready p ch u = (Ok (Some ()), t)" by blast
  then obtain md w where "sys_lstat p w = (Ok md, t)" "e_node md = Sock"
    by (auto simp: socket_ready_def io_Ok)
  then show ?thesis
    by (auto simp: sys_lstat_def syscall_Ok entry_at_def root_entry_def socket_at_def fs_get_def
        split: option.splits if_splits)
qed

lemma unstarted_or_clean:
  "preserves unstarted m \<Longrightarrow> preserves unstarted c \<Longrightarrow> preserves unstarted (or_clean_up m c)"
  unfolding or_clean_up_def by (intro unstarted.combinators)

section \<open>Launching\<close>

text \<open>
  The start of passt: its program, the command line of this machine with the resolver that the
  \<open>/etc/resolv.conf\<close> of that moment names first. The start of Cloud Hypervisor: its program, the
  arguments of this machine, and passt's socket exists.
\<close>

definition passt_start :: "vmm \<Rightarrow> machine_paths \<Rightarrow> 8 word \<Rightarrow> start \<Rightarrow> bool" where
  "passt_start v mp verbose st = (case st of (q, args, fs) \<Rightarrow>
     resolve fs (vm_passt v) = Inr q
     \<and> (\<exists>conf content dns. resolve fs [''etc'', ''resolv.conf''] = Inr conf
          \<and> fs_get fs conf = Some (File content) \<and> first_resolver (str_lines content) = Some dns
          \<and> args = [''--vhost-user'', ''--socket'', display (mp_network_socket mp), ''--foreground'', ''--one-off'',
               ''--no-map-gw'', ''--dns'', ''169.254.0.53'', ''--dns-forward'', ''169.254.0.53'',
               ''--dns-host'', show_ipv4 dns, ''--tcp-ports'', ''none'', ''--udp-ports'', ''none'',
               if verbose = 0 then ''--quiet'' else ''--debug'']))"

definition vmm_start_of :: "vmm \<Rightarrow> machine_paths \<Rightarrow> machine_record \<Rightarrow> string option \<Rightarrow> 8 word \<Rightarrow> start \<Rightarrow> bool" where
  "vmm_start_of v mp m agent verbose st = (case st of (q, args, fs) \<Rightarrow>
     resolve fs (vm_cloud_hypervisor v) = Inr q
     \<and> vmm_arguments v mp m verbose agent (m_mac_address m) = Ok args
     \<and> fs_get fs (mp_network_socket mp) = Some Sock)"

definition launched ::
    "vmm \<Rightarrow> machine_paths \<Rightarrow> machine_record \<Rightarrow> string option \<Rightarrow> 8 word \<Rightarrow> start list \<Rightarrow> bool" where
  "launched v mp m agent verbose as =
     (as = [] \<or> (\<exists>p. passt_start v mp verbose p
        \<and> (as = [p] \<or> (\<exists>c. as = [p, c] \<and> vmm_start_of v mp m agent verbose c))))"

lemma launched_simps:
  "launched v mp m agent verbose []"
  "passt_start v mp verbose p \<Longrightarrow> launched v mp m agent verbose [p]"
  "passt_start v mp verbose p \<Longrightarrow> vmm_start_of v mp m agent verbose c \<Longrightarrow> launched v mp m agent verbose [p, c]"
  unfolding launched_def by blast+

lemma network_command_seen:
  assumes "network_command v mp verbose s = (Ok (passt, net), t)"
    and "begun passt net (files t) st"
  shows "passt_start v mp verbose st"
proof -
  obtain q as fs where st: "st = (q, as, fs)" by (cases st)
  from assms(1) obtain content dns where
      read: "sys_read_to_string [''etc'', ''resolv.conf''] s = (Ok content, t)"
      and dns: "first_resolver (str_lines content) = Some dns"
      and net: "passt = vm_passt v" "net = [''--vhost-user'', ''--socket'', display (mp_network_socket mp), ''--foreground'', ''--one-off'',
          ''--no-map-gw'', ''--dns'', ''169.254.0.53'', ''--dns-forward'', ''169.254.0.53'',
          ''--dns-host'', show_ipv4 dns, ''--tcp-ports'', ''none'', ''--udp-ports'', ''none'',
          if verbose = 0 then ''--quiet'' else ''--debug'']"
    by (auto simp: network_command_def host_ipv4_resolver_def parse_ipv4_resolver_def io_Ok lift_r_Ok)
  from read obtain conf u where "sys_open [''etc'', ''resolv.conf''] s = (Ok conf, u)" and r: "sys_read conf u = (Ok content, t)"
    by (auto simp: sys_read_to_string_def io_Ok split: if_splits)
  then have "resolve (files u) [''etc'', ''resolv.conf''] = Inr conf"
    by (auto simp: sys_open_def syscall_Ok split: sum.splits option.splits)
  moreover have "grown (files u) (files t)" by (rule grown_keeps [OF keeps_reads(5) r])
  ultimately have "resolve (files t) [''etc'', ''resolv.conf''] = Inr conf" by (rule resolve_grown)
  moreover have "fs_get (files t) conf = Some (File content)"
    using r by (auto simp: sys_read_def syscall_Ok entry_at_def root_entry_def fs_get_def split: option.splits node.splits if_splits)
  moreover have "grown (files t) fs" "resolve fs passt = Inr q" "as = net"
    using assms(2) by (simp_all add: begun_def st)
  ultimately show ?thesis
    unfolding passt_start_def st prod.case
    using dns net resolve_grown [of "files t" "[''etc'', ''resolv.conf'']" conf fs]
    by (intro conjI exI [of _ conf] exI [of _ content] exI [of _ dns]) (simp_all add: grown_def)
qed

lemma keeps_expose:
  assumes "agent_link vsock \<noteq> p"
  shows "preserves (keeps p n) (expose_ssh_agent creds vsock)"
proof -
  have "preserves (keeps p n) (case e_node md of Link _ \<Rightarrow> sys_unlink (agent_link vsock) | _ \<Rightarrow> fail e)" for md e
    by (cases "e_node md") (simp_all add: keeps.combinators keeps_changes(1) [OF assms])
  then show ?thesis
    unfolding expose_ssh_agent_def Let_def by (intro keeps.combinators keeps_calls)
qed

lemma agent_link_beside: "mp = for_record data m \<Longrightarrow> agent_link (mp_vsock_socket mp) \<noteq> mp_network_socket mp"
  by (simp add: agent_link_def with_file_name_def file_name_def for_record_def Let_def)

text \<open>Launching in two halves: Cloud Hypervisor, once passt's socket is there, and passt before it.\<close>

lemma launch_second:
  assumes run: "bnd (or_clean_up (expose_ssh_agent creds (mp_vsock_socket mp)) (cleanup_failed_start cs mp m None network)) (\<lambda>_.
     bnd (or_clean_up (spawn_managed (mc_identity cs) (vm_cloud_hypervisor v) vm {mp_api_socket mp, mp_vsock_socket mp}
              (mp_vmm_pid_file mp) (mp_vmm_log mp)) (cleanup_failed_start cs mp m None network)) (\<lambda>started.
      or_clean_up (wait_for_socket (mp_api_socket mp) (sp_child started) START_TIMEOUT)
        (cleanup_failed_start cs mp m (Some started) network))) s = (r, t)"
    and args: "vmm_arguments v mp m verbose agent (m_mac_address m) = Ok vm" and mp: "mp = for_record data m"
    and seen: "fs_get (files s) (mp_network_socket mp) = Some Sock"
  shows "starts [] s t \<and> r \<noteq> Ok () \<or> (\<exists>c. starts [c] s t \<and> vmm_start_of v mp m agent verbose c
    \<and> (r = Ok () \<longrightarrow> socket_at (mp_api_socket mp) t))"
proof -
  note clean = unstarted_or_clean [OF _ unstarted_cleanup, of _ cs mp m _ network]
  have vmm: "vmm_start_of v mp m agent verbose c"
    if "fs_get (files u) (mp_network_socket mp) = Some Sock" "begun (vm_cloud_hypervisor v) vm (files u) c" for u c
    using that args by (auto simp: vmm_start_of_def begun_def grown_def)
  from run show ?thesis
  proof (cases rule: bnd_cases)
    case (err e)
    have "unstarted s t" using clean [OF unstarted_expose] err(1) by (rule preservesD)
    with err(2) starts_none show ?thesis by blast
  next
    case (ok z u)
    have su: "unstarted s u" using clean [OF unstarted_expose] ok(1) by (rule preservesD)
    from ok(1) have seen_u: "fs_get (files u) (mp_network_socket mp) = Some Sock"
      using keepsD [OF keeps_expose [OF agent_link_beside [OF mp]] _ seen]
      by (cases rule: or_clean_up_cases) auto
    from ok(2) show ?thesis
    proof (cases rule: bnd_cases)
      case (err e)
      from err(1) show ?thesis
      proof (cases rule: or_clean_up_cases)
        case (failed e1 w e2)
        have "unstarted w t" using unstarted_cleanup failed(3) by (auto simp: preserves_def)
        with spawn_managed_starts [OF failed(1)] starts_then_none none_then_starts [OF su] vmm [OF seen_u] err(2)
        show ?thesis by blast
      qed simp
    next
      case (ok started w)
      from ok(1) obtain c where "starts [c] u w" "begun (vm_cloud_hypervisor v) vm (files u) c"
      proof (cases rule: or_clean_up_cases)
        case (ok x)
        with spawn_managed_starts [OF ok(1)] that show thesis by (auto simp: is_ok_def)
      qed simp
      moreover have "unstarted w t"
        using unstarted_or_clean [OF unstarted_wait(2) unstarted_cleanup] ok(2) by (rule preservesD)
      moreover have "socket_at (mp_api_socket mp) t" if "r = Ok ()"
        using ok(2) that by (cases rule: or_clean_up_cases) (auto dest: wait_for_socket_seen)
      ultimately show ?thesis
        using starts_then_none none_then_starts [OF su] vmm [OF seen_u] by blast
    qed
  qed
qed

lemma launch_network:
  assumes run: "bnd (spawn_managed (mc_identity cs) passt net {mp_network_socket mp} (mp_network_pid_file mp) (mp_vmm_log mp)) (\<lambda>network.
     bnd (or_clean_up (wait_for_socket (mp_network_socket mp) (sp_child network) START_TIMEOUT)
            (cleanup_failed_start cs mp m None network)) (\<lambda>_.
     bnd (or_clean_up (expose_ssh_agent creds (mp_vsock_socket mp))
            (cleanup_failed_start cs mp m None network)) (\<lambda>_.
     bnd (or_clean_up (spawn_managed (mc_identity cs) (vm_cloud_hypervisor v) vm {mp_api_socket mp, mp_vsock_socket mp}
              (mp_vmm_pid_file mp) (mp_vmm_log mp)) (cleanup_failed_start cs mp m None network)) (\<lambda>started.
      or_clean_up (wait_for_socket (mp_api_socket mp) (sp_child started) START_TIMEOUT)
        (cleanup_failed_start cs mp m (Some started) network))))) u = (r, t)"
    and su: "unstarted s u" and net: "\<And>p. begun passt net (files u) p \<Longrightarrow> passt_start v mp verbose p"
    and args: "vmm_arguments v mp m verbose agent (m_mac_address m) = Ok vm" and mp: "mp = for_record data m"
  shows "\<exists>as. starts as s t \<and> launched v mp m agent verbose as
    \<and> (r = Ok () \<longrightarrow> length as = 2 \<and> socket_at (mp_api_socket mp) t)"
  using run
proof (cases rule: bnd_cases)
  case (err e)
  from spawn_managed_starts [OF err(1)] show ?thesis
  proof (elim disjE conjE exE)
    assume "starts [] u t"
    with none_then_starts [OF su] err(2) show ?thesis by (intro exI [of _ "[]"]) (simp add: launched_def)
  next
    fix p assume "begun passt net (files u) p" "starts [p] u t"
    with none_then_starts [OF su] net err(2) show ?thesis by (intro exI [of _ "[p]"]) (simp add: launched_simps)
  qed
next
  case (ok network w)
  from spawn_managed_starts [OF ok(1)] obtain p where "begun passt net (files u) p" "starts [p] u w"
    by (auto simp: is_ok_def)
  then have p: "passt_start v mp verbose p" and w: "starts [p] s w" using net none_then_starts [OF su] by blast+
  have one: ?thesis if "starts [p] s t" "r = Inl e" for e
    using that p by (intro exI [of _ "[p]"]) (simp add: launched_simps)
  from ok(2) show ?thesis
  proof (cases rule: bnd_cases)
    case (err e)
    have "unstarted w t"
      using unstarted_or_clean [OF unstarted_wait(2) unstarted_cleanup] err(1) by (rule preservesD)
    with w err(2) one starts_then_none show ?thesis by blast
  next
    case (ok z x)
    have "unstarted w x"
      using unstarted_or_clean [OF unstarted_wait(2) unstarted_cleanup] ok(1) by (rule preservesD)
    with w have x: "starts [p] s x" by (rule starts_then_none)
    have "fs_get (files x) (mp_network_socket mp) = Some Sock"
      using ok(1) by (cases rule: or_clean_up_cases) (auto dest: wait_for_socket_seen simp: socket_at_def)
    from launch_second [OF ok(2) args mp this] show ?thesis
    proof (elim disjE conjE exE)
      assume "starts [] x t" "r \<noteq> Ok ()"
      with one starts_trans [OF x] show ?thesis by (cases r) auto
    next
      fix c assume "starts [c] x t" "vmm_start_of v mp m agent verbose c" "r = Ok () \<longrightarrow> socket_at (mp_api_socket mp) t"
      with p starts_trans [OF x, of "[c]" t] show ?thesis
        by (intro exI [of _ "[p, c]"]) (simp add: launched_simps)
    qed
  qed
qed

lemma launch_cases:
  assumes "launch cs v mp m creds verbose s = (r, t)" and mp: "mp = for_record data m"
  shows "\<exists>as. starts as s t \<and> launched v mp m (hc_ssh_auth_sock creds) verbose as
    \<and> (r = Ok () \<longrightarrow> length as = 2 \<and> socket_at (mp_api_socket mp) t)"
proof -
  let ?c = "mc_identity cs" and ?agent = "hc_ssh_auth_sock creds"
  have none: ?thesis if "starts [] s t" "r = Inl e" for e
    using that by (intro exI [of _ "[]"]) (simp add: launched_def)
  from assms(1) have "bnd (command_with_agent v mp m verbose ?agent) (\<lambda>(ch, ch_args).
     bnd (network_command v mp verbose) (\<lambda>(passt, passt_args).
     bnd (spawn_managed ?c passt passt_args {mp_network_socket mp} (mp_network_pid_file mp) (mp_vmm_log mp)) (\<lambda>network.
     bnd (or_clean_up (wait_for_socket (mp_network_socket mp) (sp_child network) START_TIMEOUT)
            (cleanup_failed_start cs mp m None network)) (\<lambda>_.
     bnd (or_clean_up (expose_ssh_agent creds (mp_vsock_socket mp))
            (cleanup_failed_start cs mp m None network)) (\<lambda>_.
     bnd (or_clean_up (spawn_managed ?c ch ch_args {mp_api_socket mp, mp_vsock_socket mp}
              (mp_vmm_pid_file mp) (mp_vmm_log mp)) (cleanup_failed_start cs mp m None network)) (\<lambda>started.
      or_clean_up (wait_for_socket (mp_api_socket mp) (sp_child started) START_TIMEOUT)
        (cleanup_failed_start cs mp m (Some started) network))))))) s = (r, t)"
    by (simp add: launch_def thn_def)
  then show ?thesis
  proof (cases rule: bnd_cases)
    case (err e)
    have "unstarted s t" using unstarted_command err(1) by (rule preservesD)
    with err(2) none starts_none show ?thesis by blast
  next
    case (ok x s1)
    obtain ch vm where x: "x = (ch, vm)" by fastforce
    have ch: "ch = vm_cloud_hypervisor v" using ok(1) x by (auto elim: command_Ok)
    have args: "vmm_arguments v mp m verbose ?agent (m_mac_address m) = Ok vm"
      using ok(1) x by (auto elim!: command_Ok simp: validate_mac_address_def)
    have s1: "unstarted s s1" using unstarted_command ok(1) by (rule preservesD)
    from ok(2) [unfolded x ch prod.case] show ?thesis
    proof (cases rule: bnd_cases)
      case (err e)
      have "unstarted s1 t" using unstarted_network_command err(1) by (rule preservesD)
      with s1 err(2) none starts_none unstarted.trans show ?thesis by blast
    next
      case (ok y s2)
      obtain passt net where y: "y = (passt, net)" by fastforce
      note netcmd = ok(1) [unfolded y]
      have "unstarted s1 s2" using unstarted_network_command ok(1) by (rule preservesD)
      with s1 have s2: "unstarted s s2" by (rule unstarted.trans)
      from ok(2) [unfolded y prod.case] show ?thesis
        by (rule launch_network [OF _ s2 network_command_seen [OF netcmd] args mp])
    qed
  qed
qed

lemma unstarted_clear_stale: "preserves unstarted (clear_stale c mp st)"
proof -
  have "preserves unstarted (remove_stale_pid_file c p)" for p
    unfolding remove_stale_pid_file_def
    by (intro unstarted.bnd unstarted_pid_files)
      (auto intro!: unstarted.combinators unstarted_pid_files split: managed_process_status.splits)
  then show ?thesis
    unfolding clear_stale_def
    by (cases st) (auto intro!: unstarted.combinators unstarted_stops)
qed

text \<open>Two helpers that are found running are the recorded ones.\<close>

definition runs :: "process_identity codec \<Rightarrow> path \<Rightarrow> os \<Rightarrow> bool" where
  "runs c p s = (\<exists>i. recorded c p s = Some i \<and> (older i s \<longrightarrow> (\<exists>q. names i s q \<and> \<not> ended q)))"

lemma inspect_runs:
  assumes "inspect_pid_file c p s = (Ok st, t)" and "status_is_running st" and "p \<notin> listening s"
  shows "runs c p s"
proof -
  from assms(2) obtain i where st: "st = RunningProcess i"
    by (auto simp: status_is_running_def split: managed_process_status.splits)
  with assms(1) obtain u where read: "read_pid_file c p s = (Ok (Some i), u)"
      and match: "matches_running_process i u = (Ok True, t)"
    by (auto simp: inspect_pid_file_def io_Ok split: option.splits if_splits)
  from matches_true(1) [OF match] obtain w q where w: "evolves u w" "names i w q" "\<not> ended q" by blast
  have "evolves s w" using preservesD [OF calm_read_pid read] w(1) evolves_trans by (auto simp: calm_def)
  then have "\<exists>q. names i s q \<and> \<not> ended q" if "older i s"
    using names_back [OF _ that w(2)] w(3) by (auto simp: same_process_def)
  with inspect_pid_file_Ok(3) [OF assms(1,3)] st show ?thesis by (auto simp: runs_def)
qed

lemma runs_before:
  assumes "outside {} s t" and "evolves s t" and "p \<notin> listening s" and "runs c p t"
  shows "runs c p s"
proof -
  have "recorded c p s = recorded c p t" using assms(1,3) by (simp add: recorded_def outside_def)
  with assms(4) obtain i where i: "recorded c p s = Some i" "older i t \<longrightarrow> (\<exists>q. names i t q \<and> \<not> ended q)"
    by (auto simp: runs_def)
  have "\<exists>q. names i s q \<and> \<not> ended q" if "older i s"
    using i(2) older_mono [OF that assms(2)] names_back [OF assms(2) that] by (fastforce simp: same_process_def)
  with i(1) show ?thesis by (auto simp: runs_def)
qed


text \<open>A machine whose two helpers run, as its identity files record.\<close>

definition demo_vmm_identity :: process_identity where
  "demo_vmm_identity = demo_identity\<lparr>pi_pid := 8\<rparr>"

definition demo_pair :: os where
  "demo_pair =
     (let mp = for_record [''d''] demo_record; cs = demo_codecs;
          reg = (\<lambda>c. private_dir\<lparr>e_node := File c, e_mode := 384\<rparr>);
          marker = (\<lambda>d. reg (enc (mc_domain cs) (domain_marker_of demo_record d)))
      in (demo_os (map_of
        [(mp_root mp, private_dir), (mp_session_dir mp, private_dir), (mp_environment_dir mp, private_dir),
         (mp_workspace_dir mp, private_dir),
         (mp_owner_marker mp, reg (enc (mc_owner cs) \<lparr>marker_owner = SPAWNR_OWNER,
            marker_machine_id = m_id demo_record, marker_machine_name = m_name demo_record\<rparr>)),
         (mp_environment_dir mp @ [DOMAIN_FILE], marker EnvironmentDomain),
         (mp_workspace_dir mp @ [DOMAIN_FILE], marker WorkspaceDomain),
         (mp_session_dir mp @ [DOMAIN_FILE], marker SessionDomain),
         (mp_vmm_pid_file mp, reg (enc (mc_identity cs) demo_vmm_identity)),
         (mp_network_pid_file mp, reg (enc (mc_identity cs) demo_identity))]))
       \<lparr>procs := [7 \<mapsto> demo_process, 8 \<mapsto> demo_process\<lparr>p_stamp := 2\<rparr>], next_stamp := 4, clock := 10000\<rparr>)"

lemma demo_pair_quiet: "sched demo_pair = []" "listening demo_pair = {}" "euid demo_pair = 1000"
    "procs demo_pair 7 = Some demo_process" "procs demo_pair 8 = Some (demo_process\<lparr>p_stamp := 2\<rparr>)"
    "boot_id demo_pair = [CHR ''b'', CHR 0x0A]" "spawned demo_pair = []" "clock demo_pair = 10000"
  by (simp_all add: demo_pair_def demo_os_def Let_def)

lemma demo_pair_files:
  fixes mp cs reg
  defines "mp \<equiv> for_record [''d''] demo_record" and "cs \<equiv> demo_codecs"
    and "reg \<equiv> \<lambda>c. private_dir\<lparr>e_node := File c, e_mode := 384\<rparr>"
  shows "files demo_pair (mp_root mp) = Some private_dir" "files demo_pair (mp_session_dir mp) = Some private_dir"
    "files demo_pair (mp_environment_dir mp) = Some private_dir"
    "files demo_pair (mp_workspace_dir mp) = Some private_dir"
    "files demo_pair (mp_owner_marker mp) = Some (reg (enc (mc_owner cs) \<lparr>marker_owner = SPAWNR_OWNER,
            marker_machine_id = m_id demo_record, marker_machine_name = m_name demo_record\<rparr>))"
    "files demo_pair (mp_environment_dir mp @ [DOMAIN_FILE])
       = Some (reg (enc (mc_domain cs) (domain_marker_of demo_record EnvironmentDomain)))"
    "files demo_pair (mp_workspace_dir mp @ [DOMAIN_FILE])
       = Some (reg (enc (mc_domain cs) (domain_marker_of demo_record WorkspaceDomain)))"
    "files demo_pair (mp_session_dir mp @ [DOMAIN_FILE])
       = Some (reg (enc (mc_domain cs) (domain_marker_of demo_record SessionDomain)))"
    "files demo_pair (mp_vmm_pid_file mp) = Some (reg (enc (mc_identity cs) demo_vmm_identity))"
    "files demo_pair (mp_network_pid_file mp) = Some (reg (enc (mc_identity cs) demo_identity))"
    "files demo_pair (mp_api_socket mp) = None"
  unfolding assms by (simp_all add: demo_pair_def demo_tree_layout)

lemma demo_pair_paths:
  "mp_root (for_record [''d''] demo_record) \<noteq> []" "mp_owner_marker (for_record [''d''] demo_record) \<noteq> []"
  "mp_session_dir (for_record [''d''] demo_record) \<noteq> []" "mp_environment_dir (for_record [''d''] demo_record) \<noteq> []"
  "mp_workspace_dir (for_record [''d''] demo_record) \<noteq> []" "mp_vmm_pid_file (for_record [''d''] demo_record) \<noteq> []"
  "mp_network_pid_file (for_record [''d''] demo_record) \<noteq> []"
  by (simp_all add: for_record_def Let_def machine_dir_def)

lemma demo_pair_layout:
  "assert_domain_layout demo_codecs (for_record [''d''] demo_record) demo_record demo_pair = (Ok (), demo_pair)"
proof -
  have owned: "assert_owned demo_codecs (for_record [''d''] demo_record) demo_record demo_pair = (Ok (), demo_pair)"
    using demo_codecs_ok(1) demo_pair_files demo_pair_paths
    by (simp add: assert_owned_def assert_private_directory_def read_json_regular_def
        open_existing_regular_def io_run demo_pair_quiet codec_ok_def private_dir_def)
  have priv: "assert_private_directory p demo_pair = (Ok (), demo_pair)"
    if "files demo_pair p = Some private_dir" "p \<noteq> []" for p
    using that by (simp add: assert_private_directory_def io_run demo_pair_quiet private_dir_def)
  have read: "read_json_regular (mc_domain demo_codecs) (p @ [DOMAIN_FILE]) demo_pair = (Ok m, demo_pair)"
    if "files demo_pair (p @ [DOMAIN_FILE]) = Some (private_dir\<lparr>e_node := File (enc (mc_domain demo_codecs) m), e_mode := 384\<rparr>)"
    for p m
    using that demo_codecs_ok(2)
    by (simp add: read_json_regular_def open_existing_regular_def io_run demo_pair_quiet private_dir_def codec_ok_def)
  show ?thesis
    using priv [OF demo_pair_files(2)] priv [OF demo_pair_files(3)] priv [OF demo_pair_files(4)]
      read [OF demo_pair_files(6)] read [OF demo_pair_files(7)] read [OF demo_pair_files(8)] demo_pair_paths
    by (simp add: assert_domain_layout_def owned io_run)
qed

lemma demo_pair_inspect:
  "inspect_pid_file (mc_identity demo_codecs) (mp_vmm_pid_file (for_record [''d''] demo_record)) demo_pair
     = (Ok (RunningProcess demo_vmm_identity), demo_pair)"
  "inspect_pid_file (mc_identity demo_codecs) (mp_network_pid_file (for_record [''d''] demo_record)) demo_pair
     = (Ok (RunningProcess demo_identity), demo_pair)"
proof -
  have short: "length (enc (mc_identity demo_codecs) demo_identity) \<le> MAX_PID_FILE_BYTES"
    "length (enc (mc_identity demo_codecs) demo_vmm_identity) \<le> MAX_PID_FILE_BYTES"
    by code_simp+
  have pid: "pi_pid demo_identity = 7" "pi_pid demo_vmm_identity = 8"
    by (simp_all add: demo_identity_def demo_vmm_identity_def)
  have read: "read_pid_file (mc_identity demo_codecs) p demo_pair = (Ok (Some i), demo_pair)"
    if "files demo_pair p = Some (private_dir\<lparr>e_node := File (enc (mc_identity demo_codecs) i), e_mode := 384\<rparr>)"
      "p \<noteq> []" "length (enc (mc_identity demo_codecs) i) \<le> MAX_PID_FILE_BYTES" "0 < pi_pid i" for p i
    using that demo_codecs_ok(3)
    by (simp add: read_pid_file_def io_run demo_pair_quiet private_dir_def codec_ok_def)
  have "is_ascii (p_comm (demo_process\<lparr>p_stamp := 2\<rparr>))" by (simp add: demo_process_def is_ascii_def)
  from stat_ascii [OF this, of 8] demo_stat(1) [of 7]
  have match: "matches_running_process demo_identity demo_pair = (Ok True, demo_pair)"
    "matches_running_process demo_vmm_identity demo_pair = (Ok True, demo_pair)"
    by (simp_all add: matches_running_process_def matches_stat_def matches_executable_def read_boot_id_def
      sys_proc_stat_def sys_proc_exe_def sys_boot_id_def demo_pair_quiet demo_identity_def demo_vmm_identity_def
      io_run parse_stat_text trim_demo_boot) (simp_all add: demo_process_def)
  show "inspect_pid_file (mc_identity demo_codecs) (mp_vmm_pid_file (for_record [''d''] demo_record)) demo_pair
     = (Ok (RunningProcess demo_vmm_identity), demo_pair)"
    "inspect_pid_file (mc_identity demo_codecs) (mp_network_pid_file (for_record [''d''] demo_record)) demo_pair
     = (Ok (RunningProcess demo_identity), demo_pair)"
    using read [OF demo_pair_files(9)] read [OF demo_pair_files(10)] demo_pair_paths short pid match
    by (simp_all add: inspect_pid_file_def io_run)
qed

definition demo_creds :: host_credentials where
  "demo_creds = \<lparr>hc_session = \<lparr>git_user_name = None, git_user_email = None, git_signing_key = None,
     gh_token = None, ssh_known_hosts = None, ssh_agent = False, image_env = []\<rparr>, hc_ssh_auth_sock = None\<rparr>"


section \<open>Waiting ends\<close>

lemma poll_error:
  "poll w n step d s = (Inl e, t) \<Longrightarrow> \<exists>u v. step u = (Inl e, v)"
proof (induction n arbitrary: s)
  case (Suc n)
  from Suc.prems have run: "bnd step (\<lambda>r. case r of Some x \<Rightarrow> ret (Some (Some x))
     | None \<Rightarrow> bnd sys_now (\<lambda>now. if now \<ge> d then ret (Some None) else thn (sys_sleep w) (poll w n step d))) s
     = (Inl e, t)" by simp
  then show ?case
  proof (cases rule: bnd_cases)
    case (err e')
    then show ?thesis by auto
  next
    case (ok r u)
    then obtain v where "poll w n step d v = (Inl e, t)"
      by (cases r) (auto simp: ret_def bnd_def thn_def sys_now_def sys_sleep_def Let_def split: if_splits)
    with Suc.IH show ?thesis by blast
  qed
qed (simp add: ret_def)

lemma socket_ready_error: "socket_ready p ch s \<noteq> (Inl Hangs, t)"
proof
  assume "socket_ready p ch s = (Inl Hangs, t)"
  then show False
    by (auto simp: socket_ready_def bnd_def attempt_def ret_def fail_def sys_try_wait_def sys_lstat_def
        syscall_def split: prod.splits sum.splits option.splits if_splits)
qed

lemma evolves_try_wait: "preserves evolves (sys_try_wait ch)"
proof -
  have "evolves s (s\<lparr>procs := (procs s)(pid := None)\<rparr>)" for s pid
    by (rule evolves_same_sched) (auto simp: evolves_if_def same_process_refl numbered_def)
  then show ?thesis
    unfolding sys_try_wait_def
    by (intro evolves.syscall) (auto simp: evolves_refl split: option.split)
qed

text \<open>C31: Every wait of a start or a stop ends, whatever the helpers and the clock do: the loops over a
  recorded process, over a started child and over a socket never use up the turns the model gives them,
  so each answers, and waiting for a socket fails only with an error of its own.\<close>

theorem waits_end:
  "fst (wait_for_exit i d s) \<noteq> Ok None \<and> fst (wait_for_child ch d s) \<noteq> Ok None
   \<and> fst (wait_for_socket p ch d s) \<noteq> Inl Hangs"
proof -
  have child: "preserves evolves (child_ended ch)"
    unfolding child_ended_def by (intro evolves.combinators evolves_try_wait)
  have "preserves evolves (sys_lstat p)"
    using calm_reads(1) by (auto simp: preserves_def calm_def)
  then have ready: "preserves evolves (socket_ready p ch)"
    unfolding socket_ready_def by (intro evolves.combinators evolves_try_wait)
  have "fst (wait_for_exit i d s) \<noteq> Ok None"
    using wait_for_exit_returns [of i d s] by (metis prod.collapse)
  moreover have "fst (wait_for_child ch d s) \<noteq> Ok None"
    using poll_until_returns [OF child, of d s]
    by (cases "wait_for_child ch d s") (auto simp: wait_for_child_def bnd_def ret_def split: prod.splits sum.splits)
  moreover have "fst (wait_for_socket p ch d s) \<noteq> Inl Hangs"
  proof
    assume "fst (wait_for_socket p ch d s) = Inl Hangs"
    then obtain t where run: "bnd (poll_until (socket_ready p ch) d) (\<lambda>r. case r of
         Some (Some _) \<Rightarrow> ret () | Some None \<Rightarrow> fail (Bail ''timed out waiting for the socket'')
       | None \<Rightarrow> fail Hangs) s = (Inl Hangs, t)"
      by (metis wait_for_socket_def prod.collapse)
    then show False
    proof (cases rule: bnd_cases)
      case (err e)
      then obtain deadline u where "poll 50 (d div 50 + 2) (socket_ready p ch) deadline u = (Inl Hangs, t)"
        by (auto simp: poll_until_def poll_every_def bnd_def sys_now_def Let_def simp del: poll.simps)
      from poll_error [OF this] socket_ready_error show False by blast
    next
      case (ok r u)
      with poll_until_returns [OF ready, of d s] show False
        by (cases r) (auto simp: fail_def ret_def split: option.splits)
    qed
  qed
  ultimately show ?thesis by blast
qed

end
