(* ===== verification/RuntimeSetup.thy ===== *)
theory RuntimeSetup
  imports RuntimeFacts
begin

text \<open>
  Where the installation of a runtime writes, and what it leaves in \<open>active.json\<close> however it ends.
\<close>

section \<open>Writes inside a set of paths, without starting a server\<close>

definition within :: "path set \<Rightarrow> os \<Rightarrow> os \<Rightarrow> bool" where
  "within S s t = (outside S s t \<and> listening t = listening s)"

interpretation within: frame "within S" for S
  by unfold_locales (auto simp: within_def intro: outside_refl outside_before elim: outside_trans)

lemma within_mono: "within S s t \<Longrightarrow> S \<subseteq> T \<Longrightarrow> within T s t"
  by (auto simp: within_def intro: outside_mono)

lemma preserves_within_mono: "preserves (within S) m \<Longrightarrow> S \<subseteq> T \<Longrightarrow> preserves (within T) m"
  by (auto simp: preserves_def intro: within_mono)

lemma within_reading: "(\<And>S. preserves (outside S) m) \<Longrightarrow> preserves (within T) m"
  using outside_empty_listening by (auto simp: preserves_def within_def)

lemmas within_reads = outside_reads [THEN within_reading] outside_derived_reads [THEN within_reading]
  outside_meta [THEN within_reading] outside_read_dir [THEN within_reading]

lemma listening_writes:
  "listening (snd (sys_create_new p m s)) = listening s" "listening (snd (sys_open_create p m b s)) = listening s"
  "listening (snd (sys_unlink p s)) = listening s" "listening (snd (sys_mkdir p s)) = listening s"
  "listening (snd (sys_write p d s)) = listening s" "listening (snd (sys_rename q p s)) = listening s"
  "listening (snd (sys_remove_dir_all p s)) = listening s" "listening (snd (sys_rename_dir ls q p s)) = listening s"
  "listening (snd (sys_exchange q p s)) = listening s"
  by (simp_all add: sys_create_new_def sys_open_create_def sys_unlink_def sys_mkdir_def sys_write_def
      sys_rename_def sys_remove_dir_all_def sys_rename_dir_def sys_exchange_def syscall_def Let_def
      remove_tree_def move_tree_def swap_trees_def split: option.split node.split sum.split)

lemma within_writes:
  assumes "p \<in> S"
  shows "preserves (within S) (sys_create_new p m)" "preserves (within S) (sys_open_create p m b)"
    "preserves (within S) (sys_unlink p)" "preserves (within S) (sys_mkdir p)"
    "preserves (within S) (sys_write p d)" "q \<in> S \<Longrightarrow> preserves (within S) (sys_rename q p)"
  using outside_writes [OF assms] by (simp_all add: preserves_def within_def listening_writes)

lemma within_remove:
  "(\<And>q. prefix p q \<Longrightarrow> q \<in> S) \<Longrightarrow> preserves (within S) (sys_remove_dir_all p)"
  using outside_remove_dir_all by (simp add: preserves_def within_def listening_writes)

lemma within_tree_calls:
  assumes "\<And>q. prefix a q \<or> prefix b q \<Longrightarrow> q \<in> S"
  shows "preserves (within S) (sys_rename_dir ls a b)" "preserves (within S) (sys_exchange a b)"
  using outside_tree_calls [OF assms] by (simp_all add: preserves_def within_def listening_writes)

lemma within_create_dir_all:
  assumes "\<And>q. prefix q p \<Longrightarrow> q \<in> S"
  shows "preserves (within S) (sys_create_dir_all p)"
proof -
  have "(\<And>q. prefix q (rev r) \<Longrightarrow> q \<in> S) \<Longrightarrow> preserves (within S) (create_dir_all_rev r)" for r
  proof (induction r)
    case Nil
    then show ?case by (simp add: within.ret)
  next
    case (Cons n r)
    have "prefix q (rev r) \<Longrightarrow> q \<in> S" for q
      using Cons.prems [of q] by simp
    note IH = Cons.IH [OF this]
    show ?case
      using Cons.prems [of "rev (n # r)"]
      unfolding create_dir_all_rev.simps mkdir_or_dir_def
      by (intro within.combinators IH within_writes within_reads) simp_all
  qed
  from this [of "rev p"] assms show ?thesis by (simp add: sys_create_dir_all_def)
qed

context frame
begin

lemma lift_bnd: "(\<And>x. r = Ok x \<Longrightarrow> preserves R (f x)) \<Longrightarrow> preserves R (bnd (lift_r r) f)"
  by (cases r) (auto simp: preserves_def bnd_def lift_r_def refl)

end

section \<open>Reading and preparing\<close>

lemma within_files:
  "preserves (within S) (open_regular p)" "preserves (within S) (read_limited p n)"
  "preserves (within S) (sys_fstat p)"
proof -
  show stat: "preserves (within S) (sys_fstat p)" by (intro within_reads)
  show "preserves (within S) (open_regular p)"
    unfolding open_regular_def by (intro within.combinators within_reads stat)
  have "preserves (within S) (case e_node md of File c \<Rightarrow> if n < length c then fail (Io EINVAL) else sys_read p
      | _ \<Rightarrow> fail (Io EINVAL))" for md
    by (cases "e_node md") (simp_all add: within.fail within_reads)
  then show "preserves (within S) (read_limited p n)"
    unfolding read_limited_def by (intro within.combinators within_reads stat)
qed

lemma within_private_dir:
  "(\<And>q. prefix q p \<Longrightarrow> q \<in> S) \<Longrightarrow> preserves (within S) (create_private_dir p)"
  unfolding create_private_dir_def by (intro within.combinators within_create_dir_all within_reads)

lemma within_walk: "preserves (within S) (walk_runtime_files n ls root d found)"
proof (induction n arbitrary: d found)
  case 0
  then show ?case by (simp add: too_long_def within.fail)
next
  case (Suc n)
  then show ?case
    by (auto intro!: within.combinators within.io_fold within_reads simp: Let_def)
qed

lemma within_verify: "preserves (within S) (verify_installation_at i root lock)"
proof -
  have one: "preserves (within S) (verify_runtime_file i p f)" for p f
    unfolding verify_runtime_file_def by (intro within.combinators within_reads within_files)
  have load: "preserves (within S) (load_installation i root)"
    unfolding load_installation_def by (intro within.combinators within_reads within_files)
  show ?thesis
    unfolding verify_installation_at_def
    by (intro within.combinators within_reads within_walk one load)
qed

lemma within_collect: "preserves (within S) (collect_directories n ls d ds)"
proof (induction n arbitrary: d ds)
  case 0
  then show ?case by (simp add: too_long_def within.fail)
next
  case (Suc n)
  then show ?case
    by (auto intro!: within.combinators within.io_fold within_reads)
qed

lemma within_trees:
  "preserves (within S) (normalize_directories ls p)" "preserves (within S) (sync_tree ls p)"
  unfolding normalize_directories_def sync_tree_def
  by (intro within.combinators within_collect within_reads)+

lemma within_remove_any:
  assumes "\<And>q. prefix p q \<Longrightarrow> q \<in> S"
  shows "preserves (within S) (remove_any ls p)"
proof -
  have removable: "preserves (within S) (make_tree_removable n ls d)" for n d
    by (induction n arbitrary: d)
      (auto intro!: within.combinators within_reads simp: too_long_def)
  have "p \<in> S" using assms by simp
  then show ?thesis
    unfolding remove_any_def
    by (intro within.combinators within_reads removable within_remove within_writes) (rule assms)
qed

section \<open>Unpacking\<close>

text \<open>
  The area an archive may write to: what is below the staging directory under plain names, and the
  directories on the way to it.
\<close>

definition unpack_area :: "path \<Rightarrow> path set" where
  "unpack_area staging =
     {q. prefix q staging \<or> (prefix staging q \<and> list_all plain_name (drop (length staging) q))}"

lemma header_plain:
  assumes "member_header actual m = Ok (p, mode, sz)"
  shows "list_all plain_name (split_on is_slash p)"
proof (cases "p = ''manifest.json''")
  case True
  then show ?thesis by (simp add: plain_name_def)
next
  case False
  with assms have "validate_runtime_path p False = Ok ()"
    by (auto simp: member_header_def Let_def split: if_splits)
  then have "\<forall>c \<in> set (split_on is_slash p). c \<noteq> [] \<and> c \<noteq> ''.'' \<and> c \<noteq> ''..''"
    by (simp add: validate_runtime_path_def)
  then show ?thesis
    using split_on_pieces [of _ is_slash p] by (fastforce simp: list_all_iff plain_name_def)
qed

lemma below_area:
  assumes "list_all plain_name (split_on is_slash p)"
  shows "below staging p \<in> unpack_area staging"
    and "prefix q (butlast (below staging p)) \<Longrightarrow> q \<in> unpack_area staging"
proof -
  have all: "q \<in> unpack_area staging" if q: "prefix q (below staging p)" for q
  proof (cases "prefix q staging")
    case True
    then show ?thesis by (simp add: unpack_area_def)
  next
    case False
    with q obtain r where "q = staging @ r" "prefix r (split_on is_slash p)"
      by (auto simp: below_def prefix_append)
    with assms show ?thesis
      by (auto simp: unpack_area_def list_all_iff dest: set_mono_prefix)
  qed
  show "below staging p \<in> unpack_area staging" by (rule all) simp
  show "prefix q (butlast (below staging p)) \<Longrightarrow> q \<in> unpack_area staging"
    by (rule all) (meson prefix_order.trans prefixeq_butlast)
qed

lemma within_transfer: "p \<in> S \<Longrightarrow> preserves (within S) (transfer n p limit w msg d)"
proof (induction n arbitrary: w d)
  case 0
  then show ?case by (simp add: within.combinators)
next
  case (Suc n)
  then show ?case
    by (auto intro!: within.combinators within_writes simp: Let_def)
qed

lemma within_unpack_member:
  "preserves (within (unpack_area staging)) (unpack_member i staging entry acc)"
proof -
  have store: "preserves (within (unpack_area staging)) (store_member i staging m acc (p, mode, sz))"
    if plain: "list_all plain_name (split_on is_slash p)" for m p mode sz
  proof -
    have "parent (below staging p) = Some (butlast (below staging p))"
      by (simp add: parent_def below_def)
    then show ?thesis
      using below_area(1) [OF plain, of staging] below_area(2) [OF plain]
      unfolding store_member_def Let_def
      by (cases acc) (auto intro!: within.combinators within_create_dir_all within_writes within_reads
          within_transfer)
  qed
  show ?thesis
    unfolding unpack_member_def
    using store header_plain by (auto intro!: within.bnd within.lift_r within.lift_bnd)
qed

text \<open>C24: Whatever an archive contains, unpacking it writes nothing outside the staging directory: the
  paths it changes are below it, under plain names only (no empty name, no dot, no double dot), or are
  directories above it that were missing; and it starts nothing that listens.\<close>

theorem archive_contained:
  "within (unpack_area staging) s (snd (extract_archive i archive staging lock s))"
proof -
  have "preserves (within (unpack_area staging)) (extract_archive i archive staging lock)"
    unfolding extract_archive_def Let_def
    by (intro within.combinators within_reads within_files within.io_fold within_unpack_member within_trees)
      (simp split: prod.split add: within.combinators within_reads within_files within_trees)
  then show ?thesis by (simp add: preserves_def)
qed

section \<open>The active runtime\<close>

text \<open>No server listens, and \<open>active.json\<close> is one of \<open>X\<close>.\<close>

definition active_in :: "path \<Rightarrow> node option set \<Rightarrow> os \<Rightarrow> bool" where
  "active_in data X s = (listening s = {} \<and> fs_get (files s) (runtime_active_file data) \<in> X)"

text \<open>What \<open>active.json\<close> says after the runtime of this lock was installed.\<close>

definition activated :: "'v installer \<Rightarrow> runtime_lock \<Rightarrow> node option" where
  "activated i lock = Some (File (enc (in_active i) \<lparr>act_schema_version = ACTIVE_SCHEMA_VERSION,
     act_runtime_version = lk_runtime_version lock,
     act_manifest_sha256 = ar_manifest_sha256 (lk_archive lock)\<rparr> @ newline))"

lemma active_in_mono: "active_in data X s \<Longrightarrow> X \<subseteq> Y \<Longrightarrow> active_in data Y s"
  by (auto simp: active_in_def)

lemma within_active_in:
  assumes "within S s t" and "runtime_active_file data \<notin> S" and "active_in data X s"
  shows "active_in data X t"
  using assms by (auto simp: within_def outside_def active_in_def)

lemma triple_away:
  assumes "preserves (within S) m" and "runtime_active_file data \<notin> S"
    and "\<And>s x t. m s = (Ok x, t) \<Longrightarrow> V x"
  shows "triple (active_in data X) m (\<lambda>x s. active_in data X s \<and> V x) (\<lambda>_. active_in data X)"
  unfolding triple_def
proof (intro allI impI)
  fix s assume s: "active_in data X s"
  obtain r t where run: "m s = (r, t)" by fastforce
  from within_active_in [OF preservesD [OF assms(1) run] assms(2) s] assms(3) run
  show "case m s of (Inl e, t) \<Rightarrow> active_in data X t | (Inr x, t) \<Rightarrow> active_in data X t \<and> V x"
    by (cases r) auto
qed

lemmas triple_far = triple_away [where V = "\<lambda>_. True", simplified]

lemma triple_write_active:
  "triple (active_in data {old}) (write_active i data inst)
     (\<lambda>_. active_in data {Some (File (enc (in_active i) (active_of inst) @ newline))})
     (\<lambda>_. active_in data {old, Some (File (enc (in_active i) (active_of inst) @ newline))})"
  unfolding triple_def
proof (intro allI impI)
  fix s assume s: "active_in data {old} s"
  let ?act = "runtime_active_file data" and ?bytes = "enc (in_active i) (active_of inst)"
  let ?tmp = "runtime_dir data @ [''.active-'' @ uuid_text (uuid_src s (uuid_next s)) @ ''.tmp'']"
  let ?m = "on_error (save_commit ?bytes (runtime_dir data) ?tmp ?act) (sys_unlink ?tmp)"
  let ?s = "s\<lparr>uuid_next := Suc (uuid_next s)\<rparr>"
  have run: "write_active i data inst s = ?m ?s"
    by (simp add: write_active_def bnd_def new_uuid_def Let_def active_commit_def save_commit_def)
  have neq: "?tmp \<noteq> ?act" "?act \<noteq> []" "?tmp \<noteq> []" by (simp_all add: runtime_active_file_def)
  obtain r t where rt: "?m ?s = (r, t)" by fastforce
  have "triple (unstaged ?act ?tmp old) ?m (\<lambda>_. replaced ?act ?tmp (?bytes @ newline))
      (\<lambda>_ u. ?act \<notin> listening u \<and> fs_get (files u) ?act \<in> {old, Some (File (?bytes @ newline))})"
    by (rule triple_on_error [OF triple_save_commit]) (rule triple_stable_unlink [OF neq(1,2)])
  moreover have "unstaged ?act ?tmp old ?s"
    using s neq by (simp add: unstaged_def active_in_def)
  ultimately have res: "case r of Inr x \<Rightarrow> replaced ?act ?tmp (?bytes @ newline) t
      | Inl e \<Rightarrow> fs_get (files t) ?act \<in> {old, Some (File (?bytes @ newline))}"
    using rt unfolding triple_def by (fastforce split: sum.splits)
  have "preserves (within {?act, ?tmp}) ?m"
    unfolding save_commit_def
    by (intro within.combinators within_writes within_reads) simp_all
  then have "within {?act, ?tmp} ?s t" using rt by (rule preservesD)
  with s have "listening t = {}" by (simp add: within_def active_in_def)
  with res show "case write_active i data inst s of
      (Inl e, t) \<Rightarrow> active_in data {old, Some (File (?bytes @ newline))} t
    | (Inr x, t) \<Rightarrow> active_in data {Some (File (?bytes @ newline))} t"
    unfolding run rt by (cases r) (auto simp: active_in_def replaced_def)
qed

lemma active_of_lock:
  "lock_matches inst lock \<Longrightarrow> Some (File (enc (in_active i) (active_of inst) @ newline)) = activated i lock"
  by (simp add: active_of_def activated_def lock_matches_def)

lemma verify_value:
  "verify_installation_at i root (Some l) s = (Ok inst, t) \<Longrightarrow> lock_matches inst l \<and> ir_root inst = root"
  unfolding verify_installation_at_def load_installation_def
  by (auto simp: bnd_Ok thn_Ok io_ensure_Ok ret_Ok lift_r_Ok lock_matches_def validate_against_lock_def)

text \<open>The places a setup writes to are not \<open>active.json\<close>.\<close>

definition staging_of :: "path \<Rightarrow> runtime_lock \<Rightarrow> uuid \<Rightarrow> path" where
  "staging_of data lock u = runtime_dir data @ [''.install-'' @ lk_runtime_version lock @ ''-'' @ uuid_text u]"

lemma active_elsewhere:
  "runtime_active_file data \<notin> unpack_area (staging_of data lock u)"
  "\<not> prefix (staging_of data lock u) (runtime_active_file data)"
  "lk_runtime_version lock \<noteq> ''active.json''
     \<Longrightarrow> \<not> prefix (runtime_version_dir data (lk_runtime_version lock)) (runtime_active_file data)"
  by (auto simp: unpack_area_def staging_of_def runtime_active_file_def runtime_version_dir_def)

lemma triple_install_staging:
  assumes "lock_matches inst lock" and "lk_runtime_version lock \<noteq> ''active.json''"
  shows "triple (active_in data {old})
    (install_staging i data (staging_of data lock u) (runtime_version_dir data (lk_runtime_version lock)) inst)
    (\<lambda>_. active_in data {activated i lock}) (\<lambda>_. active_in data {old, activated i lock})"
proof -
  let ?st = "staging_of data lock u" and ?dest = "runtime_version_dir data (lk_runtime_version lock)"
  let ?S = "{q. prefix ?st q \<or> prefix ?dest q}" and ?E = "\<lambda>_ :: err. active_in data {old, activated i lock}"
  have far: "runtime_active_file data \<notin> ?S" using active_elsewhere assms(2) by simp
  have weak: "triple P m Q ?E" if "triple P m Q (\<lambda>_. active_in data X)" "X \<subseteq> {old, activated i lock}"
    for P X and m :: "'b io" and Q
    by (rule triple_conseq [OF that(1)]) (use active_in_mono that(2) in blast)+
  have look: "triple (active_in data {old}) (attempt (sys_lstat ?dest)) (\<lambda>_. active_in data {old}) ?E"
    by (rule weak [OF triple_far [OF _ far]]) (auto intro!: within.combinators within_reads)
  have move: "triple (active_in data {old})
      (if is_ok r then sys_exchange ?st ?dest else sys_rename_dir (in_ls i) ?st ?dest)
      (\<lambda>_. active_in data {old}) ?E" for r :: "entry result"
    by (rule weak [OF triple_far [OF _ far]]) (auto intro!: within.if_split within_tree_calls)
  have "active_of (inst\<lparr>ir_root := ?dest\<rparr>) = active_of inst" by (simp add: active_of_def)
  then have write_new: "triple (active_in data {old}) (write_active i data (inst\<lparr>ir_root := ?dest\<rparr>))
      (\<lambda>_. active_in data {activated i lock}) ?E"
    using triple_write_active [of data old i "inst\<lparr>ir_root := ?dest\<rparr>"] active_of_lock [OF assms(1), of i] by simp
  have sync: "triple (active_in data {activated i lock}) (sync_directory (runtime_dir data))
      (\<lambda>_. active_in data {activated i lock}) ?E"
    by (rule weak [OF triple_far [OF _ far]]) (auto intro!: within_reads)
  have left: "triple (active_in data {activated i lock}) (sys_exists ?st)
      (\<lambda>_. active_in data {activated i lock}) ?E"
    by (rule weak [OF triple_far [OF _ far]]) (auto intro!: within_reads)
  have clear: "triple (active_in data {activated i lock}) (if b then remove_any (in_ls i) ?st else ret ())
      (\<lambda>_. active_in data {activated i lock}) ?E" for b
    by (rule weak [OF triple_far [OF _ far]]) (auto intro!: within.if_split within_remove_any within.ret)
  show ?thesis
    unfolding install_staging_def
    by (rule triple_bnd [OF look] triple_thn [OF move] triple_thn [OF write_new] triple_thn [OF sync]
        triple_bnd [OF left] clear)+
qed

end
