(* ===== verification/Spec2Isabelle.thy ===== *)
theory Spec2Isabelle
  imports GuestInit CommandLine LifecycleFacts OciPublishFacts VmmStart VmmDoctor RuntimeSetup HostCredsFacts StorageFacts StateStore MachineNames RuntimeContract GuestServe TerminalStream
begin

text \<open>
  Spawnr runs coding agents in micro virtual machines. The \<open>spawnr\<close> command (\<open>crates/spawnr\<close>) keeps a
  state file and one directory tree per machine, starts the helper processes of a machine (the VMM and
  its user-space network), finds and installs the runtime these come from, and talks over a vsock to
  \<open>spawnr-agent\<close> (\<open>crates/spawnr-agent\<close>), which runs as PID 1's service in the guest. The messages between
  the two are \<open>crates/spawnr-protocol\<close>. This development translates the logic of the three crates and
  proves what each part promises to the others.

  \<^bold>\<open>Ground.\<close> \<open>Prelude\<close> has the result type of fallible Rust (\<open>err + 'a\<close>: \<open>Ok\<close> is \<open>Inr\<close>), the ordered
  association list of a \<open>BTreeMap\<close> and the collections of rules the proofs run on. \<open>RustText\<close> and \<open>RustPath\<close>
  are the parts of \<open>std::str\<close> and \<open>std::path\<close> the code uses, on UTF-8 bytes. \<open>Codec\<close> is \<open>serde_json\<close> as a
  parameter. \<open>OsModel\<close> and \<open>OsTree\<close> are the operating system: files, processes, clock and logs, one
  function per call, and before each call a slot of a schedule in which the environment acts and may
  make the call fail. A theorem that does not restrict the schedule therefore holds for every
  interleaving with other processes and for a failure, or a crash, at every call.

  \<^bold>\<open>Protocol.\<close> \<open>Protocol\<close> (\<open>spawnr-protocol/src/lib.rs\<close>): the two framings read back what was written and
  accept exactly the bounded frames.

  \<^bold>\<open>Host.\<close>
  \<^item> \<open>Records\<close>, \<open>StateStore\<close> (\<open>state.rs\<close>, \<open>paths.rs\<close>): saving the state file is atomic under every fault,
    and the next command reads what was saved.
  \<^item> \<open>MachineNames\<close> (\<open>machine.rs\<close>): names, context identifiers and hardware addresses of new machines; the
    allocation ends and gives unused, valid ones.
  \<^item> \<open>Application\<close> (\<open>Application\<close> of \<open>machine.rs\<close>): the commands, which put the other parts together, with every
    roll-back; \<open>CommandLine\<close> (\<open>cli.rs\<close>) dispatches to them and has the table \<open>ls\<close> prints. \<open>LifecycleFacts\<close>
    is the abstract life cycle, two steps on the state file: its reachable states are sound, and the
    commands save no other state. The body of a command under the state lock is \<open>init_locked\<close>,
    \<open>clone_locked\<close> and \<open>remove_locked\<close>; that it saves only reachable states is said by exchanging the
    encoder for one that differs on all others, that a removal stops at a workspace that is not clean
    by exchanging what follows.
  \<^item> \<open>GuestClient\<close> (\<open>guest.rs\<close>): the vsock handshake, requests with a deadline, the wait for a healthy guest
    and interactive sessions; what the peer answers to what was written is a parameter.
  \<^item> \<open>VmmCommand\<close>, \<open>VmmCommandFacts\<close> (\<open>vmm.rs\<close>): the command lines of the VMM and of passt, with no value that
    adds an option; \<open>VmmControl\<close>, \<open>VmmFacts\<close>, \<open>VmmStart\<close>: discovery, start, stop and status; a stop signals
    recorded helpers only, a start runs them in order or cleans up; \<open>VmmDoctor\<close>: the report of \<open>doctor\<close>
    and what it says of a start.
  \<^item> \<open>OciReference\<close>, \<open>OciTools\<close>, \<open>OciImage\<close>, \<open>OciPublish\<close> (\<open>oci.rs\<close>): references and metadata, the programs and
    their output, the cache of prepared environments with the integration into an unpacked image, and
    publishing. \<open>OciFacts\<close>: what is pulled is the digest that was resolved; the checks decide what they
    should. \<open>OciProvision\<close>: no link of an image leads the integration out of its tree. \<open>OciCache\<close>: what is
    handed out is the image asked for. \<open>OciPublishFacts\<close>: no program sees the workspace or the session.
  \<^item> \<open>ProcessId\<close>, \<open>ProcessFacts\<close>, \<open>PidFiles\<close> (\<open>process.rs\<close>): a signal reaches the process an identity file
    records or nobody, though process numbers are reused; the files are committed once and removed only
    for the recorded process.
  \<^item> \<open>Storage\<close>, \<open>StorageFacts\<close>, \<open>ImageCopy\<close> (\<open>storage.rs\<close>): trees are cleared and removed only after their
    marker named the machine; a disk image is copied exactly or not at all.
  \<^item> \<open>HostCreds\<close>, \<open>HostCredsFacts\<close> (\<open>credentials.rs\<close>): what a session is given stays within the guest's bounds.
  \<^item> \<open>RuntimeContract\<close> (\<open>runtime.rs\<close>), \<open>RuntimeInstall\<close>, \<open>RuntimeFacts\<close>, \<open>RuntimeSetup\<close>
    (\<open>runtime_install.rs\<close>): validation decides the declared contract; a component is handed out only
    after its file, the manifest and \<open>active.json\<close> agree; unpacking stays in its staging directory.

  \<^bold>\<open>Guest.\<close>
  \<^item> \<open>GuestSession\<close> (\<open>session.rs\<close>, \<open>agent_proxy.rs\<close>): the values of a session cannot inject lines into the
    Git configuration; the image's environment is kept as it was validated.
  \<^item> \<open>GuestCommand\<close> (\<open>command.rs\<close>): requested paths stay in the workspace, environments are layered as
    documented.
  \<^item> \<open>TerminalStream\<close> (\<open>command.rs\<close>, \<open>guest.rs\<close>): both loops of an interactive session; the host shows what
    the terminal printed.
  \<^item> \<open>GuestMount\<close> (\<open>mount.rs\<close>, \<open>account.rs\<close>) and \<open>GuestServe\<close> (\<open>lib.rs\<close>, \<open>main.rs\<close>, \<open>reaper.rs\<close>): the session
    is on a tmpfs; every request is answered once. \<open>GuestInit\<close>: the start of the guest, its accept loop and
    terminal sessions, the power-off, the \<open>sudo\<close> shim and the reaper, which takes no child that a command
    waits for.

  \<^bold>\<open>Interfaces.\<close> The locale \<open>frame\<close> of \<open>OsModel\<close> is the contract of a set of calls that only change part of
  the system: a reflexive and transitive relation that every event of the environment respects. What a
  component may write is one interpretation of it (\<open>outside\<close>, \<open>still\<close>, \<open>within\<close>, \<open>unstarted\<close>, \<open>idle\<close>,
  \<open>dirs_stay\<close>, \<open>keeps\<close>), and its lemmas carry the relation through the combinators. The Hoare rules \<open>triple\<close> do the same for what a file holds.

  \<^bold>\<open>Bounds and fuel.\<close> A loop that waits is given as many turns as its deadline allows, and \<open>poll_every_returns\<close>
  shows that it always answers. Loops over bytes are given the number of bytes: every turn that does not
  end moves at least one. Recursion into directories has the bound \<open>MAX_DEPTH\<close> with the error the kernel
  has for paths that long. Integers whose width matters (identifiers, lengths of frames, addresses) are
  words; those that are only compared are naturals.

  \<^bold>\<open>Not modelled.\<close> \<open>serde_json\<close>, \<open>semver\<close>, \<open>sha2\<close>, \<open>tar\<close>, \<open>zstd\<close>, the HTTP client, \<open>mkfs.ext4\<close>, \<open>git\<close>,
  \<open>gh\<close>, \<open>blkid\<close>, \<open>skopeo\<close>, \<open>umoci\<close>, \<open>e2fsck\<close>, \<open>du\<close> and the repacking script's own programs are parameters.
  Of the signal masks around commits there is only that they may fail; memory ordering, the vsock
  sockets themselves, the raw mode of the terminal and the threads that forward input and signals are
  left out; connections to the guest are served one after the other. Of \<open>cli.rs\<close> there are the commands,
  not the declarations for \<open>clap\<close>; the host's \<open>main.rs\<close> has no logic of its own.
\<close>

end
